(* ===== verification/Prelude.thy ===== *)
theory Prelude
  imports Main "HOL-Library.AList" "HOL-Library.Sublist"
begin

text \<open>
  Shared vocabulary of the development: the theorem collections the component proofs draw
  from, Go's 64-bit \<open>int\<close> arithmetic with its wrap-around, the pagination defaults that every
  listing service applies, and database tables as association lists from a primary key to a
  row (in insertion order, one row per key).
\<close>

section \<open>Theorem collections\<close>

named_theorems go_defs \<open>small model definitions that proofs unfold\<close>
named_theorems tbl \<open>lookups after table updates\<close>
named_theorems frame \<open>what an effect leaves unchanged\<close>

section \<open>Go's int\<close>

text \<open>
  On the supported platforms Go's \<open>int\<close> has 64 bits and its arithmetic wraps. A model value is
  the integer itself; every addition or subtraction of the code goes through \<open>wrap64\<close>.
\<close>

definition wrap64 :: "int \<Rightarrow> int" where
  "wrap64 x = (x + 2 ^ 63) mod 2 ^ 64 - 2 ^ 63"

definition i64 :: "int \<Rightarrow> bool" where
  "i64 x \<longleftrightarrow> - (2 ^ 63) \<le> x \<and> x < 2 ^ 63"

definition i32 :: "int \<Rightarrow> bool" where
  "i32 x \<longleftrightarrow> - (2 ^ 31) \<le> x \<and> x < 2 ^ 31"

lemma wrap64_id [simp]: "i64 x \<Longrightarrow> wrap64 x = x"
  by (simp add: wrap64_def i64_def)

lemma i64_wrap64 [simp]: "i64 (wrap64 x)"
  unfolding wrap64_def i64_def
  using pos_mod_bound [of "2 ^ 64 :: int" "x + 2 ^ 63"]
    pos_mod_sign [of "2 ^ 64 :: int" "x + 2 ^ 63"]
  by simp

lemma i32_i64: "i32 x \<Longrightarrow> i64 x"
  by (simp add: i32_def i64_def)

lemma i32_add: "i32 x \<Longrightarrow> i32 y \<Longrightarrow> wrap64 (x + y) = x + y"
  by (simp add: i32_def i64_def)

lemma i32_diff: "i32 x \<Longrightarrow> i32 y \<Longrightarrow> wrap64 (x - y) = x - y"
  by (simp add: i32_def i64_def)

lemma i32_minus: "i32 x \<Longrightarrow> wrap64 (- x) = - x"
  by (simp add: i32_def i64_def)

section \<open>Pagination\<close>

text \<open>
  \<open>if limit <= 0 { limit = 20 } else if limit > 100 { limit = 100 }\<close> and
  \<open>if offset < 0 { offset = 0 }\<close>, as the listing services write them.
\<close>

definition page_limit :: "int \<Rightarrow> int" where
  "page_limit n = (if n \<le> 0 then 20 else if n > 100 then 100 else n)"

definition page_offset :: "int \<Rightarrow> int" where
  "page_offset n = (if n < 0 then 0 else n)"

lemma page_limit_bounds: "1 \<le> page_limit n \<and> page_limit n \<le> 100"
  by (simp add: page_limit_def)

lemma page_offset_nonneg: "0 \<le> page_offset n"
  by (simp add: page_offset_def)

text \<open>SQL \<open>LIMIT l OFFSET o\<close> on the rows of a query.\<close>

definition sql_page :: "int \<Rightarrow> int \<Rightarrow> 'a list \<Rightarrow> 'a list" where
  "sql_page l off xs = take (nat l) (drop (nat off) xs)"

lemma set_sql_page: "x \<in> set (sql_page l off xs) \<Longrightarrow> x \<in> set xs"
  unfolding sql_page_def by (meson in_set_dropD in_set_takeD)

lemma length_sql_page: "length (sql_page l off xs) \<le> nat l"
  by (simp add: sql_page_def)

section \<open>Tables\<close>

text \<open>
  \<open>tbl_put\<close> is \<open>INSERT ... ON CONFLICT DO UPDATE\<close>, \<open>tbl_del\<close> a \<open>DELETE\<close> by key, \<open>map_of\<close>
  the lookup by primary key.
\<close>

abbreviation tbl_put :: "'k \<Rightarrow> 'r \<Rightarrow> ('k \<times> 'r) list \<Rightarrow> ('k \<times> 'r) list" where
  "tbl_put \<equiv> AList.update"

abbreviation tbl_del :: "'k \<Rightarrow> ('k \<times> 'r) list \<Rightarrow> ('k \<times> 'r) list" where
  "tbl_del \<equiv> AList.delete"

definition tbl_ok :: "('k \<times> 'r) list \<Rightarrow> bool" where
  "tbl_ok t \<longleftrightarrow> distinct (map fst t)"

lemma map_of_put [tbl]: "map_of (tbl_put k r t) = (map_of t)(k \<mapsto> r)"
  by (rule update_conv')

lemma map_of_del [tbl]: "map_of (tbl_del k t) = (map_of t)(k := None)"
  by (simp add: delete_conv')

lemma tbl_ok_Nil [simp]: "tbl_ok []"
  by (simp add: tbl_ok_def)

lemma tbl_ok_put [tbl]: "tbl_ok t \<Longrightarrow> tbl_ok (tbl_put k r t)"
  by (simp add: tbl_ok_def distinct_update)

lemma tbl_ok_del [tbl]: "tbl_ok t \<Longrightarrow> tbl_ok (tbl_del k t)"
  by (simp add: tbl_ok_def distinct_delete)

lemma tbl_ok_row: "tbl_ok t \<Longrightarrow> (k, r) \<in> set t \<longleftrightarrow> map_of t k = Some r"
  by (simp add: tbl_ok_def map_of_eq_Some_iff)

text \<open>\<open>UPDATE ... WHERE key = k\<close>: the affected row count (0 or 1) and the new table.\<close>

definition tbl_upd :: "'k \<Rightarrow> ('r \<Rightarrow> 'r) \<Rightarrow> ('k \<times> 'r) list \<Rightarrow> nat \<times> ('k \<times> 'r) list" where
  "tbl_upd k f t = (case map_of t k of None \<Rightarrow> (0, t) | Some r \<Rightarrow> (1, tbl_put k (f r) t))"

section \<open>Small list facts\<close>

text \<open>Position of the first element with a property: the \<open>foundIndex\<close> loops of the services.\<close>

fun find_index :: "('a \<Rightarrow> bool) \<Rightarrow> 'a list \<Rightarrow> nat option" where
  "find_index P [] = None"
| "find_index P (x # xs) = (if P x then Some 0 else map_option Suc (find_index P xs))"

lemma find_index_Some:
  "find_index P xs = Some i \<Longrightarrow> i < length xs \<and> P (xs ! i) \<and> (\<forall>j<i. \<not> P (xs ! j))"
proof (induction xs arbitrary: i)
  case Nil
  then show ?case by simp
next
  case (Cons x xs)
  show ?case
  proof (cases "P x")
    case True
    with Cons.prems show ?thesis by simp
  next
    case False
    with Cons.prems obtain k where k: "find_index P xs = Some k" "i = Suc k" by auto
    from Cons.IH [OF k(1)] k(2) False show ?thesis
      by (auto simp: less_Suc_eq_0_disj)
  qed
qed

lemma find_index_None: "find_index P xs = None \<longleftrightarrow> (\<forall>x\<in>set xs. \<not> P x)"
  by (induction xs) auto

lemma sum_list_update_int:
  "i < length (xs :: int list) \<Longrightarrow> sum_list (xs[i := y]) = sum_list xs - xs ! i + y"
proof (induction xs arbitrary: i)
  case Nil
  then show ?case by simp
next
  case (Cons x xs)
  then show ?case by (cases i) auto
qed

section \<open>Tables as lists of rows\<close>

text \<open>
  A table whose primary key is a column \<open>f\<close> of its rows: \<open>row_of f t k\<close> is the row with key \<open>k\<close>.
\<close>

definition row_of :: "('r \<Rightarrow> 'k) \<Rightarrow> 'r list \<Rightarrow> 'k \<Rightarrow> 'r option" where
  "row_of f t k = List.find (\<lambda>r. f r = k) t"

lemma row_of_Nil [simp]: "row_of f [] k = None"
  by (simp add: row_of_def)

lemma row_of_Some: "row_of f t k = Some r \<Longrightarrow> f r = k \<and> r \<in> set t"
  by (auto simp: row_of_def find_Some_iff)

lemma row_of_None: "row_of f t k = None \<longleftrightarrow> k \<notin> f ` set t"
  by (auto simp: row_of_def find_None_iff)

lemma row_of_insert [tbl]:
  "row_of f t (f r) = None \<Longrightarrow> row_of f (t @ [r]) = (row_of f t)(f r \<mapsto> r)"
  unfolding row_of_def by (induction t) (auto simp: fun_eq_iff split: if_splits)

lemma row_of_delete [tbl]: "row_of f (filter (\<lambda>r. f r \<noteq> k) t) = (row_of f t)(k := None)"
  unfolding row_of_def by (induction t) (auto simp: fun_eq_iff)

lemma row_of_update [tbl]:
  assumes "\<And>r. f r = k \<Longrightarrow> f (g r) = k"
  shows "row_of f (map (\<lambda>r. if f r = k then g r else r) t) = (row_of f t)(k := map_option g (row_of f t k))"
  using assms unfolding row_of_def by (induction t) (auto simp: fun_eq_iff)

section \<open>Sums over a table\<close>

definition msum :: "('v \<Rightarrow> int) \<Rightarrow> ('k \<Rightarrow> 'v option) \<Rightarrow> int" where
  "msum f m = (\<Sum>k\<in>dom m. f (the (m k)))"

lemma msum_del:
  "finite (dom m) \<Longrightarrow> msum f (m(k := None)) = msum f m - (case m k of None \<Rightarrow> 0 | Some x \<Rightarrow> f x)"
proof -
  assume fin: "finite (dom m)"
  have "msum f (m(k := None)) = (\<Sum>j\<in>dom m - {k}. f (the (m j)))"
    unfolding msum_def by (rule sum.cong) auto
  also have "\<dots> = msum f m - (case m k of None \<Rightarrow> 0 | Some x \<Rightarrow> f x)"
    unfolding msum_def using fin by (cases "m k") (auto simp: sum_diff1)
  finally show ?thesis .
qed

lemma msum_upd:
  "finite (dom m) \<Longrightarrow> msum f (m(k \<mapsto> v)) = msum f m - (case m k of None \<Rightarrow> 0 | Some x \<Rightarrow> f x) + f v"
proof -
  assume fin: "finite (dom m)"
  have "msum f (m(k \<mapsto> v)) = f v + (\<Sum>j\<in>dom m - {k}. f (the ((m(k \<mapsto> v)) j)))"
    unfolding msum_def using fin by (simp add: sum.insert_remove)
  also have "(\<Sum>j\<in>dom m - {k}. f (the ((m(k \<mapsto> v)) j))) = msum f (m(k := None))"
    unfolding msum_def by (rule sum.cong) auto
  finally show ?thesis by (simp only: msum_del [OF fin])
qed

end
