(* ===== verification/Strconv.thy ===== *)
theory Strconv
  imports Prelude
begin

text \<open>
  The decimal conversions of Go's \<open>strconv\<close> that the code calls: \<open>strconv.Itoa\<close> /
  \<open>FormatInt(n, 10)\<close> and \<open>strconv.Atoi\<close> / \<open>ParseInt(s, 10, 64)\<close>, with the sign, the digit
  check and the range check of the library, and the round trip between them.
\<close>

definition digit_char :: "nat \<Rightarrow> char" where
  "digit_char d = char_of (48 + d)"

definition digit_val :: "char \<Rightarrow> nat option" where
  "digit_val c = (let n = (of_char c :: nat) in
     if 48 \<le> n \<and> n \<le> 57 then Some (n - 48) else None)"

fun itoa_nat :: "nat \<Rightarrow> string" where
  "itoa_nat n = (if n < 10 then [digit_char n]
                 else itoa_nat (n div 10) @ [digit_char (n mod 10)])"

declare itoa_nat.simps [simp del]

definition itoa :: "int \<Rightarrow> string" where
  "itoa n = (if n < 0 then CHR ''-'' # itoa_nat (nat (- n)) else itoa_nat (nat n))"

fun atoi_digits :: "nat \<Rightarrow> string \<Rightarrow> nat option" where
  "atoi_digits acc [] = Some acc"
| "atoi_digits acc (c # cs) =
     (case digit_val c of None \<Rightarrow> None | Some d \<Rightarrow> atoi_digits (10 * acc + d) cs)"

definition atoi_unsigned :: "string \<Rightarrow> nat option" where
  "atoi_unsigned s = (if s = [] then None else atoi_digits 0 s)"

definition atoi :: "string \<Rightarrow> int option" where
  "atoi s = (let r = (case s of
       [] \<Rightarrow> None
     | c # cs \<Rightarrow>
         if c = CHR ''-'' then map_option (\<lambda>n. - int n) (atoi_unsigned cs)
         else if c = CHR ''+'' then map_option int (atoi_unsigned cs)
         else map_option int (atoi_unsigned s))
     in case r of None \<Rightarrow> None | Some n \<Rightarrow> if i64 n then Some n else None)"

lemma digit_val_char [simp]: "d < 10 \<Longrightarrow> digit_val (digit_char d) = Some d"
  by (simp add: digit_val_def digit_char_def of_char_of)

lemma atoi_digits_append:
  "atoi_digits a (xs @ ys) =
     (case atoi_digits a xs of None \<Rightarrow> None | Some b \<Rightarrow> atoi_digits b ys)"
  by (induction a xs rule: atoi_digits.induct) (auto split: option.splits)

lemma itoa_nat_nonempty [simp]: "itoa_nat n \<noteq> []"
  by (subst itoa_nat.simps) simp

lemma atoi_digits_itoa: "atoi_digits 0 (itoa_nat n) = Some n"
proof (induction n rule: itoa_nat.induct)
  case (1 n)
  show ?case
  proof (cases "n < 10")
    case True
    then show ?thesis by (simp add: itoa_nat.simps [of n])
  next
    case False
    with 1 have "atoi_digits 0 (itoa_nat (n div 10)) = Some (n div 10)" by simp
    with False show ?thesis
      by (simp add: itoa_nat.simps [of n] atoi_digits_append)
  qed
qed

lemma digit_char_not_sign: "d < 10 \<Longrightarrow> digit_char d \<noteq> CHR ''-'' \<and> digit_char d \<noteq> CHR ''+''"
  using digit_val_char [of d] by (auto simp: digit_val_def)

lemma hd_itoa_nat: "\<exists>d cs. d < 10 \<and> itoa_nat n = digit_char d # cs"
proof (induction n rule: itoa_nat.induct)
  case (1 n)
  show ?case
  proof (cases "n < 10")
    case True
    then show ?thesis by (auto simp: itoa_nat.simps [of n])
  next
    case False
    with 1 obtain d cs where "d < 10" "itoa_nat (n div 10) = digit_char d # cs" by blast
    with False show ?thesis by (auto simp: itoa_nat.simps [of n])
  qed
qed

lemma atoi_itoa [simp]: "i64 n \<Longrightarrow> atoi (itoa n) = Some n"
proof (cases "n < 0")
  case True
  assume "i64 n"
  with True show ?thesis
    by (simp add: itoa_def atoi_def atoi_unsigned_def atoi_digits_itoa)
next
  case False
  assume "i64 n"
  obtain d cs where *: "d < 10" "itoa_nat (nat n) = digit_char d # cs"
    using hd_itoa_nat by blast
  have "atoi_digits 0 (digit_char d # cs) = Some (nat n)"
    using atoi_digits_itoa [of "nat n"] * by simp
  with False * digit_char_not_sign [OF *(1)] \<open>i64 n\<close> show ?thesis
    by (simp add: itoa_def atoi_def atoi_unsigned_def)
qed

end
