(* ===== verification/GoErrors.thy ===== *)
theory GoErrors
  imports Strconv
begin

text \<open>
  Go error values as \<open>pkg/errors/apperror.go\<close> and the services build them: package-level
  sentinels, \<open>fmt.Errorf\<close> wrappers, driver errors, and \<open>AppError\<close> with its HTTP code. A panic
  that unwinds a call is also a value of this type, so that it ends a computation the way an
  error does but is never mistaken for one. Effects are functions from a world to a result and
  the next world.
\<close>

datatype err =
    Sentinel string string \<comment> \<open>package and text of an \<open>errors.New\<close> variable\<close>
  | ErrText string \<comment> \<open>an error built in place, with nothing wrapped\<close>
  | Wrap string err \<comment> \<open>\<open>fmt.Errorf\<close> with a text before its \<open>%w\<close>\<close>
  | WrapL err string \<comment> \<open>\<open>fmt.Errorf\<close> with \<open>%w\<close> first\<close>
  | DbError string \<comment> \<open>a failure reported by a driver or remote service\<close>
  | AppError int string "err option" \<comment> \<open>code, message, underlying error\<close>
  | Panic string

type_synonym ('w, 'a) io = "'w \<Rightarrow> (err + 'a) \<times> 'w"

definition NewBadRequest :: "string \<Rightarrow> err option \<Rightarrow> err" where
  [go_defs]: "NewBadRequest m e = AppError 400 m e"

definition NewUnauthorized :: "string \<Rightarrow> err option \<Rightarrow> err" where
  [go_defs]: "NewUnauthorized m e = AppError 401 m e"

definition NewForbidden :: "string \<Rightarrow> err option \<Rightarrow> err" where
  [go_defs]: "NewForbidden m e = AppError 403 m e"

definition NewNotFound :: "string \<Rightarrow> err option \<Rightarrow> err" where
  [go_defs]: "NewNotFound m e = AppError 404 m e"

definition NewConflict :: "string \<Rightarrow> err option \<Rightarrow> err" where
  [go_defs]: "NewConflict m e = AppError 409 m e"

definition NewInternal :: "string \<Rightarrow> err option \<Rightarrow> err" where
  [go_defs]: "NewInternal m e = AppError 500 m e"

text \<open>\<open>errors.Is\<close>: the target, or anything the chain of wrapped errors reaches.\<close>

fun errors_is :: "err \<Rightarrow> err \<Rightarrow> bool" where
  "errors_is (Wrap m e) t = (Wrap m e = t \<or> errors_is e t)"
| "errors_is (WrapL e m) t = (WrapL e m = t \<or> errors_is e t)"
| "errors_is (AppError c m (Some e)) t = (AppError c m (Some e) = t \<or> errors_is e t)"
| "errors_is e t = (e = t)"

lemma errors_is_refl [simp]: "errors_is e e"
proof (cases e)
  case (AppError c m u)
  then show ?thesis by (cases u) auto
qed auto

text \<open>The text of \<open>err.Error()\<close>, where the code looks at it. \<open>%q\<close> escapes quotes and backslashes.\<close>

definition go_quote :: "string \<Rightarrow> string" where
  "go_quote m = [CHR 0x22] @ concat (map (\<lambda>c. if c = CHR 0x22 \<or> c = CHR 0x5C then [CHR 0x5C, c] else [c]) m)
     @ [CHR 0x22]"

fun err_string :: "err \<Rightarrow> string" where
  "err_string (Sentinel p m) = m"
| "err_string (ErrText m) = m"
| "err_string (Wrap m e) = m @ '': '' @ err_string e"
| "err_string (WrapL e m) = err_string e @ '': '' @ m"
| "err_string (DbError m) = m"
| "err_string (AppError c m None) = ''code='' @ itoa c @ '' message='' @ go_quote m"
| "err_string (AppError c m (Some e)) =
     ''code='' @ itoa c @ '' message='' @ go_quote m @ '' err='' @ err_string e"
| "err_string (Panic m) = m"

text \<open>
  \<open>GinWriteError\<close>: the status of the problem document. Only an error whose own type is
  \<open>*AppError\<close> keeps its code; every other error is answered with 500.
\<close>

fun http_status :: "err \<Rightarrow> int" where
  "http_status (AppError c m e) = c"
| "http_status _ = 500"

fun is_panic :: "err \<Rightarrow> bool" where
  "is_panic (Panic _) = True"
| "is_panic _ = False"

section \<open>Sequencing\<close>

text \<open>\<open>x, err := m(); if err != nil { return err }\<close> followed by the rest.\<close>

definition bind_io :: "('w, 'a) io \<Rightarrow> ('a \<Rightarrow> ('w, 'b) io) \<Rightarrow> ('w, 'b) io" where
  "bind_io m f w = (case m w of (Inl e, w1) \<Rightarrow> (Inl e, w1) | (Inr x, w1) \<Rightarrow> f x w1)"

text \<open>The same with the error replaced.\<close>

definition on_error :: "(err \<Rightarrow> err) \<Rightarrow> ('w, 'a) io \<Rightarrow> ('w, 'a) io" where
  "on_error g m w = (case m w of (Inl e, w1) \<Rightarrow> (Inl (g e), w1) | (Inr x, w1) \<Rightarrow> (Inr x, w1))"

definition fail_io :: "err \<Rightarrow> ('w, 'a) io" where "fail_io e w = (Inl e, w)"

definition return_io :: "'a \<Rightarrow> ('w, 'a) io" where "return_io x w = (Inr x, w)"

definition modify_io :: "('w \<Rightarrow> 'w) \<Rightarrow> ('w, unit) io" where "modify_io f w = (Inr (), f w)"

fun for_each :: "('a \<Rightarrow> ('w, unit) io) \<Rightarrow> 'a list \<Rightarrow> ('w, unit) io" where
  "for_each f [] = return_io ()"
| "for_each f (x # xs) = bind_io (f x) (\<lambda>_. for_each f xs)"

lemma bind_io_Inr: "bind_io m f w = (Inr y, w') \<longleftrightarrow> (\<exists>x w1. m w = (Inr x, w1) \<and> f x w1 = (Inr y, w'))"
  by (auto simp: bind_io_def split: prod.splits sum.splits)

lemma bind_io_Inl: "bind_io m f w = (Inl e, w') \<longleftrightarrow>
    m w = (Inl e, w') \<or> (\<exists>x w1. m w = (Inr x, w1) \<and> f x w1 = (Inl e, w'))"
  by (auto simp: bind_io_def split: prod.splits sum.splits)

lemma on_error_Inr [simp]: "on_error g m w = (Inr y, w') \<longleftrightarrow> m w = (Inr y, w')"
  by (auto simp: on_error_def split: prod.splits sum.splits)

lemma on_error_Inl: "on_error g m w = (Inl e, w') \<longleftrightarrow> (\<exists>e'. m w = (Inl e', w') \<and> e = g e')"
  by (auto simp: on_error_def split: prod.splits sum.splits)

lemma io_simps [simp]:
  "fail_io e w = (r, w') \<longleftrightarrow> r = Inl e \<and> w' = w" "return_io x w = (q, w') \<longleftrightarrow> q = Inr x \<and> w' = w"
  "modify_io f w = (u, w') \<longleftrightarrow> u = Inr () \<and> w' = f w"
  by (auto simp: fail_io_def return_io_def modify_io_def)

text \<open>What every step of a sequence keeps, the sequence keeps: \<open>R\<close> relates the worlds around a step.\<close>

definition keeps :: "('w \<Rightarrow> 'w \<Rightarrow> bool) \<Rightarrow> ('w, 'a) io \<Rightarrow> bool" where
  "keeps R m \<longleftrightarrow> (\<forall>w x w'. m w = (x, w') \<longrightarrow> R w w')"

lemma keepsD: "keeps R m \<Longrightarrow> m w = (x, w') \<Longrightarrow> R w w'"
  by (auto simp: keeps_def)

lemma keeps_bind:
  assumes "transp R" "keeps R m" "\<And>x. keeps R (f x)"
  shows "keeps R (bind_io m f)"
  using assms unfolding keeps_def bind_io_def
  by (auto split: prod.splits sum.splits elim: transpE) (blast dest: transpD)

lemma keeps_on_error: "keeps R m \<Longrightarrow> keeps R (on_error g m)"
  by (auto simp: keeps_def on_error_def split: prod.splits sum.splits)

lemma keeps_pure: "reflp R \<Longrightarrow> keeps R (return_io x)" "reflp R \<Longrightarrow> keeps R (fail_io e)"
  by (auto simp: keeps_def reflpD)

lemma keeps_for_each:
  assumes "transp R" "reflp R" "\<And>x. keeps R (f x)"
  shows "keeps R (for_each f xs)"
  using assms by (induction xs) (auto intro: keeps_bind keeps_pure)

end
