(* ===== verification/Float64.thy ===== *)
theory Float64
  imports Complex_Main
begin

text \<open>
  Go's \<open>float64\<close> as the code uses it for money: addition, subtraction, multiplication,
  division, comparison and \<open>math.Round\<close> on finite values. A value is the rational it denotes;
  \<open>fl\<close> rounds a rational to 53 significant bits, ties to even, and every operation rounds its
  exact result once. The exponent is unbounded, so overflow to infinity, NaN and subnormals
  (below about \<open>10^-308\<close>) are not represented; no amount the code handles is near either.
\<close>

type_synonym f64 = rat

section \<open>Rounding to an integer\<close>

text \<open>The nearest integer, ties to even.\<close>

definition rne :: "rat \<Rightarrow> int" where
  "rne q = (let k = \<lfloor>q\<rfloor>; d = q - of_int k in
     if d < 1 / 2 then k else if d > 1 / 2 then k + 1 else if even k then k else k + 1)"

lemma rne_of_int [simp]: "rne (of_int k) = k"
  by (simp add: rne_def)

lemma rne_le: "q \<le> of_int k \<Longrightarrow> rne q \<le> k"
proof -
  assume "q \<le> of_int k"
  then have "\<lfloor>q\<rfloor> \<le> k" by linarith
  moreover have "\<lfloor>q\<rfloor> = k \<Longrightarrow> q = of_int k"
    using \<open>q \<le> of_int k\<close> by linarith
  ultimately show ?thesis
    by (cases "\<lfloor>q\<rfloor> = k") (auto simp: rne_def Let_def)
qed

lemma rne_ge: "of_int k \<le> q \<Longrightarrow> k \<le> rne q"
  unfolding rne_def Let_def by (auto simp: le_floor_iff [symmetric])

lemma rne_mono: "p \<le> q \<Longrightarrow> rne p \<le> rne q"
proof -
  assume pq: "p \<le> q"
  then have fl: "\<lfloor>p\<rfloor> \<le> \<lfloor>q\<rfloor>" by (rule floor_mono)
  show ?thesis
  proof (cases "\<lfloor>p\<rfloor> = \<lfloor>q\<rfloor>")
    case True
    with pq show ?thesis by (auto simp: rne_def Let_def)
  next
    case False
    with fl have "\<lfloor>p\<rfloor> + 1 \<le> \<lfloor>q\<rfloor>" by simp
    moreover have "rne p \<le> \<lfloor>p\<rfloor> + 1" by (simp add: rne_def Let_def)
    moreover have "\<lfloor>q\<rfloor> \<le> rne q" by (simp add: rne_def Let_def)
    ultimately show ?thesis by linarith
  qed
qed

lemma rne_minus: "rne (- q) = - rne q"
proof (cases "q = of_int \<lfloor>q\<rfloor>")
  case True
  then show ?thesis by (metis of_int_minus rne_of_int)
next
  case False
  then have f: "\<lfloor>- q\<rfloor> = - \<lfloor>q\<rfloor> - 1" by linarith
  then have "even \<lfloor>- q\<rfloor> \<longleftrightarrow> odd \<lfloor>q\<rfloor>" by simp
  with f show ?thesis by (auto simp: rne_def Let_def)
qed

section \<open>The binary exponent\<close>

fun nat_log2 :: "nat \<Rightarrow> nat" where
  "nat_log2 n = (if n < 2 then 0 else Suc (nat_log2 (n div 2)))"

declare nat_log2.simps [simp del]

lemma nat_log2_bounds: "0 < n \<Longrightarrow> 2 ^ nat_log2 n \<le> n \<and> n < 2 ^ Suc (nat_log2 n)"
proof (induction n rule: nat_log2.induct)
  case (1 n)
  show ?case
  proof (cases "n < 2")
    case True
    with 1 show ?thesis by (simp add: nat_log2.simps [of n])
  next
    case False
    with 1 have "2 ^ nat_log2 (n div 2) \<le> n div 2 \<and> n div 2 < 2 ^ Suc (nat_log2 (n div 2))"
      by simp
    with False show ?thesis by (simp add: nat_log2.simps [of n]) linarith
  qed
qed

definition floor_log2 :: "rat \<Rightarrow> int" where
  "floor_log2 q = (case quotient_of q of (n, d) \<Rightarrow>
     let e = int (nat_log2 (nat n)) - int (nat_log2 (nat d)) in
     if 2 powi e \<le> q then e else e - 1)"

lemma nat_bounds_rat:
  assumes "2 ^ a \<le> nat n" "nat n < 2 ^ Suc a" "0 < n"
  shows "(2 ^ a :: rat) \<le> of_int n" "of_int n < (2 ^ Suc a :: rat)"
proof -
  have "(of_nat (2 ^ a) :: rat) \<le> of_nat (nat n)" "of_nat (nat n) < (of_nat (2 ^ Suc a) :: rat)"
    using assms by (simp_all only: of_nat_le_iff of_nat_less_iff)
  with assms(3) show "(2 ^ a :: rat) \<le> of_int n" "of_int n < (2 ^ Suc a :: rat)"
    by (simp_all add: of_nat_nat)
qed

lemma floor_log2_bounds:
  assumes "0 < q"
  shows "2 powi floor_log2 q \<le> q \<and> q < 2 powi (floor_log2 q + 1)"
proof -
  obtain n d where nd: "quotient_of q = (n, d)" by fastforce
  then have d: "0 < d" and q: "q = of_int n / of_int d"
    using quotient_of_denom_pos quotient_of_div by blast+
  with assms have n: "0 < n" by (simp add: zero_less_divide_iff)
  define a b where "a = nat_log2 (nat n)" and "b = nat_log2 (nat d)"
  have A: "2 ^ a \<le> nat n" "nat n < 2 ^ Suc a" using nat_log2_bounds [of "nat n"] n
    by (auto simp: a_def)
  have B: "2 ^ b \<le> nat d" "nat d < 2 ^ Suc b" using nat_log2_bounds [of "nat d"] d
    by (auto simp: b_def)
  note n1 = nat_bounds_rat [OF A n] and d1 = nat_bounds_rat [OF B d]
  have up: "q < 2 powi (int a - int b + 1)"
  proof -
    have "q < 2 ^ Suc a / 2 ^ b" unfolding q
      using n1 d1 d n by (intro frac_less) auto
    also have "\<dots> = 2 powi (int a - int b + 1)"
      by (simp add: power_int_add power_int_diff)
    finally show ?thesis .
  qed
  have lo: "2 powi (int a - int b - 1) \<le> q"
  proof -
    have "(2::rat) powi (int a - int b - 1) = 2 ^ a / 2 ^ Suc b"
      by (simp add: power_int_diff)
    also have "\<dots> \<le> q" unfolding q using n1 d1 d n
      by (intro frac_le) auto
    finally show ?thesis .
  qed
  show ?thesis using up lo
    by (auto simp: floor_log2_def nd Let_def simp flip: a_def b_def)
qed

lemma pow2_less_iff: "(2::rat) powi a < 2 powi b \<longleftrightarrow> a < b"
  using power_int_strict_increasing [of a b "2::rat"] power_int_increasing [of b a "2::rat"]
  by (cases "a < b") auto

lemma floor_log2_mono:
  assumes "0 < p" "p \<le> q" shows "floor_log2 p \<le> floor_log2 q"
proof -
  have "(2::rat) powi floor_log2 p < 2 powi (floor_log2 q + 1)"
    using floor_log2_bounds [of p] floor_log2_bounds [of q] assms by linarith
  then have "floor_log2 p < floor_log2 q + 1" by (simp only: pow2_less_iff)
  then show ?thesis by simp
qed

section \<open>Rounding to 53 bits\<close>

definition fl_pos :: "rat \<Rightarrow> f64" where
  "fl_pos q = (let s = 2 powi (floor_log2 q - 52) in of_int (rne (q / s)) * s)"

definition fl :: "rat \<Rightarrow> f64" where
  "fl q = (if q = 0 then 0 else if 0 < q then fl_pos q else - fl_pos (- q))"

lemma fl_0 [simp]: "fl 0 = 0"
  by (simp add: fl_def)

lemma fl_minus: "fl (- q) = - fl q"
  by (simp add: fl_def)

lemma fl_pos_bounds:
  assumes "0 < q"
  shows "2 powi floor_log2 q \<le> fl_pos q \<and> fl_pos q \<le> 2 powi (floor_log2 q + 1)"
proof -
  define e where "e = floor_log2 q"
  define s :: rat where "s = 2 powi (e - 52)"
  have s: "0 < s" by (simp add: s_def)
  have lo: "2 powi e = of_int (2 ^ 52) * s" and hi: "2 powi (e + 1) = of_int (2 ^ 53) * s"
    by (simp_all add: s_def power_int_diff power_int_add)
  have q: "2 powi e \<le> q" "q < 2 powi (e + 1)"
    using floor_log2_bounds [OF assms] by (auto simp: e_def)
  have "of_int (2 ^ 52) \<le> q / s" using q(1) s by (simp only: lo pos_le_divide_eq)
  then have a: "2 ^ 52 \<le> rne (q / s)" by (rule rne_ge)
  have "q / s \<le> of_int (2 ^ 53)" using less_imp_le [OF q(2)] s by (simp only: hi pos_divide_le_eq)
  then have b: "rne (q / s) \<le> 2 ^ 53" by (rule rne_le)
  have F: "fl_pos q = of_int (rne (q / s)) * s" by (simp add: fl_pos_def s_def e_def Let_def)
  have "of_int (2 ^ 52) * s \<le> fl_pos q" "fl_pos q \<le> of_int (2 ^ 53) * s"
    unfolding F using a b s by (intro mult_right_mono; simp only: of_int_le_iff; simp)+
  then show ?thesis by (simp only: lo hi flip: e_def)
qed

lemma fl_pos_mono:
  assumes "0 < p" "p \<le> q" shows "fl_pos p \<le> fl_pos q"
proof (cases "floor_log2 p = floor_log2 q")
  case True
  have "rne (p / s) \<le> rne (q / s)" if "0 < s" for s :: rat
    using assms that by (intro rne_mono divide_right_mono) auto
  with True show ?thesis
    by (simp add: fl_pos_def Let_def mult_right_mono)
next
  case False
  with floor_log2_mono [OF assms] have "floor_log2 p + 1 \<le> floor_log2 q" by simp
  then have "(2::rat) powi (floor_log2 p + 1) \<le> 2 powi floor_log2 q"
    by (intro power_int_increasing) auto
  with fl_pos_bounds [of p] fl_pos_bounds [of q] assms show ?thesis by linarith
qed

lemma fl_pos_gt: "0 < q \<Longrightarrow> 0 < fl_pos q"
  using fl_pos_bounds [of q] zero_less_power_int [of "2::rat" "floor_log2 q"] by linarith

lemma fl_mono: "p \<le> q \<Longrightarrow> fl p \<le> fl q"
  using fl_pos_mono [of p q] fl_pos_mono [of "- q" "- p"] fl_pos_gt [of q] fl_pos_gt [of "- p"]
  by (auto simp: fl_def)

lemma fl_nonneg: "0 \<le> q \<Longrightarrow> 0 \<le> fl q"
  using fl_mono [of 0 q] by simp

lemma fl_positive: "0 < q \<Longrightarrow> 0 < fl q"
  by (simp add: fl_def fl_pos_gt)

text \<open>A value with at most 53 significant bits is its own rounding; so are small integers.\<close>

lemma fl_pos_dyadic:
  assumes "0 < m" "m < 2 ^ 53"
  shows "fl_pos (of_int m * 2 powi k) = of_int m * 2 powi k"
proof -
  define q :: rat where "q = of_int m * 2 powi k"
  have q0: "0 < q" using assms(1) by (simp add: q_def)
  have "q < of_int (2 ^ 53) * 2 powi k"
    unfolding q_def using assms(2) by (intro mult_strict_right_mono) (simp_all only: of_int_less_iff, simp_all)
  also have "\<dots> = 2 powi (k + 53)" by (simp add: power_int_add)
  finally have "(2::rat) powi floor_log2 q < 2 powi (k + 53)"
    using floor_log2_bounds [OF q0] by linarith
  then have e: "floor_log2 q - 52 \<le> k" by (simp only: pow2_less_iff)
  define s :: rat where "s = 2 powi (floor_log2 q - 52)"
  have "q / s = of_int m * 2 powi (k - (floor_log2 q - 52))"
    by (simp add: q_def s_def power_int_diff)
  also have "\<dots> = of_int (m * 2 ^ nat (k - (floor_log2 q - 52)))"
    using e by (simp add: power_int_def)
  finally have "of_int (rne (q / s)) = q / s" by (metis rne_of_int)
  then have "fl_pos q = q / s * s" by (simp add: fl_pos_def s_def Let_def)
  then show ?thesis by (simp add: q_def s_def)
qed

lemma fl_dyadic: "\<bar>m\<bar> < 2 ^ 53 \<Longrightarrow> fl (of_int m * 2 powi k) = of_int m * 2 powi k"
proof -
  assume m: "\<bar>m\<bar> < 2 ^ 53"
  consider "m = 0" | "0 < m" | "m < 0" by linarith
  then show ?thesis
  proof cases
    case 2
    with m show ?thesis by (simp add: fl_def fl_pos_dyadic)
  next
    case 3
    have "fl_pos (of_int (- m) * 2 powi k) = of_int (- m) * 2 powi k"
      by (rule fl_pos_dyadic) (use 3 m in auto)
    moreover have "of_int m * (2::rat) powi k < 0" using 3 by (simp add: mult_less_0_iff)
    ultimately show ?thesis by (simp add: fl_def)
  qed simp
qed

lemma fl_of_int [simp]: "\<bar>m\<bar> < 2 ^ 53 \<Longrightarrow> fl (of_int m) = of_int m"
  using fl_dyadic [of m 0] by simp

text \<open>Integers need no rounding, and the rest of a rounding is integer arithmetic: the evaluator takes this way.\<close>

definition rne_div :: "int \<Rightarrow> int \<Rightarrow> int" where
  "rne_div n d = (let k = n div d; r = 2 * (n mod d) in
     if r < d then k else if d < r then k + 1 else if even k then k else k + 1)"

lemma rne_div: "0 < d \<Longrightarrow> rne (of_int n / of_int d) = rne_div n d"
proof -
  assume d: "0 < d"
  have k: "\<lfloor>of_int n / (of_int d :: rat)\<rfloor> = n div d" by (rule floor_divide_of_int_eq)
  have "(of_int n :: rat) = of_int (n div d) * of_int d + of_int (n mod d)"
    by (simp flip: of_int_mult of_int_add)
  then have r: "of_int n / of_int d - (of_int (n div d) :: rat) = of_int (n mod d) / of_int d"
    using d by (simp add: field_simps)
  have "of_int (n mod d) / of_int d < (1 / 2 :: rat) \<longleftrightarrow> (of_int (2 * (n mod d)) :: rat) < of_int d"
    "(1 / 2 :: rat) < of_int (n mod d) / of_int d \<longleftrightarrow> of_int d < (of_int (2 * (n mod d)) :: rat)"
    using d by (simp_all add: field_simps)
  then show ?thesis by (simp only: rne_def k r Let_def rne_div_def of_int_less_iff)
qed

lemma fl_pos_code [code]:
  "fl_pos q = (case quotient_of q of (n, d) \<Rightarrow> let e = floor_log2 q - 52 in
     if 0 \<le> e then of_int (rne_div n (d * 2 ^ nat e) * 2 ^ nat e)
     else Fract (rne_div (n * 2 ^ nat (- e)) d) (2 ^ nat (- e)))"
proof -
  obtain n d where nd: "quotient_of q = (n, d)" by fastforce
  then have d: "0 < d" and q: "q = of_int n / of_int d"
    using quotient_of_denom_pos quotient_of_div by blast+
  define e where "e = floor_log2 q - 52"
  have fl: "fl_pos q = of_int (rne (q / 2 powi e)) * 2 powi e" by (simp add: fl_pos_def e_def Let_def)
  have "fl_pos q = (if 0 \<le> e then of_int (rne_div n (d * 2 ^ nat e) * 2 ^ nat e)
      else Fract (rne_div (n * 2 ^ nat (- e)) d) (2 ^ nat (- e)))"
  proof (cases "0 \<le> e")
    case True
    have "q / 2 powi e = of_int n / of_int (d * 2 ^ nat e)" using True by (simp add: q power_int_def)
    moreover have "0 < d * 2 ^ nat e" using d by simp
    ultimately have "rne (q / 2 powi e) = rne_div n (d * 2 ^ nat e)" using rne_div by presburger
    with True show ?thesis by (simp add: fl power_int_def)
  next
    case False
    have "q / 2 powi e = of_int (n * 2 ^ nat (- e)) / of_int d"
      using False by (simp add: q power_int_def field_simps)
    then have "rne (q / 2 powi e) = rne_div (n * 2 ^ nat (- e)) d" using rne_div [OF d] by presburger
    with False show ?thesis by (simp add: fl power_int_def Fract_of_int_quotient field_simps)
  qed
  then show ?thesis by (simp add: nd Let_def e_def)
qed

function int_log2 :: "int \<Rightarrow> int" where
  "int_log2 n = (if n < 2 then 0 else 1 + int_log2 (n div 2))"
  by auto
termination by (relation "measure nat") auto

declare int_log2.simps [simp del]

lemma int_log2: "int (nat_log2 (nat n)) = int_log2 n"
proof (induction n rule: int_log2.induct)
  case (1 n)
  have "nat n < 2 \<longleftrightarrow> n < 2" by linarith
  with 1 show ?case
    by (cases "n < 2") (simp_all add: int_log2.simps [of n] nat_log2.simps [of "nat n"] nat_div_distrib)
qed

lemma floor_log2_code [code]:
  "floor_log2 q = (case quotient_of q of (n, d) \<Rightarrow>
     let e = int_log2 n - int_log2 d in
     if (if 0 \<le> e then 2 ^ nat e * d \<le> n else d \<le> n * 2 ^ nat (- e)) then e else e - 1)"
proof -
  obtain n d where nd: "quotient_of q = (n, d)" by fastforce
  then have d: "0 < d" and q: "q = of_int n / of_int d"
    using quotient_of_denom_pos quotient_of_div by blast+
  have "(2 powi e \<le> q) = (if 0 \<le> e then 2 ^ nat e * d \<le> n else d \<le> n * 2 ^ nat (- e))" for e
  proof (cases "0 \<le> e")
    case True
    then have "(2 powi e \<le> q) \<longleftrightarrow> (of_int (2 ^ nat e * d) :: rat) \<le> of_int n"
      using d by (simp add: q power_int_def field_simps)
    with True show ?thesis by (simp only: of_int_le_iff if_True)
  next
    case False
    then have "(2 powi e \<le> q) \<longleftrightarrow> (of_int d :: rat) \<le> of_int (n * 2 ^ nat (- e))"
      using d by (simp add: q power_int_def field_simps)
    with False show ?thesis by (simp only: of_int_le_iff if_False)
  qed
  then show ?thesis by (simp add: floor_log2_def nd Let_def int_log2)
qed


definition fl_quot :: "int \<times> int \<Rightarrow> f64" where
  "fl_quot p = fl (Fract (fst p) (snd p))"

lemma fl_quot_code [code]:
  "fl_quot (n, d) = (if d = 1 \<and> \<bar>n\<bar> < 2 ^ 53 then of_int n
     else if Fract n d = 0 then 0 else if 0 < Fract n d then fl_pos (Fract n d) else - fl_pos (- Fract n d))"
  using fl_of_int [of n] by (auto simp: fl_quot_def fl_def of_int_rat)

lemma fl_code [code]: "fl q = fl_quot (quotient_of q)"
proof -
  obtain n d where nd: "quotient_of q = (n, d)" by fastforce
  then show ?thesis using quotient_of_div [OF nd] by (simp add: fl_quot_def Fract_of_int_quotient)
qed

section \<open>Operations\<close>

definition fadd :: "f64 \<Rightarrow> f64 \<Rightarrow> f64" where "fadd a b = fl (a + b)"
definition fsub :: "f64 \<Rightarrow> f64 \<Rightarrow> f64" where "fsub a b = fl (a - b)"
definition fmul :: "f64 \<Rightarrow> f64 \<Rightarrow> f64" where "fmul a b = fl (a * b)"
definition fdiv :: "f64 \<Rightarrow> f64 \<Rightarrow> f64" where "fdiv a b = fl (a / b)"

text \<open>\<open>float64(n)\<close> of an integer.\<close>

definition f_of_int :: "int \<Rightarrow> f64" where "f_of_int n = fl (of_int n)"

text \<open>\<open>math.Round\<close>: half away from zero.\<close>

definition go_round :: "f64 \<Rightarrow> f64" where
  "go_round x = (if 0 \<le> x then of_int \<lfloor>x + 1 / 2\<rfloor> else - of_int \<lfloor>- x + 1 / 2\<rfloor>)"

lemma fadd_mono: "a \<le> a' \<Longrightarrow> b \<le> b' \<Longrightarrow> fadd a b \<le> fadd a' b'"
  by (simp add: fadd_def fl_mono)

lemma fadd_nonneg: "0 \<le> a \<Longrightarrow> 0 \<le> b \<Longrightarrow> 0 \<le> fadd a b"
  by (simp add: fadd_def fl_nonneg)

lemma fmul_nonneg: "0 \<le> a \<Longrightarrow> 0 \<le> b \<Longrightarrow> 0 \<le> fmul a b"
  by (simp add: fmul_def fl_nonneg)

lemma f_of_int_nonneg: "0 \<le> n \<Longrightarrow> 0 \<le> f_of_int n"
  by (simp add: f_of_int_def fl_nonneg)

lemma f_of_int_exact [simp]: "\<bar>m\<bar> < 2 ^ 53 \<Longrightarrow> f_of_int m = of_int m"
  by (simp add: f_of_int_def)

lemma fadd_exact_int: "\<bar>a + b\<bar> < 2 ^ 53 \<Longrightarrow> fadd (of_int a) (of_int b) = of_int (a + b)"
  using fl_of_int [of "a + b"] by (simp add: fadd_def)

lemma fmul_exact_int: "\<bar>a * b\<bar> < 2 ^ 53 \<Longrightarrow> fmul (of_int a) (of_int b) = of_int (a * b)"
  using fl_of_int [of "a * b"] by (simp add: fmul_def)

end
