(* ===== verification/Events.thy ===== *)
theory Events
  imports GoErrors Float64
begin

text \<open>
  The execution environment every operation runs in, and the event envelope
  (\<open>internal/events/events.go\<close>, \<open>pkg/idgen/idgen.go\<close>). The environment holds what the code gets
  from outside: the clock, the UUID source, the outcome of each database call, the request
  context, the open transaction, and the log of events handed to the bus.
\<close>

section \<open>Topics and payloads\<close>

definition OrderCreatedTopic :: string where [go_defs]: "OrderCreatedTopic = ''order.created''"
definition OrderPaidTopic :: string where [go_defs]: "OrderPaidTopic = ''order.paid''"
definition InventoryLowTopic :: string where [go_defs]: "InventoryLowTopic = ''inventory.low''"
definition InventoryStockChangedTopic :: string where
  [go_defs]: "InventoryStockChangedTopic = ''inventory.stock_changed''"
definition PaymentSucceededTopic :: string where
  [go_defs]: "PaymentSucceededTopic = ''payment.succeeded''"
definition PaymentFailedTopic :: string where [go_defs]: "PaymentFailedTopic = ''payment.failed''"
definition PaymentRefundedTopic :: string where
  [go_defs]: "PaymentRefundedTopic = ''payment.refunded''"
definition OrderShippedTopic :: string where [go_defs]: "OrderShippedTopic = ''order.shipped''"
definition OrderCancelledTopic :: string where
  [go_defs]: "OrderCancelledTopic = ''order.cancelled''"

record OrderCreatedEventPayload =
  oc_OrderID :: string
  oc_CustomerID :: string
  oc_Total :: f64
  oc_CreatedAt :: int

record OrderPaidEventPayload =
  op_OrderID :: string
  op_Amount :: f64

record OrderCancelledEventPayload =
  ox_OrderID :: string
  ox_Reason :: string

record OrderShippedEventPayload =
  os_OrderID :: string
  os_TrackingNumber :: string
  os_Carrier :: string

record StockChangedPayload =
  sc_VariantID :: string
  sc_LocationID :: string
  sc_OldQuantity :: int
  sc_NewQuantity :: int
  sc_ChangeReason :: string
  sc_ChangedBy :: string

record PaymentEventPayload =
  pe_OrderID :: string
  pe_PaymentID :: string
  pe_CustomerID :: string
  pe_Amount :: f64

record PaymentFailedEventPayload = PaymentEventPayload +
  pf_Error :: string

record PaymentRefundedEventPayload = PaymentEventPayload +
  pr_RefundedAt :: int

record InventoryLowPayload =
  il_VariantID :: string
  il_LocationID :: string
  il_Quantity :: int

text \<open>
  The dynamic values an event carries in its \<open>any\<close> payload: a struct, a pointer to one
  (\<open>PRef...\<close>; a type assertion tells the two apart), the JSON bytes of a payload (what the
  outbox table returns), or the generic value that \<open>json.Unmarshal\<close> into \<open>any\<close> makes of such
  bytes. JSON itself is symbolic: the bytes are represented by the payload they encode.
\<close>

datatype payload =
    POrderCreated OrderCreatedEventPayload
  | POrderPaid OrderPaidEventPayload
  | POrderCancelled OrderCancelledEventPayload
  | POrderShipped OrderShippedEventPayload
  | PRefStockChanged StockChangedPayload
  | PPayment PaymentEventPayload
  | PPaymentFailed PaymentFailedEventPayload
  | PPaymentRefunded PaymentRefundedEventPayload
  | PInventoryLow InventoryLowPayload
  | PBytes payload
  | PGeneric payload

record event =
  evID :: string
  evTopic :: string
  evSource :: string
  evVersion :: int
  evTimestamp :: int
  evPayload :: payload
  evTraceID :: string
  evCorrelationID :: string

text \<open>\<open>AsPayload[T]\<close> at the payload types that handlers ask for.\<close>

fun AsPaymentEvent :: "event \<Rightarrow> PaymentEventPayload option" where
  "AsPaymentEvent e = (case evPayload e of PPayment p \<Rightarrow> Some p | _ \<Rightarrow> None)"

fun AsOrderCancelled :: "event \<Rightarrow> OrderCancelledEventPayload option" where
  "AsOrderCancelled e = (case evPayload e of POrderCancelled p \<Rightarrow> Some p | _ \<Rightarrow> None)"

fun AsStockChangedRef :: "event \<Rightarrow> StockChangedPayload option" where
  "AsStockChangedRef e = (case evPayload e of PRefStockChanged p \<Rightarrow> Some p | _ \<Rightarrow> None)"

section \<open>Environment\<close>

text \<open>
  \<open>time.Now()\<close> reads \<open>clock\<close> (nanoseconds) after letting the next delay of \<open>delays\<close> pass.
  \<open>uuids\<close> is the tape of results of \<open>uuid.NewV7\<close>; \<open>None\<close>, or an exhausted tape, is its error.
  \<open>faults\<close> tells for each database call whether it fails (an exhausted tape: it does not).
  \<open>tx_aborted\<close> is PostgreSQL's state of a transaction in which a statement has failed: every
  later statement fails, and a commit rolls back and reports an error.
\<close>

record env =
  clock :: int
  delays :: "nat list"
  uuids :: "string option list"
  faults :: "bool list"
  ctx_trace :: "string option"
  ctx_corr :: "string option"
  in_tx :: bool
  tx_aborted :: bool
  bus_log :: "event list" \<comment> \<open>events given to \<open>Publish\<close>, oldest first\<close>

definition time_now :: "'a env_scheme \<Rightarrow> int \<times> 'a env_scheme" where
  "time_now w = (case delays w of
       [] \<Rightarrow> (clock w, w)
     | d # ds \<Rightarrow> (clock w + int d, w\<lparr>clock := clock w + int d, delays := ds\<rparr>))"

text \<open>\<open>idgen.Generate\<close>\<close>

definition Generate :: "string \<Rightarrow> ('a env_scheme, string) io" where
  "Generate pre w = (case uuids w of
       [] \<Rightarrow> (Inl (Wrap ''idgen: failed to generate UUIDv7'' (DbError ''uuid'')), w)
     | None # us \<Rightarrow> (Inl (Wrap ''idgen: failed to generate UUIDv7'' (DbError ''uuid'')), w\<lparr>uuids := us\<rparr>)
     | Some u # us \<Rightarrow> (Inr (pre @ u), w\<lparr>uuids := us\<rparr>))"

text \<open>\<open>idgen.MustGenerate\<close> panics where \<open>Generate\<close> fails.\<close>

definition MustGenerate :: "string \<Rightarrow> ('a env_scheme, string) io" where
  "MustGenerate pre w = (case Generate pre w of
       (Inl e, w1) \<Rightarrow> (Inl (Panic (err_string e)), w1)
     | (Inr i, w1) \<Rightarrow> (Inr i, w1))"

text \<open>A statement sent to the database: fails in an aborted transaction or by a fault.\<close>

definition db_call :: "('a env_scheme, unit) io" where
  "db_call w = (if tx_aborted w then (Inl (DbError ''current transaction is aborted''), w)
     else case faults w of
         [] \<Rightarrow> (Inr (), w)
       | f # fs \<Rightarrow>
           if f then (Inl (DbError ''driver error''), w\<lparr>faults := fs, tx_aborted := in_tx w\<rparr>)
           else (Inr (), w\<lparr>faults := fs\<rparr>))"

text \<open>A statement that the database rejects (constraint or range) aborts the transaction.\<close>

definition db_reject :: "'a env_scheme \<Rightarrow> 'a env_scheme" where
  "db_reject w = w\<lparr>tx_aborted := in_tx w\<rparr>"

text \<open>
  Undoing the writes of a transaction: tables return to their state at its start, while the
  clock, the identifier source, the fault tape and the events already published stay as they are.
\<close>

definition rollback :: "'a env_scheme \<Rightarrow> 'a env_scheme \<Rightarrow> 'a env_scheme" where
  "rollback w0 w1 = w0\<lparr>clock := clock w1, delays := delays w1, uuids := uuids w1,
     faults := faults w1, bus_log := bus_log w1, in_tx := False, tx_aborted := False\<rparr>"

text \<open>\<open>PostgresAdapter.RunInTx\<close> (without the optional timeout).\<close>

definition RunInTx_pg :: "('a env_scheme, 'r) io \<Rightarrow> ('a env_scheme, 'r) io" where
  "RunInTx_pg fn w = (if in_tx w then fn w
     else case db_call w of
         (Inl e, w1) \<Rightarrow> (Inl e, w1)
       | (Inr _, w1) \<Rightarrow>
           (case fn (w1\<lparr>in_tx := True\<rparr>) of
              (Inl e, w2) \<Rightarrow> (Inl e, rollback w1 w2)
            | (Inr r, w2) \<Rightarrow>
                if tx_aborted w2
                then (Inl (DbError ''commit unexpectedly resulted in rollback''), rollback w1 w2)
                else case db_call w2 of
                    (Inl e, w3) \<Rightarrow> (Inl e, rollback w1 w3)
                  | (Inr _, w3) \<Rightarrow> (Inr r, w3\<lparr>in_tx := False\<rparr>)))"

section \<open>Building events\<close>

definition NewEvent :: "string \<Rightarrow> string \<Rightarrow> payload \<Rightarrow> ('a env_scheme, event) io" where
  "NewEvent topic source pl w = (case MustGenerate ''evt_'' w of
       (Inl e, w1) \<Rightarrow> (Inl e, w1)
     | (Inr i, w1) \<Rightarrow> (case time_now w1 of (t, w2) \<Rightarrow>
         (Inr \<lparr>evID = i, evTopic = topic, evSource = source, evVersion = 1, evTimestamp = t,
            evPayload = pl, evTraceID = [], evCorrelationID = []\<rparr>, w2)))"

definition NewEventFromCtx :: "string \<Rightarrow> string \<Rightarrow> payload \<Rightarrow> ('a env_scheme, event) io" where
  "NewEventFromCtx topic source pl w = (case NewEvent topic source pl w of
       (Inl e, w1) \<Rightarrow> (Inl e, w1)
     | (Inr evt, w1) \<Rightarrow>
         (let e1 = (case ctx_trace w1 of Some t \<Rightarrow> evt\<lparr>evTraceID := t\<rparr> | None \<Rightarrow> evt);
              e2 = (case ctx_corr w1 of Some c \<Rightarrow> e1\<lparr>evCorrelationID := c\<rparr> | None \<Rightarrow> e1)
          in (Inr e2, w1)))"

section \<open>What the services depend on\<close>

text \<open>The outbox and the bus as a service sees them.\<close>

record OutboxRecord =
  orID :: string
  orTopic :: string
  orSource :: string
  orPayload :: payload \<comment> \<open>the payload whose JSON the bytes are\<close>
  orVersion :: int
  orTraceID :: string
  orCorrelationID :: string
  orCreatedAt :: int

record 'w OutboxRepository =
  Store :: "event list \<Rightarrow> ('w, unit) io"
  FetchUnsent :: "int \<Rightarrow> ('w, OutboxRecord list) io"
  MarkPublished :: "string list \<Rightarrow> ('w, unit) io"

type_synonym 'w bus = "event \<Rightarrow> 'w \<Rightarrow> 'w" \<comment> \<open>\<open>EventBus.Publish\<close>\<close>

text \<open>
  \<open>if s.outbox != nil { s.outbox.Store(...) } else if s.eventBus != nil { s.eventBus.Publish(...) }\<close>:
  an error of the outbox is only logged.
\<close>

definition emit :: "'w OutboxRepository option \<Rightarrow> 'w bus option \<Rightarrow> event list \<Rightarrow> 'w \<Rightarrow> 'w" where
  "emit ob bus evts w = (case ob of
       Some o1 \<Rightarrow> snd (Store o1 evts w)
     | None \<Rightarrow> (case bus of
           Some pub \<Rightarrow> fold pub evts w
         | None \<Rightarrow> w))"

definition Publish_log :: "('a env_scheme) bus" where
  "Publish_log e w = w\<lparr>bus_log := bus_log w @ [e]\<rparr>"

section \<open>What the environment operations change\<close>

text \<open>
  Elimination rules: the world after an environment operation as an update of the world before
  it, so that the simplifier computes every table and log of it.
\<close>

lemma db_callE:
  assumes "db_call w = (x, w1)"
  obtains f a where "w1 = w\<lparr>faults := f, tx_aborted := a\<rparr>"
  using assms by (cases w) (auto simp: db_call_def split: if_splits list.splits)

lemma time_nowE:
  assumes "time_now w = (t, w1)"
  obtains c ds where "w1 = w\<lparr>clock := c, delays := ds\<rparr>" "t = c" "clock w \<le> c"
proof (cases "delays w")
  case Nil
  with assms show thesis by (intro that [where c = "clock w" and ds = "[]"]) (auto simp: time_now_def)
next
  case (Cons d ds)
  with assms show thesis by (intro that [where c = "clock w + int d" and ds = ds]) (auto simp: time_now_def)
qed

lemma GenerateE:
  assumes "Generate p w = (x, w1)"
  obtains us where "w1 = w\<lparr>uuids := us\<rparr>"
  using assms by (cases w) (auto simp: Generate_def split: list.splits option.splits)

lemma MustGenerateE:
  assumes "MustGenerate p w = (x, w1)"
  obtains us where "w1 = w\<lparr>uuids := us\<rparr>"
  using assms by (auto simp: MustGenerate_def split: prod.splits sum.splits elim!: GenerateE)

lemma NewEventE:
  assumes "NewEvent tp s pl w = (x, w1)"
  obtains us c ds where "w1 = w\<lparr>uuids := us, clock := c, delays := ds\<rparr>"
    "\<And>e. x = Inr e \<Longrightarrow> evTopic e = tp \<and> evSource e = s \<and> evPayload e = pl"
    "\<And>er. x = Inl er \<Longrightarrow> is_panic er"
proof (cases "MustGenerate ''evt_'' w")
  case (Pair r v)
  then obtain us where v: "v = w\<lparr>uuids := us\<rparr>" by (rule MustGenerateE)
  show thesis
  proof (cases r)
    case (Inl e)
    with Pair have "is_panic e"
      by (auto simp: MustGenerate_def split: prod.splits sum.splits)
    with assms Pair Inl v show thesis
      by (intro that [where c = "clock w" and ds = "delays w" and us = us]) (auto simp: NewEvent_def)
  next
    case (Inr i)
    obtain t u where "time_now v = (t, u)" by fastforce
    with assms Pair Inr v show thesis
      by (auto simp: NewEvent_def elim!: time_nowE intro: that)
  qed
qed

lemma NewEventFromCtxE:
  assumes "NewEventFromCtx tp s pl w = (x, w1)"
  obtains us c ds where "w1 = w\<lparr>uuids := us, clock := c, delays := ds\<rparr>"
    "\<And>e. x = Inr e \<Longrightarrow> evTopic e = tp \<and> evSource e = s \<and> evPayload e = pl"
    "\<And>er. x = Inl er \<Longrightarrow> is_panic er"
proof (cases "NewEvent tp s pl w")
  case (Pair r v)
  then obtain us c ds where v: "v = w\<lparr>uuids := us, clock := c, delays := ds\<rparr>"
    "\<And>e. r = Inr e \<Longrightarrow> evTopic e = tp \<and> evSource e = s \<and> evPayload e = pl"
    "\<And>er. r = Inl er \<Longrightarrow> is_panic er" by (rule NewEventE) blast
  have "w1 = v"
    using assms Pair by (auto simp: NewEventFromCtx_def Let_def split: sum.splits)
  moreover have "x = Inl er \<Longrightarrow> r = Inl er" for er
    using assms Pair by (auto simp: NewEventFromCtx_def Let_def split: sum.splits)
  moreover have "x = Inr e \<Longrightarrow> evTopic e = tp \<and> evSource e = s \<and> evPayload e = pl" for e
    using assms Pair v(2)
    by (auto simp: NewEventFromCtx_def Let_def split: sum.splits option.splits)
  ultimately show thesis using v by (intro that [where c = c and ds = ds and us = us]) auto
qed

lemmas env_elims = db_callE time_nowE GenerateE MustGenerateE NewEventE NewEventFromCtxE

text \<open>A database that answers: no fault is left and no transaction is aborted.\<close>

definition db_calm :: "'a env_scheme \<Rightarrow> bool" where
  "db_calm w \<longleftrightarrow> \<not> tx_aborted w \<and> faults w = []"

lemma db_call_calm [simp]: "db_calm w \<Longrightarrow> db_call w = (Inr (), w)"
  by (simp add: db_calm_def db_call_def)

section \<open>Transactions\<close>

text \<open>
  What the services rely on when they wrap several writes in a transaction: an error leaves every
  table as it was, and a success is a successful run of the body whose tables are kept.
\<close>

locale tx_manager =
  fixes run :: "('a env_scheme, 'r) io \<Rightarrow> ('a env_scheme, 'r) io"
  assumes tx_err: "\<not> in_tx w \<Longrightarrow> run fn w = (Inl e, w') \<Longrightarrow> env.more w' = env.more w"
    and tx_ok: "\<not> in_tx w \<Longrightarrow> run fn w = (Inr r, w') \<Longrightarrow>
      \<exists>w0 w2. env.more w0 = env.more w \<and> in_tx w0 \<and> fn w0 = (Inr r, w2) \<and> env.more w' = env.more w2"
begin

text \<open>Two writes in one transaction: both are kept or neither is.\<close>

lemma tx_both:
  assumes "\<not> in_tx w"
    "run (\<lambda>w. case f w of (Inl e, w1) \<Rightarrow> (Inl e, w1) | (Inr u, w1) \<Rightarrow> g w1) w = (r, w')"
  shows "(case r of
      Inl e \<Rightarrow> env.more w' = env.more w
    | Inr x \<Rightarrow> \<exists>w0 u w1 w2. env.more w0 = env.more w \<and> in_tx w0 \<and> f w0 = (Inr u, w1) \<and>
        g w1 = (Inr x, w2) \<and> env.more w' = env.more w2)"
proof (cases r)
  case (Inl e)
  with assms show ?thesis by (simp add: tx_err)
next
  case (Inr x)
  with tx_ok [OF assms(1)] assms(2) obtain w0 w2 where
    w0: "env.more w0 = env.more w" "in_tx w0" "env.more w' = env.more w2"
    and b: "(case f w0 of (Inl e, w1) \<Rightarrow> (Inl e, w1) | (Inr u, w1) \<Rightarrow> g w1) = (Inr x, w2)"
    by blast
  obtain y w1 where f: "f w0 = (y, w1)" by fastforce
  with b obtain u where "y = Inr u" by (cases y) auto
  with b f have "g w1 = (Inr x, w2)" by simp
  with w0 f \<open>y = Inr u\<close> Inr show ?thesis by auto
qed

end

lemma more_update [simp]:
  "env.more (w\<lparr>faults := f\<rparr>) = env.more w" "env.more (w\<lparr>tx_aborted := a\<rparr>) = env.more w"
  "env.more (w\<lparr>in_tx := i\<rparr>) = env.more w"
  by (cases w; simp)+

lemma rollback_more [simp]: "env.more (rollback w0 w1) = env.more w0"
  by (cases w0) (simp add: rollback_def)

interpretation pg_tx: tx_manager "RunInTx_pg :: ('a env_scheme, 'r) io \<Rightarrow> _"
proof unfold_locales
  fix w :: "'a env_scheme" and fn :: "('a env_scheme, 'r) io" and e w'
  assume "\<not> in_tx w" "RunInTx_pg fn w = (Inl e, w')"
  then show "env.more w' = env.more w"
    by (auto simp: RunInTx_pg_def split: prod.splits sum.splits if_splits elim!: db_callE)
next
  fix w :: "'a env_scheme" and fn :: "('a env_scheme, 'r) io" and r w'
  assume "\<not> in_tx w" "RunInTx_pg fn w = (Inr r, w')"
  then obtain u w1 w2 where w1: "db_call w = (Inr u, w1)" "fn (w1\<lparr>in_tx := True\<rparr>) = (Inr r, w2)"
    and w': "\<exists>u w3. db_call w2 = (Inr u, w3) \<and> w' = w3\<lparr>in_tx := False\<rparr>"
    by (auto simp: RunInTx_pg_def split: prod.splits sum.splits if_splits)
  then have "env.more w1 = env.more w" "env.more w' = env.more w2" by (auto elim!: db_callE)
  with w1(2) show "\<exists>w0 w2. env.more w0 = env.more w \<and> in_tx w0 \<and> fn w0 = (Inr r, w2) \<and> env.more w' = env.more w2"
    by (intro exI [of _ "w1\<lparr>in_tx := True\<rparr>"] exI [of _ w2]) simp
qed

section \<open>Statements and what they leave alone\<close>

text \<open>A statement with its effect on the tables; one that violates a constraint is rejected.\<close>

definition sql :: "('a env_scheme, 'r) io \<Rightarrow> ('a env_scheme, 'r) io" where
  "sql f = bind_io db_call (\<lambda>_. f)"

definition reject :: "string \<Rightarrow> ('a env_scheme, 'r) io" where
  "reject msg w = (Inl (DbError msg), db_reject w)"

text \<open>A statement leaves every table, the open transaction and the clock alone unless its body changes them.\<close>

definition same_store :: "'a env_scheme \<Rightarrow> 'a env_scheme \<Rightarrow> bool" where
  "same_store w w' \<longleftrightarrow> env.more w' = env.more w \<and> in_tx w' = in_tx w \<and> clock w' = clock w"

lemma sql_fx:
  assumes "sql f w = (r, w')"
  shows "(\<exists>w1. same_store w w1 \<and> f w1 = (r, w')) \<or> (\<exists>m. r = Inl (DbError m) \<and> same_store w w')"
proof -
  obtain y w1 where y: "db_call w = (y, w1)" by fastforce
  then have "same_store w w1" by (auto simp: same_store_def elim!: db_callE)
  moreover have "\<forall>e. y = Inl e \<longrightarrow> (\<exists>m. e = DbError m)"
    using y by (auto simp: db_call_def split: if_splits list.splits)
  ultimately show ?thesis using assms y
    by (cases y) (auto simp: sql_def bind_io_def)
qed

lemma same_store_rel: "transp same_store" "reflp same_store"
  by (auto simp: same_store_def transp_def reflp_def)

lemma keeps_sql_read: "(\<And>w x w'. f w = (x, w') \<Longrightarrow> same_store w w') \<Longrightarrow> keeps same_store (sql f)"
  unfolding keeps_def using sql_fx transpD [OF same_store_rel(1)] by blast

lemma keeps_sql_pure: "keeps same_store (sql (\<lambda>w. (Inr (g w), w)))"
  by (rule keeps_sql_read) (simp add: same_store_def)

lemmas keeps_same = keeps_bind [OF same_store_rel(1)] keeps_pure [OF same_store_rel(2)] keeps_sql_pure

end
