(* ===== verification/Token.thy ===== *)
theory Token
  imports Events
begin

text \<open>
  Access tokens (\<open>pkg/token/jwt.go\<close>) and the middleware that checks them
  (\<open>internal/gateway/middleware/auth.go\<close>, \<open>internal/core/admin/middleware.go\<close>). HMAC-SHA256 under the
  manager's secret is \<open>jmMac\<close>, and the JSON of the claims is \<open>jmMarshal\<close> and \<open>jmUnmarshal\<close>; base64
  is written out.
\<close>

section \<open>Base64\<close>

text \<open>\<open>base64.RawURLEncoding\<close>: groups of three bytes as four characters, without padding.\<close>

definition b64_alphabet :: string where
  "b64_alphabet = ''ABCDEFGHIJKLMNOPQRSTUVWXYZabcdefghijklmnopqrstuvwxyz0123456789-_''"

definition b64_char :: "int \<Rightarrow> char" where
  "b64_char i = b64_alphabet ! nat i"

definition b64_val :: "char \<Rightarrow> int option" where
  "b64_val c = map_option int (find_index (\<lambda>x. x = c) b64_alphabet)"

fun b64_encode :: "string \<Rightarrow> string" where
  "b64_encode [] = []"
| "b64_encode [a] = (let n = of_char a * 16 in map b64_char [n div 64, n mod 64])"
| "b64_encode [a, b] = (let n = of_char a * 1024 + of_char b * 4 in
     map b64_char [n div 4096, n div 64 mod 64, n mod 64])"
| "b64_encode (a # b # c # s) = (let n = of_char a * 65536 + of_char b * 256 + of_char c in
     map b64_char [n div 262144, n div 4096 mod 64, n div 64 mod 64, n mod 64] @ b64_encode s)"

text \<open>The decoder skips line ends, and does not ask that unused bits are zero.\<close>

fun b64_groups :: "int list \<Rightarrow> string option" where
  "b64_groups [] = Some []"
| "b64_groups [x] = None"
| "b64_groups [x, y] = Some [char_of ((x * 64 + y) div 16)]"
| "b64_groups [x, y, z] = (let n = (x * 64 + y) * 64 + z in Some [char_of (n div 1024), char_of (n div 4 mod 256)])"
| "b64_groups (x # y # z # t # s) = (let n = ((x * 64 + y) * 64 + z) * 64 + t in
     map_option (\<lambda>r. char_of (n div 65536) # char_of (n div 256 mod 256) # char_of (n mod 256) # r) (b64_groups s))"

definition b64_decode :: "string \<Rightarrow> string option" where
  "b64_decode s = (let vs = map b64_val (filter (\<lambda>c. c \<noteq> CHR 0x0A \<and> c \<noteq> CHR 0x0D) s) in
     if None \<in> set vs then None else b64_groups (map the vs))"

section \<open>Tokens\<close>

record Claims =
  clmUserID :: string
  clmRole :: string
  clmExp :: int

record JWTManager =
  jmMac :: "string \<Rightarrow> string"
  jmMarshal :: "Claims \<Rightarrow> string"
  jmUnmarshal :: "string \<Rightarrow> err + Claims"

definition sign :: "JWTManager \<Rightarrow> string \<Rightarrow> string" where
  "sign m payload = b64_encode (jmMac m payload)"

definition unix :: "int \<Rightarrow> int" where "unix t = t div 1000000000"

definition jwtGenerate :: "JWTManager \<Rightarrow> string \<Rightarrow> string \<Rightarrow> int \<Rightarrow> ('a env_scheme, string) io" where
  "jwtGenerate m uid role d w = (case time_now w of (t, w1) \<Rightarrow>
     let payload = b64_encode (jmMarshal m \<lparr>clmUserID = uid, clmRole = role, clmExp = unix (t + d)\<rparr>)
     in (Inr (payload @ ''.'' @ sign m payload), w1))"

text \<open>\<open>strings.Split\<close> at a character.\<close>

fun go_split :: "char \<Rightarrow> string \<Rightarrow> string list" where
  "go_split c [] = [[]]"
| "go_split c (x # xs) = (if x = c then [] # go_split c xs
     else (case go_split c xs of [] \<Rightarrow> [[x]] | p # ps \<Rightarrow> (x # p) # ps))"

definition jwtValidate :: "JWTManager \<Rightarrow> string \<Rightarrow> ('a env_scheme, Claims) io" where
  "jwtValidate m tok w = (case go_split (CHR ''.'') tok of
       [payload, sig] \<Rightarrow>
         if sig \<noteq> sign m payload then (Inl (ErrText ''invalid signature''), w)
         else (case b64_decode payload of
             None \<Rightarrow> (Inl (ErrText ''illegal base64 data''), w)
           | Some bytes \<Rightarrow> (case jmUnmarshal m bytes of
               Inl e \<Rightarrow> (Inl e, w)
             | Inr c \<Rightarrow> (case time_now w of (t, w1) \<Rightarrow>
                 if clmExp c < unix t then (Inl (ErrText ''token expired''), w1) else (Inr c, w1))))
     | _ \<Rightarrow> (Inl (ErrText ''invalid token format''), w))"

section \<open>Middleware\<close>

text \<open>
  \<open>GinWriteError\<close> aborts the chain, so the handlers behind run exactly where the code calls
  \<open>Next\<close>. What they read from the request's context are the claims.
\<close>

definition bearer :: "string \<Rightarrow> string option" where
  "bearer header = (case go_split (CHR '' '') header of [s, tok] \<Rightarrow> if s = ''Bearer'' then Some tok else None | _ \<Rightarrow> None)"

definition AuthMiddleware ::
  "JWTManager \<Rightarrow> string \<Rightarrow> (Claims \<Rightarrow> ('a env_scheme, 'r) io) \<Rightarrow> ('a env_scheme, 'r) io" where
  "AuthMiddleware m header next =
     (if header = [] then fail_io (NewUnauthorized ''authorization header required'' None)
      else (case bearer header of
          None \<Rightarrow> fail_io (NewUnauthorized ''invalid authorization header format'' None)
        | Some tok \<Rightarrow>
            bind_io (on_error (\<lambda>e. NewUnauthorized ''invalid or expired token'' (Some e)) (jwtValidate m tok)) next))"

definition AdminOnlyMiddleware :: "string \<Rightarrow> ('w, 'r) io \<Rightarrow> ('w, 'r) io" where
  "AdminOnlyMiddleware role next =
     (if role \<noteq> ''admin'' then fail_io (NewForbidden ''forbidden: admin role required'' None) else next)"

text \<open>The admin group of the router: authentication, then the role, then the handler.\<close>

definition admin_group ::
  "JWTManager \<Rightarrow> string \<Rightarrow> (Claims \<Rightarrow> ('a env_scheme, 'r) io) \<Rightarrow> ('a env_scheme, 'r) io" where
  "admin_group m header handler = AuthMiddleware m header (\<lambda>c. AdminOnlyMiddleware (clmRole c) (handler c))"

section \<open>Base64 is decoded to what was encoded\<close>

lemma b64_chars:
  assumes "0 \<le> i" "i < 64"
  shows "b64_val (b64_char i) = Some i" "b64_char i \<notin> {CHR 0x0A, CHR 0x0D, CHR ''.'', CHR '' ''}"
proof -
  have "list_all (\<lambda>i. b64_val (b64_char i) = Some i \<and> b64_char i \<notin> {CHR 0x0A, CHR 0x0D, CHR ''.'', CHR '' ''}) [0..63]"
    by code_simp
  with assms show "b64_val (b64_char i) = Some i" "b64_char i \<notin> {CHR 0x0A, CHR 0x0D, CHR ''.'', CHR '' ''}"
    by (simp_all add: list_all_iff)
qed

text \<open>The six-bit values an encoder writes; its text is their characters.\<close>

fun b64_sextets :: "string \<Rightarrow> int list" where
  "b64_sextets [] = []"
| "b64_sextets [a] = (let n = of_char a * 16 in [n div 64, n mod 64])"
| "b64_sextets [a, b] = (let n = of_char a * 1024 + of_char b * 4 in [n div 4096, n div 64 mod 64, n mod 64])"
| "b64_sextets (a # b # c # s) = (let n = of_char a * 65536 + of_char b * 256 + of_char c in
     [n div 262144, n div 4096 mod 64, n div 64 mod 64, n mod 64] @ b64_sextets s)"

lemma b64_encode_sextets: "b64_encode s = map b64_char (b64_sextets s)"
  by (induction s rule: b64_encode.induct) (simp_all add: Let_def)

lemma byte_bound: "0 \<le> (of_char c :: int)" "of_char c < (256 :: int)"
proof -
  have "of_char c mod 256 = (of_char c :: int)" by (rule of_char_mod_256)
  then show "0 \<le> (of_char c :: int)" "of_char c < (256 :: int)"
    by (metis pos_mod_sign zero_less_numeral, metis pos_mod_bound zero_less_numeral)
qed

lemma b64_sextets_bound: "\<forall>i\<in>set (b64_sextets s). 0 \<le> i \<and> i < 64"
proof (induction s rule: b64_sextets.induct)
  case (2 a)
  have "of_char a * 16 div 64 < (64 :: int)" "0 \<le> of_char a * 16 div (64 :: int)" using byte_bound [of a] by linarith+
  then show ?case by (simp only: b64_sextets.simps Let_def) simp
next
  case (3 a b)
  have "(of_char a * 1024 + of_char b * 4) div 4096 < (64 :: int)"
    using byte_bound [of a] byte_bound [of b] by linarith
  then show ?case using byte_bound [of a] byte_bound [of b] by (auto simp: Let_def pos_imp_zdiv_nonneg_iff)
next
  case (4 a b c s)
  have "(of_char a * 65536 + of_char b * 256 + of_char c) div 262144 < (64 :: int)"
    using byte_bound [of a] byte_bound [of b] byte_bound [of c] by linarith
  with 4 show ?case using byte_bound [of a] byte_bound [of b] byte_bound [of c]
    by (auto simp: Let_def pos_imp_zdiv_nonneg_iff)
qed simp

lemma bytes_of_24 [simp]:
  fixes x y z :: int
  assumes "0 \<le> y" "y < 256" "0 \<le> z" "z < 256"
  shows "(x * 65536 + y * 256 + z) div 65536 = x" "(x * 65536 + y * 256 + z) div 256 mod 256 = y"
    "(x * 65536 + y * 256 + z) mod 256 = z"
proof -
  have "0 \<le> y * 256 + z" "y * 256 + z < 65536" using assms by linarith+
  then show "(x * 65536 + y * 256 + z) div 65536 = x"
    using div_mult_self3 [of 65536 x "y * 256 + z"] by (simp add: add.assoc div_pos_pos_trivial)
  have "x * 65536 + y * 256 + z = (x * 256 + y) * 256 + z" by simp
  then show "(x * 65536 + y * 256 + z) div 256 mod 256 = y" "(x * 65536 + y * 256 + z) mod 256 = z"
    using assms by (simp_all only: div_mult_self3 mod_mult_self3) (simp_all add: div_pos_pos_trivial mod_pos_pos_trivial)
qed

lemma join_sextets:
  fixes n :: int
  shows "n div 64 * 64 + n mod 64 = n" "(n div 4096 * 64 + n div 64 mod 64) * 64 + n mod 64 = n"
    "((n div 262144 * 64 + n div 4096 mod 64) * 64 + n div 64 mod 64) * 64 + n mod 64 = n"
proof -
  have d: "n div 262144 = n div 4096 div 64" "n div 4096 = n div 64 div 64" by (simp_all flip: zdiv_zmult2_eq)
  show "n div 64 * 64 + n mod 64 = n" by (rule div_mult_mod_eq)
  show "(n div 4096 * 64 + n div 64 mod 64) * 64 + n mod 64 = n"
    unfolding d(2) div_mult_mod_eq by (rule refl)
  show "((n div 262144 * 64 + n div 4096 mod 64) * 64 + n div 64 mod 64) * 64 + n mod 64 = n"
    unfolding d div_mult_mod_eq by (rule refl)
qed

lemma b64_groups_sextets: "b64_groups (b64_sextets s) = Some s"
proof (induction s rule: b64_sextets.induct)
  case (2 a)
  define n where "n = (of_char a * 16 :: int)"
  have "n div 16 = of_char a" by (simp add: n_def)
  then show ?case by (simp only: b64_sextets.simps b64_groups.simps Let_def join_sextets char_of_char flip: n_def)
next
  case (3 a b)
  define n where "n = (of_char a * 1024 + of_char b * 4 :: int)"
  have "n div 4 = of_char a * 256 + of_char b" "n div 1024 = of_char a"
    using byte_bound [of a] byte_bound [of b] unfolding n_def by linarith+
  moreover have "(of_char a * 256 + of_char b) mod 256 = (of_char b :: int)"
    using byte_bound [of b] by (simp add: mod_pos_pos_trivial)
  ultimately have "n div 1024 = of_char a" "n div 4 mod 256 = of_char b" by simp_all
  then show ?case by (simp only: b64_sextets.simps b64_groups.simps Let_def join_sextets char_of_char flip: n_def)
next
  case (4 a b c s)
  define n where "n = (of_char a * 65536 + of_char b * 256 + of_char c :: int)"
  have "n div 65536 = of_char a" "n div 256 mod 256 = of_char b" "n mod 256 = of_char c"
    using byte_bound [of b] byte_bound [of c] unfolding n_def by (rule bytes_of_24)+
  with 4 show ?case
    by (simp only: b64_sextets.simps b64_groups.simps append.simps Let_def join_sextets char_of_char option.map flip: n_def)
qed simp

lemma b64_roundtrip: "b64_decode (b64_encode s) = Some s"
proof -
  let ?is = "b64_sextets s"
  have f: "filter (\<lambda>c. c \<noteq> CHR 0x0A \<and> c \<noteq> CHR 0x0D) (map b64_char ?is) = map b64_char ?is"
    using b64_sextets_bound [of s] b64_chars(2) by (auto simp: filter_id_conv)
  have v: "map b64_val (map b64_char ?is) = map Some ?is"
    using b64_sextets_bound [of s] b64_chars(1) by simp
  show ?thesis unfolding b64_decode_def b64_encode_sextets f v
    by (simp add: b64_groups_sextets comp_def)
qed

section \<open>Generated tokens are accepted until they expire\<close>

lemma go_split_append:
  "c \<notin> set p \<Longrightarrow> go_split c (p @ c # s) = p # go_split c s"
  "c \<notin> set p \<Longrightarrow> go_split c p = [p]"
  by (induction p) auto

lemma go_split_join: "go_split c s = ps \<Longrightarrow> ps \<noteq> []"
  by (induction c s arbitrary: ps rule: go_split.induct) (auto split: if_splits list.splits)

lemma go_split_two: "go_split c s = [p, q] \<Longrightarrow> s = p @ c # q \<and> c \<notin> set p \<and> c \<notin> set q"
proof (induction s arbitrary: p)
  case (Cons x s)
  show ?case
  proof (cases "x = c")
    case True
    with Cons.prems have "p = []" "go_split c s = [q]" by auto
    moreover have "go_split c s = [q] \<Longrightarrow> s = q \<and> c \<notin> set s" for q
    proof (induction s arbitrary: q)
      case (Cons y s)
      then show ?case by (auto split: if_splits list.splits dest: go_split_join)
    qed auto
    ultimately show ?thesis using True by auto
  next
    case False
    with Cons.prems obtain p' where "go_split c s = [p', q]" "p = x # p'"
      by (auto split: list.splits)
    with Cons.IH False show ?thesis by auto
  qed
qed simp

lemma b64_encode_plain: "CHR ''.'' \<notin> set (b64_encode s)" "CHR '' '' \<notin> set (b64_encode s)"
proof -
  have "b64_char i \<noteq> CHR ''.'' \<and> b64_char i \<noteq> CHR '' ''" if "i \<in> set (b64_sextets s)" for i
    using that b64_sextets_bound [of s] b64_chars(2) [of i] by auto
  then show "CHR ''.'' \<notin> set (b64_encode s)" "CHR '' '' \<notin> set (b64_encode s)"
    unfolding b64_encode_sextets by fastforce+
qed

text \<open>C32. An access token says what it was made of: validated under the same secret, it yields the user and
the role it was generated for as long as its last second has not passed, and is refused as expired afterwards.
(\<open>jmUnmarshal\<close> reads back what \<open>jmMarshal\<close> wrote.)\<close>
theorem access_token_roundtrip:
  assumes "jwtGenerate m uid role d w = (Inr tok, w1)" and "clock w1 \<le> clock v" and "delays v = []"
    and json: "\<And>c. c = \<lparr>clmUserID = uid, clmRole = role, clmExp = unix (clock w1 + d)\<rparr> \<Longrightarrow> jmUnmarshal m (jmMarshal m c) = Inr c"
  shows "fst (jwtValidate m tok v) = (if unix (clock v) \<le> unix (clock w1 + d)
     then Inr \<lparr>clmUserID = uid, clmRole = role, clmExp = unix (clock w1 + d)\<rparr>
     else Inl (ErrText ''token expired''))"
proof -
  obtain t where t: "time_now w = (t, w1)" "t = clock w1"
    using assms(1) by (auto simp: jwtGenerate_def Let_def split: prod.splits elim!: time_nowE)
  let ?c = "\<lparr>clmUserID = uid, clmRole = role, clmExp = unix (t + d)\<rparr>"
  have tok: "tok = b64_encode (jmMarshal m ?c) @ CHR ''.'' # sign m (b64_encode (jmMarshal m ?c))"
    using assms(1) t by (auto simp: jwtGenerate_def Let_def)
  have "go_split (CHR ''.'') tok = [b64_encode (jmMarshal m ?c), sign m (b64_encode (jmMarshal m ?c))]"
    by (simp add: tok sign_def go_split_append b64_encode_plain)
  then show ?thesis using assms(3) t(2) json [of ?c]
    by (simp add: jwtValidate_def b64_roundtrip time_now_def not_less)
qed

text \<open>A token that passes validation, and what a request with a bearer header becomes.\<close>

lemma jwtValidate_fx:
  assumes "jwtValidate m tok w = (q, v)"
  shows "env.more v = env.more w \<and> (\<forall>c. q = Inr c \<longrightarrow> (\<exists>payload bytes. tok = payload @ ''.'' @ sign m payload \<and>
    b64_decode payload = Some bytes \<and> jmUnmarshal m bytes = Inr c \<and> unix (clock v) \<le> clmExp c))"
proof (intro conjI allI impI)
  show "env.more v = env.more w"
    using assms by (auto simp: jwtValidate_def split: list.splits if_splits option.splits sum.splits prod.splits elim!: time_nowE)
next
  fix c assume "q = Inr c"
  with assms obtain payload bytes t where p: "go_split (CHR ''.'') tok = [payload, sign m payload]"
    "b64_decode payload = Some bytes" "jmUnmarshal m bytes = Inr c" "time_now w = (t, v)" "\<not> clmExp c < unix t"
    by (auto simp: jwtValidate_def split: list.splits if_splits option.splits sum.splits prod.splits)
  moreover have "tok = payload @ ''.'' @ sign m payload" using go_split_two [OF p(1)] by simp
  moreover have "unix (clock v) \<le> clmExp c" using p(4,5) by (auto elim!: time_nowE)
  ultimately show "\<exists>payload bytes. tok = payload @ ''.'' @ sign m payload \<and> b64_decode payload = Some bytes \<and>
      jmUnmarshal m bytes = Inr c \<and> unix (clock v) \<le> clmExp c" by blast
qed

lemma admin_group_bearer:
  assumes "header \<noteq> []" "bearer header = Some tok"
  shows "header = ''Bearer '' @ tok"
    and "admin_group m header h w = bind_io (on_error (\<lambda>e. NewUnauthorized ''invalid or expired token'' (Some e))
        (jwtValidate m tok)) (\<lambda>c. AdminOnlyMiddleware (clmRole c) (h c)) w"
  using assms go_split_two [of "CHR '' ''" header]
  by (auto simp: bearer_def admin_group_def AuthMiddleware_def split: list.splits if_splits)

text \<open>C33. A handler of the admin group runs only for a signed, unexpired token whose role is \<open>admin\<close>, and with the
claims of that token; every other request is answered by an error and reaches no handler (the answer is
the same whatever the handler).\<close>
theorem admin_group_guarded:
  fixes handler :: "Claims \<Rightarrow> ('a env_scheme, 'r) io"
  assumes "admin_group m header handler w = (r, w1)"
  shows "(\<exists>payload bytes c v. header = ''Bearer '' @ payload @ ''.'' @ sign m payload \<and>
        b64_decode payload = Some bytes \<and> jmUnmarshal m bytes = Inr c \<and> clmRole c = ''admin'' \<and>
        env.more v = env.more w \<and> unix (clock v) \<le> clmExp c \<and> handler c v = (r, w1)) \<or>
     (\<exists>e. r = Inl e \<and> http_status e \<in> {401, 403} \<and> env.more w1 = env.more w \<and>
        (\<forall>handler'. admin_group m header handler' w = (r, w1)))"
proof -
  have denied: ?thesis if "\<And>h :: Claims \<Rightarrow> ('a env_scheme, 'r) io. admin_group m header h w = (Inl (AppError s x y), v)" "s = 401 \<or> s = 403"
      "env.more v = env.more w" for s x y v
    using that(1) [of handler] that assms by auto
  show ?thesis
  proof (cases "header = [] \<or> bearer header = None")
    case True
    then show ?thesis
      by (cases "header = []"; intro denied [of 401])
        (auto simp: admin_group_def AuthMiddleware_def NewUnauthorized_def)
  next
    case False
    then obtain tok where tok: "header \<noteq> []" "bearer header = Some tok" by auto
    obtain q v where q: "jwtValidate m tok w = (q, v)" by fastforce
    note fx = jwtValidate_fx [OF q] and run = admin_group_bearer(2) [OF tok]
    show ?thesis
    proof (cases q)
      case (Inl e)
      with q fx show ?thesis
        by (intro denied [of 401 _ _ v]) (auto simp: run bind_io_def on_error_def NewUnauthorized_def)
    next
      case (Inr c)
      show ?thesis
      proof (cases "clmRole c = ''admin''")
        case True
        then have "handler c v = (r, w1)"
          using assms q Inr by (simp add: run bind_io_def on_error_def AdminOnlyMiddleware_def)
        with True fx Inr admin_group_bearer(1) [OF tok] show ?thesis by blast
      next
        case False
        with q Inr fx show ?thesis
          by (intro denied [of 403 _ _ v]) (auto simp: run bind_io_def on_error_def AdminOnlyMiddleware_def NewForbidden_def)
      qed
    qed
  qed
qed

section \<open>Witnesses\<close>

definition sample_jwt :: JWTManager where
  "sample_jwt = \<lparr>jmMac = (\<lambda>p. ''key'' @ rev p),
     jmMarshal = (\<lambda>c. clmUserID c @ ''|'' @ clmRole c @ ''|'' @ itoa (clmExp c)),
     jmUnmarshal = (\<lambda>b. case go_split (CHR ''|'') b of
         [u, r, e] \<Rightarrow> (case atoi e of Some n \<Rightarrow> Inr \<lparr>clmUserID = u, clmRole = r, clmExp = n\<rparr> | None \<Rightarrow> Inl (ErrText ''json''))
       | _ \<Rightarrow> Inl (ErrText ''json''))\<rparr>"

definition sample_clock :: "int \<Rightarrow> env" where
  "sample_clock t = \<lparr>clock = t, delays = [], uuids = [], faults = [], ctx_trace = None, ctx_corr = None,
     in_tx = False, tx_aborted = False, bus_log = []\<rparr>"

theorem access_token_roundtrip_witness:
  "let g = jwtGenerate sample_jwt ''u1'' ''admin'' 9000000000 (sample_clock 1000000000) in \<exists>tok. fst g = Inr tok \<and>
     fst (jwtValidate sample_jwt tok (sample_clock 10999999999)) = Inr \<lparr>clmUserID = ''u1'', clmRole = ''admin'', clmExp = 10\<rparr> \<and>
     fst (jwtValidate sample_jwt tok (sample_clock 11000000000)) = Inl (ErrText ''token expired'')"
proof -
  obtain r w1 where g: "jwtGenerate sample_jwt ''u1'' ''admin'' 9000000000 (sample_clock 1000000000) = (r, w1)" by fastforce
  have "\<not> isl (fst (jwtGenerate sample_jwt ''u1'' ''admin'' 9000000000 (sample_clock 1000000000)))" by code_simp
  then obtain tok where tok: "r = Inr tok" using g by (cases r) auto
  have w1: "clock w1 = 1000000000"
    using g by (auto simp: jwtGenerate_def Let_def time_now_def sample_clock_def)
  have json: "jmUnmarshal sample_jwt (jmMarshal sample_jwt \<lparr>clmUserID = ''u1'', clmRole = ''admin'', clmExp = 10\<rparr>) =
      Inr \<lparr>clmUserID = ''u1'', clmRole = ''admin'', clmExp = 10\<rparr>" by code_simp
  have "fst (jwtValidate sample_jwt tok (sample_clock t)) = (if unix t \<le> 10
      then Inr \<lparr>clmUserID = ''u1'', clmRole = ''admin'', clmExp = 10\<rparr> else Inl (ErrText ''token expired''))"
    if "1000000000 \<le> t" for t
    using access_token_roundtrip [OF g [unfolded tok], of "sample_clock t"] that w1 json
    by (simp add: sample_clock_def unix_def)
  with g tok show ?thesis by (simp add: Let_def unix_def)
qed

theorem admin_group_guarded_witness:
  "let handler = (\<lambda>c. return_io (clmUserID c)); v = sample_clock 5;
     tok = (\<lambda>role. projr (fst (jwtGenerate sample_jwt ''u1'' role 9000000000 (sample_clock 0))))
   in fst (admin_group sample_jwt (''Bearer '' @ tok ''admin'') handler v) = Inr ''u1'' \<and>
      (\<exists>e. fst (admin_group sample_jwt (''Bearer '' @ tok ''merchant'') handler v) = Inl e \<and> http_status e \<in> {401, 403})"
proof -
  let ?h = "\<lambda>c :: Claims. return_io (clmUserID c) :: (env, string) io"
  let ?tok = "\<lambda>role. projr (fst (jwtGenerate sample_jwt ''u1'' role 9000000000 (sample_clock 0)))"
  have "fst (admin_group sample_jwt (''Bearer '' @ ?tok ''admin'') ?h (sample_clock 5)) = Inr ''u1''" by code_simp
  moreover obtain r w1 where run: "admin_group sample_jwt (''Bearer '' @ ?tok ''merchant'') ?h (sample_clock 5) = (r, w1)" by fastforce
  moreover have "isl (fst (admin_group sample_jwt (''Bearer '' @ ?tok ''merchant'') ?h (sample_clock 5)))" by code_simp
  ultimately show ?thesis using admin_group_guarded [OF run] by (auto simp: Let_def)
qed

end
