(* ===== verification/Auth.thy ===== *)
theory Auth
  imports Token
begin

text \<open>
  Accounts, sessions and password resets: \<open>internal/core/auth/service.go\<close> over its two repositories.
  bcrypt is \<open>auHash\<close> (which may refuse a password, and whose salt is drawn outside the model) and
  \<open>auCompare\<close>.
\<close>

section \<open>Data\<close>

record User =
  usrID :: string
  usrEmail :: string
  usrPassword :: string
  usrOIDCSub :: string
  usrRole :: string
  usrCreatedAt :: int
  usrUpdatedAt :: int
  usrFailedLoginAttempts :: int
  usrLockedUntil :: "int option"

record Session =
  sesAccessToken :: string
  sesRefreshToken :: string
  sesExpiresAt :: int

record RefreshToken =
  rtID :: string
  rtUserID :: string
  rtToken :: string
  rtExpiresAt :: int
  rtCreatedAt :: int
  rtRevoked :: bool

record PasswordResetToken =
  prtID :: string
  prtUserID :: string
  prtToken :: string
  prtExpiresAt :: int
  prtUsed :: bool

definition ErrUserNotFound :: err where [go_defs]: "ErrUserNotFound = Sentinel ''auth'' ''user not found''"
definition ErrInvalidCredentials :: err where
  [go_defs]: "ErrInvalidCredentials = Sentinel ''auth'' ''invalid credentials''"
definition ErrEmailAlreadyExists :: err where
  [go_defs]: "ErrEmailAlreadyExists = Sentinel ''auth'' ''email already exists''"
definition ErrTokenExpired :: err where [go_defs]: "ErrTokenExpired = Sentinel ''auth'' ''token has expired''"
definition ErrTokenRevoked :: err where [go_defs]: "ErrTokenRevoked = Sentinel ''auth'' ''token has been revoked''"
definition ErrResetTokenUsed :: err where [go_defs]: "ErrResetTokenUsed = Sentinel ''auth'' ''reset token already used''"
definition ErrResetTokenInvalid :: err where
  [go_defs]: "ErrResetTokenInvalid = Sentinel ''auth'' ''invalid reset token''"

record 'w UserRepository =
  urCreate :: "User \<Rightarrow> ('w, unit) io"
  urGetByEmail :: "string \<Rightarrow> ('w, User) io"
  urGetByID :: "string \<Rightarrow> ('w, User) io"
  urUpdatePassword :: "string \<Rightarrow> string \<Rightarrow> ('w, unit) io"
  urUpdate :: "User \<Rightarrow> ('w, unit) io"
  urGetByOIDCSub :: "string \<Rightarrow> ('w, User) io"

record 'w TokenRepository =
  trSaveRefreshToken :: "RefreshToken \<Rightarrow> ('w, unit) io"
  trGetRefreshToken :: "string \<Rightarrow> ('w, RefreshToken) io"
  trRevokeRefreshToken :: "string \<Rightarrow> ('w, unit) io"
  trRevokeAllUserTokens :: "string \<Rightarrow> ('w, unit) io"
  trGetActiveRefreshTokens :: "string \<Rightarrow> ('w, RefreshToken list) io"
  trSavePasswordResetToken :: "PasswordResetToken \<Rightarrow> ('w, unit) io"
  trGetPasswordResetToken :: "string \<Rightarrow> ('w, PasswordResetToken) io"
  trMarkPasswordResetUsed :: "string \<Rightarrow> ('w, unit) io"
  trInvalidateUserResetTokens :: "string \<Rightarrow> ('w, unit) io"

text \<open>\<open>auSkipLimits\<close> says that the environment variable \<open>SKIP_RATE_LIMIT\<close> is \<open>true\<close>.\<close>

record 'w authService =
  auUsers :: "'w UserRepository"
  auTokens :: "'w TokenRepository"
  auJwt :: JWTManager
  auRunInTx :: "('w, unit) io \<Rightarrow> ('w, unit) io"
  auHash :: "string \<Rightarrow> err + string"
  auCompare :: "string \<Rightarrow> string \<Rightarrow> bool"
  auSkipLimits :: bool

section \<open>Opaque tokens\<close>

text \<open>
  A world with the bytes that \<open>crypto/rand\<close> is going to return, 32 for every call; \<open>None\<close>, or an
  exhausted tape, is its error.
\<close>

record rand_env = env +
  randoms :: "nat list option list"

definition hex_digit :: "nat \<Rightarrow> char" where "hex_digit n = ''0123456789abcdef'' ! n"

definition hex_encode :: "nat list \<Rightarrow> string" where
  "hex_encode bs = concat (map (\<lambda>b. [hex_digit (b div 16 mod 16), hex_digit (b mod 16)]) bs)"

definition generateOpaqueToken :: "('a rand_env_scheme, string) io" where
  "generateOpaqueToken w = (case randoms w of
       [] \<Rightarrow> (Inl (ErrText ''rand''), w)
     | None # rs \<Rightarrow> (Inl (ErrText ''rand''), w\<lparr>randoms := rs\<rparr>)
     | Some bs # rs \<Rightarrow> (Inr (hex_encode bs), w\<lparr>randoms := rs\<rparr>))"

definition minutes :: "int \<Rightarrow> int" where "minutes n = n * 60 * 1000000000"

definition accessTokenDuration :: int where "accessTokenDuration = minutes 15"
definition refreshTokenDuration :: int where "refreshTokenDuration = minutes (7 * 24 * 60)"

section \<open>Registration and login\<close>

definition role_allowed :: "bool \<Rightarrow> string \<Rightarrow> bool" where
  "role_allowed skip role \<longleftrightarrow> role = ''customer'' \<or> role = ''merchant'' \<or> role = ''admin'' \<and> skip"

definition Register ::
  "('a rand_env_scheme) authService \<Rightarrow> string \<Rightarrow> string \<Rightarrow> string \<Rightarrow> ('a rand_env_scheme, User) io" where
  "Register s email password role w =
     (if \<not> role_allowed (auSkipLimits s) role
      then (Inl (NewBadRequest ''invalid role choice''
          (Some (ErrText ''registration role must be customer or merchant''))), w)
      else (case time_now w of (now, w1) \<Rightarrow> (case urGetByEmail (auUsers s) email w1 of
          (Inr u, w2) \<Rightarrow> (Inl (NewConflict ''email already registered'' (Some ErrEmailAlreadyExists)), w2)
        | (Inl e, w2) \<Rightarrow>
            if \<not> errors_is e ErrUserNotFound
            then (Inl (NewInternal ''failed to check email availability'' (Some e)), w2)
            else (case auHash s password of
                Inl e \<Rightarrow> (Inl (NewInternal ''failed to process password securely'' (Some e)), w2)
              | Inr h \<Rightarrow>
                  bind_io (on_error (\<lambda>e. NewInternal ''failed to process registration'' (Some e)) (Generate ''usr_''))
                    (\<lambda>uid. let user = \<lparr>usrID = uid, usrEmail = email, usrPassword = h, usrOIDCSub = [], usrRole = role,
                        usrCreatedAt = now, usrUpdatedAt = now, usrFailedLoginAttempts = 0, usrLockedUntil = None\<rparr> in
                      bind_io (on_error (\<lambda>e. NewInternal ''failed to save user record'' (Some e)) (urCreate (auUsers s) user))
                        (\<lambda>_. return_io user)) w2))))"

text \<open>\<open>enforceMaxSessions\<close> revokes the oldest active sessions so that at most four are left.\<close>

definition enforceMaxSessions :: "'w authService \<Rightarrow> string \<Rightarrow> ('w, unit) io" where
  "enforceMaxSessions s uid = bind_io (trGetActiveRefreshTokens (auTokens s) uid) (\<lambda>active.
     if 5 \<le> length active
     then for_each (\<lambda>t. trRevokeRefreshToken (auTokens s) (rtToken t)) (take (length active - 4) active)
     else return_io ())"

definition new_refresh_token :: "string \<Rightarrow> string \<Rightarrow> int \<Rightarrow> RefreshToken" where
  "new_refresh_token uid tok now = \<lparr>rtID = ''rt_'' @ take 12 tok, rtUserID = uid, rtToken = tok,
     rtExpiresAt = now + refreshTokenDuration, rtCreatedAt = now, rtRevoked = False\<rparr>"

definition bad_credentials :: err where
  "bad_credentials = NewUnauthorized ''invalid email or password'' (Some ErrInvalidCredentials)"

text \<open>A wrong password: the failure is counted, and the fifth one locks the account for 15 minutes.\<close>

definition record_failure :: "'w authService \<Rightarrow> User \<Rightarrow> int \<Rightarrow> ('w, 'r) io" where
  "record_failure s user now = (let n = wrap64 (usrFailedLoginAttempts user + 1);
     user1 = user\<lparr>usrFailedLoginAttempts := n, usrUpdatedAt := now,
       usrLockedUntil := (if 5 \<le> n then Some (now + minutes 15) else usrLockedUntil user)\<rparr>
   in bind_io (on_error (\<lambda>e. NewInternal ''failed to update login attempts'' (Some e)) (urUpdate (auUsers s) user1))
     (\<lambda>_. fail_io bad_credentials))"

definition reset_failures :: "'w authService \<Rightarrow> User \<Rightarrow> int \<Rightarrow> ('w, unit) io" where
  "reset_failures s user now = (if 0 < usrFailedLoginAttempts user \<or> usrLockedUntil user \<noteq> None
     then on_error (\<lambda>e. NewInternal ''failed to reset login attempts'' (Some e))
       (urUpdate (auUsers s) (user\<lparr>usrFailedLoginAttempts := 0, usrLockedUntil := None, usrUpdatedAt := now\<rparr>))
     else return_io ())"

definition open_session ::
  "('a rand_env_scheme) authService \<Rightarrow> User \<Rightarrow> int \<Rightarrow> ('a rand_env_scheme, Session) io" where
  "open_session s user now =
     bind_io (on_error (\<lambda>e. NewInternal ''failed to issue access token'' (Some e))
       (jwtGenerate (auJwt s) (usrID user) (usrRole user) accessTokenDuration)) (\<lambda>access.
     bind_io (on_error (\<lambda>e. NewInternal ''failed to generate secure refresh token'' (Some e)) generateOpaqueToken) (\<lambda>tok.
     bind_io (on_error (\<lambda>e. NewInternal ''failed to persist session'' (Some e))
       (auRunInTx s (bind_io (enforceMaxSessions s (usrID user))
         (\<lambda>_. trSaveRefreshToken (auTokens s) (new_refresh_token (usrID user) tok now)))))
     (\<lambda>_. return_io \<lparr>sesAccessToken = access, sesRefreshToken = tok, sesExpiresAt = now + accessTokenDuration\<rparr>)))"

definition locked_at :: "User \<Rightarrow> int \<Rightarrow> bool" where
  "locked_at u t \<longleftrightarrow> (case usrLockedUntil u of None \<Rightarrow> False | Some l \<Rightarrow> t < l)"

definition Login ::
  "('a rand_env_scheme) authService \<Rightarrow> string \<Rightarrow> string \<Rightarrow> ('a rand_env_scheme, Session) io" where
  "Login s email password w = (case time_now w of (now, w1) \<Rightarrow> (case urGetByEmail (auUsers s) email w1 of
       (Inl e, w2) \<Rightarrow> (Inl bad_credentials, w2)
     | (Inr user, w2) \<Rightarrow>
         if locked_at user now
         then (Inl (NewUnauthorized ''account is temporarily locked due to too many failed attempts''
             (Some (ErrText ''account locked''))), w2)
         else if \<not> auCompare s (usrPassword user) password then record_failure s user now w2
         else bind_io (reset_failures s user now) (\<lambda>_. open_session s user now) w2))"

section \<open>Sessions\<close>

definition Logout :: "'w authService \<Rightarrow> string \<Rightarrow> ('w, unit) io" where
  "Logout s tok w = (case trRevokeRefreshToken (auTokens s) tok w of
       (Inr _, w1) \<Rightarrow> (Inr (), w1)
     | (Inl e, w1) \<Rightarrow>
         if errors_is e ErrTokenRevoked \<or> errors_is e ErrTokenExpired then (Inr (), w1)
         else (Inl (NewInternal ''failed to revoke session token'' (Some e)), w1))"

text \<open>The rotation: make room, store the new token, revoke the old one, in one transaction.\<close>

definition rotate ::
  "('a rand_env_scheme) authService \<Rightarrow> User \<Rightarrow> string \<Rightarrow> int \<Rightarrow> ('a rand_env_scheme, Session) io" where
  "rotate s user old now =
     bind_io (on_error (\<lambda>e. NewInternal ''failed to issue access token'' (Some e))
       (jwtGenerate (auJwt s) (usrID user) (usrRole user) accessTokenDuration)) (\<lambda>access.
     bind_io (on_error (\<lambda>e. NewInternal ''failed to generate new refresh token'' (Some e)) generateOpaqueToken) (\<lambda>tok.
     bind_io (on_error (\<lambda>e. NewInternal ''failed to rotate refresh token'' (Some e))
       (auRunInTx s (bind_io (enforceMaxSessions s (usrID user))
         (\<lambda>_. bind_io (trSaveRefreshToken (auTokens s) (new_refresh_token (usrID user) tok now))
           (\<lambda>_. trRevokeRefreshToken (auTokens s) old)))))
     (\<lambda>_. return_io \<lparr>sesAccessToken = access, sesRefreshToken = tok, sesExpiresAt = now + accessTokenDuration\<rparr>)))"

definition RefreshSession ::
  "('a rand_env_scheme) authService \<Rightarrow> string \<Rightarrow> ('a rand_env_scheme, Session) io" where
  "RefreshSession s tok w = (case time_now w of (now, w1) \<Rightarrow>
     bind_io (on_error (\<lambda>e. NewUnauthorized ''invalid or expired refresh token'' (Some e))
         (trGetRefreshToken (auTokens s) tok)) (\<lambda>t.
       if rtRevoked t then fail_io (NewUnauthorized ''refresh token has been revoked'' (Some ErrTokenRevoked))
       else if rtExpiresAt t < now then fail_io (NewUnauthorized ''refresh token has expired'' (Some ErrTokenExpired))
       else bind_io (on_error (\<lambda>e. NewUnauthorized ''user not found'' (Some e)) (urGetByID (auUsers s) (rtUserID t)))
         (\<lambda>user. rotate s user tok now)) w1)"

section \<open>Password resets\<close>

definition dummy_reset_token :: "int \<Rightarrow> PasswordResetToken" where
  "dummy_reset_token now = \<lparr>prtID = ''pr_dummy'', prtUserID = ''usr_dummy'', prtToken = ''dummy-token'',
     prtExpiresAt = now + minutes 60, prtUsed = False\<rparr>"

definition RequestPasswordReset ::
  "('a rand_env_scheme) authService \<Rightarrow> string \<Rightarrow> ('a rand_env_scheme, PasswordResetToken) io" where
  "RequestPasswordReset s email w = (case time_now w of (now, w1) \<Rightarrow> (case urGetByEmail (auUsers s) email w1 of
       (Inl e, w2) \<Rightarrow>
         if errors_is e ErrUserNotFound then (Inr (dummy_reset_token now), w2)
         else (Inl (NewInternal ''failed to process password reset request'' (Some e)), w2)
     | (Inr user, w2) \<Rightarrow>
         bind_io (on_error (\<lambda>e. NewInternal ''failed to generate reset token'' (Some e)) generateOpaqueToken) (\<lambda>tok.
           let t = \<lparr>prtID = ''pr_'' @ take 12 tok, prtUserID = usrID user, prtToken = tok,
             prtExpiresAt = now + minutes 60, prtUsed = False\<rparr> in
           bind_io (on_error (\<lambda>e. NewInternal ''failed to save reset token'' (Some e))
             (auRunInTx s (bind_io (trInvalidateUserResetTokens (auTokens s) (usrID user))
               (\<lambda>_. trSavePasswordResetToken (auTokens s) t)))) (\<lambda>_. return_io t)) w2))"

definition ConfirmPasswordReset ::
  "('a rand_env_scheme) authService \<Rightarrow> string \<Rightarrow> string \<Rightarrow> ('a rand_env_scheme, unit) io" where
  "ConfirmPasswordReset s tok password w = (case time_now w of (now, w1) \<Rightarrow>
     bind_io (on_error (\<lambda>e. NewBadRequest ''invalid password reset token'' (Some ErrResetTokenInvalid))
         (trGetPasswordResetToken (auTokens s) tok)) (\<lambda>t.
       if prtUsed t then fail_io (NewBadRequest ''password reset token already used'' (Some ErrResetTokenUsed))
       else if prtExpiresAt t < now then fail_io (NewBadRequest ''password reset token expired'' (Some ErrTokenExpired))
       else (case auHash s password of
           Inl e \<Rightarrow> fail_io (NewInternal ''failed to hash password'' (Some e))
         | Inr h \<Rightarrow> on_error (\<lambda>e. NewInternal ''failed to secure password reset'' (Some e))
             (auRunInTx s (bind_io (urUpdatePassword (auUsers s) (prtUserID t) h)
               (\<lambda>_. bind_io (trMarkPasswordResetUsed (auTokens s) tok)
                 (\<lambda>_. trRevokeAllUserTokens (auTokens s) (prtUserID t))))))) w1)"

section \<open>Users of an external identity provider\<close>

definition SyncOIDCUser ::
  "('a rand_env_scheme) authService \<Rightarrow> string \<Rightarrow> string \<Rightarrow> string \<Rightarrow> ('a rand_env_scheme, User) io" where
  "SyncOIDCUser s sub email role w = (case time_now w of (now, w1) \<Rightarrow> (case urGetByOIDCSub (auUsers s) sub w1 of
       (Inr user, w2) \<Rightarrow> (Inr user, w2)
     | (Inl e, w2) \<Rightarrow>
         if \<not> errors_is e ErrUserNotFound then (Inl (NewInternal ''failed to sync user identity'' (Some e)), w2)
         else (case urGetByEmail (auUsers s) email w2 of
             (Inr user, w3) \<Rightarrow> (let user1 = user\<lparr>usrOIDCSub := sub, usrUpdatedAt := now\<rparr> in
               bind_io (on_error (\<lambda>e. NewInternal ''failed to sync user identity association'' (Some e))
                 (urUpdate (auUsers s) user1)) (\<lambda>_. return_io user1) w3)
           | (Inl e, w3) \<Rightarrow>
               if \<not> errors_is e ErrUserNotFound
               then (Inl (NewInternal ''failed to sync user identity'' (Some e)), w3)
               else bind_io (on_error (\<lambda>e. NewInternal ''failed to provision user identity'' (Some e)) (Generate ''usr_''))
                 (\<lambda>uid. let user = \<lparr>usrID = uid, usrEmail = email, usrPassword = [], usrOIDCSub = sub,
                     usrRole = (if role = [] then ''customer'' else role), usrCreatedAt = now, usrUpdatedAt = now,
                     usrFailedLoginAttempts = 0, usrLockedUntil = None\<rparr> in
                   bind_io (on_error (\<lambda>e. NewInternal ''failed to create synchronized user record'' (Some e))
                     (urCreate (auUsers s) user)) (\<lambda>_. return_io user)) w3)))"

text \<open>The middleware over a validator of the provider's tokens: subject, email, and roles of which the first counts.\<close>

definition OIDCAuthMiddleware ::
  "(string \<Rightarrow> ('a rand_env_scheme, string \<times> string \<times> string list) io) \<Rightarrow> ('a rand_env_scheme) authService \<Rightarrow>
    string \<Rightarrow> (User \<Rightarrow> ('a rand_env_scheme, 'r) io) \<Rightarrow> ('a rand_env_scheme, 'r) io" where
  "OIDCAuthMiddleware validate s header next =
     (if header = [] then fail_io (NewUnauthorized ''authorization header required'' None)
      else (case bearer header of
          None \<Rightarrow> fail_io (NewUnauthorized ''invalid authorization header format'' None)
        | Some tok \<Rightarrow>
            bind_io (on_error (\<lambda>e. NewUnauthorized ''invalid or expired external token'' (Some e)) (validate tok))
              (\<lambda>(sub, email, roles). bind_io (on_error (\<lambda>e. NewInternal ''failed to sync authenticated user'' (Some e))
                (SyncOIDCUser s sub email (if roles = [] then ''customer'' else hd roles))) next)))"

end
