(* ===== verification/AuthPg.thy ===== *)
theory AuthPg
  imports Auth
begin

text \<open>
  The PostgreSQL repositories of accounts and tokens (\<open>internal/infra/db/postgres/auth\<close>) over the
  tables of \<open>migrations/postgres/core\<close>: unique e-mails and tokens, foreign keys, column widths. Rows
  are written by this code only, so \<open>oidc_sub\<close> is never NULL.
\<close>

record auth_db = rand_env +
  users_tbl :: "User list"
  rtokens_tbl :: "RefreshToken list"
  ptokens_tbl :: "PasswordResetToken list"

section \<open>Users\<close>

definition user_fits :: "User \<Rightarrow> bool" where
  "user_fits u \<longleftrightarrow> length (usrID u) \<le> 255 \<and> length (usrEmail u) \<le> 255 \<and> length (usrPassword u) \<le> 255 \<and>
     length (usrOIDCSub u) \<le> 255 \<and> length (usrRole u) \<le> 50 \<and> i32 (usrFailedLoginAttempts u)"

definition usrCreate_pg :: "User \<Rightarrow> ('a auth_db_scheme, unit) io" where
  "usrCreate_pg u = sql (\<lambda>w.
     if \<not> user_fits u then reject ''value too long'' w
     else if usrID u \<in> usrID ` set (users_tbl w) \<or> usrEmail u \<in> usrEmail ` set (users_tbl w)
     then (Inl ErrEmailAlreadyExists, db_reject w)
     else (Inr (), w\<lparr>users_tbl := users_tbl w @ [u]\<rparr>))"

definition find_user :: "(User \<Rightarrow> bool) \<Rightarrow> ('a auth_db_scheme, User) io" where
  "find_user P = sql (\<lambda>w. (case List.find P (users_tbl w) of None \<Rightarrow> (Inl ErrUserNotFound, w) | Some u \<Rightarrow> (Inr u, w)))"

definition usrGetByEmail_pg :: "string \<Rightarrow> ('a auth_db_scheme, User) io" where
  "usrGetByEmail_pg email = find_user (\<lambda>u. usrEmail u = email)"

definition usrGetByID_pg :: "string \<Rightarrow> ('a auth_db_scheme, User) io" where
  "usrGetByID_pg i = find_user (\<lambda>u. usrID u = i)"

definition usrGetByOIDCSub_pg :: "string \<Rightarrow> ('a auth_db_scheme, User) io" where
  "usrGetByOIDCSub_pg sub = find_user (\<lambda>u. usrOIDCSub u = sub)"

definition usrUpdatePassword_pg :: "string \<Rightarrow> string \<Rightarrow> ('a auth_db_scheme, unit) io" where
  "usrUpdatePassword_pg i h = sql (\<lambda>w.
     if i \<notin> usrID ` set (users_tbl w) then (Inl ErrUserNotFound, w)
     else if 255 < length h then reject ''value too long'' w
     else (Inr (), w\<lparr>users_tbl := map (\<lambda>r. if usrID r = i then r\<lparr>usrPassword := h\<rparr> else r) (users_tbl w)\<rparr>))"

text \<open>\<open>Update\<close> writes every column but \<open>created_at\<close>.\<close>

definition usrUpdate_pg :: "User \<Rightarrow> ('a auth_db_scheme, unit) io" where
  "usrUpdate_pg u = sql (\<lambda>w.
     if usrID u \<notin> usrID ` set (users_tbl w) then (Inl ErrUserNotFound, w)
     else if \<not> user_fits u then reject ''value out of range'' w
     else if \<exists>r\<in>set (users_tbl w). usrID r \<noteq> usrID u \<and> usrEmail r = usrEmail u then reject ''duplicate key'' w
     else (Inr (), w\<lparr>users_tbl := map (\<lambda>r. if usrID r = usrID u then u\<lparr>usrCreatedAt := usrCreatedAt r\<rparr> else r) (users_tbl w)\<rparr>))"

definition user_repo_pg :: "('a auth_db_scheme) UserRepository" where
  "user_repo_pg = \<lparr>urCreate = usrCreate_pg, urGetByEmail = usrGetByEmail_pg, urGetByID = usrGetByID_pg,
     urUpdatePassword = usrUpdatePassword_pg, urUpdate = usrUpdate_pg, urGetByOIDCSub = usrGetByOIDCSub_pg\<rparr>"

section \<open>Tokens\<close>

definition SaveRefreshToken_pg :: "RefreshToken \<Rightarrow> ('a auth_db_scheme, unit) io" where
  "SaveRefreshToken_pg t = sql (\<lambda>w.
     if 255 < length (rtID t) \<or> 255 < length (rtToken t) then reject ''value too long'' w
     else if rtID t \<in> rtID ` set (rtokens_tbl w) \<or> rtToken t \<in> rtToken ` set (rtokens_tbl w) then reject ''duplicate key'' w
     else if rtUserID t \<notin> usrID ` set (users_tbl w) then reject ''foreign key violation'' w
     else (Inr (), w\<lparr>rtokens_tbl := rtokens_tbl w @ [t]\<rparr>))"

definition GetRefreshToken_pg :: "string \<Rightarrow> ('a auth_db_scheme, RefreshToken) io" where
  "GetRefreshToken_pg tok = sql (\<lambda>w. (case row_of rtToken (rtokens_tbl w) tok of
       None \<Rightarrow> (Inl ErrTokenRevoked, w)
     | Some t \<Rightarrow> (Inr t, w)))"

definition RevokeRefreshToken_pg :: "string \<Rightarrow> ('a auth_db_scheme, unit) io" where
  "RevokeRefreshToken_pg tok = sql (\<lambda>w.
     if tok \<notin> rtToken ` set (rtokens_tbl w) then (Inl ErrTokenRevoked, w)
     else (Inr (), w\<lparr>rtokens_tbl := map (\<lambda>r. if rtToken r = tok then r\<lparr>rtRevoked := True\<rparr> else r) (rtokens_tbl w)\<rparr>))"

definition RevokeAllUserTokens_pg :: "string \<Rightarrow> ('a auth_db_scheme, unit) io" where
  "RevokeAllUserTokens_pg uid = sql (\<lambda>w. (Inr (), w\<lparr>rtokens_tbl :=
     map (\<lambda>r. if rtUserID r = uid \<and> \<not> rtRevoked r then r\<lparr>rtRevoked := True\<rparr> else r) (rtokens_tbl w)\<rparr>))"

text \<open>The clock is read for the statement's parameter, before the statement is sent.\<close>

definition active_at :: "string \<Rightarrow> int \<Rightarrow> RefreshToken \<Rightarrow> bool" where
  "active_at uid t r \<longleftrightarrow> rtUserID r = uid \<and> \<not> rtRevoked r \<and> t < rtExpiresAt r"

definition GetActiveRefreshTokens_pg :: "string \<Rightarrow> ('a auth_db_scheme, RefreshToken list) io" where
  "GetActiveRefreshTokens_pg uid w = (case time_now w of (t, w1) \<Rightarrow>
     sql (\<lambda>w. (Inr (sort_key rtCreatedAt (filter (active_at uid t) (rtokens_tbl w))), w)) w1)"

definition SavePasswordResetToken_pg :: "PasswordResetToken \<Rightarrow> ('a auth_db_scheme, unit) io" where
  "SavePasswordResetToken_pg t = sql (\<lambda>w.
     if 255 < length (prtID t) \<or> 255 < length (prtToken t) then reject ''value too long'' w
     else if prtID t \<in> prtID ` set (ptokens_tbl w) \<or> prtToken t \<in> prtToken ` set (ptokens_tbl w) then reject ''duplicate key'' w
     else if prtUserID t \<notin> usrID ` set (users_tbl w) then reject ''foreign key violation'' w
     else (Inr (), w\<lparr>ptokens_tbl := ptokens_tbl w @ [t]\<rparr>))"

definition GetPasswordResetToken_pg :: "string \<Rightarrow> ('a auth_db_scheme, PasswordResetToken) io" where
  "GetPasswordResetToken_pg tok = sql (\<lambda>w. (case row_of prtToken (ptokens_tbl w) tok of
       None \<Rightarrow> (Inl ErrResetTokenInvalid, w)
     | Some t \<Rightarrow> (Inr t, w)))"

definition MarkPasswordResetUsed_pg :: "string \<Rightarrow> ('a auth_db_scheme, unit) io" where
  "MarkPasswordResetUsed_pg tok = sql (\<lambda>w.
     if tok \<notin> prtToken ` set (ptokens_tbl w) then (Inl ErrResetTokenInvalid, w)
     else (Inr (), w\<lparr>ptokens_tbl := map (\<lambda>r. if prtToken r = tok then r\<lparr>prtUsed := True\<rparr> else r) (ptokens_tbl w)\<rparr>))"

definition InvalidateUserResetTokens_pg :: "string \<Rightarrow> ('a auth_db_scheme, unit) io" where
  "InvalidateUserResetTokens_pg uid = sql (\<lambda>w. (Inr (), w\<lparr>ptokens_tbl :=
     map (\<lambda>r. if prtUserID r = uid \<and> \<not> prtUsed r then r\<lparr>prtUsed := True\<rparr> else r) (ptokens_tbl w)\<rparr>))"

definition token_repo_pg :: "('a auth_db_scheme) TokenRepository" where
  "token_repo_pg = \<lparr>trSaveRefreshToken = SaveRefreshToken_pg, trGetRefreshToken = GetRefreshToken_pg,
     trRevokeRefreshToken = RevokeRefreshToken_pg, trRevokeAllUserTokens = RevokeAllUserTokens_pg,
     trGetActiveRefreshTokens = GetActiveRefreshTokens_pg, trSavePasswordResetToken = SavePasswordResetToken_pg,
     trGetPasswordResetToken = GetPasswordResetToken_pg, trMarkPasswordResetUsed = MarkPasswordResetUsed_pg,
     trInvalidateUserResetTokens = InvalidateUserResetTokens_pg\<rparr>"

definition auth_service_pg ::
  "JWTManager \<Rightarrow> (string \<Rightarrow> err + string) \<Rightarrow> (string \<Rightarrow> string \<Rightarrow> bool) \<Rightarrow> bool \<Rightarrow> ('a auth_db_scheme) authService" where
  "auth_service_pg jwt hash compare skip = \<lparr>auUsers = user_repo_pg, auTokens = token_repo_pg, auJwt = jwt,
     auRunInTx = RunInTx_pg, auHash = hash, auCompare = compare, auSkipLimits = skip\<rparr>"

end
