(* ===== verification/AuthProps.thy ===== *)
theory AuthProps
  imports AuthPg "HOL-Library.Multiset"
begin

text \<open>
  Properties of accounts and sessions. \<open>auth_store\<close> is what the service relies on: what each
  repository call does to the three tables, seen as an \<open>auth_view\<close>. Every operation is then a step of
  the relation \<open>step\<close>, which carries all that holds over any run: rows and their roles stay, locks
  hold, revoked and used tokens stay so, and nobody has more than five sessions.
\<close>

section \<open>The tables\<close>

record auth_view =
  avUsers :: "User list"
  avTokens :: "RefreshToken list"
  avResets :: "PasswordResetToken list"

definition view_ok :: "auth_view \<Rightarrow> bool" where
  "view_ok a \<longleftrightarrow> distinct (map usrID (avUsers a)) \<and> distinct (map usrEmail (avUsers a)) \<and>
     distinct (map rtToken (avTokens a)) \<and> distinct (map prtToken (avResets a))"

definition live :: "string \<Rightarrow> int \<Rightarrow> auth_view \<Rightarrow> nat" where
  "live uid t a = length (filter (active_at uid t) (avTokens a))"

definition limited :: "int \<Rightarrow> auth_view \<Rightarrow> bool" where
  "limited t a \<longleftrightarrow> (\<forall>uid. live uid t a \<le> 5)"

lemma live_later: "t \<le> t' \<Longrightarrow> live uid t' a \<le> live uid t a"
proof -
  assume t: "t \<le> t'"
  have "length (filter (active_at uid t') xs) \<le> length (filter (active_at uid t) xs)" for xs
    using t by (induction xs) (auto simp: active_at_def)
  then show ?thesis by (simp add: live_def)
qed

lemma limited_later: "t \<le> t' \<Longrightarrow> limited t a \<Longrightarrow> limited t' a"
  using live_later order_trans unfolding limited_def by blast

text \<open>A row of \<open>users\<close> later: its name and role, and its lock while it lasts.\<close>

definition same_account :: "int \<Rightarrow> User \<Rightarrow> User \<Rightarrow> bool" where
  "same_account t u u' \<longleftrightarrow> usrID u' = usrID u \<and> usrEmail u' = usrEmail u \<and> usrRole u' = usrRole u \<and>
     (\<forall>l. usrLockedUntil u = Some l \<and> t < l \<longrightarrow> usrLockedUntil u' = Some l)"

definition evolves :: "(string \<Rightarrow> bool) \<Rightarrow> int \<Rightarrow> auth_view \<Rightarrow> auth_view \<Rightarrow> bool" where
  "evolves R t a b \<longleftrightarrow> (\<forall>u\<in>set (avUsers a). \<exists>u'\<in>set (avUsers b). same_account t u u') \<and>
     (\<forall>u'\<in>set (avUsers b). R (usrRole u') \<or> (\<exists>u\<in>set (avUsers a). usrID u = usrID u' \<and> usrRole u = usrRole u')) \<and>
     (\<forall>r\<in>set (avTokens a). rtRevoked r \<longrightarrow> r \<in> set (avTokens b)) \<and>
     (\<forall>r\<in>set (avResets a). prtUsed r \<longrightarrow> r \<in> set (avResets b))"

lemma same_account_refl [simp]: "same_account t u u"
  by (simp add: same_account_def)

lemma same_account_trans:
  "same_account t u v \<Longrightarrow> t \<le> t' \<Longrightarrow> same_account t' v x \<Longrightarrow> same_account t' u x"
  by (auto simp: same_account_def)

lemma evolves_refl [simp]: "evolves R t a a"
  by (auto simp: evolves_def intro: same_account_refl)

lemma evolves_trans:
  assumes "evolves R t a b" "t \<le> t'" "evolves R t' b c"
  shows "evolves R t' a c"
  unfolding evolves_def
proof (intro conjI ballI impI)
  show "\<exists>u'\<in>set (avUsers c). same_account t' u u'" if "u \<in> set (avUsers a)" for u
    using that assms same_account_trans unfolding evolves_def by metis
  show "R (usrRole u') \<or> (\<exists>u\<in>set (avUsers a). usrID u = usrID u' \<and> usrRole u = usrRole u')" if "u' \<in> set (avUsers c)" for u'
    using that assms(1,3) unfolding evolves_def by metis
qed (use assms(1,3) in \<open>auto simp: evolves_def\<close>)

text \<open>A change that opens no session.\<close>

definition calmly :: "(string \<Rightarrow> bool) \<Rightarrow> int \<Rightarrow> auth_view \<Rightarrow> auth_view \<Rightarrow> bool" where
  "calmly R t0 a b \<longleftrightarrow> (view_ok a \<longrightarrow> view_ok b \<and> (\<forall>t\<ge>t0. evolves R t a b) \<and> (\<forall>uid t. live uid t b \<le> live uid t a))"

lemma calmly_refl [simp]: "calmly R t a a"
  by (simp add: calmly_def)

lemma calmly_trans: "calmly R t a b \<Longrightarrow> calmly R t b c \<Longrightarrow> calmly R t a c"
  unfolding calmly_def by (meson evolves_trans order_refl order_trans)

lemma calmly_limited: "calmly R t a b \<Longrightarrow> view_ok a \<Longrightarrow> limited t' a \<Longrightarrow> limited t' b"
  unfolding calmly_def limited_def using order_trans by blast

section \<open>Changes of the tables\<close>

definition revoke_row :: "RefreshToken \<Rightarrow> RefreshToken" where
  "revoke_row r = r\<lparr>rtRevoked := True\<rparr>"

definition revoke_where :: "(RefreshToken \<Rightarrow> bool) \<Rightarrow> auth_view \<Rightarrow> auth_view" where
  "revoke_where P a = a\<lparr>avTokens := map (\<lambda>r. if P r then revoke_row r else r) (avTokens a)\<rparr>"

definition use_where :: "(PasswordResetToken \<Rightarrow> bool) \<Rightarrow> auth_view \<Rightarrow> auth_view" where
  "use_where P a = a\<lparr>avResets := map (\<lambda>r. if P r then r\<lparr>prtUsed := True\<rparr> else r) (avResets a)\<rparr>"

definition change_users :: "string \<Rightarrow> (User \<Rightarrow> User) \<Rightarrow> auth_view \<Rightarrow> auth_view" where
  "change_users i f a = a\<lparr>avUsers := map (\<lambda>r. if usrID r = i then f r else r) (avUsers a)\<rparr>"

lemma live_revoke_where: "live uid t (revoke_where P a) = length (filter (\<lambda>r. active_at uid t r \<and> \<not> P r) (avTokens a))"
proof -
  have "length (filter (active_at uid t) (map (\<lambda>r. if P r then revoke_row r else r) xs)) =
      length (filter (\<lambda>r. active_at uid t r \<and> \<not> P r) xs)" for xs
    by (induction xs) (auto simp: active_at_def revoke_row_def)
  then show ?thesis by (simp add: live_def revoke_where_def)
qed

lemma calmly_revoke: "calmly R t (a) (revoke_where P a)"
proof -
  have rows: "map rtToken (map (\<lambda>r. if P r then revoke_row r else r) xs) = map rtToken xs" for xs
    by (induction xs) (auto simp: revoke_row_def)
  have stays: "r \<in> set xs \<Longrightarrow> rtRevoked r \<Longrightarrow> r \<in> set (map (\<lambda>r. if P r then revoke_row r else r) xs)" for r xs
    by (induction xs) (auto simp: revoke_row_def)
  have "length (filter (\<lambda>r. active_at uid t r \<and> \<not> P r) xs) \<le> length (filter (active_at uid t) xs)" for uid t xs
    by (induction xs) auto
  then have "live uid t (revoke_where P a) \<le> live uid t a" for uid t by (simp add: live_revoke_where) (simp add: live_def)
  moreover have "view_ok a \<Longrightarrow> view_ok (revoke_where P a)"
    unfolding view_ok_def revoke_where_def by (simp del: map_map add: rows)
  moreover have "evolves R t a (revoke_where P a)" for t
    using stays by (fastforce simp: evolves_def revoke_where_def simp del: set_map intro: same_account_refl)
  ultimately show ?thesis by (simp add: calmly_def)
qed

lemma calmly_use: "calmly R t a (use_where P a)"
proof -
  have rows: "map prtToken (map (\<lambda>r. if P r then r\<lparr>prtUsed := True\<rparr> else r) xs) = map prtToken xs" for xs
    by (induction xs) auto
  have stays: "r \<in> set xs \<Longrightarrow> prtUsed r \<Longrightarrow> r \<in> set (map (\<lambda>r. if P r then r\<lparr>prtUsed := True\<rparr> else r) xs)" for r xs
    by (induction xs) auto
  have "view_ok a \<Longrightarrow> view_ok (use_where P a)"
    unfolding view_ok_def use_where_def by (simp del: map_map add: rows)
  moreover have "evolves R t a (use_where P a)" for t
    using stays by (fastforce simp: evolves_def use_where_def simp del: set_map intro: same_account_refl)
  ultimately show ?thesis by (simp add: calmly_def live_def use_where_def)
qed

lemma calmly_reset: "prtToken r \<notin> prtToken ` set (avResets a) \<Longrightarrow> calmly R t a (a\<lparr>avResets := avResets a @ [r]\<rparr>)"
  by (auto simp: calmly_def view_ok_def evolves_def live_def intro: same_account_refl)

lemma calmly_create:
  "usrID u \<notin> usrID ` set (avUsers a) \<Longrightarrow> usrEmail u \<notin> usrEmail ` set (avUsers a) \<Longrightarrow> R (usrRole u) \<Longrightarrow>
    calmly R t a (a\<lparr>avUsers := avUsers a @ [u]\<rparr>)"
  by (auto simp: calmly_def view_ok_def evolves_def live_def intro: same_account_refl)

text \<open>A row written back by an operation that read it, its lock no longer in force at \<open>t0\<close> or unchanged.\<close>

lemma calmly_change:
  assumes rows: "\<And>r. view_ok a \<Longrightarrow> r \<in> set (avUsers a) \<Longrightarrow> usrID r = i \<Longrightarrow> same_account t0 r (f r)"
  shows "calmly R t0 a (change_users i f a)"
proof (cases "view_ok a")
  case True
  note assms = rows [OF True]
  have same: "usrID r = i \<Longrightarrow> r \<in> set (avUsers a) \<Longrightarrow> usrID (f r) = usrID r \<and> usrEmail (f r) = usrEmail r \<and> usrRole (f r) = usrRole r" for r
    using assms by (simp add: same_account_def)
  have later: "same_account t r (f r)" if "r \<in> set (avUsers a)" "usrID r = i" "t0 \<le> t" for r t
    using assms [OF that(1,2)] that(3) by (auto simp: same_account_def)
  have "map usrID (avUsers (change_users i f a)) = map usrID (avUsers a)"
    "map usrEmail (avUsers (change_users i f a)) = map usrEmail (avUsers a)"
    using same by (auto simp: change_users_def)
  moreover have "avTokens (change_users i f a) = avTokens a" "avResets (change_users i f a) = avResets a"
    by (simp_all add: change_users_def)
  moreover have "evolves R t a (change_users i f a)" if "t0 \<le> t" for t
    unfolding evolves_def
  proof (intro conjI ballI impI)
    fix u assume u: "u \<in> set (avUsers a)"
    then have "(if usrID u = i then f u else u) \<in> set (avUsers (change_users i f a))" by (auto simp: change_users_def)
    moreover have "same_account t u (if usrID u = i then f u else u)" using later [OF u _ that] by simp
    ultimately show "\<exists>u'\<in>set (avUsers (change_users i f a)). same_account t u u'" by blast
  next
    fix u' assume "u' \<in> set (avUsers (change_users i f a))"
    then show "R (usrRole u') \<or> (\<exists>u\<in>set (avUsers a). usrID u = usrID u' \<and> usrRole u = usrRole u')"
      using same by (auto simp: change_users_def)
  qed (simp_all add: change_users_def)
  ultimately show ?thesis by (simp add: calmly_def view_ok_def live_def)
qed (simp add: calmly_def)

section \<open>What the service relies on\<close>

definition moves :: "('a env_scheme \<Rightarrow> auth_view) \<Rightarrow> 'a env_scheme \<Rightarrow> (err + 'r) \<Rightarrow> 'a env_scheme \<Rightarrow>
    (auth_view \<Rightarrow> auth_view \<Rightarrow> bool) \<Rightarrow> bool" where
  "moves view w r w1 Q \<longleftrightarrow> clock w \<le> clock w1 \<and> in_tx w1 = in_tx w \<and>
     (if isl r then view w1 = view w else Q (view w) (view w1))"

abbreviation reads :: "('a env_scheme \<Rightarrow> auth_view) \<Rightarrow> 'a env_scheme \<Rightarrow> (err + 'r) \<Rightarrow> 'a env_scheme \<Rightarrow>
    (auth_view \<Rightarrow> 'r \<Rightarrow> bool) \<Rightarrow> bool" where
  "reads view w r w1 Q \<equiv> moves view w r w1 (\<lambda>a b. b = a \<and> Q a (projr r))"

locale auth_store =
  fixes svc :: "('a rand_env_scheme) authService" and view :: "'a rand_env_scheme \<Rightarrow> auth_view"
  assumes create: "urCreate (auUsers svc) u w = (r, w1) \<Longrightarrow> moves view w r w1 (\<lambda>a b. usrID u \<notin> usrID ` set (avUsers a) \<and>
        usrEmail u \<notin> usrEmail ` set (avUsers a) \<and> b = a\<lparr>avUsers := avUsers a @ [u]\<rparr>)"
    and by_email: "urGetByEmail (auUsers svc) e w = (q, w1) \<Longrightarrow> reads view w q w1 (\<lambda>a u. u \<in> set (avUsers a) \<and> usrEmail u = e)"
    and by_id: "urGetByID (auUsers svc) e w = (q, w1) \<Longrightarrow> reads view w q w1 (\<lambda>a u. u \<in> set (avUsers a) \<and> usrID u = e)"
    and by_sub: "urGetByOIDCSub (auUsers svc) e w = (q, w1) \<Longrightarrow> reads view w q w1 (\<lambda>a u. u \<in> set (avUsers a) \<and> usrOIDCSub u = e)"
    and update_password: "urUpdatePassword (auUsers svc) i h w = (r, w1) \<Longrightarrow>
        moves view w r w1 (\<lambda>a b. b = change_users i (\<lambda>u. u\<lparr>usrPassword := h\<rparr>) a)"
    and update: "urUpdate (auUsers svc) u w = (r, w1) \<Longrightarrow>
        moves view w r w1 (\<lambda>a b. b = change_users (usrID u) (\<lambda>r. u\<lparr>usrCreatedAt := usrCreatedAt r\<rparr>) a)"
    and save: "trSaveRefreshToken (auTokens svc) t w = (r, w1) \<Longrightarrow> moves view w r w1 (\<lambda>a b.
        rtToken t \<notin> rtToken ` set (avTokens a) \<and> b = a\<lparr>avTokens := avTokens a @ [t]\<rparr>)"
    and get: "trGetRefreshToken (auTokens svc) tok w = (g, w1) \<Longrightarrow> reads view w g w1 (\<lambda>a t. t \<in> set (avTokens a) \<and> rtToken t = tok)"
    and revoke: "trRevokeRefreshToken (auTokens svc) tok w = (r, w1) \<Longrightarrow>
        moves view w r w1 (\<lambda>a b. b = revoke_where (\<lambda>r. rtToken r = tok) a)"
    and revoke_all: "trRevokeAllUserTokens (auTokens svc) uid w = (r, w1) \<Longrightarrow>
        moves view w r w1 (\<lambda>a b. b = revoke_where (\<lambda>r. rtUserID r = uid) a)"
    and active: "trGetActiveRefreshTokens (auTokens svc) uid w = (ts, w1) \<Longrightarrow> reads view w ts w1 (\<lambda>a xs.
        \<exists>t. clock w \<le> t \<and> t \<le> clock w1 \<and> mset xs = mset (filter (active_at uid t) (avTokens a)))"
    and save_reset: "trSavePasswordResetToken (auTokens svc) p w = (r, w1) \<Longrightarrow> moves view w r w1 (\<lambda>a b.
        prtToken p \<notin> prtToken ` set (avResets a) \<and> b = a\<lparr>avResets := avResets a @ [p]\<rparr>)"
    and get_reset: "trGetPasswordResetToken (auTokens svc) tok w = (p', w1) \<Longrightarrow>
        reads view w p' w1 (\<lambda>a t. t \<in> set (avResets a) \<and> prtToken t = tok)"
    and mark: "trMarkPasswordResetUsed (auTokens svc) tok w = (r, w1) \<Longrightarrow>
        moves view w r w1 (\<lambda>a b. b = use_where (\<lambda>r. prtToken r = tok) a)"
    and invalidate: "trInvalidateUserResetTokens (auTokens svc) uid w = (r, w1) \<Longrightarrow>
        moves view w r w1 (\<lambda>a b. b = use_where (\<lambda>r. prtUserID r = uid) a)"
    and tx: "\<not> in_tx w \<Longrightarrow> auRunInTx svc fn w = (r, w1) \<Longrightarrow> keeps (\<lambda>v v'. clock v \<le> clock v') fn \<Longrightarrow>
        \<not> in_tx w1 \<and> clock w \<le> clock w1 \<and> (if isl r then view w1 = view w
          else (\<exists>v v'. clock w \<le> clock v \<and> view v = view w \<and> fn v = (r, v') \<and> view w1 = view v' \<and> clock v' \<le> clock w1))"
    and stable: "env.more w1 = env.more w \<Longrightarrow> view w1 = view w" "view (w\<lparr>randoms := rs\<rparr>) = view w"
begin

lemma tick:
  "time_now w = (t, w1) \<Longrightarrow> view w1 = view w \<and> in_tx w1 = in_tx w \<and> t = clock w1 \<and> clock w \<le> clock w1"
  "Generate s w = (i, w1) \<Longrightarrow> view w1 = view w \<and> in_tx w1 = in_tx w \<and> clock w1 = clock w"
  "generateOpaqueToken w = (o', w1) \<Longrightarrow> view w1 = view w \<and> in_tx w1 = in_tx w \<and> clock w1 = clock w"
  "jwtGenerate m uid role d w = (a, w1) \<Longrightarrow> view w1 = view w \<and> in_tx w1 = in_tx w \<and> clock w \<le> clock w1"
proof -
  show t: "time_now w = (t, w1) \<Longrightarrow> view w1 = view w \<and> in_tx w1 = in_tx w \<and> t = clock w1 \<and> clock w \<le> clock w1" for t w1
    by (elim time_nowE) (auto intro: stable(1))
  show "Generate s w = (i, w1) \<Longrightarrow> view w1 = view w \<and> in_tx w1 = in_tx w \<and> clock w1 = clock w"
    by (elim GenerateE) (auto intro: stable(1))
  show "generateOpaqueToken w = (o', w1) \<Longrightarrow> view w1 = view w \<and> in_tx w1 = in_tx w \<and> clock w1 = clock w"
    by (auto simp: generateOpaqueToken_def stable(2) split: list.splits option.splits)
  show "jwtGenerate m uid role d w = (a, w1) \<Longrightarrow> view w1 = view w \<and> in_tx w1 = in_tx w \<and> clock w \<le> clock w1"
    by (auto simp: jwtGenerate_def Let_def split: prod.splits dest: t)
qed

text \<open>Steps.\<close>

definition step :: "(string \<Rightarrow> bool) \<Rightarrow> 'a rand_env_scheme \<Rightarrow> 'a rand_env_scheme \<Rightarrow> bool" where
  "step R w w1 \<longleftrightarrow> (\<not> in_tx w \<longrightarrow> \<not> in_tx w1 \<and> clock w \<le> clock w1 \<and>
     (view_ok (view w) \<longrightarrow> view_ok (view w1) \<and> evolves R (clock w1) (view w) (view w1) \<and>
       (limited (clock w) (view w) \<longrightarrow> limited (clock w1) (view w1))))"

lemma step_rel: "transp (step R)" "reflp (step R)"
proof -
  show "transp (step R)"
  proof (rule transpI)
    fix x y z assume a: "step R x y" "step R y z"
    show "step R x z" unfolding step_def
    proof (intro impI)
      assume "\<not> in_tx x"
      with a have t: "\<not> in_tx z" "clock x \<le> clock y" "clock y \<le> clock z" "\<not> in_tx y" by (auto simp: step_def)
      moreover have "view_ok (view z) \<and> evolves R (clock z) (view x) (view z) \<and>
          (limited (clock x) (view x) \<longrightarrow> limited (clock z) (view z))" if ok: "view_ok (view x)"
      proof -
        have y: "view_ok (view y)" "evolves R (clock y) (view x) (view y)" "limited (clock x) (view x) \<longrightarrow> limited (clock y) (view y)"
          using a(1) ok \<open>\<not> in_tx x\<close> by (simp_all add: step_def)
        have "view_ok (view z)" "evolves R (clock z) (view y) (view z)" "limited (clock y) (view y) \<longrightarrow> limited (clock z) (view z)"
          using a(2) y(1) t(4) by (simp_all add: step_def)
        with y evolves_trans [OF y(2) t(3)] show ?thesis by blast
      qed
      ultimately show "\<not> in_tx z \<and> clock x \<le> clock z \<and> (view_ok (view x) \<longrightarrow> view_ok (view z) \<and>
          evolves R (clock z) (view x) (view z) \<and> (limited (clock x) (view x) \<longrightarrow> limited (clock z) (view z)))" by linarith
    qed
  qed
  show "reflp (step R)" by (auto simp: step_def reflp_def)
qed

lemmas step_trans = transpD [OF step_rel(1)]

lemma step_calm:
  assumes "clock w \<le> clock w1" "in_tx w1 = in_tx w" "calmly R t0 (view w) (view w1)" "t0 \<le> clock w1"
  shows "step R w w1"
proof -
  have "view_ok (view w1) \<and> evolves R (clock w1) (view w) (view w1) \<and> (limited (clock w) (view w) \<longrightarrow> limited (clock w1) (view w1))"
    if "view_ok (view w)"
    using assms that calmly_limited [OF assms(3) that] limited_later [OF assms(1)] by (auto simp: calmly_def)
  with assms(1,2) show ?thesis by (auto simp: step_def)
qed

lemma step_moves:
  assumes "moves view w r w1 Q" "\<And>a b. Q a b \<Longrightarrow> calmly R t0 a b" "t0 \<le> clock w1"
  shows "step R w w1"
  using assms by (auto simp: moves_def intro!: step_calm split: if_splits)

lemma step_same: "view w1 = view w \<Longrightarrow> in_tx w1 = in_tx w \<Longrightarrow> clock w \<le> clock w1 \<Longrightarrow> step R w w1"
  by (auto intro: step_calm)

text \<open>Every call of a repository but two is such a step: \<open>SaveRefreshToken\<close> opens a session, \<open>Update\<close> depends on its row.\<close>

lemma keeps_moves:
  assumes "\<And>w r w1. m w = (r, w1) \<Longrightarrow> moves view w r w1 (Q w r w1)" "\<And>w r w1 a b. Q w r w1 a b \<Longrightarrow> \<exists>t0\<le>clock w1. calmly R t0 a b"
  shows "keeps (step R) m"
  unfolding keeps_def
proof (intro allI impI)
  fix w x w' assume "m w = (x, w')"
  note mv = assms(1) [OF this]
  show "step R w w'"
  proof (cases "isl x")
    case True
    with mv show ?thesis by (auto simp: moves_def intro: step_same)
  next
    case False
    with mv have "Q w x w' (view w) (view w')" by (simp add: moves_def)
    from assms(2) [OF this] obtain t0 where t0: "t0 \<le> clock w'" "calmly R t0 (view w) (view w')" by blast
    then show ?thesis using mv step_calm [of w w' R t0] by (simp add: moves_def)
  qed
qed

lemma keeps_calls:
  "keeps (step R) (urGetByEmail (auUsers svc) e)" "keeps (step R) (urGetByID (auUsers svc) e)"
  "keeps (step R) (urGetByOIDCSub (auUsers svc) e)" "keeps (step R) (trGetRefreshToken (auTokens svc) tok)"
  "keeps (step R) (trRevokeRefreshToken (auTokens svc) tok)" "keeps (step R) (trGetPasswordResetToken (auTokens svc) tok)"
  "keeps (step R) generateOpaqueToken" "keeps (step R) (Generate p)" "keeps (step R) (jwtGenerate m i j d)"
proof -
  show "keeps (step R) (urGetByEmail (auUsers svc) e)" by (rule keeps_moves [OF by_email]) (auto intro: order_refl)
  show "keeps (step R) (urGetByID (auUsers svc) e)" by (rule keeps_moves [OF by_id]) (auto intro: order_refl)
  show "keeps (step R) (urGetByOIDCSub (auUsers svc) e)" by (rule keeps_moves [OF by_sub]) (auto intro: order_refl)
  show "keeps (step R) (trGetRefreshToken (auTokens svc) tok)" by (rule keeps_moves [OF get]) (auto intro: order_refl)
  show "keeps (step R) (trGetPasswordResetToken (auTokens svc) tok)" by (rule keeps_moves [OF get_reset]) (auto intro: order_refl)
  show "keeps (step R) (trRevokeRefreshToken (auTokens svc) tok)" by (rule keeps_moves [OF revoke]) (auto intro: order_refl calmly_revoke)
  show "keeps (step R) generateOpaqueToken" "keeps (step R) (Generate p)" "keeps (step R) (jwtGenerate m i j d)"
    unfolding keeps_def using tick(2-4) step_same by (metis order_refl, metis order_refl, metis)
qed

lemmas step_keeps = keeps_bind [OF step_rel(1)] keeps_pure [OF step_rel(2)] keeps_on_error keeps_calls

lemma step_time: "time_now w = (t, w1) \<Longrightarrow> step R w w1"
  using tick(1) by (auto intro: step_same)

lemma create_step: "R (usrRole u) \<Longrightarrow> keeps (step R) (urCreate (auUsers svc) u)"
  by (rule keeps_moves [OF create [of u]]) (auto intro!: exI [where P = "\<lambda>t. t \<le> _ \<and> _ t"] calmly_create)

lemma Register_step:
  assumes R: "role_allowed (auSkipLimits svc) role \<Longrightarrow> R role"
  shows "keeps (step R) (Register svc email pw role)"
  unfolding keeps_def
proof (intro allI impI)
  fix w x w' assume run: "Register svc email pw role w = (x, w')"
  show "step R w w'"
  proof (cases "role_allowed (auSkipLimits svc) role")
    case False
    with run show ?thesis by (auto simp: Register_def intro: step_same)
  next
    case True
    obtain now w1 where t: "time_now w = (now, w1)" by fastforce
    obtain q w2 where q: "urGetByEmail (auUsers svc) email w1 = (q, w2)" by fastforce
    have s: "step R w w2" using step_time [OF t] keepsD [OF keeps_calls(1) q] step_trans by blast
    have "keeps (step R) (bind_io (on_error f (Generate ''usr_'')) (\<lambda>uid. let user = \<lparr>usrID = uid, usrEmail = email,
        usrPassword = h, usrOIDCSub = [], usrRole = role, usrCreatedAt = now, usrUpdatedAt = now,
        usrFailedLoginAttempts = 0, usrLockedUntil = None\<rparr> in
        bind_io (on_error g (urCreate (auUsers svc) user)) (\<lambda>_. return_io user)))" for f g h
      unfolding Let_def by (intro step_keeps create_step) (simp add: R [OF True])
    note m = keepsD [OF this]
    have "w' = w2 \<or> step R w2 w'"
      using run t q True m by (auto simp: Register_def split: sum.splits if_splits)
    with s step_trans show ?thesis by blast
  qed
qed

lemma update_step:
  assumes run: "urUpdate (auUsers svc) u' w = (r, w1)" and u: "u \<in> set (avUsers (view w))"
    and same: "same_account t0 u u'" "t0 \<le> clock w"
  shows "step R w w1"
proof -
  have "calmly R t0 (view w) (change_users (usrID u') (\<lambda>r. u'\<lparr>usrCreatedAt := usrCreatedAt r\<rparr>) (view w))"
  proof (rule calmly_change)
    fix r assume "view_ok (view w)" "r \<in> set (avUsers (view w))" "usrID r = usrID u'"
    then have "r = u" using u same(1) by (auto simp: view_ok_def same_account_def distinct_map inj_on_def)
    with same(1) show "same_account t0 r (u'\<lparr>usrCreatedAt := usrCreatedAt r\<rparr>)" by (simp add: same_account_def)
  qed
  with update [OF run] same(2) show ?thesis
    by (auto simp: moves_def intro!: step_calm [of _ _ _ t0] split: if_splits)
qed

text \<open>Revoking a list of tokens, and making room for a session.\<close>

lemma revoke_list:
  assumes "for_each (\<lambda>t. trRevokeRefreshToken (auTokens svc) (rtToken t)) ts w = (r, w1)"
  shows "clock w \<le> clock w1 \<and> in_tx w1 = in_tx w \<and> calmly R t0 (view w) (view w1) \<and>
    (\<not> isl r \<longrightarrow> view w1 = revoke_where (\<lambda>x. rtToken x \<in> rtToken ` set ts) (view w))"
  using assms
proof (induction ts arbitrary: w)
  case Nil
  then show ?case by (simp add: revoke_where_def)
next
  case (Cons t ts)
  obtain q v where q: "trRevokeRefreshToken (auTokens svc) (rtToken t) w = (q, v)" by fastforce
  note m = revoke [OF q]
  show ?case
  proof (cases q)
    case (Inl e)
    with Cons.prems q m show ?thesis by (auto simp: bind_io_def moves_def)
  next
    case (Inr u)
    with Cons.prems q have "for_each (\<lambda>t. trRevokeRefreshToken (auTokens svc) (rtToken t)) ts v = (r, w1)"
      by (simp add: bind_io_def)
    note ih = Cons.IH [OF this]
    have v: "view v = revoke_where (\<lambda>r. rtToken r = rtToken t) (view w)" using m Inr by (simp add: moves_def)
    have "revoke_where (\<lambda>x. rtToken x \<in> rtToken ` set ts) (view v) = revoke_where (\<lambda>x. rtToken x \<in> rtToken ` set (t # ts)) (view w)"
      by (simp add: v revoke_where_def revoke_row_def)
    moreover have "calmly R t0 (view w) (view w1)" using ih v calmly_revoke calmly_trans by metis
    ultimately show ?thesis using ih m by (simp add: moves_def)
  qed
qed

lemma live_after_revoking:
  assumes "distinct (map rtToken (avTokens a))" "mset ts = mset (filter (active_at uid t) (avTokens a))"
  shows "live uid t (revoke_where (\<lambda>x. rtToken x \<in> rtToken ` set (take k ts)) a) \<le> length ts - k"
proof -
  let ?P = "\<lambda>x. rtToken x \<in> rtToken ` set (take k ts)" and ?L = "filter (active_at uid t) (avTokens a)"
  have "distinct (map rtToken ?L)" using assms(1) by (rule distinct_map_filter)
  then have d: "distinct (map rtToken ts)" using assms(2) by (metis mset_map mset_eq_imp_distinct_iff)
  have "live uid t (revoke_where ?P a) = length (filter (\<lambda>r. \<not> ?P r) ?L)"
    by (simp add: live_revoke_where conj_commute)
  also have "\<dots> = size (filter_mset (\<lambda>r. \<not> ?P r) (mset ts))"
    unfolding assms(2) by (metis mset_filter size_mset)
  also have "\<dots> = length (filter (\<lambda>r. \<not> ?P r) ts)" by (metis mset_filter size_mset)
  also have "filter (\<lambda>r. \<not> ?P r) ts = filter (\<lambda>r. \<not> ?P r) (take k ts) @ filter (\<lambda>r. \<not> ?P r) (drop k ts)"
    by (metis append_take_drop_id filter_append)
  also have "filter (\<lambda>r. \<not> ?P r) (take k ts) = []" by (auto simp: filter_empty_conv)
  finally show ?thesis using length_filter_le [of _ "drop k ts"] by simp
qed

lemma enforce_fx:
  assumes run: "enforceMaxSessions svc uid w = (r, w1)"
  shows "clock w \<le> clock w1 \<and> in_tx w1 = in_tx w \<and> calmly R t0 (view w) (view w1) \<and>
    (\<not> isl r \<and> view_ok (view w) \<longrightarrow> live uid (clock w1) (view w1) \<le> 4)"
proof -
  obtain q v where q: "trGetActiveRefreshTokens (auTokens svc) uid w = (q, v)" by fastforce
  note m = active [OF q]
  show ?thesis
  proof (cases q)
    case (Inl e)
    with run q m show ?thesis by (auto simp: enforceMaxSessions_def bind_io_def moves_def)
  next
    case (Inr ts)
    with m obtain t where t: "view v = view w" "t \<le> clock v" "mset ts = mset (filter (active_at uid t) (avTokens (view w)))"
      and cv: "clock w \<le> clock v" "in_tx v = in_tx w" by (auto simp: moves_def)
    have len: "live uid t (view w) = length ts" unfolding live_def using t(3) by (metis size_mset)
    show ?thesis
    proof (cases "5 \<le> length ts")
      case True
      with run q Inr have "for_each (\<lambda>t. trRevokeRefreshToken (auTokens svc) (rtToken t)) (take (length ts - 4) ts) v = (r, w1)"
        by (simp add: enforceMaxSessions_def bind_io_def)
      note f = revoke_list [OF this, of R t0]
      have "live uid (clock w1) (view w1) \<le> 4" if "\<not> isl r" "view_ok (view w)"
      proof -
        have d: "distinct (map rtToken (avTokens (view w)))" using that(2) by (simp add: view_ok_def)
        have "live uid (clock w1) (view w1) \<le> live uid t (view w1)" using f t(2) by (intro live_later) linarith
        also have "\<dots> \<le> length ts - (length ts - 4)"
          using live_after_revoking [OF d t(3), of "length ts - 4"] f that(1) t(1) by simp
        finally show ?thesis by simp
      qed
      with f t(1) cv show ?thesis by auto
    next
      case False
      with run q Inr have "w1 = v" "r = Inr ()" by (simp_all add: enforceMaxSessions_def bind_io_def)
      with t cv len False live_later [OF t(2), of uid "view w"] show ?thesis by auto
    qed
  qed
qed

lemma live_new_session:
  "live u t (a\<lparr>avTokens := avTokens a @ [x]\<rparr>) \<le> (if rtUserID x = u then Suc (live u t a) else live u t a)"
  by (auto simp: live_def active_at_def)

text \<open>The transaction that opens a session; \<open>rest\<close> is nothing at a login and the revocation of the old token at a refresh.\<close>

abbreviation session_body :: "string \<Rightarrow> string \<Rightarrow> int \<Rightarrow> ('a rand_env_scheme, unit) io \<Rightarrow> ('a rand_env_scheme, unit) io" where
  "session_body uid tok now rest \<equiv> bind_io (enforceMaxSessions svc uid)
      (\<lambda>_. bind_io (trSaveRefreshToken (auTokens svc) (new_refresh_token uid tok now)) (\<lambda>_. rest))"

definition restful :: "('a rand_env_scheme, unit) io \<Rightarrow> bool" where
  "restful rest \<longleftrightarrow> keeps (\<lambda>v v'. clock v \<le> clock v' \<and> (\<forall>R t0. calmly R t0 (view v) (view v'))) rest"

lemma session_body_fx:
  assumes run: "session_body uid tok now rest v = (r, v')" and rest: "restful rest"
  shows "clock v \<le> clock v' \<and> (\<not> isl r \<and> view_ok (view v) \<longrightarrow> view_ok (view v') \<and> evolves R (clock v') (view v) (view v') \<and>
    (limited (clock v) (view v) \<longrightarrow> limited (clock v') (view v')))"
proof -
  let ?new = "new_refresh_token uid tok now"
  obtain q v1 where q: "enforceMaxSessions svc uid v = (q, v1)" by fastforce
  obtain p v2 where p: "trSaveRefreshToken (auTokens svc) ?new v1 = (p, v2)" by fastforce
  note sv = save [OF p]
  obtain z v3 where z: "rest v2 = (z, v3)" by fastforce
  note e = enforce_fx [OF q, of R "clock v3"]
  have rs: "clock v2 \<le> clock v3" "calmly R 0 (view v2) (view v3)"
    using keepsD [OF rest [unfolded restful_def] z] by auto
  show ?thesis
  proof (cases "isl q \<or> isl p")
    case True
    with run q p have "isl r \<and> (v' = v1 \<or> v' = v2)" by (auto simp: bind_io_def isl_def split: sum.splits)
    with e sv show ?thesis by (auto simp: moves_def)
  next
    case False
    then have v': "r = z" "v' = v3" using run q p z by (auto simp: bind_io_def split: sum.splits)
    have mono: "clock v \<le> clock v1" "clock v1 \<le> clock v2" using e sv by (auto simp: moves_def)
    have v2: "rtToken ?new \<notin> rtToken ` set (avTokens (view v1))" "view v2 = (view v1)\<lparr>avTokens := avTokens (view v1) @ [?new]\<rparr>"
      using sv False by (auto simp: moves_def)
    have "view_ok (view v3) \<and> evolves R (clock v3) (view v) (view v3) \<and>
        (limited (clock v) (view v) \<longrightarrow> limited (clock v3) (view v3))" if ok: "view_ok (view v)"
    proof (intro conjI impI)
      have c1: "calmly R (clock v3) (view v) (view v1)" "live uid (clock v1) (view v1) \<le> 4" using e ok False by auto
      then have ok1: "view_ok (view v1)" "evolves R (clock v3) (view v) (view v1)" using ok by (simp_all add: calmly_def)
      have ok2: "view_ok (view v2)" using ok1(1) v2 by (auto simp: view_ok_def)
      have "evolves R (clock v3) (view v1) (view v2)" by (auto simp: v2(2) evolves_def intro: same_account_refl)
      then have "evolves R (clock v3) (view v) (view v2)" using ok1(2) evolves_trans by blast
      moreover have rest_ok: "view_ok (view v3)" "evolves R (clock v3) (view v2) (view v3)"
        using keepsD [OF rest [unfolded restful_def] z] ok2 by (auto simp: calmly_def)
      ultimately show "view_ok (view v3)" "evolves R (clock v3) (view v) (view v3)" using evolves_trans by blast+
      assume lim: "limited (clock v) (view v)"
      have "live u (clock v2) (view v2) \<le> 5" for u
      proof -
        have "live u (clock v2) (view v2) \<le> (if uid = u then Suc (live u (clock v2) (view v1)) else live u (clock v2) (view v1))"
          using live_new_session [of u "clock v2" "view v1" ?new] by (simp add: v2(2) new_refresh_token_def)
        moreover have "live u (clock v2) (view v1) \<le> live u (clock v1) (view v1)" using mono(2) by (rule live_later)
        moreover have "live u (clock v1) (view v1) \<le> 5"
          using calmly_limited [OF c1(1) ok limited_later [OF mono(1) lim]] by (simp add: limited_def)
        ultimately show ?thesis using c1(2) by (cases "uid = u") auto
      qed
      then have "limited (clock v3) (view v2)" using limited_later [OF rs(1)] by (simp add: limited_def)
      then show "limited (clock v3) (view v3)" using calmly_limited [OF rs(2) ok2] by blast
    qed
    with v' mono rs show ?thesis by auto
  qed
qed

lemma session_tx:
  assumes "restful rest"
  shows "keeps (step R) (auRunInTx svc (session_body uid tok now rest))"
  unfolding keeps_def
proof (intro allI impI)
  fix w r w1 assume run: "auRunInTx svc (session_body uid tok now rest) w = (r, w1)"
  show "step R w w1"
  proof (cases "in_tx w")
    case False
    have "keeps (\<lambda>v v'. clock v \<le> clock v') (session_body uid tok now rest)"
      unfolding keeps_def using session_body_fx [OF _ assms] by blast
    note t = tx [OF False run this]
    show ?thesis
    proof (cases "isl r")
      case True
      with t show ?thesis using limited_later [of "clock w" "clock w1"] by (auto simp: step_def)
    next
      case ok: False
      with t obtain v v' where b: "clock w \<le> clock v" "view v = view w" "session_body uid tok now rest v = (r, v')"
        "view w1 = view v'" "clock v' \<le> clock w1" by auto
      have "view_ok (view w1) \<and> evolves R (clock w1) (view w) (view w1) \<and>
          (limited (clock w) (view w) \<longrightarrow> limited (clock w1) (view w1))" if "view_ok (view w)"
        using session_body_fx [OF b(3) assms, of R] that b(1,2,4,5) ok limited_later
          evolves_trans [OF _ b(5) evolves_refl] by metis
      with t show ?thesis by (simp add: step_def)
    qed
  qed (simp add: step_def)
qed

lemma restful_calls: "restful (return_io ())" "restful (trRevokeRefreshToken (auTokens svc) tok)"
proof -
  show "restful (return_io ())" by (simp add: restful_def keeps_def)
  show "restful (trRevokeRefreshToken (auTokens svc) tok)"
    unfolding restful_def keeps_def
  proof (intro allI impI)
    fix v x v' assume "trRevokeRefreshToken (auTokens svc) tok v = (x, v')"
    from revoke [OF this] show "clock v \<le> clock v' \<and> (\<forall>R t0. calmly R t0 (view v) (view v'))"
      by (auto simp: moves_def calmly_revoke split: if_splits)
  qed
qed

lemma bind_return: "bind_io m (\<lambda>_. return_io ()) = (m :: ('w, unit) io)"
  by (rule ext) (auto simp: bind_io_def return_io_def split: prod.splits sum.splits)

lemma open_session_step: "keeps (step R) (open_session svc user now)"
proof -
  have "keeps (step R) (auRunInTx svc (bind_io (enforceMaxSessions svc (usrID user))
      (\<lambda>_. trSaveRefreshToken (auTokens svc) (new_refresh_token (usrID user) tok now))))" for tok
    using session_tx [OF restful_calls(1), of R "usrID user" tok now] by (simp only: bind_return)
  then show ?thesis unfolding open_session_def by (intro step_keeps)
qed

lemma rotate_step: "keeps (step R) (rotate svc user old now)"
  unfolding rotate_def by (intro step_keeps session_tx restful_calls)

lemma Login_step: "keeps (step R) (Login svc email pw)"
  unfolding keeps_def
proof (intro allI impI)
  fix w x w' assume run: "Login svc email pw w = (x, w')"
  obtain now w1 where t: "time_now w = (now, w1)" by fastforce
  obtain q w2 where q: "urGetByEmail (auUsers svc) email w1 = (q, w2)" by fastforce
  have s: "step R w w2" using step_time [OF t] keepsD [OF keeps_calls(1) q] step_trans by blast
  have "step R w2 w'"
  proof (cases "\<exists>user. q = Inr user \<and> \<not> locked_at user now")
    case False
    with run t q have "w' = w2" by (auto simp: Login_def split: sum.splits if_splits)
    then show ?thesis by (auto intro: step_same)
  next
    case True
    then obtain user where u: "q = Inr user" "\<not> locked_at user now" by blast
    have user: "user \<in> set (avUsers (view w2))" "now \<le> clock w2"
      using by_email [OF q] u tick(1) [OF t] by (auto simp: moves_def)
    have unlocked: "same_account now user v" if "usrID v = usrID user" "usrEmail v = usrEmail user" "usrRole v = usrRole user" for v
      using that u(2) by (auto simp: same_account_def locked_at_def)
    have upd: "step R w2 v" if "urUpdate (auUsers svc) u' w2 = (r, v)" "usrID u' = usrID user"
        "usrEmail u' = usrEmail user" "usrRole u' = usrRole user" for u' r v
      using update_step [OF that(1) user(1) unlocked user(2)] that by simp
    show ?thesis
    proof (cases "auCompare svc (usrPassword user) pw")
      case False
      with run t q u have "record_failure svc user now w2 = (x, w')" by (simp add: Login_def)
      then show ?thesis
        by (auto simp: record_failure_def Let_def bind_io_def on_error_def split: prod.splits sum.splits intro!: upd)
    next
      case True
      with run t q u have "bind_io (reset_failures svc user now) (\<lambda>_. open_session svc user now) w2 = (x, w')"
        by (simp add: Login_def)
      moreover obtain r v where r: "reset_failures svc user now w2 = (r, v)" by fastforce
      moreover have "step R w2 v"
      proof (cases "0 < usrFailedLoginAttempts user \<or> usrLockedUntil user \<noteq> None")
        case True
        then show ?thesis using r by (auto simp: reset_failures_def on_error_def split: prod.splits sum.splits intro!: upd)
      next
        case False
        then show ?thesis using r by (auto simp: reset_failures_def intro!: step_same)
      qed
      ultimately show ?thesis
        using keepsD [OF open_session_step] step_trans by (cases r) (fastforce simp: bind_io_def)+
    qed
  qed
  with s step_trans show "step R w w'" by blast
qed

lemma Logout_step: "keeps (step R) (Logout svc tok)"
proof -
  have "snd (Logout svc tok w) = snd (trRevokeRefreshToken (auTokens svc) tok w)" for w
    by (simp add: Logout_def split: prod.splits sum.splits)
  then show ?thesis unfolding keeps_def using keepsD [OF keeps_calls(5)] by (metis prod.collapse snd_conv)
qed

lemma keeps_after_time:
  assumes "\<And>t. keeps (step R) (m t)"
  shows "keeps (step R) (\<lambda>w. case time_now w of (t, w1) \<Rightarrow> m t w1)"
  unfolding keeps_def using step_time keepsD [OF assms] step_trans by (auto split: prod.splits) blast

lemma RefreshSession_step: "keeps (step R) (RefreshSession svc tok)"
proof -
  have "keeps (step R) (\<lambda>w. case time_now w of (now, w1) \<Rightarrow>
     bind_io (on_error (\<lambda>e. NewUnauthorized ''invalid or expired refresh token'' (Some e))
         (trGetRefreshToken (auTokens svc) tok)) (\<lambda>t.
       if rtRevoked t then fail_io (NewUnauthorized ''refresh token has been revoked'' (Some ErrTokenRevoked))
       else if rtExpiresAt t < now then fail_io (NewUnauthorized ''refresh token has expired'' (Some ErrTokenExpired))
       else bind_io (on_error (\<lambda>e. NewUnauthorized ''user not found'' (Some e)) (urGetByID (auUsers svc) (rtUserID t)))
         (\<lambda>user. rotate svc user tok now)) w1)"
    by (rule keeps_after_time) (auto intro!: step_keeps rotate_step)
  then show ?thesis unfolding RefreshSession_def .
qed

text \<open>A transaction whose body opens no session.\<close>

definition calm_rel :: "'a rand_env_scheme \<Rightarrow> 'a rand_env_scheme \<Rightarrow> bool" where
  "calm_rel v v' \<longleftrightarrow> clock v \<le> clock v' \<and> (\<forall>R t0. calmly R t0 (view v) (view v'))"

lemma calm_transp: "transp calm_rel"
  unfolding calm_rel_def by (rule transpI) (meson calmly_trans order_trans)

lemma calm_tx:
  assumes "keeps calm_rel body"
  shows "keeps (step R) (auRunInTx svc body)"
  unfolding keeps_def
proof (intro allI impI)
  fix w r w1 assume run: "auRunInTx svc body w = (r, w1)"
  show "step R w w1"
  proof (cases "in_tx w")
    case False
    have "keeps (\<lambda>v v'. clock v \<le> clock v') body" using assms by (simp add: keeps_def calm_rel_def)
    note t = tx [OF False run this]
    have "calmly R (clock w1) (view w) (view w1)"
    proof (cases "isl r")
      case False
      with t obtain v v' where "view v = view w" "body v = (r, v')" "view w1 = view v'" by auto
      with keepsD [OF assms, of v r v'] show ?thesis by (simp add: calm_rel_def)
    qed (use t in simp)
    with t False show ?thesis by (auto intro: step_calm)
  qed (simp add: step_def)
qed

lemma calm_moves:
  assumes "\<And>w r w1. m w = (r, w1) \<Longrightarrow> moves view w r w1 Q" "\<And>R t0 a b. Q a b \<Longrightarrow> calmly R t0 a b"
  shows "keeps calm_rel m"
  unfolding keeps_def calm_rel_def
proof (intro allI impI)
  fix w x w' assume "m w = (x, w')"
  from assms(1) [OF this] show "clock w \<le> clock w' \<and> (\<forall>R t0. calmly R t0 (view w) (view w'))"
    using assms(2) by (cases "isl x") (auto simp: moves_def)
qed

lemma calm_calls:
  "keeps calm_rel (trInvalidateUserResetTokens (auTokens svc) uid)" "keeps calm_rel (trSavePasswordResetToken (auTokens svc) p)"
  "keeps calm_rel (urUpdatePassword (auUsers svc) i h)" "keeps calm_rel (trMarkPasswordResetUsed (auTokens svc) tok)"
  "keeps calm_rel (trRevokeAllUserTokens (auTokens svc) uid)"
proof -
  show "keeps calm_rel (trInvalidateUserResetTokens (auTokens svc) uid)" by (rule calm_moves [OF invalidate]) (auto intro: calmly_use)
  show "keeps calm_rel (trSavePasswordResetToken (auTokens svc) p)" by (rule calm_moves [OF save_reset]) (auto intro: calmly_reset)
  show "keeps calm_rel (urUpdatePassword (auUsers svc) i h)"
    by (rule calm_moves [OF update_password]) (auto intro!: calmly_change simp: same_account_def)
  show "keeps calm_rel (trMarkPasswordResetUsed (auTokens svc) tok)" by (rule calm_moves [OF mark]) (auto intro: calmly_use)
  show "keeps calm_rel (trRevokeAllUserTokens (auTokens svc) uid)" by (rule calm_moves [OF revoke_all]) (auto intro: calmly_revoke)
qed

lemmas calm_txs = calm_tx keeps_bind [OF calm_transp] calm_calls

lemma RequestPasswordReset_step: "keeps (step R) (RequestPasswordReset svc email)"
  unfolding keeps_def
proof (intro allI impI)
  fix w x w' assume run: "RequestPasswordReset svc email w = (x, w')"
  obtain now w1 where t: "time_now w = (now, w1)" by fastforce
  obtain q w2 where q: "urGetByEmail (auUsers svc) email w1 = (q, w2)" by fastforce
  have s: "step R w w2" using step_time [OF t] keepsD [OF keeps_calls(1) q] step_trans by blast
  have "keeps (step R) (bind_io (on_error f generateOpaqueToken) (\<lambda>tok.
      let t = \<lparr>prtID = ''pr_'' @ take 12 tok, prtUserID = uid, prtToken = tok, prtExpiresAt = now + minutes 60, prtUsed = False\<rparr> in
      bind_io (on_error g (auRunInTx svc (bind_io (trInvalidateUserResetTokens (auTokens svc) uid)
         (\<lambda>_. trSavePasswordResetToken (auTokens svc) t)))) (\<lambda>_. return_io t)))" for f g uid
    unfolding Let_def by (intro step_keeps calm_txs)
  note m = keepsD [OF this]
  have "w' = w2 \<or> step R w2 w'"
    using run t q m by (auto simp: RequestPasswordReset_def split: sum.splits if_splits)
  with s step_trans show "step R w w'" by blast
qed

lemma ConfirmPasswordReset_step: "keeps (step R) (ConfirmPasswordReset svc tok pw)"
proof -
  have "keeps (step R) (\<lambda>w. case time_now w of (now, w1) \<Rightarrow>
     bind_io (on_error (\<lambda>e. NewBadRequest ''invalid password reset token'' (Some ErrResetTokenInvalid))
         (trGetPasswordResetToken (auTokens svc) tok)) (\<lambda>t.
       if prtUsed t then fail_io (NewBadRequest ''password reset token already used'' (Some ErrResetTokenUsed))
       else if prtExpiresAt t < now then fail_io (NewBadRequest ''password reset token expired'' (Some ErrTokenExpired))
       else (case auHash svc pw of
           Inl e \<Rightarrow> fail_io (NewInternal ''failed to hash password'' (Some e))
         | Inr h \<Rightarrow> on_error (\<lambda>e. NewInternal ''failed to secure password reset'' (Some e))
             (auRunInTx svc (bind_io (urUpdatePassword (auUsers svc) (prtUserID t) h)
               (\<lambda>_. bind_io (trMarkPasswordResetUsed (auTokens svc) tok)
                 (\<lambda>_. trRevokeAllUserTokens (auTokens svc) (prtUserID t))))))) w1)"
    by (rule keeps_after_time) (auto intro!: step_keeps calm_txs split: sum.splits)
  then show ?thesis unfolding ConfirmPasswordReset_def .
qed

lemma SyncOIDCUser_step:
  assumes R: "R (if role = [] then ''customer'' else role)"
  shows "keeps (step R) (SyncOIDCUser svc sub email role)"
  unfolding keeps_def
proof (intro allI impI)
  fix w x w' assume run: "SyncOIDCUser svc sub email role w = (x, w')"
  obtain now w1 where t: "time_now w = (now, w1)" by fastforce
  obtain p w2 where p: "urGetByOIDCSub (auUsers svc) sub w1 = (p, w2)" by fastforce
  obtain q w3 where q: "urGetByEmail (auUsers svc) email w2 = (q, w3)" by fastforce
  have s: "step R w w2" "step R w2 w3"
    using step_time [OF t] keepsD [OF keeps_calls(3) p] keepsD [OF keeps_calls(1) q] step_trans by blast+
  have "step R w3 w'" if go: "w' \<noteq> w2" "w' \<noteq> w3"
  proof (cases q)
    case (Inl e)
    let ?user = "\<lambda>uid. \<lparr>usrID = uid, usrEmail = email, usrPassword = [], usrOIDCSub = sub,
        usrRole = (if role = [] then ''customer'' else role), usrCreatedAt = now, usrUpdatedAt = now,
        usrFailedLoginAttempts = 0, usrLockedUntil = None\<rparr>"
    have "keeps (step R) (bind_io (on_error f (Generate ''usr_'')) (\<lambda>uid. bind_io (on_error g (urCreate (auUsers svc) (?user uid)))
        (\<lambda>_. return_io (?user uid))))" for f g by (intro step_keeps create_step) (simp add: R)
    note m = keepsD [OF this]
    show ?thesis using run t p q Inl go m by (auto simp: SyncOIDCUser_def Let_def split: sum.splits if_splits)
  next
    case (Inr user)
    let ?u = "user\<lparr>usrOIDCSub := sub, usrUpdatedAt := now\<rparr>"
    have user: "user \<in> set (avUsers (view w3))" "now \<le> clock w3"
      using by_email [OF q] by_sub [OF p] Inr tick(1) [OF t] by (auto simp: moves_def)
    obtain r v where r: "urUpdate (auUsers svc) ?u w3 = (r, v)" by fastforce
    have "step R w3 v" using update_step [OF r user(1) _ user(2)] by (simp add: same_account_def)
    moreover have "w' = v"
      using run t p q Inr go r by (auto simp: SyncOIDCUser_def Let_def bind_io_def on_error_def split: sum.splits if_splits)
    ultimately show ?thesis by simp
  qed
  with s step_trans show "step R w w'" by blast
qed

end

section \<open>Runs of requests\<close>

datatype auth_op =
    RegisterOp string string string
  | LoginOp string string
  | LogoutOp string
  | RefreshOp string
  | RequestResetOp string
  | ConfirmResetOp string string
  | SyncOp string string string

definition auth_step :: "('a rand_env_scheme) authService \<Rightarrow> auth_op \<Rightarrow> 'a rand_env_scheme \<Rightarrow> 'a rand_env_scheme" where
  "auth_step svc op w = (case op of
       RegisterOp e p r \<Rightarrow> snd (Register svc e p r w)
     | LoginOp e p \<Rightarrow> snd (Login svc e p w)
     | LogoutOp t \<Rightarrow> snd (Logout svc t w)
     | RefreshOp t \<Rightarrow> snd (RefreshSession svc t w)
     | RequestResetOp e \<Rightarrow> snd (RequestPasswordReset svc e w)
     | ConfirmResetOp t p \<Rightarrow> snd (ConfirmPasswordReset svc t p w)
     | SyncOp s e r \<Rightarrow> snd (SyncOIDCUser svc s e r w))"

text \<open>The roles that a request can give to a new account.\<close>

definition op_role :: "bool \<Rightarrow> auth_op \<Rightarrow> string \<Rightarrow> bool" where
  "op_role skip op role \<longleftrightarrow> (case op of
       RegisterOp _ _ r \<Rightarrow> role = r \<and> role_allowed skip r
     | SyncOp _ _ r \<Rightarrow> role = (if r = [] then ''customer'' else r)
     | _ \<Rightarrow> False)"

context auth_store
begin

lemma auth_step_step: "(\<And>r. op_role (auSkipLimits svc) op r \<Longrightarrow> R r) \<Longrightarrow> step R w (auth_step svc op w)"
  using keepsD [OF Register_step surjective_pairing] keepsD [OF Login_step surjective_pairing]
    keepsD [OF Logout_step surjective_pairing] keepsD [OF RefreshSession_step surjective_pairing]
    keepsD [OF RequestPasswordReset_step surjective_pairing] keepsD [OF ConfirmPasswordReset_step surjective_pairing]
    keepsD [OF SyncOIDCUser_step surjective_pairing]
  by (cases op) (simp_all add: auth_step_def op_role_def)

lemma auth_run:
  "(\<And>op r. op \<in> set ops \<Longrightarrow> op_role (auSkipLimits svc) op r \<Longrightarrow> R r) \<Longrightarrow> step R w (fold (auth_step svc) ops w)"
proof (induction ops arbitrary: w)
  case Nil
  then show ?case by (simp add: step_same)
next
  case (Cons op ops)
  have "step R w (auth_step svc op w)" using Cons.prems by (intro auth_step_step) auto
  moreover have "step R (auth_step svc op w) (fold (auth_step svc) ops (auth_step svc op w))"
    using Cons.prems by (intro Cons.IH) auto
  ultimately show ?case using step_trans by simp
qed

end

end
