(* ===== verification/AuthSafety.thy ===== *)
theory AuthSafety
  imports AuthProps
begin

text \<open>
  Accounts and sessions on PostgreSQL: the repositories of \<open>AuthPg\<close> keep the contract
  \<open>auth_store\<close>, so every run of requests over them is one of its steps. The properties follow
  with what single requests answer.
\<close>

section \<open>What a password reset does\<close>

context auth_store
begin

lemma reset_body_fx:
  assumes "bind_io (urUpdatePassword (auUsers svc) uid h) (\<lambda>_. bind_io (trMarkPasswordResetUsed (auTokens svc) tok)
      (\<lambda>_. trRevokeAllUserTokens (auTokens svc) uid)) v = (Inr r, v')"
  shows "view v' = revoke_where (\<lambda>r. rtUserID r = uid) (use_where (\<lambda>r. prtToken r = tok)
      (change_users uid (\<lambda>u. u\<lparr>usrPassword := h\<rparr>) (view v)))"
proof -
  obtain p v1 where p: "urUpdatePassword (auUsers svc) uid h v = (p, v1)" by fastforce
  obtain q v2 where q: "trMarkPasswordResetUsed (auTokens svc) tok v1 = (q, v2)" by fastforce
  obtain z v3 where z: "trRevokeAllUserTokens (auTokens svc) uid v2 = (z, v3)" by fastforce
  have "\<not> isl p" "\<not> isl q" "\<not> isl z" "v' = v3" using assms p q z by (auto simp: bind_io_def split: sum.splits)
  then show ?thesis using update_password [OF p] mark [OF q] revoke_all [OF z] by (simp add: moves_def)
qed

lemma Confirm_fx:
  assumes run: "ConfirmPasswordReset svc tok pw w = (Inr u, w1)" and out: "\<not> in_tx w"
  obtains t h where "t \<in> set (avResets (view w))" "prtToken t = tok" "\<not> prtUsed t" "clock w \<le> prtExpiresAt t"
    "auHash svc pw = Inr h" "view w1 = revoke_where (\<lambda>r. rtUserID r = prtUserID t) (use_where (\<lambda>r. prtToken r = tok)
      (change_users (prtUserID t) (\<lambda>u. u\<lparr>usrPassword := h\<rparr>) (view w)))"
proof -
  obtain now v where n: "time_now w = (now, v)" by fastforce
  obtain g v1 where g: "trGetPasswordResetToken (auTokens svc) tok v = (g, v1)" by fastforce
  from run n g obtain t h where t: "g = Inr t" "\<not> prtUsed t" "\<not> prtExpiresAt t < now" "auHash svc pw = Inr h"
    by (auto simp: ConfirmPasswordReset_def bind_io_def on_error_def fail_io_def split: sum.splits if_splits)
  let ?body = "bind_io (urUpdatePassword (auUsers svc) (prtUserID t) h) (\<lambda>_. bind_io (trMarkPasswordResetUsed (auTokens svc) tok)
      (\<lambda>_. trRevokeAllUserTokens (auTokens svc) (prtUserID t)))"
  obtain x v2 where x: "auRunInTx svc ?body v1 = (x, v2)" by fastforce
  have xr: "x = Inr u" "w1 = v2"
    using run n g t x by (auto simp: ConfirmPasswordReset_def bind_io_def on_error_def fail_io_def split: sum.splits)
  have at: "view v1 = view w" "\<not> in_tx v1" "clock w \<le> now" "t \<in> set (avResets (view w))" "prtToken t = tok"
    using tick(1) [OF n] get_reset [OF g] t(1) out by (auto simp: moves_def)
  have "keeps calm_rel ?body" by (intro calm_txs)
  then have "keeps (\<lambda>v v'. clock v \<le> clock v') ?body" by (simp add: keeps_def calm_rel_def)
  from tx [OF at(2) x this] xr(1) obtain y y' where "view y = view v1" "?body y = (Inr u, y')" "view v2 = view y'" by auto
  with reset_body_fx [OF this(2)] at xr(2) t(2-4) show thesis by (intro that [of t h]) simp_all
qed

end

section \<open>The tables of PostgreSQL\<close>

definition view_pg :: "'a auth_db_scheme \<Rightarrow> auth_view" where
  "view_pg w = \<lparr>avUsers = users_tbl w, avTokens = rtokens_tbl w, avResets = ptokens_tbl w\<rparr>"

lemma view_pg_sel [simp]:
  "avUsers (view_pg w) = users_tbl w" "avTokens (view_pg w) = rtokens_tbl w" "avResets (view_pg w) = ptokens_tbl w"
  by (simp_all add: view_pg_def)

lemma view_same_more: "env.more w1 = env.more (w :: 'a auth_db_scheme) \<Longrightarrow> view_pg w1 = view_pg w"
  by (cases w; cases w1) (simp add: view_pg_def)

lemma view_pg_upd [simp]:
  "view_pg (w\<lparr>users_tbl := u\<rparr>) = (view_pg w)\<lparr>avUsers := u\<rparr>" "view_pg (w\<lparr>rtokens_tbl := r\<rparr>) = (view_pg w)\<lparr>avTokens := r\<rparr>"
  "view_pg (w\<lparr>ptokens_tbl := p\<rparr>) = (view_pg w)\<lparr>avResets := p\<rparr>" "view_pg (db_reject w) = view_pg w"
  "view_pg (w\<lparr>in_tx := b\<rparr>) = view_pg w" "view_pg (w\<lparr>randoms := rs\<rparr>) = view_pg w"
  by (simp_all add: view_pg_def db_reject_def)

lemma db_reject_sel [simp]: "clock (db_reject w) = clock w" "in_tx (db_reject w) = in_tx w"
  by (simp_all add: db_reject_def)

text \<open>A statement moves the tables the way its body does.\<close>

lemma sql_moves:
  fixes w :: "'a auth_db_scheme"
  assumes run: "sql f w = (r, w')" and body: "\<And>v. f v = (r, w') \<Longrightarrow> moves view_pg v r w' Q"
  shows "moves view_pg w r w' Q"
  using sql_fx [OF run]
proof
  assume "\<exists>w1. same_store w w1 \<and> f w1 = (r, w')"
  then obtain w1 where w1: "env.more w1 = env.more w" "in_tx w1 = in_tx w" "clock w1 = clock w" "f w1 = (r, w')"
    by (auto simp: same_store_def)
  have v: "view_pg w1 = view_pg w" by (rule view_same_more) (rule w1(1))
  from body [OF w1(4)] show ?thesis unfolding moves_def v w1(2,3) .
next
  assume "\<exists>m. r = Inl (DbError m) \<and> same_store w w'"
  then have "isl r" "env.more w' = env.more w" "in_tx w' = in_tx w" "clock w' = clock w" by (auto simp: same_store_def)
  then show ?thesis using view_same_more [of w' w] by (simp add: moves_def)
qed

lemma find_user_moves:
  assumes "find_user P w = (r, w')"
  shows "reads view_pg w r w' (\<lambda>a u. u \<in> set (avUsers a) \<and> P u)"
  using assms unfolding find_user_def
proof (rule sql_moves)
  fix v assume "(case List.find P (users_tbl v) of None \<Rightarrow> (Inl ErrUserNotFound, v) | Some u \<Rightarrow> (Inr u, v)) = (r, w')"
  then show "reads view_pg v r w' (\<lambda>a u. u \<in> set (avUsers a) \<and> P u)"
    by (auto simp: moves_def find_Some_iff intro: nth_mem split: option.splits)
qed

lemma RunInTx_moves:
  fixes w :: "'a auth_db_scheme"
  assumes out: "\<not> in_tx w" and run: "RunInTx_pg fn w = (r, w1)" and mono: "keeps (\<lambda>v v'. clock v \<le> clock v') fn"
  shows "\<not> in_tx w1 \<and> clock w \<le> clock w1 \<and> (if isl r then view_pg w1 = view_pg w
     else (\<exists>v v'. clock w \<le> clock v \<and> view_pg v = view_pg w \<and> fn v = (r, v') \<and> view_pg w1 = view_pg v' \<and> clock v' \<le> clock w1))"
proof -
  obtain b w2 where b: "db_call w = (b, w2)" by fastforce
  then have w2: "env.more w2 = env.more w" "clock w2 = clock w" "in_tx w2 = in_tx w" by (auto elim!: db_callE)
  note v2 = view_same_more [OF w2(1)]
  show ?thesis
  proof (cases b)
    case (Inl e)
    with run b out have "isl r" "w1 = w2" by (auto simp: RunInTx_pg_def)
    with out w2 v2 show ?thesis by simp
  next
    case (Inr u)
    obtain y w3 where y: "fn (w2\<lparr>in_tx := True\<rparr>) = (y, w3)" by fastforce
    obtain c w4 where c: "db_call w3 = (c, w4)" by fastforce
    then have w4: "env.more w4 = env.more w3" "clock w4 = clock w3" by (auto elim!: db_callE)
    have m: "clock w \<le> clock w3" using keepsD [OF mono y] w2(2) by simp
    have undone: "view_pg (rollback w2 z) = view_pg w" "in_tx (rollback w2 z) = False" "clock (rollback w2 z) = clock z" for z
      using view_same_more [of "rollback w2 z" w2] v2 by (simp_all add: rollback_def)
    show ?thesis
    proof (cases "isl y \<or> tx_aborted w3 \<or> isl c")
      case True
      with run b Inr y c out have "isl r \<and> (w1 = rollback w2 w3 \<or> w1 = rollback w2 w4)"
        by (auto simp: RunInTx_pg_def split: sum.splits if_splits)
      with undone m w4 show ?thesis by auto
    next
      case False
      with run b Inr y c out have "r = y" "w1 = w4\<lparr>in_tx := False\<rparr>"
        by (auto simp: RunInTx_pg_def split: sum.splits)
      moreover have "view_pg w1 = view_pg w3" using view_same_more [OF w4(1)] \<open>w1 = w4\<lparr>in_tx := False\<rparr>\<close> by simp
      ultimately have "\<exists>v v'. clock w \<le> clock v \<and> view_pg v = view_pg w \<and> fn v = (r, v') \<and> view_pg w1 = view_pg v' \<and> clock v' \<le> clock w1"
        using y v2 w2 w4 by (intro exI [of _ "w2\<lparr>in_tx := True\<rparr>"] exI [of _ w3]) simp
      with \<open>w1 = w4\<lparr>in_tx := False\<rparr>\<close> \<open>r = y\<close> False m w4 show ?thesis by simp
    qed
  qed
qed

lemma auth_service_sel [simp]:
  "auUsers (auth_service_pg jwt hash compare skip) = user_repo_pg" "auTokens (auth_service_pg jwt hash compare skip) = token_repo_pg"
  "auRunInTx (auth_service_pg jwt hash compare skip) = RunInTx_pg" "auHash (auth_service_pg jwt hash compare skip) = hash"
  "auCompare (auth_service_pg jwt hash compare skip) = compare" "auSkipLimits (auth_service_pg jwt hash compare skip) = skip"
  "auJwt (auth_service_pg jwt hash compare skip) = jwt"
  by (simp_all add: auth_service_pg_def)

lemma token_repo_sel [simp]:
  "trSaveRefreshToken token_repo_pg = SaveRefreshToken_pg" "trGetRefreshToken token_repo_pg = GetRefreshToken_pg"
  "trRevokeRefreshToken token_repo_pg = RevokeRefreshToken_pg" "trRevokeAllUserTokens token_repo_pg = RevokeAllUserTokens_pg"
  "trGetActiveRefreshTokens token_repo_pg = GetActiveRefreshTokens_pg" "trSavePasswordResetToken token_repo_pg = SavePasswordResetToken_pg"
  "trGetPasswordResetToken token_repo_pg = GetPasswordResetToken_pg" "trMarkPasswordResetUsed token_repo_pg = MarkPasswordResetUsed_pg"
  "trInvalidateUserResetTokens token_repo_pg = InvalidateUserResetTokens_pg"
  by (simp_all add: token_repo_pg_def)

lemma user_repo_sel [simp]:
  "urCreate user_repo_pg = usrCreate_pg" "urGetByEmail user_repo_pg = usrGetByEmail_pg" "urGetByID user_repo_pg = usrGetByID_pg"
  "urUpdatePassword user_repo_pg = usrUpdatePassword_pg" "urUpdate user_repo_pg = usrUpdate_pg" "urGetByOIDCSub user_repo_pg = usrGetByOIDCSub_pg"
  by (simp_all add: user_repo_pg_def)


lemma sql_reject: "moves view_pg v (fst (reject m v)) (snd (reject m v)) Q"
  by (simp add: reject_def moves_def)

lemma in_place: "r\<lparr>rtRevoked := True\<rparr> = revoke_row r"
  by (simp add: revoke_row_def)

lemma revoke_noop: "rtRevoked r \<Longrightarrow> revoke_row r = r" "prtUsed p \<Longrightarrow> p\<lparr>prtUsed := True\<rparr> = p"
  by (simp add: revoke_row_def) simp

lemmas pg_calls = usrCreate_pg_def usrGetByEmail_pg_def usrGetByID_pg_def usrGetByOIDCSub_pg_def usrUpdatePassword_pg_def
  usrUpdate_pg_def SaveRefreshToken_pg_def GetRefreshToken_pg_def RevokeRefreshToken_pg_def RevokeAllUserTokens_pg_def
  SavePasswordResetToken_pg_def GetPasswordResetToken_pg_def MarkPasswordResetUsed_pg_def InvalidateUserResetTokens_pg_def

lemmas pg_changes = moves_def reject_def change_users_def revoke_where_def use_where_def in_place revoke_noop

interpretation pg_auth: auth_store "auth_service_pg jwt hash compare skip :: ('a auth_db_scheme) authService" view_pg
proof (unfold_locales, unfold auth_service_sel token_repo_sel user_repo_sel)
  fix w w1 :: "'a auth_db_scheme" and u r
  assume "usrCreate_pg u w = (r, w1)"
  then show "moves view_pg w r w1 (\<lambda>a b. usrID u \<notin> usrID ` set (avUsers a) \<and> usrEmail u \<notin> usrEmail ` set (avUsers a) \<and>
      b = a\<lparr>avUsers := avUsers a @ [u]\<rparr>)"
    unfolding pg_calls by (rule sql_moves) (auto simp: pg_changes split: if_splits)
next
  fix w w1 :: "'a auth_db_scheme" and e q
  show "usrGetByEmail_pg e w = (q, w1) \<Longrightarrow> reads view_pg w q w1 (\<lambda>a u. u \<in> set (avUsers a) \<and> usrEmail u = e)"
    "usrGetByID_pg e w = (q, w1) \<Longrightarrow> reads view_pg w q w1 (\<lambda>a u. u \<in> set (avUsers a) \<and> usrID u = e)"
    "usrGetByOIDCSub_pg e w = (q, w1) \<Longrightarrow> reads view_pg w q w1 (\<lambda>a u. u \<in> set (avUsers a) \<and> usrOIDCSub u = e)"
    unfolding pg_calls by (erule find_user_moves)+
next
  fix w w1 :: "'a auth_db_scheme" and i h r
  assume "usrUpdatePassword_pg i h w = (r, w1)"
  then show "moves view_pg w r w1 (\<lambda>a b. b = change_users i (\<lambda>u. u\<lparr>usrPassword := h\<rparr>) a)"
    unfolding pg_calls by (rule sql_moves) (auto simp: pg_changes split: if_splits)
next
  fix w w1 :: "'a auth_db_scheme" and u r
  assume "usrUpdate_pg u w = (r, w1)"
  then show "moves view_pg w r w1 (\<lambda>a b. b = change_users (usrID u) (\<lambda>r. u\<lparr>usrCreatedAt := usrCreatedAt r\<rparr>) a)"
    unfolding pg_calls by (rule sql_moves) (auto simp: pg_changes split: if_splits)
next
  fix w w1 :: "'a auth_db_scheme" and t r
  assume "SaveRefreshToken_pg t w = (r, w1)"
  then show "moves view_pg w r w1 (\<lambda>a b. rtToken t \<notin> rtToken ` set (avTokens a) \<and> b = a\<lparr>avTokens := avTokens a @ [t]\<rparr>)"
    unfolding pg_calls by (rule sql_moves) (auto simp: pg_changes split: if_splits)
next
  fix w w1 :: "'a auth_db_scheme" and tok g
  assume "GetRefreshToken_pg tok w = (g, w1)"
  then show "reads view_pg w g w1 (\<lambda>a t. t \<in> set (avTokens a) \<and> rtToken t = tok)"
    unfolding pg_calls by (rule sql_moves) (auto simp: pg_changes split: option.splits dest: row_of_Some)
next
  fix w w1 :: "'a auth_db_scheme" and tok r
  assume "RevokeRefreshToken_pg tok w = (r, w1)"
  then show "moves view_pg w r w1 (\<lambda>a b. b = revoke_where (\<lambda>r. rtToken r = tok) a)"
    unfolding pg_calls by (rule sql_moves) (auto simp: pg_changes split: if_splits)
next
  fix w w1 :: "'a auth_db_scheme" and uid r
  assume "RevokeAllUserTokens_pg uid w = (r, w1)"
  then show "moves view_pg w r w1 (\<lambda>a b. b = revoke_where (\<lambda>r. rtUserID r = uid) a)"
    unfolding pg_calls by (rule sql_moves) (auto simp: pg_changes)
next
  fix w w1 :: "'a auth_db_scheme" and uid ts
  assume "GetActiveRefreshTokens_pg uid w = (ts, w1)"
  moreover obtain t w0 where t: "time_now w = (t, w0)" by fastforce
  ultimately have "sql (\<lambda>w. (Inr (sort_key rtCreatedAt (filter (active_at uid t) (rtokens_tbl w))), w)) w0 = (ts, w1)"
    by (simp add: GetActiveRefreshTokens_pg_def)
  then have "reads view_pg w0 ts w1 (\<lambda>a xs. mset xs = mset (filter (active_at uid t) (avTokens a)))"
    by (rule sql_moves) (auto simp: pg_changes)
  moreover have "t = clock w0" "clock w \<le> clock w0" "in_tx w0 = in_tx w" "view_pg w0 = view_pg w"
    using t by (auto elim!: time_nowE simp: view_pg_def)
  ultimately show "reads view_pg w ts w1 (\<lambda>a xs. \<exists>t. clock w \<le> t \<and> t \<le> clock w1 \<and> mset xs = mset (filter (active_at uid t) (avTokens a)))"
    by (auto simp: moves_def)
next
  fix w w1 :: "'a auth_db_scheme" and p r
  assume "SavePasswordResetToken_pg p w = (r, w1)"
  then show "moves view_pg w r w1 (\<lambda>a b. prtToken p \<notin> prtToken ` set (avResets a) \<and> b = a\<lparr>avResets := avResets a @ [p]\<rparr>)"
    unfolding pg_calls by (rule sql_moves) (auto simp: pg_changes split: if_splits)
next
  fix w w1 :: "'a auth_db_scheme" and tok p'
  assume "GetPasswordResetToken_pg tok w = (p', w1)"
  then show "reads view_pg w p' w1 (\<lambda>a t. t \<in> set (avResets a) \<and> prtToken t = tok)"
    unfolding pg_calls by (rule sql_moves) (auto simp: pg_changes split: option.splits dest: row_of_Some)
next
  fix w w1 :: "'a auth_db_scheme" and tok r
  assume "MarkPasswordResetUsed_pg tok w = (r, w1)"
  then show "moves view_pg w r w1 (\<lambda>a b. b = use_where (\<lambda>r. prtToken r = tok) a)"
    unfolding pg_calls by (rule sql_moves) (auto simp: pg_changes split: if_splits)
next
  fix w w1 :: "'a auth_db_scheme" and uid r
  assume "InvalidateUserResetTokens_pg uid w = (r, w1)"
  then show "moves view_pg w r w1 (\<lambda>a b. b = use_where (\<lambda>r. prtUserID r = uid) a)"
    unfolding pg_calls by (rule sql_moves) (auto simp: pg_changes)
next
  fix w w1 :: "'a auth_db_scheme" and fn r
  assume "\<not> in_tx w" "RunInTx_pg fn w = (r, w1)" "keeps (\<lambda>v v'. clock v \<le> clock v') fn"
  from RunInTx_moves [OF this] show "\<not> in_tx w1 \<and> clock w \<le> clock w1 \<and> (if isl r then view_pg w1 = view_pg w
     else (\<exists>v v'. clock w \<le> clock v \<and> view_pg v = view_pg w \<and> fn v = (r, v') \<and> view_pg w1 = view_pg v' \<and> clock v' \<le> clock w1))" .
next
  fix w w1 :: "'a auth_db_scheme" and rs
  show "env.more w1 = env.more w \<Longrightarrow> view_pg w1 = view_pg w" by (rule view_same_more)
  show "view_pg (w\<lparr>randoms := rs\<rparr>) = view_pg w" by simp
qed


section \<open>Single requests\<close>

abbreviation auth_run_pg ::
  "JWTManager \<Rightarrow> (string \<Rightarrow> err + string) \<Rightarrow> (string \<Rightarrow> string \<Rightarrow> bool) \<Rightarrow> bool \<Rightarrow> auth_op list \<Rightarrow>
    'a auth_db_scheme \<Rightarrow> 'a auth_db_scheme" where
  "auth_run_pg jwt hash compare skip \<equiv> fold (auth_step (auth_service_pg jwt hash compare skip))"

text \<open>What any run does: the step of the contract, for the roles that the requests may give.\<close>

lemma run_pg:
  fixes w :: "'a auth_db_scheme" and jwt hash compare
  assumes "\<not> in_tx w" "view_ok (view_pg w)" "\<And>op r. op \<in> set ops \<Longrightarrow> op_role skip op r \<Longrightarrow> R r"
  defines "w' \<equiv> auth_run_pg jwt hash compare skip ops w"
  shows "\<not> in_tx w'" "clock w \<le> clock w'" "view_ok (view_pg w')" "evolves R (clock w') (view_pg w) (view_pg w')"
    "limited (clock w) (view_pg w) \<Longrightarrow> limited (clock w') (view_pg w')"
  using pg_auth.auth_run [of ops jwt hash compare skip R w] assms unfolding pg_auth.step_def by simp_all

lemma only_email: "view_ok (view_pg w) \<Longrightarrow> u \<in> set (users_tbl w) \<Longrightarrow> v \<in> set (users_tbl w) \<Longrightarrow> usrEmail u = usrEmail v \<Longrightarrow> u = v"
  by (auto simp: view_ok_def distinct_map dest: inj_onD)

lemma only_token: "view_ok (view_pg w) \<Longrightarrow> u \<in> set (rtokens_tbl w) \<Longrightarrow> v \<in> set (rtokens_tbl w) \<Longrightarrow> rtToken u = rtToken v \<Longrightarrow> u = v"
  by (auto simp: view_ok_def distinct_map dest: inj_onD)

lemma only_reset: "view_ok (view_pg w) \<Longrightarrow> u \<in> set (ptokens_tbl w) \<Longrightarrow> v \<in> set (ptokens_tbl w) \<Longrightarrow> prtToken u = prtToken v \<Longrightarrow> u = v"
  by (auto simp: view_ok_def distinct_map dest: inj_onD)

lemma refresh_revoked:
  assumes "view_ok (view_pg w)" "r \<in> set (rtokens_tbl w)" "rtRevoked r"
    and run: "RefreshSession (auth_service_pg jwt hash compare skip) (rtToken r) w = (x, w1)"
  shows "view_pg w1 = view_pg w \<and> (\<exists>m c. x = Inl (NewUnauthorized m c))"
proof -
  obtain now v where t: "time_now w = (now, v)" by fastforce
  obtain g v1 where g: "GetRefreshToken_pg (rtToken r) v = (g, v1)" by fastforce
  have v: "view_pg v = view_pg w" using pg_auth.tick(1) [OF t] by simp
  note get = pg_auth.get [unfolded auth_service_sel token_repo_sel, OF g]
  show ?thesis
  proof (cases g)
    case (Inl e)
    with run t g get v show ?thesis by (auto simp: RefreshSession_def bind_io_def on_error_def moves_def)
  next
    case (Inr u)
    with get v have "u \<in> set (rtokens_tbl w)" "rtToken u = rtToken r" "view_pg v1 = view_pg w" by (auto simp: moves_def)
    moreover from this have "u = r" using only_token [OF assms(1) _ assms(2)] by blast
    ultimately show ?thesis using run t g Inr assms(3) by (auto simp: RefreshSession_def bind_io_def on_error_def fail_io_def)
  qed
qed

lemma login_locked:
  assumes "view_ok (view_pg w)" "u \<in> set (users_tbl w)" "usrLockedUntil u = Some l"
    and run: "Login (auth_service_pg jwt hash compare skip) (usrEmail u) pw w = (x, w1)" and "fst (time_now w) < l"
  shows "view_pg w1 = view_pg w \<and> (\<exists>m c. x = Inl (NewUnauthorized m c))"
proof -
  obtain now v where t: "time_now w = (now, v)" by fastforce
  obtain q v1 where q: "usrGetByEmail_pg (usrEmail u) v = (q, v1)" by fastforce
  have v: "view_pg v = view_pg w" "now = clock v" using pg_auth.tick(1) [OF t] by simp_all
  note get = pg_auth.by_email [unfolded auth_service_sel user_repo_sel, OF q]
  show ?thesis
  proof (cases q)
    case (Inl e)
    with run t q get v show ?thesis by (auto simp: Login_def moves_def bad_credentials_def)
  next
    case (Inr y)
    with get v have y: "y \<in> set (users_tbl w)" "usrEmail y = usrEmail u" "view_pg v1 = view_pg w"
      by (auto simp: moves_def)
    then have "y = u" using only_email [OF assms(1) _ assms(2)] by blast
    with run t q Inr y assms(3,5) show ?thesis by (auto simp: Login_def locked_at_def)
  qed
qed


lemma reset_used:
  assumes "view_ok (view_pg w)" "t \<in> set (ptokens_tbl w)" "prtUsed t"
  shows "isl (fst (ConfirmPasswordReset (auth_service_pg jwt hash compare skip) (prtToken t) pw w))"
proof -
  obtain now v where n: "time_now w = (now, v)" by fastforce
  obtain g v1 where g: "GetPasswordResetToken_pg (prtToken t) v = (g, v1)" by fastforce
  have v: "view_pg v = view_pg w" using pg_auth.tick(1) [OF n] by simp
  show ?thesis
  proof (cases g)
    case (Inl e)
    with n g show ?thesis by (simp add: ConfirmPasswordReset_def bind_io_def on_error_def)
  next
    case (Inr u)
    with pg_auth.get_reset [unfolded auth_service_sel token_repo_sel, OF g] v
    have "u \<in> set (ptokens_tbl w)" "prtToken u = prtToken t" by (auto simp: moves_def)
    then have "u = t" using only_reset [OF assms(1) _ assms(2)] by blast
    with n g Inr assms(3) show ?thesis by (simp add: ConfirmPasswordReset_def bind_io_def on_error_def fail_io_def)
  qed
qed

section \<open>Properties\<close>

text \<open>C27. Nobody ever has more than five sessions: over any run of registrations, logins, logouts, refreshes, password
resets and provider logins, with whatever calls failing, at most five refresh tokens of a user are unrevoked and unexpired.\<close>
theorem session_limit:
  fixes w :: "'a auth_db_scheme"
  assumes "\<not> in_tx w" and "view_ok (view_pg w)"
    and "\<forall>uid. length (filter (active_at uid (clock w)) (rtokens_tbl w)) \<le> 5"
  shows "length (filter (active_at uid (clock (auth_run_pg jwt hash compare skip ops w)))
     (rtokens_tbl (auth_run_pg jwt hash compare skip ops w))) \<le> 5"
  using run_pg(5) [OF assms(1,2), of ops skip "\<lambda>_. True" jwt hash compare] assms(3) by (simp add: limited_def live_def)

text \<open>C28. A revoked refresh token is dead: over any run it stays revoked, and a refresh with it is answered by
401 and changes no table.\<close>
theorem revoked_token_dead:
  fixes w :: "'a auth_db_scheme"
  assumes "\<not> in_tx w" and "view_ok (view_pg w)" and "r \<in> set (rtokens_tbl w)" and "rtRevoked r"
    and "RefreshSession (auth_service_pg jwt hash compare skip) (rtToken r) (auth_run_pg jwt hash compare skip ops w) = (x, w1)"
  shows "r \<in> set (rtokens_tbl w1) \<and> view_pg w1 = view_pg (auth_run_pg jwt hash compare skip ops w) \<and>
    (\<exists>e. x = Inl e \<and> http_status e = 401)"
proof -
  note run = run_pg [OF assms(1,2), of ops skip "\<lambda>_. True" jwt hash compare]
  have r: "r \<in> set (rtokens_tbl (auth_run_pg jwt hash compare skip ops w))" using run(4) assms(3,4) by (auto simp: evolves_def)
  from refresh_revoked [OF run(3) this assms(4,5)] have v: "view_pg w1 = view_pg (auth_run_pg jwt hash compare skip ops w)"
    and "\<exists>m c. x = Inl (NewUnauthorized m c)" by auto
  moreover have "rtokens_tbl w1 = rtokens_tbl (auth_run_pg jwt hash compare skip ops w)" using v by (metis view_pg_sel(2))
  ultimately show ?thesis using r by (auto simp: NewUnauthorized_def)
qed

text \<open>C29. A lock holds: an account locked until \<open>l\<close> stays locked over any run whose clock has not passed \<open>l\<close>, and
a login to it is refused with 401 and changes nothing, whatever the password and whatever bcrypt would say of it.\<close>
theorem lock_holds:
  fixes w :: "'a auth_db_scheme"
  assumes "\<not> in_tx w" and "view_ok (view_pg w)" and "u \<in> set (users_tbl w)" and "usrLockedUntil u = Some l"
    and "Login (auth_service_pg jwt hash compare skip) (usrEmail u) pw (auth_run_pg jwt hash compare skip ops w) = (x, w1)"
    and "fst (time_now (auth_run_pg jwt hash compare skip ops w)) < l"
  shows "(\<exists>u'\<in>set (users_tbl w1). usrID u' = usrID u \<and> usrLockedUntil u' = Some l) \<and>
    view_pg w1 = view_pg (auth_run_pg jwt hash compare skip ops w) \<and> (\<exists>e. x = Inl e \<and> http_status e = 401)"
proof -
  let ?w = "auth_run_pg jwt hash compare skip ops w"
  note run = run_pg [OF assms(1,2), of ops skip "\<lambda>_. True" jwt hash compare]
  have "clock ?w < l" using assms(6) by (auto simp: time_now_def split: list.splits)
  then obtain u' where u': "u' \<in> set (users_tbl ?w)" "usrID u' = usrID u" "usrEmail u' = usrEmail u" "usrLockedUntil u' = Some l"
    using run(4) assms(3,4) by (auto simp: evolves_def same_account_def)
  from login_locked [OF run(3) u'(1,4) assms(5) [folded u'(3)] assms(6)]
  have v: "view_pg w1 = view_pg ?w" and x: "\<exists>m c. x = Inl (NewUnauthorized m c)" by auto
  have "users_tbl w1 = users_tbl ?w" using v by (metis view_pg_sel(1))
  with u' v x show ?thesis by (auto simp: NewUnauthorized_def)
qed

text \<open>C30. A password reset that answers has, in one transaction, given the owner of an unused, unexpired token the
new password's hash, marked the token as used and revoked all sessions of the owner, and changed nothing else; and
over any later run the token is never accepted again.\<close>
theorem reset_single_use:
  fixes w :: "'a auth_db_scheme"
  assumes "\<not> in_tx w" and "view_ok (view_pg w)"
    and "ConfirmPasswordReset (auth_service_pg jwt hash compare skip) tok pw w = (Inr u, w1)"
  shows "(\<exists>t\<in>set (ptokens_tbl w). \<exists>h. prtToken t = tok \<and> \<not> prtUsed t \<and> clock w \<le> prtExpiresAt t \<and> hash pw = Inr h \<and>
       users_tbl w1 = map (\<lambda>r. if usrID r = prtUserID t then r\<lparr>usrPassword := h\<rparr> else r) (users_tbl w) \<and>
       rtokens_tbl w1 = map (\<lambda>r. if rtUserID r = prtUserID t then r\<lparr>rtRevoked := True\<rparr> else r) (rtokens_tbl w) \<and>
       ptokens_tbl w1 = map (\<lambda>r. if prtToken r = tok then r\<lparr>prtUsed := True\<rparr> else r) (ptokens_tbl w)) \<and>
     isl (fst (ConfirmPasswordReset (auth_service_pg jwt hash compare skip) tok pw' (auth_run_pg jwt hash compare skip ops w1)))"
proof -
  from pg_auth.Confirm_fx [OF assms(3,1)] obtain t h where t: "t \<in> set (ptokens_tbl w)" "prtToken t = tok" "\<not> prtUsed t"
    "clock w \<le> prtExpiresAt t" "hash pw = Inr h" and v: "view_pg w1 = revoke_where (\<lambda>r. rtUserID r = prtUserID t)
      (use_where (\<lambda>r. prtToken r = tok) (change_users (prtUserID t) (\<lambda>u. u\<lparr>usrPassword := h\<rparr>) (view_pg w)))"
    by auto
  have tables: "users_tbl w1 = map (\<lambda>r. if usrID r = prtUserID t then r\<lparr>usrPassword := h\<rparr> else r) (users_tbl w)"
    "rtokens_tbl w1 = map (\<lambda>r. if rtUserID r = prtUserID t then r\<lparr>rtRevoked := True\<rparr> else r) (rtokens_tbl w)"
    "ptokens_tbl w1 = map (\<lambda>r. if prtToken r = tok then r\<lparr>prtUsed := True\<rparr> else r) (ptokens_tbl w)"
    using v by (auto simp: pg_changes view_pg_def)
  have "\<not> in_tx w1 \<and> view_ok (view_pg w1)"
    using keepsD [OF pg_auth.ConfirmPasswordReset_step [of "\<lambda>_. True"] assms(3)] assms(1,2) by (simp add: pg_auth.step_def)
  then have ok: "\<not> in_tx w1" "view_ok (view_pg w1)" by auto
  note run = run_pg [OF ok, of ops skip "\<lambda>_. True" jwt hash compare]
  let ?t = "t\<lparr>prtUsed := True\<rparr>"
  have "?t \<in> set (ptokens_tbl w1)" using t(1,2) unfolding tables by (force simp: image_iff)
  then have "?t \<in> set (ptokens_tbl (auth_run_pg jwt hash compare skip ops w1))" using run(4) by (force simp: evolves_def)
  from reset_used [OF run(3) this, of jwt hash compare skip pw'] t tables show ?thesis by auto
qed



section \<open>Witnesses\<close>

definition sample_auth :: "User list \<Rightarrow> RefreshToken list \<Rightarrow> PasswordResetToken list \<Rightarrow> nat list option list \<Rightarrow> auth_db" where
  "sample_auth us rs ps tape = \<lparr>clock = 100, delays = [], uuids = [Some ''1'', Some ''2''], faults = [], ctx_trace = None,
     ctx_corr = None, in_tx = False, tx_aborted = False, bus_log = [], randoms = tape, users_tbl = us, rtokens_tbl = rs,
     ptokens_tbl = ps\<rparr>"

definition sample_user :: "string \<Rightarrow> int option \<Rightarrow> User" where
  "sample_user i l = \<lparr>usrID = i, usrEmail = i @ ''@x'', usrPassword = ''hpw'', usrOIDCSub = [], usrRole = ''customer'',
     usrCreatedAt = 1, usrUpdatedAt = 1, usrFailedLoginAttempts = 0, usrLockedUntil = l\<rparr>"

definition sample_token :: "string \<Rightarrow> string \<Rightarrow> bool \<Rightarrow> RefreshToken" where
  "sample_token tok uid b = \<lparr>rtID = tok, rtUserID = uid, rtToken = tok, rtExpiresAt = 1000, rtCreatedAt = 5, rtRevoked = b\<rparr>"

definition sample_reset :: "string \<Rightarrow> PasswordResetToken" where
  "sample_reset tok = \<lparr>prtID = tok, prtUserID = ''u'', prtToken = tok, prtExpiresAt = 1000, prtUsed = False\<rparr>"

definition sample_hash :: "string \<Rightarrow> err + string" where "sample_hash p = Inr (''h'' @ p)"
definition sample_compare :: "string \<Rightarrow> string \<Rightarrow> bool" where "sample_compare h p \<longleftrightarrow> h = ''h'' @ p"
abbreviation sample_run :: "auth_op list \<Rightarrow> auth_db \<Rightarrow> auth_db" where
  "sample_run \<equiv> auth_run_pg sample_jwt sample_hash sample_compare False"

definition full_house :: auth_db where
  "full_house = sample_auth [sample_user ''u'' None, sample_user ''v'' (Some 500)]
     (map (\<lambda>t. sample_token t ''u'' False) [''a'', ''b'', ''c'', ''d'', ''e''] @ [sample_token ''f'' ''u'' True])
     [sample_reset ''p''] [Some [1], Some [2], Some [3]]"

lemma full_house_ok: "\<not> in_tx full_house" "view_ok (view_pg full_house)"
  "\<forall>uid. length (filter (active_at uid (clock full_house)) (rtokens_tbl full_house)) \<le> 5"
  by (simp_all add: full_house_def sample_auth_def view_ok_def sample_user_def sample_token_def sample_reset_def active_at_def)

theorem session_limit_witness:
  "let w = sample_run [LoginOp ''u@x'' ''pw'', RefreshOp ''e'', RegisterOp ''n@x'' ''q'' ''merchant''] full_house
   in length (filter (active_at ''u'' (clock w)) (rtokens_tbl w)) \<le> 5 \<and> length (rtokens_tbl w) = 8 \<and> length (users_tbl w) = 3"
proof -
  have "length (rtokens_tbl (sample_run [LoginOp ''u@x'' ''pw'', RefreshOp ''e'', RegisterOp ''n@x'' ''q'' ''merchant''] full_house)) = 8"
    "length (users_tbl (sample_run [LoginOp ''u@x'' ''pw'', RefreshOp ''e'', RegisterOp ''n@x'' ''q'' ''merchant''] full_house)) = 3"
    by code_simp+
  then show ?thesis unfolding Let_def by (intro conjI session_limit [OF full_house_ok])
qed

theorem revoked_token_dead_witness:
  "\<exists>e. fst (RefreshSession (auth_service_pg sample_jwt sample_hash sample_compare False) ''f''
      (sample_run [LoginOp ''u@x'' ''pw'', LogoutOp ''a''] full_house)) = Inl e \<and> http_status e = 401"
proof -
  obtain x w1 where run: "RefreshSession (auth_service_pg sample_jwt sample_hash sample_compare False) ''f''
      (sample_run [LoginOp ''u@x'' ''pw'', LogoutOp ''a''] full_house) = (x, w1)" by fastforce
  have "sample_token ''f'' ''u'' True \<in> set (rtokens_tbl full_house)" "rtRevoked (sample_token ''f'' ''u'' True)"
    "rtToken (sample_token ''f'' ''u'' True) = ''f''"
    by (simp_all add: full_house_def sample_auth_def sample_token_def)
  with revoked_token_dead [OF full_house_ok(1,2) this(1,2), unfolded this(3), OF run] run show ?thesis by (metis fst_conv)
qed

theorem lock_holds_witness:
  "\<exists>e. fst (Login (auth_service_pg sample_jwt sample_hash sample_compare False) ''v@x'' ''pw''
      (sample_run [LoginOp ''v@x'' ''bad''] full_house)) = Inl e \<and> http_status e = 401"
proof -
  obtain x w1 where run: "Login (auth_service_pg sample_jwt sample_hash sample_compare False) ''v@x'' ''pw''
      (sample_run [LoginOp ''v@x'' ''bad''] full_house) = (x, w1)" by fastforce
  have u: "sample_user ''v'' (Some 500) \<in> set (users_tbl full_house)" "usrLockedUntil (sample_user ''v'' (Some 500)) = Some 500"
    "usrEmail (sample_user ''v'' (Some 500)) = ''v@x''"
    by (simp_all add: full_house_def sample_auth_def sample_user_def)
  have "fst (time_now (sample_run [LoginOp ''v@x'' ''bad''] full_house)) = 100" by code_simp
  then have "fst (time_now (sample_run [LoginOp ''v@x'' ''bad''] full_house)) < 500" by simp
  with lock_holds [OF full_house_ok(1,2) u(1,2), unfolded u(3), OF run] run show ?thesis by (metis fst_conv)
qed

theorem reset_single_use_witness:
  "\<exists>w1. ConfirmPasswordReset (auth_service_pg sample_jwt sample_hash sample_compare False) ''p'' ''new'' full_house = (Inr (), w1) \<and>
     (\<forall>r\<in>set (rtokens_tbl w1). rtRevoked r) \<and>
     isl (fst (ConfirmPasswordReset (auth_service_pg sample_jwt sample_hash sample_compare False) ''p'' ''x''
       (sample_run [RequestResetOp ''u@x''] w1)))"
proof -
  let ?s = "auth_service_pg sample_jwt sample_hash sample_compare False"
  obtain r w1 where run: "ConfirmPasswordReset ?s ''p'' ''new'' full_house = (r, w1)" by fastforce
  have "\<not> isl (fst (ConfirmPasswordReset ?s ''p'' ''new'' full_house))" by code_simp
  then have r: "r = Inr ()" using run by (cases r) auto
  note fx = reset_single_use [OF full_house_ok(1,2) run [unfolded r]]
  have owner: "rtUserID x = ''u''" if "x \<in> set (rtokens_tbl full_house)" for x
    using that by (auto simp: full_house_def sample_auth_def sample_token_def)
  moreover have "prtUserID t = ''u''" if "t \<in> set (ptokens_tbl full_house)" for t
    using that by (auto simp: full_house_def sample_auth_def sample_reset_def)
  moreover from conjunct1 [OF fx] obtain t h where "t \<in> set (ptokens_tbl full_house)"
    "rtokens_tbl w1 = map (\<lambda>r. if rtUserID r = prtUserID t then r\<lparr>rtRevoked := True\<rparr> else r) (rtokens_tbl full_house)"
    by (elim bexE exE conjE)
  ultimately have "rtokens_tbl w1 = map (\<lambda>r. if rtUserID r = ''u'' then r\<lparr>rtRevoked := True\<rparr> else r) (rtokens_tbl full_house)"
    by (simp only:)
  then have all: "\<forall>r\<in>set (rtokens_tbl w1). rtRevoked r" using owner by auto
  have "isl (fst (ConfirmPasswordReset ?s ''p'' ''x'' (sample_run [RequestResetOp ''u@x''] w1)))" by (rule conjunct2 [OF fx])
  with all run r show ?thesis by blast
qed


end
