(* ===== verification/CatalogDomain.thy ===== *)
theory CatalogDomain
  imports GoErrors Float64
begin

text \<open>
  The catalog's domain (\<open>internal/core/catalog/domain\<close>): products with their variants, images and
  discount, categories, their validation, and the slug of a category name. Strings are sequences of
  code points below 256; \<open>to_lower\<close> and \<open>trim_space\<close> are Go's \<open>strings.ToLower\<close> and
  \<open>strings.TrimSpace\<close> on them.
\<close>

section \<open>Strings\<close>

definition lower_char :: "char \<Rightarrow> char" where
  "lower_char c = (let n = (of_char c :: nat) in
     if 65 \<le> n \<and> n \<le> 90 \<or> 192 \<le> n \<and> n \<le> 222 \<and> n \<noteq> 215 then char_of (n + 32) else c)"

definition to_lower :: "string \<Rightarrow> string" where "to_lower s = map lower_char s"

definition is_space :: "char \<Rightarrow> bool" where
  "is_space c \<longleftrightarrow> (of_char c :: nat) \<in> {9, 10, 11, 12, 13, 32, 133, 160}"

definition trim_by :: "('a \<Rightarrow> bool) \<Rightarrow> 'a list \<Rightarrow> 'a list" where
  "trim_by P s = rev (dropWhile P (rev (dropWhile P s)))"

definition trim_space :: "string \<Rightarrow> string" where "trim_space s = trim_by is_space s"

text \<open>\<open>strings.Contains\<close>, \<open>strings.Split\<close> and \<open>strings.SplitN(_, _, 2)\<close> at a separator of one byte.\<close>

fun has_prefix :: "string \<Rightarrow> string \<Rightarrow> bool" where
  "has_prefix [] _ = True"
| "has_prefix (_ # _) [] = False"
| "has_prefix (c # p) (d # s) = (c = d \<and> has_prefix p s)"

fun contains :: "string \<Rightarrow> string \<Rightarrow> bool" where
  "contains [] sub = (sub = [])"
| "contains (c # s) sub = (has_prefix sub (c # s) \<or> contains s sub)"

fun split_at :: "char \<Rightarrow> string \<Rightarrow> string list" where
  "split_at d [] = [[]]"
| "split_at d (c # s) = (if c = d then [] # split_at d s
     else (case split_at d s of [] \<Rightarrow> [[c]] | p # ps \<Rightarrow> (c # p) # ps))"

fun split_first :: "char \<Rightarrow> string \<Rightarrow> (string \<times> string) option" where
  "split_first d [] = None"
| "split_first d (c # s) = (if c = d then Some ([], s) else map_option (\<lambda>(a, b). (c # a, b)) (split_first d s))"

section \<open>Products\<close>

text \<open>The zero \<open>time.Time\<close>, the first of January of year 1, in nanoseconds since 1970.\<close>

definition zero_time :: int where "zero_time = - (62135596800 * 1000000000)"

record ProductImage =
  imgID :: string
  imgURL :: string
  imgKey :: string
  imgIsPrimary :: bool

record ProductDiscount =
  discType :: string
  discValue :: f64

record Variant =
  varID :: string
  varSKU :: string
  varName :: string
  varPrice :: f64
  varStock :: int
  varAttributes :: "(string \<times> string) list"

record Product =
  prodID :: string
  prodName :: string
  prodDescription :: string
  prodCategoryID :: string
  prodVariants :: "Variant list"
  prodImages :: "ProductImage list"
  prodDiscount :: "ProductDiscount option"
  prodVersion :: int
  prodCreatedAt :: int
  prodUpdatedAt :: int

definition ErrProductNotFound :: err where [go_defs]: "ErrProductNotFound = Sentinel ''catalog'' ''product not found''"
definition ErrCategoryNotFound :: err where [go_defs]: "ErrCategoryNotFound = Sentinel ''catalog'' ''category not found''"
definition ErrProductRequiresVariant :: err where
  [go_defs]: "ErrProductRequiresVariant = Sentinel ''catalog'' ''product must have at least one variant''"
definition ErrVariantPrice :: err where [go_defs]: "ErrVariantPrice = Sentinel ''catalog'' ''price cannot be negative''"
definition ErrDuplicateSKU :: err where
  [go_defs]: "ErrDuplicateSKU = Sentinel ''catalog'' ''duplicate SKU found in variants''"
definition ErrSKURequired :: err where [go_defs]: "ErrSKURequired = Sentinel ''catalog'' ''SKU is required''"
definition ErrInvalidProductName :: err where
  [go_defs]: "ErrInvalidProductName = Sentinel ''catalog'' ''product name is required''"
definition ErrInvalidProductCategoryID :: err where
  [go_defs]: "ErrInvalidProductCategoryID = Sentinel ''catalog'' ''product category ID is required''"

fun validate_variants :: "string set \<Rightarrow> Variant list \<Rightarrow> err option" where
  "validate_variants seen [] = None"
| "validate_variants seen (v # vs) =
     (if varPrice v < 0 then Some ErrVariantPrice
      else let sku = trim_space (varSKU v) in
        if sku = [] then Some ErrSKURequired
        else if sku \<in> seen then Some ErrDuplicateSKU
        else validate_variants (insert sku seen) vs)"

definition ValidateVariants :: "Variant list \<Rightarrow> err option" where
  "ValidateVariants vs = validate_variants {} vs"

definition ValidateProduct :: "Product \<Rightarrow> err option" where
  "ValidateProduct p =
     (if trim_space (prodName p) = [] then Some ErrInvalidProductName
      else if trim_space (prodCategoryID p) = [] then Some ErrInvalidProductCategoryID
      else if prodVariants p = [] then Some ErrProductRequiresVariant
      else ValidateVariants (prodVariants p))"

text \<open>What validation accepts.\<close>

lemma validate_variants_None:
  "validate_variants seen vs = None \<longleftrightarrow>
     (\<forall>v\<in>set vs. 0 \<le> varPrice v \<and> trim_space (varSKU v) \<noteq> [] \<and> trim_space (varSKU v) \<notin> seen) \<and>
     distinct (map (trim_space \<circ> varSKU) vs)"
  by (induction vs arbitrary: seen) (auto simp: Let_def not_less image_iff)

lemma ValidateProduct_None:
  "ValidateProduct p = None \<longleftrightarrow> trim_space (prodName p) \<noteq> [] \<and> trim_space (prodCategoryID p) \<noteq> [] \<and>
     prodVariants p \<noteq> [] \<and> distinct (map (trim_space \<circ> varSKU) (prodVariants p)) \<and>
     (\<forall>v\<in>set (prodVariants p). 0 \<le> varPrice v \<and> trim_space (varSKU v) \<noteq> [])"
  by (auto simp: ValidateProduct_def ValidateVariants_def validate_variants_None)

section \<open>Discounts\<close>

text \<open>The price after the discount, as the query service and the cart compute it.\<close>

definition discounted_price :: "ProductDiscount option \<Rightarrow> f64 \<Rightarrow> f64" where
  "discounted_price d price = (case d of
       None \<Rightarrow> price
     | Some d1 \<Rightarrow>
         if discType d1 = ''percentage'' then fmul price (fsub 1 (fdiv (discValue d1) 100))
         else if discType d1 = ''fixed'' then
           (let p = fsub price (discValue d1) in if p < 0 then 0 else p)
         else price)"

text \<open>The discounts that the discount service lets through.\<close>

definition discount_ok :: "ProductDiscount option \<Rightarrow> bool" where
  "discount_ok d \<longleftrightarrow> (case d of None \<Rightarrow> True
     | Some d1 \<Rightarrow> 0 \<le> discValue d1 \<and> (discType d1 = ''percentage'' \<longrightarrow> discValue d1 \<le> 100))"

lemma fl_one [simp]: "fl 1 = 1"
  using fl_of_int [of 1] by simp

lemma discount_factor: "0 \<le> v \<Longrightarrow> v \<le> 100 \<Longrightarrow> 0 \<le> fsub 1 (fdiv v 100) \<and> fsub 1 (fdiv v 100) \<le> 1"
  using fl_mono [of "v / 100" 1] fl_nonneg [of "v / 100"] fl_mono [of "1 - fl (v / 100)" 1]
    fl_nonneg [of "1 - fl (v / 100)"] by (simp add: fsub_def fdiv_def)

lemma discounted_price_bounds:
  assumes "discount_ok d" "0 \<le> price" "fl price = price"
  shows "0 \<le> discounted_price d price \<and> discounted_price d price \<le> price"
proof (cases d)
  case None
  with assms show ?thesis by (simp add: discounted_price_def)
next
  case (Some d1)
  have pct: "0 \<le> fmul price f \<and> fmul price f \<le> price" if "0 \<le> f" "f \<le> 1" for f
    using that assms(2,3) fl_mono [of "price * f" price] fl_nonneg [of "price * f"]
    by (simp add: fmul_def mult_left_le)
  have "fsub price v \<le> price" if "0 \<le> v" for v
    using that assms(3) fl_mono [of "price - v" price] by (simp add: fsub_def)
  with Some assms(1,2) pct [OF conjunct1 [OF discount_factor] conjunct2 [OF discount_factor]] show ?thesis
    by (auto simp: discounted_price_def discount_ok_def Let_def)
qed

section \<open>Categories\<close>

record Category =
  catID :: string
  catName :: string
  catSlug :: string
  catParentID :: "string option"
  catCreatedAt :: int
  catUpdatedAt :: int

definition ErrInvalidCategoryName :: err where
  [go_defs]: "ErrInvalidCategoryName = Sentinel ''catalog'' ''category name is required''"
definition ErrInvalidCategorySlug :: err where
  [go_defs]: "ErrInvalidCategorySlug = Sentinel ''catalog'' ''category slug is required''"

definition ValidateCategory :: "Category \<Rightarrow> err option" where
  "ValidateCategory c = (if trim_space (catName c) = [] then Some ErrInvalidCategoryName
     else if trim_space (catSlug c) = [] then Some ErrInvalidCategorySlug else None)"

text \<open>
  \<open>GenerateSlug\<close>; \<open>nfc\<close> is the chain of \<open>golang.org/x/text\<close> that decomposes characters, removes
  their marks and composes them again.
\<close>

definition slug_char :: "char \<Rightarrow> bool" where
  "slug_char c \<longleftrightarrow> (let n = (of_char c :: nat) in 97 \<le> n \<and> n \<le> 122 \<or> 48 \<le> n \<and> n \<le> 57 \<or> c = CHR ''-'')"

fun squeeze_hyphens :: "string \<Rightarrow> string" where
  "squeeze_hyphens (a # b # s) = (if a = CHR ''-'' \<and> b = CHR ''-'' then squeeze_hyphens (b # s) else a # squeeze_hyphens (b # s))"
| "squeeze_hyphens s = s"

definition GenerateSlug :: "(string \<Rightarrow> string) \<Rightarrow> string \<Rightarrow> string" where
  "GenerateSlug nfc name =
     (let s = map (\<lambda>c. if c = CHR '' '' \<or> c = CHR ''_'' then CHR ''-'' else c) (to_lower (nfc name))
      in trim_by (\<lambda>c. c = CHR ''-'') (squeeze_hyphens (filter slug_char s)))"

text \<open>The form of a slug.\<close>

definition slug_ok :: "string \<Rightarrow> bool" where
  "slug_ok s \<longleftrightarrow> (\<forall>c\<in>set s. slug_char c) \<and> (s \<noteq> [] \<longrightarrow> hd s \<noteq> CHR ''-'' \<and> last s \<noteq> CHR ''-'') \<and>
     successively (\<lambda>a b. \<not> (a = CHR ''-'' \<and> b = CHR ''-'')) s"

lemma squeeze_hyphens_hd: "s \<noteq> [] \<Longrightarrow> squeeze_hyphens s \<noteq> [] \<and> hd (squeeze_hyphens s) = hd s"
  by (induction s rule: squeeze_hyphens.induct) auto

lemma squeeze_hyphens_ok: "successively (\<lambda>a b. \<not> (a = CHR ''-'' \<and> b = CHR ''-'')) (squeeze_hyphens s)"
proof (induction s rule: squeeze_hyphens.induct)
  case (1 a b s)
  show ?case
  proof (cases "a = CHR ''-'' \<and> b = CHR ''-''")
    case False
    with 1(2) squeeze_hyphens_hd [of "b # s"] show ?thesis
      by (cases "squeeze_hyphens (b # s)") auto
  qed (use 1(1) in simp)
qed simp_all

lemma squeeze_hyphens_set: "set (squeeze_hyphens s) \<subseteq> set s"
  by (induction s rule: squeeze_hyphens.induct) auto

lemma squeeze_hyphens_id:
  "successively (\<lambda>a b. \<not> (a = CHR ''-'' \<and> b = CHR ''-'')) s \<Longrightarrow> squeeze_hyphens s = s"
  by (induction s rule: squeeze_hyphens.induct) auto

lemma successively_tl: "successively P xs \<Longrightarrow> successively P (dropWhile Q xs)"
  by (induction xs rule: induct_list012) (auto simp: successively_Cons)

lemma trim_by_sub: "set (trim_by P s) \<subseteq> set s"
  by (auto simp: trim_by_def dest!: set_dropWhileD)

lemma trim_by_ends: "trim_by P s \<noteq> [] \<Longrightarrow> \<not> P (hd (trim_by P s)) \<and> \<not> P (last (trim_by P s))"
proof -
  assume n: "trim_by P s \<noteq> []"
  let ?d = "dropWhile P s"
  have "?d \<noteq> []" using n by (metis dropWhile.simps(1) rev.simps(1) trim_by_def)
  then have hd: "\<not> P (hd ?d)" by (rule hd_dropWhile)
  obtain zs where z: "?d = trim_by P s @ zs"
    using takeWhile_dropWhile_id [of P "rev ?d"] by (metis rev_append rev_rev_ident trim_by_def)
  with n have "hd (trim_by P s) = hd ?d" by (metis hd_append2)
  moreover have "last (trim_by P s) = hd (dropWhile P (rev ?d))" by (simp add: trim_by_def last_rev)
  moreover have "\<not> P (hd (dropWhile P (rev ?d)))" 
    using n by (intro hd_dropWhile) (simp add: trim_by_def del: dropWhile_eq_Nil_conv)
  ultimately show ?thesis using hd by simp
qed

lemma trim_by_successively:
  assumes "successively (\<lambda>a b. \<not> (a = x \<and> b = x)) s"
  shows "successively (\<lambda>a b. \<not> (a = x \<and> b = x)) (trim_by P s)"
proof -
  have flip: "(\<lambda>a b. \<not> (b = x \<and> a = x)) = (\<lambda>a b. \<not> (a = x \<and> b = x))" by auto
  have "successively (\<lambda>a b. \<not> (a = x \<and> b = x)) (rev (dropWhile P s))"
    using successively_tl [OF assms, of P] by (simp only: successively_rev flip)
  from successively_tl [OF this, of P] show ?thesis
    by (simp only: trim_by_def successively_rev flip)
qed

lemma trim_by_id: "(s \<noteq> [] \<Longrightarrow> \<not> P (hd s) \<and> \<not> P (last s)) \<Longrightarrow> trim_by P s = s"
proof (cases "s = []")
  case False
  moreover assume "s \<noteq> [] \<Longrightarrow> \<not> P (hd s) \<and> \<not> P (last s)"
  ultimately have "dropWhile P s = s" "dropWhile P (rev s) = rev s"
    by (auto simp: dropWhile_eq_self_iff hd_rev)
  then show ?thesis by (simp add: trim_by_def)
qed (simp add: trim_by_def)

lemma GenerateSlug_ok: "slug_ok (GenerateSlug nfc name)"
proof -
  let ?t = "squeeze_hyphens (filter slug_char (map (\<lambda>c. if c = CHR '' '' \<or> c = CHR ''_'' then CHR ''-'' else c)
      (to_lower (nfc name))))"
  have "c \<in> set ?t \<Longrightarrow> slug_char c" for c using squeeze_hyphens_set by fastforce
  then show ?thesis
    using trim_by_ends [of "\<lambda>c. c = CHR ''-''" ?t] trim_by_sub [of "\<lambda>c. c = CHR ''-''" ?t]
      trim_by_successively [OF squeeze_hyphens_ok, of "\<lambda>c. c = CHR ''-''"]
    unfolding slug_ok_def GenerateSlug_def Let_def by blast
qed

lemma slug_char_stable:
  assumes "slug_char c"
  shows "lower_char c = c" "c \<noteq> CHR '' ''" "c \<noteq> CHR ''_''"
  using assms by (auto simp: slug_char_def lower_char_def Let_def)

lemma GenerateSlug_slug:
  assumes "slug_ok s" "nfc s = s"
  shows "GenerateSlug nfc s = s"
proof -
  have a: "\<forall>c\<in>set s. slug_char c" using assms(1) by (simp add: slug_ok_def)
  then have "to_lower s = s" unfolding to_lower_def by (intro map_idI) (simp add: slug_char_stable)
  moreover have "map (\<lambda>c. if c = CHR '' '' \<or> c = CHR ''_'' then CHR ''-'' else c) s = s"
    using a slug_char_stable by (intro map_idI) auto
  moreover have "filter slug_char s = s" using a by simp
  moreover have "squeeze_hyphens s = s" using assms(1) by (simp add: slug_ok_def squeeze_hyphens_id)
  moreover have "trim_by (\<lambda>c. c = CHR ''-'') s = s" using assms(1) by (intro trim_by_id) (simp add: slug_ok_def)
  ultimately show ?thesis using assms(2) by (simp add: GenerateSlug_def Let_def)
qed

end
