(* ===== verification/Cache.thy ===== *)
theory Cache
  imports Events "HOL-Library.Multiset"
begin

text \<open>
  The caches (\<open>internal/infra/cache\<close>): the port, the in-memory adapter with its capacity limit and
  eviction (\<open>memory/adapter.go\<close>), and the two-layer manager (\<open>manager.go\<close>). Each operation of the
  adapter runs under its lock and is one atomic step; \<open>singleflight\<close> only merges concurrent fetches,
  so for one caller it is the fetch itself.
\<close>

section \<open>The port\<close>

definition ErrCacheMiss :: err where [go_defs]: "ErrCacheMiss = Sentinel ''cache'' ''cache miss''"
definition ErrValueTooLarge :: err where
  [go_defs]: "ErrValueTooLarge = Sentinel ''cache'' ''cache value exceeds maximum allowed size''"
definition ErrKeyTooLong :: err where
  [go_defs]: "ErrKeyTooLong = Sentinel ''cache'' ''cache key exceeds maximum allowed length''"
definition ErrRecordNotFound :: err where
  [go_defs]: "ErrRecordNotFound = Sentinel ''cache'' ''cache: record not found''"

definition CacheBackendError :: "string \<Rightarrow> string \<Rightarrow> err \<Rightarrow> err" where
  "CacheBackendError op key e = Wrap (''cache backend error ['' @ op @ '' '' @ key @ '']'') e"

definition IsCacheMiss :: "err \<Rightarrow> bool" where
  "IsCacheMiss e = errors_is e ErrCacheMiss"

text \<open>
  What a cache stores is text: characters written as such, or the JSON of a value. The values handed
  to \<open>Set\<close> are a string, a \<open>json.RawMessage\<close>, or a value to be marshalled. A string becomes its quoted
  JSON form (the strings the code stores contain nothing that JSON escapes).
\<close>

datatype 'v cached_text = Plain string | Json 'v

datatype 'v cache_value = VString string | VRaw "'v cached_text" | VValue 'v

fun Marshal :: "'v cache_value \<Rightarrow> 'v cached_text" where
  "Marshal (VString s) = Plain ([CHR 0x22] @ s @ [CHR 0x22])"
| "Marshal (VRaw t) = t"
| "Marshal (VValue v) = Json v"

record ('w, 'v) Cache =
  cSet :: "string \<Rightarrow> 'v cache_value \<Rightarrow> int \<Rightarrow> ('w, unit) io"
  cGet :: "string \<Rightarrow> ('w, 'v cached_text) io"
  cDelete :: "string \<Rightarrow> ('w, unit) io"
  cExists :: "string \<Rightarrow> ('w, bool) io"
  cIncrement :: "string \<Rightarrow> int \<Rightarrow> ('w, int) io"

section \<open>The memory adapter\<close>

record 'v cacheItem =
  ciValue :: "'v cached_text"
  ciExpiration :: int \<comment> \<open>0: none\<close>
  ciHits :: int
  ciLastAccess :: int

text \<open>
  The map as an association list with its keys distinct. Go ranges over a map in an arbitrary order:
  \<open>maShuffles\<close> is the tape of the orders that the coming loops take. \<open>maJSONLen\<close> is the length of the
  JSON text of a value.
\<close>

record 'v MemoryAdapter =
  maItems :: "(string \<times> 'v cacheItem) list"
  maMaxItems :: int
  maMaxValueBytes :: int
  maJSONLen :: "'v \<Rightarrow> int"
  maShuffles :: "(string list \<Rightarrow> string list) list"

text \<open>A world with one memory adapter.\<close>

record 'v cache_env = env +
  mem :: "'v MemoryAdapter"

definition NewMemoryAdapter :: "int \<Rightarrow> ('v \<Rightarrow> int) \<Rightarrow> (string list \<Rightarrow> string list) list \<Rightarrow> 'v MemoryAdapter" where
  "NewMemoryAdapter maxItems len orders = \<lparr>maItems = [], maMaxItems = (if 0 < maxItems then maxItems else 10000),
     maMaxValueBytes = 1048576, maJSONLen = len, maShuffles = orders\<rparr>"

definition text_len :: "'v MemoryAdapter \<Rightarrow> 'v cached_text \<Rightarrow> int" where
  "text_len a t = (case t of Plain s \<Rightarrow> int (length s) | Json v \<Rightarrow> maJSONLen a v)"

text \<open>The keys in the order of the next range loop.\<close>

definition range_keys :: "'v MemoryAdapter \<Rightarrow> string list \<times> 'v MemoryAdapter" where
  "range_keys a = (let ks = map fst (maItems a) in (case maShuffles a of
       [] \<Rightarrow> (ks, a)
     | f # fs \<Rightarrow> (if mset (f ks) = mset ks then f ks else ks, a\<lparr>maShuffles := fs\<rparr>)))"

definition put_items :: "(string \<times> 'v cacheItem) list \<Rightarrow> ('v, 'a) cache_env_scheme \<Rightarrow> ('v, 'a) cache_env_scheme" where
  "put_items xs w = w\<lparr>mem := (mem w)\<lparr>maItems := xs\<rparr>\<rparr>"

text \<open>\<open>item.expiration > 0 && time.Now().UnixNano() > item.expiration\<close>\<close>

definition is_expired :: "'v cacheItem \<Rightarrow> 'a env_scheme \<Rightarrow> bool \<times> 'a env_scheme" where
  "is_expired it w = (if ciExpiration it > 0
     then (case time_now w of (t, w1) \<Rightarrow> (t > ciExpiration it, w1)) else (False, w))"

text \<open>The first loop of an eviction: of at most 50 keys, the expired ones are deleted.\<close>

fun drop_expired :: "string list \<Rightarrow> ('v, 'a) cache_env_scheme \<Rightarrow> ('v, 'a) cache_env_scheme" where
  "drop_expired [] w = w"
| "drop_expired (k # ks) w = (case map_of (maItems (mem w)) k of
       None \<Rightarrow> drop_expired ks w
     | Some it \<Rightarrow> (case is_expired it w of (x, w1) \<Rightarrow>
         drop_expired ks (if x then put_items (AList.delete k (maItems (mem w1))) w1 else w1)))"

text \<open>The second: the least used of at most 10 keys, the least recently used of several.\<close>

definition used_less :: "'v cacheItem \<Rightarrow> 'v cacheItem \<Rightarrow> bool" where
  "used_less a b \<longleftrightarrow> ciHits a < ciHits b \<or> ciHits a = ciHits b \<and> ciLastAccess a < ciLastAccess b"

fun least_used :: "(string \<times> 'v cacheItem) list \<Rightarrow> (string \<times> 'v cacheItem) option \<Rightarrow> (string \<times> 'v cacheItem) option" where
  "least_used [] best = best"
| "least_used (x # xs) None = least_used xs (Some x)"
| "least_used (x # xs) (Some b) = least_used xs (Some (if used_less (snd x) (snd b) then x else b))"

definition lookup_all :: "(string \<times> 'v) list \<Rightarrow> string list \<Rightarrow> (string \<times> 'v) list" where
  "lookup_all xs ks = List.map_filter (\<lambda>k. map_option (Pair k) (map_of xs k)) ks"

definition evict_least_used :: "('v, 'a) cache_env_scheme \<Rightarrow> ('v, 'a) cache_env_scheme" where
  "evict_least_used w = (case range_keys (mem w) of (ks, a) \<Rightarrow>
     (case least_used (lookup_all (maItems a) (take 10 ks)) None of
        None \<Rightarrow> w\<lparr>mem := a\<rparr>
      | Some (k, _) \<Rightarrow> (if k \<noteq> [] then put_items (AList.delete k (maItems a)) (w\<lparr>mem := a\<rparr>) else w\<lparr>mem := a\<rparr>)))"

definition at_capacity :: "('v, 'a) cache_env_scheme \<Rightarrow> bool" where
  "at_capacity w \<longleftrightarrow> maMaxItems (mem w) \<le> int (length (maItems (mem w)))"

definition make_room :: "('v, 'a) cache_env_scheme \<Rightarrow> ('v, 'a) cache_env_scheme" where
  "make_room w = (if at_capacity w
     then (case range_keys (mem w) of (ks, a) \<Rightarrow> (let w1 = drop_expired (take 50 ks) (w\<lparr>mem := a\<rparr>) in
       if at_capacity w1 then evict_least_used w1 else w1))
     else w)"

definition mem_Set :: "string \<Rightarrow> 'v cache_value \<Rightarrow> int \<Rightarrow> (('v, 'a) cache_env_scheme, unit) io" where
  "mem_Set key val ttl w =
    (if 512 < length key then (Inl (CacheBackendError ''set'' key ErrKeyTooLong), w)
     else if maMaxValueBytes (mem w) < text_len (mem w) (Marshal val)
     then (Inl (CacheBackendError ''set'' key ErrValueTooLarge), w)
     else let w1 = make_room w in
       (case (if 0 < ttl then (case time_now w1 of (t, w2) \<Rightarrow> (t + ttl, w2)) else (0, w1)) of (ex, w2) \<Rightarrow>
          let hits = (case map_of (maItems (mem w2)) key of Some it \<Rightarrow> wrap64 (ciHits it + 1) | None \<Rightarrow> 1) in
          (case time_now w2 of (t, w3) \<Rightarrow>
             (Inr (), put_items (AList.update key \<lparr>ciValue = Marshal val, ciExpiration = ex, ciHits = hits,
                ciLastAccess = t\<rparr> (maItems (mem w3))) w3))))"

definition mem_Get :: "string \<Rightarrow> (('v, 'a) cache_env_scheme, 'v cached_text) io" where
  "mem_Get key w = (case map_of (maItems (mem w)) key of
       None \<Rightarrow> (Inl ErrCacheMiss, w)
     | Some it \<Rightarrow> (case is_expired it w of
         (True, w1) \<Rightarrow> (case is_expired it w1 of (x, w2) \<Rightarrow>
            (Inl ErrCacheMiss, if x then put_items (AList.delete key (maItems (mem w2))) w2 else w2))
       | (False, w1) \<Rightarrow> (case time_now w1 of (t, w2) \<Rightarrow>
            (Inr (ciValue it), put_items (AList.update key (it\<lparr>ciHits := wrap64 (ciHits it + 1), ciLastAccess := t\<rparr>)
               (maItems (mem w2))) w2))))"

definition mem_Delete :: "string \<Rightarrow> (('v, 'a) cache_env_scheme, unit) io" where
  "mem_Delete key w = (Inr (), put_items (AList.delete key (maItems (mem w))) w)"

definition mem_Exists :: "string \<Rightarrow> (('v, 'a) cache_env_scheme, bool) io" where
  "mem_Exists key w = (case map_of (maItems (mem w)) key of
       None \<Rightarrow> (Inr False, w)
     | Some it \<Rightarrow> (case is_expired it w of (x, w1) \<Rightarrow> (Inr (\<not> x), w1)))"

text \<open>
  \<open>Increment\<close> writes past the capacity check, and the counter of an expired key starts again
  without an expiration. (\<open>n <= expiration\<close> is tested with the clock only if there is one.)
\<close>

definition mem_Increment :: "string \<Rightarrow> int \<Rightarrow> (('v, 'a) cache_env_scheme, int) io" where
  "mem_Increment key delta w =
    (let found = map_of (maItems (mem w)) key;
         stored = (case found of
             None \<Rightarrow> (Inr (0, 0), w)
           | Some it \<Rightarrow> (case is_expired it w of
               (True, w1) \<Rightarrow> (Inr (0, 0), w1)
             | (False, w1) \<Rightarrow> (case ciValue it of
                 Json v \<Rightarrow> (Inl (CacheBackendError ''increment'' key (ErrText ''value is not an integer'')), w1)
               | Plain s \<Rightarrow> (case atoi s of
                   None \<Rightarrow> (Inl (CacheBackendError ''increment'' key (ErrText ''value is not an integer'')), w1)
                 | Some n \<Rightarrow> (Inr (n, ciExpiration it), w1)))))
     in (case stored of
        (Inl e, w1) \<Rightarrow> (Inl e, w1)
      | (Inr (n, ex), w1) \<Rightarrow> (case time_now w1 of (t, w2) \<Rightarrow>
          (Inr (wrap64 (n + delta)), put_items (AList.update key \<lparr>ciValue = Plain (itoa (wrap64 (n + delta))),
             ciExpiration = ex, ciHits = (case found of Some it \<Rightarrow> wrap64 (ciHits it + 1) | None \<Rightarrow> 1),
             ciLastAccess = t\<rparr> (maItems (mem w2))) w2))))"

definition mem_cleanupExpired :: "('v, 'a) cache_env_scheme \<Rightarrow> ('v, 'a) cache_env_scheme" where
  "mem_cleanupExpired w = (case time_now w of (t, w1) \<Rightarrow>
     put_items (filter (\<lambda>kv. \<not> (ciExpiration (snd kv) > 0 \<and> t > ciExpiration (snd kv))) (maItems (mem w1))) w1)"

definition memory_cache :: "(('v, 'a) cache_env_scheme, 'v) Cache" where
  "memory_cache = \<lparr>cSet = mem_Set, cGet = mem_Get, cDelete = mem_Delete, cExists = mem_Exists,
     cIncrement = mem_Increment\<rparr>"

section \<open>The manager\<close>

definition nullSentinel :: string where "nullSentinel = ''__null__''"

record ('w, 'v) cacheManager =
  cmL1 :: "('w, 'v) Cache option"
  cmL2 :: "('w, 'v) Cache option"
  cmL1TTL :: int
  cmNegativeTTL :: int
  cmJitterPct :: f64

definition NewCacheManager :: "('w, 'v) Cache option \<Rightarrow> ('w, 'v) Cache option \<Rightarrow> int \<Rightarrow> ('w, 'v) cacheManager" where
  "NewCacheManager l1 l2 l1ttl = \<lparr>cmL1 = l1, cmL2 = l2, cmL1TTL = (if 0 < l1ttl then l1ttl else 60 * 1000000000),
     cmNegativeTTL = 30 * 1000000000, cmJitterPct = fl (1 / 10)\<rparr>"

text \<open>\<open>rnd\<close> is the draw of \<open>rand.Int64N\<close>, which panics when its argument is not positive.\<close>

definition jitterTTL :: "int \<Rightarrow> int \<Rightarrow> f64 \<Rightarrow> err + int" where
  "jitterTTL rnd ttl pct = (if pct \<le> 0 \<or> ttl \<le> 0 then Inr ttl
     else let n = \<lfloor>fmul (f_of_int ttl) pct\<rfloor> in
       if n \<le> 0 then Inl (Panic ''invalid argument to Int64N'') else Inr (wrap64 (ttl + rnd mod n)))"

text \<open>\<open>_ = cache.Set(...)\<close>: the error is dropped.\<close>

definition set_ignoring :: "('w, 'v) Cache option \<Rightarrow> string \<Rightarrow> 'v cache_value \<Rightarrow> int \<Rightarrow> 'w \<Rightarrow> 'w" where
  "set_ignoring c key v ttl w = (case c of None \<Rightarrow> w | Some c1 \<Rightarrow> snd (cSet c1 key v ttl w))"

definition min_ttl :: "int \<Rightarrow> int \<Rightarrow> int" where
  "min_ttl l1ttl ttl = (if 0 < ttl \<and> ttl < l1ttl then ttl else l1ttl)"

text \<open>
  \<open>GetOrFetch\<close> into a target whose \<open>json.Unmarshal\<close> is \<open>dec\<close>: the first layer answers, or the second
  (and its answer goes to the first), or \<open>fetch\<close> is called. \<open>None\<close> is a fetch of \<open>(nil, nil)\<close>.
  A lookup tells how a layer ends the call, or that the next one is asked.
\<close>

datatype 't lookup = Done "err + 't" | Next

definition read_text :: "('v \<Rightarrow> 't option) \<Rightarrow> 'v cached_text \<Rightarrow> 't option" where
  "read_text dec t = (case t of Plain _ \<Rightarrow> None | Json v \<Rightarrow> dec v)"

definition try_l1 ::
  "('w, 'v) cacheManager \<Rightarrow> ('v \<Rightarrow> 't option) \<Rightarrow> string \<Rightarrow> 'w \<Rightarrow> 't lookup \<times> 'w" where
  "try_l1 m dec key w = (case cmL1 m of
       None \<Rightarrow> (Next, w)
     | Some c \<Rightarrow> (case cGet c key w of
         (Inl e, w1) \<Rightarrow> (Next, w1)
       | (Inr t, w1) \<Rightarrow>
           if t = Plain nullSentinel then (Done (Inl ErrRecordNotFound), w1)
           else (case read_text dec t of Some x \<Rightarrow> (Done (Inr x), w1) | None \<Rightarrow> (Next, w1))))"

definition try_l2 ::
  "('w, 'v) cacheManager \<Rightarrow> ('v \<Rightarrow> 't option) \<Rightarrow> string \<Rightarrow> int \<Rightarrow> 'w \<Rightarrow> 't lookup \<times> 'w" where
  "try_l2 m dec key ttl w = (case cmL2 m of
       None \<Rightarrow> (Next, w)
     | Some c \<Rightarrow> (case cGet c key w of
         (Inl e, w1) \<Rightarrow> (Next, w1)
       | (Inr t, w1) \<Rightarrow>
           if t = Plain nullSentinel
           then (Done (Inl ErrRecordNotFound), set_ignoring (cmL1 m) key (VString nullSentinel) (cmNegativeTTL m) w1)
           else (case (cmL1 m, read_text dec t) of
               (Some _, Some x) \<Rightarrow>
                  (Done (Inr x), set_ignoring (cmL1 m) key (VRaw t) (min_ttl (cmL1TTL m) ttl) w1)
             | (Some _, None) \<Rightarrow> (Next, w1)
             | (None, Some x) \<Rightarrow> (Done (Inr x), w1)
             | (None, None) \<Rightarrow> (Done (Inl (ErrText ''json: cannot unmarshal'')), w1))))"

text \<open>What happens after the fetch: a missing record, or the value, its text being \<open>Json (enc x)\<close>.\<close>

definition store_missing :: "('w, 'v) cacheManager \<Rightarrow> string \<Rightarrow> 'w \<Rightarrow> 'w" where
  "store_missing m key w = (if 0 < cmNegativeTTL m
     then set_ignoring (cmL1 m) key (VString nullSentinel) (cmNegativeTTL m)
       (set_ignoring (cmL2 m) key (VString nullSentinel) (cmNegativeTTL m) w)
     else w)"

definition store_found :: "int \<Rightarrow> ('w, 'v) cacheManager \<Rightarrow> string \<Rightarrow> 'v \<Rightarrow> int \<Rightarrow> ('w, unit) io" where
  "store_found rnd m key v ttl w =
    (let l1 = set_ignoring (cmL1 m) key (VRaw (Json v)) (min_ttl (cmL1TTL m) ttl) in
     (case cmL2 m of
        None \<Rightarrow> (Inr (), l1 w)
      | Some _ \<Rightarrow> (case jitterTTL rnd ttl (cmJitterPct m) of
           Inl p \<Rightarrow> (Inl p, w)
         | Inr l2ttl \<Rightarrow> (Inr (), l1 (set_ignoring (cmL2 m) key (VRaw (Json v)) l2ttl w)))))"

definition GetOrFetch ::
  "int \<Rightarrow> ('w, 'v) cacheManager \<Rightarrow> ('t \<Rightarrow> 'v) \<Rightarrow> ('v \<Rightarrow> 't option) \<Rightarrow> string \<Rightarrow> int \<Rightarrow> ('w, 't option) io \<Rightarrow> ('w, 't) io" where
  "GetOrFetch rnd m enc dec key ttl fetch w = (case try_l1 m dec key w of
       (Done r, w1) \<Rightarrow> (r, w1)
     | (Next, w1) \<Rightarrow> (case try_l2 m dec key ttl w1 of
         (Done r, w2) \<Rightarrow> (r, w2)
       | (Next, w2) \<Rightarrow> (case fetch w2 of
           (Inl e, w3) \<Rightarrow> (Inl e, w3)
         | (Inr None, w3) \<Rightarrow> (Inl ErrRecordNotFound, store_missing m key w3)
         | (Inr (Some x), w3) \<Rightarrow> (case dec (enc x) of
             None \<Rightarrow> (Inl (ErrText ''json: cannot unmarshal''), w3)
           | Some y \<Rightarrow> (case store_found rnd m key (enc x) ttl w3 of
               (Inl p, w4) \<Rightarrow> (Inl p, w4)
             | (Inr _, w4) \<Rightarrow> (Inr y, w4))))))"

text \<open>\<open>Invalidate\<close>: both layers, the errors joined.\<close>

definition delete_from :: "string \<Rightarrow> ('w, 'v) Cache option \<Rightarrow> string \<Rightarrow> 'w \<Rightarrow> err list \<times> 'w" where
  "delete_from name c key w = (case c of
       None \<Rightarrow> ([], w)
     | Some c1 \<Rightarrow> (case cDelete c1 key w of (Inl e, w1) \<Rightarrow> ([Wrap name e], w1) | (Inr _, w1) \<Rightarrow> ([], w1)))"

fun join_lines :: "err list \<Rightarrow> string" where
  "join_lines [] = []"
| "join_lines [e] = err_string e"
| "join_lines (e # es) = err_string e @ [CHR 0x0A] @ join_lines es"

definition Invalidate :: "('w, 'v) cacheManager \<Rightarrow> string \<Rightarrow> ('w, unit) io" where
  "Invalidate m key w = (case delete_from ''L1'' (cmL1 m) key w of (es1, w1) \<Rightarrow>
     (case delete_from ''L2'' (cmL2 m) key w1 of (es2, w2) \<Rightarrow>
       (if es1 @ es2 = [] then Inr () else Inl (ErrText (join_lines (es1 @ es2))), w2)))"

end
