(* ===== verification/Catalog.thy ===== *)
theory Catalog
  imports CatalogDomain Cache
begin

text \<open>
  The catalog's core services (\<open>internal/core/catalog/features/core\<close>): queries through the cache
  manager, commands that validate, store and invalidate, the category tree, and the subscriber that
  copies stock levels into the catalog.
\<close>

section \<open>Repository and cache entries\<close>

record ProductFilter =
  pfCategoryIDs :: "string list"
  pfMinPrice :: "f64 option"
  pfMaxPrice :: "f64 option"
  pfInStock :: "bool option"
  pfQ :: string
  pfAttributes :: "(string \<times> string) list"
  pfLimit :: int
  pfOffset :: int

text \<open>\<open>UpdateProduct\<close> also writes the new version into the product it is given, which it returns here.\<close>

record 'w CatalogRepository =
  crCreateProduct :: "Product \<Rightarrow> ('w, unit) io"
  crGetProductByID :: "string \<Rightarrow> ('w, Product) io"
  crListProducts :: "ProductFilter \<Rightarrow> ('w, Product list) io"
  crUpdateProduct :: "Product \<Rightarrow> ('w, Product) io"
  crDeleteProduct :: "string \<Rightarrow> ('w, unit) io"
  crGetProductByVariantID :: "string \<Rightarrow> ('w, Product) io"
  crUpdateVariantStock :: "string \<Rightarrow> int \<Rightarrow> ('w, unit) io"
  crCreateCategory :: "Category \<Rightarrow> ('w, unit) io"
  crGetCategoryByID :: "string \<Rightarrow> ('w, Category) io"
  crListCategories :: "('w, Category list) io"
  crUpdateCategory :: "Category \<Rightarrow> ('w, unit) io"
  crDeleteCategory :: "string \<Rightarrow> ('w, unit) io"

definition ErrVersionConflict :: err where
  [go_defs]: "ErrVersionConflict = Sentinel ''catalog''
     ''product update conflict: document was modified by another process''"

datatype cached = CProduct Product | CCategory Category

definition as_product :: "cached \<Rightarrow> Product option" where
  "as_product v = (case v of CProduct p \<Rightarrow> Some p | CCategory _ \<Rightarrow> None)"

definition as_category :: "cached \<Rightarrow> Category option" where
  "as_category v = (case v of CCategory c \<Rightarrow> Some c | CProduct _ \<Rightarrow> None)"

definition product_key :: "string \<Rightarrow> string" where "product_key i = ''catalog:product:'' @ i"
definition variant_key :: "string \<Rightarrow> string" where "variant_key i = ''catalog:product:variant:'' @ i"
definition category_key :: "string \<Rightarrow> string" where "category_key i = ''catalog:category:'' @ i"

definition fifteen_min :: int where "fifteen_min = 15 * 60 * 1000000000"

record 'w catalogService =
  csRepo :: "'w CatalogRepository"
  csCache :: "('w, cached) cacheManager"

section \<open>Queries\<close>

text \<open>\<open>rnd\<close> is the draw for the time to live of the second cache layer.\<close>

definition cached_product :: "int \<Rightarrow> 'w catalogService \<Rightarrow> string \<Rightarrow> ('w, Product) io \<Rightarrow> ('w, Product) io" where
  "cached_product rnd s key fetch = GetOrFetch rnd (csCache s) CProduct as_product key fifteen_min
     (bind_io fetch (\<lambda>p. return_io (Some p)))"

definition GetProductEntity :: "int \<Rightarrow> 'w catalogService \<Rightarrow> string \<Rightarrow> ('w, Product) io" where
  "GetProductEntity rnd s i = cached_product rnd s (product_key i) (crGetProductByID (csRepo s) i)"

definition GetProductByVariantID :: "int \<Rightarrow> 'w catalogService \<Rightarrow> string \<Rightarrow> ('w, Product) io" where
  "GetProductByVariantID rnd s v =
     on_error (\<lambda>_. NewNotFound ''product not found for variant'' (Some ErrProductNotFound))
       (cached_product rnd s (variant_key v) (crGetProductByVariantID (csRepo s) v))"

record VariantResponse =
  vrID :: string
  vrSKU :: string
  vrName :: string
  vrPrice :: f64
  vrDiscountedPrice :: f64
  vrStock :: "int option"
  vrAttributes :: "(string \<times> string) list"

record ProductResponse =
  prID :: string
  prName :: string
  prDescription :: string
  prCategoryID :: string
  prVariants :: "VariantResponse list"
  prImages :: "ProductImage list"
  prDiscount :: "ProductDiscount option"

definition mapProductToResponse :: "Product \<Rightarrow> bool \<Rightarrow> ProductResponse" where
  "mapProductToResponse p includeStock = \<lparr>prID = prodID p, prName = prodName p,
     prDescription = prodDescription p, prCategoryID = prodCategoryID p,
     prVariants = map (\<lambda>v. \<lparr>vrID = varID v, vrSKU = varSKU v, vrName = varName v, vrPrice = varPrice v,
       vrDiscountedPrice = discounted_price (prodDiscount p) (varPrice v),
       vrStock = (if includeStock then Some (varStock v) else None), vrAttributes = varAttributes v\<rparr>) (prodVariants p),
     prImages = prodImages p, prDiscount = prodDiscount p\<rparr>"

definition GetProduct :: "int \<Rightarrow> 'w catalogService \<Rightarrow> string \<Rightarrow> ('w, ProductResponse) io" where
  "GetProduct rnd s i = bind_io
     (on_error (\<lambda>_. NewNotFound ''product not found'' (Some ErrProductNotFound))
       (cached_product rnd s (product_key i) (crGetProductByID (csRepo s) i)))
     (\<lambda>p. return_io (mapProductToResponse p True))"

definition GetCategory :: "int \<Rightarrow> 'w catalogService \<Rightarrow> string \<Rightarrow> ('w, Category) io" where
  "GetCategory rnd s i = on_error (\<lambda>_. NewNotFound ''category not found'' (Some ErrCategoryNotFound))
     (GetOrFetch rnd (csCache s) CCategory as_category (category_key i) fifteen_min
       (bind_io (crGetCategoryByID (csRepo s) i) (\<lambda>c. return_io (Some c))))"

definition GetCategories :: "'w catalogService \<Rightarrow> ('w, Category list) io" where
  "GetCategories s = on_error (\<lambda>e. NewInternal ''failed to retrieve categories'' (Some e)) (crListCategories (csRepo s))"

subsection \<open>Categories below a category\<close>

definition child_categories :: "Category list \<Rightarrow> string \<Rightarrow> string list" where
  "child_categories cats i = map catID (filter (\<lambda>c. catParentID c = Some i \<and> i \<noteq> []) cats)"

text \<open>
  The recursive closure \<open>visit\<close>, with the children still to look at as a stack: a child that is new
  is added, and its own children come before the remaining ones.
\<close>

function visit_categories :: "Category list \<Rightarrow> string list \<Rightarrow> string list \<Rightarrow> string list" where
  "visit_categories cats [] seen = seen"
| "visit_categories cats (c # cs) seen =
     (if c \<in> set seen then visit_categories cats cs seen
      else visit_categories cats (child_categories cats c @ cs) (c # seen))"
  by pat_completeness auto
termination
proof (relation "measures [\<lambda>(cats, cs, seen). card ((set (map catID cats) \<union> set cs) - set seen),
    \<lambda>(cats, cs, seen). length cs]", goal_cases)
  case (2 cats c cs seen)
  then have "(set (map catID cats) \<union> set cs) - set seen = (set (map catID cats) \<union> set (c # cs)) - set seen"
    by auto
  then show ?case by simp
next
  case (3 cats c cs seen)
  then have "(set (map catID cats) \<union> set (child_categories cats c @ cs)) - set (c # seen)
      \<subset> (set (map catID cats) \<union> set (c # cs)) - set seen"
    by (auto simp: child_categories_def)
  then show ?case by (simp add: psubset_card_mono)
qed simp

definition getCategoryDescendants :: "string \<Rightarrow> Category list \<Rightarrow> string list" where
  "getCategoryDescendants target cats = visit_categories cats (child_categories cats target) [target]"

definition parseAttributes :: "string \<Rightarrow> (string \<times> string) list" where
  "parseAttributes s = (if trim_space s = [] then []
     else fold (\<lambda>part m. (case split_first (CHR '':'') (trim_space part) of
         None \<Rightarrow> m
       | Some (k, v) \<Rightarrow> (if trim_space k \<noteq> [] \<and> trim_space v \<noteq> []
            then AList.update (to_lower (trim_space k)) (to_lower (trim_space v)) m else m)))
       (split_at (CHR '','') s) [])"

record ListProductsQuery =
  lqCategoryID :: string
  lqCategory :: string
  lqPriceMin :: "f64 option"
  lqPriceMax :: "f64 option"
  lqMinPrice :: "f64 option"
  lqMaxPrice :: "f64 option"
  lqAttributes :: string
  lqInStock :: "bool option"
  lqQ :: string
  lqPage :: "int option"
  lqLimit :: "int option"

definition query_limit :: "ListProductsQuery \<Rightarrow> int" where
  "query_limit q = (case lqLimit q of None \<Rightarrow> 20
     | Some l \<Rightarrow> if 0 < l then (if 100 < l then 100 else l) else 20)"

definition query_filter :: "ListProductsQuery \<Rightarrow> string list \<Rightarrow> ProductFilter" where
  "query_filter q ids = \<lparr>pfCategoryIDs = ids,
     pfMinPrice = (if lqPriceMin q = None then lqMinPrice q else lqPriceMin q),
     pfMaxPrice = (if lqPriceMax q = None then lqMaxPrice q else lqPriceMax q),
     pfInStock = lqInStock q, pfQ = lqQ q, pfAttributes = parseAttributes (lqAttributes q),
     pfLimit = query_limit q,
     pfOffset = (case lqPage q of None \<Rightarrow> 0
       | Some n \<Rightarrow> if 1 < n then wrap64 (wrap64 (n - 1) * query_limit q) else 0)\<rparr>"

definition GetProducts :: "'w catalogService \<Rightarrow> ListProductsQuery \<Rightarrow> ('w, ProductResponse list) io" where
  "GetProducts s q = (let cid = (if lqCategoryID q = [] then lqCategory q else lqCategoryID q) in
     bind_io (if cid = [] then return_io []
       else bind_io (on_error (\<lambda>e. NewInternal ''failed to retrieve categories for filtering'' (Some e))
              (crListCategories (csRepo s)))
            (\<lambda>cats. return_io (getCategoryDescendants cid cats)))
     (\<lambda>ids. bind_io (on_error (\<lambda>e. NewInternal ''failed to retrieve products'' (Some e))
              (crListProducts (csRepo s) (query_filter q ids)))
            (\<lambda>ps. return_io (map (\<lambda>p. mapProductToResponse p True) ps))))"

section \<open>Commands\<close>

text \<open>A failed invalidation is only logged.\<close>

definition invalidate_logged :: "'w catalogService \<Rightarrow> string \<Rightarrow> ('w, unit) io" where
  "invalidate_logged s key w = (Inr (), snd (Invalidate (csCache s) key w))"

definition invalidate_product :: "'w catalogService \<Rightarrow> Product \<Rightarrow> ('w, unit) io" where
  "invalidate_product s p = bind_io (invalidate_logged s (product_key (prodID p)))
     (\<lambda>_. for_each (\<lambda>v. invalidate_logged s (variant_key (varID v))) (prodVariants p))"

fun fill_variant_ids :: "Variant list \<Rightarrow> ('a env_scheme, Variant list) io" where
  "fill_variant_ids [] = return_io []"
| "fill_variant_ids (v # vs) = bind_io
     (if varID v = [] then bind_io (on_error (\<lambda>e. NewInternal ''failed to generate variant ID'' (Some e))
          (Generate ''var_'')) (\<lambda>i. return_io (v\<lparr>varID := i\<rparr>))
      else return_io v)
     (\<lambda>v1. bind_io (fill_variant_ids vs) (\<lambda>vs1. return_io (v1 # vs1)))"

definition fill_ids :: "Product \<Rightarrow> ('a env_scheme, Product) io" where
  "fill_ids p = bind_io
     (if prodID p = [] then on_error (\<lambda>e. NewInternal ''failed to generate product ID'' (Some e)) (Generate ''prod_'')
      else return_io (prodID p))
     (\<lambda>i. bind_io (fill_variant_ids (prodVariants p)) (\<lambda>vs. return_io (p\<lparr>prodID := i, prodVariants := vs\<rparr>)))"

definition require_category :: "'w catalogService \<Rightarrow> string \<Rightarrow> err \<Rightarrow> ('w, Category) io" where
  "require_category s i e = on_error (\<lambda>_. e) (crGetCategoryByID (csRepo s) i)"

definition AddProduct :: "('a env_scheme) catalogService \<Rightarrow> Product \<Rightarrow> ('a env_scheme, Product) io" where
  "AddProduct s p0 = bind_io (fill_ids p0) (\<lambda>p. (case ValidateProduct p of
       Some e \<Rightarrow> fail_io (NewBadRequest (err_string e) (Some e))
     | None \<Rightarrow> bind_io (require_category s (prodCategoryID p)
           (NewNotFound (''category with ID '' @ prodCategoryID p @ '' not found'') (Some ErrCategoryNotFound)))
         (\<lambda>_. bind_io (on_error (\<lambda>e. NewInternal ''failed to save product'' (Some e)) (crCreateProduct (csRepo s) p))
           (\<lambda>_. return_io p))))"

definition update_product_error :: "err \<Rightarrow> err" where
  "update_product_error e =
     (if errors_is e ErrProductNotFound then NewNotFound ''product not found'' (Some e)
      else if errors_is e ErrVersionConflict
      then NewConflict ''product update conflict: document was modified by another process'' (Some e)
      else NewInternal ''failed to update product'' (Some e))"

definition UpdateProduct :: "'w catalogService \<Rightarrow> Product \<Rightarrow> ('w, Product) io" where
  "UpdateProduct s p =
     (if prodID p = [] then fail_io (NewBadRequest ''Product ID is required for update'' None)
      else (case ValidateProduct p of
        Some e \<Rightarrow> fail_io (NewBadRequest ''Invalid product data'' (Some e))
      | None \<Rightarrow> bind_io (require_category s (prodCategoryID p) (NewNotFound ''category not found'' (Some ErrCategoryNotFound)))
          (\<lambda>_. bind_io (on_error update_product_error (crUpdateProduct (csRepo s) p))
            (\<lambda>p1. bind_io (invalidate_product s p1) (\<lambda>_. return_io p1)))))"

text \<open>The invalidation is deferred: it runs after the delete, whatever that returns.\<close>

definition delete_product_error :: "err \<Rightarrow> err" where
  "delete_product_error e = (if errors_is e ErrProductNotFound then NewNotFound ''product not found'' (Some e)
     else NewInternal ''failed to delete product'' (Some e))"

definition DeleteProduct :: "'w catalogService \<Rightarrow> string \<Rightarrow> ('w, unit) io" where
  "DeleteProduct s i w =
     (if i = [] then fail_io (NewBadRequest ''Product ID is required for deletion'' None) w
      else (case crGetProductByID (csRepo s) i w of (g, w1) \<Rightarrow>
        (case on_error delete_product_error (crDeleteProduct (csRepo s) i) w1 of (r, w2) \<Rightarrow>
          (r, (case g of Inl _ \<Rightarrow> w2 | Inr p \<Rightarrow> snd (invalidate_product s p w2))))))"

subsection \<open>Categories\<close>

text \<open>The slug check is skipped when the categories cannot be listed.\<close>

definition check_slug :: "'w catalogService \<Rightarrow> Category \<Rightarrow> ('w, unit) io" where
  "check_slug s c w = (case crListCategories (csRepo s) w of
       (Inl e, w1) \<Rightarrow> (Inr (), w1)
     | (Inr cats, w1) \<Rightarrow>
         if \<exists>x\<in>set cats. catSlug x = catSlug c \<and> catID x \<noteq> catID c
         then (Inl (NewConflict (''category slug '' @ go_quote (catSlug c) @ '' is already taken'') None), w1)
         else (Inr (), w1))"

definition with_slug :: "(string \<Rightarrow> string) \<Rightarrow> Category \<Rightarrow> Category" where
  "with_slug nfc c = (if catSlug c = [] then c\<lparr>catSlug := GenerateSlug nfc (catName c)\<rparr> else c)"

definition AddCategory ::
  "(string \<Rightarrow> string) \<Rightarrow> ('a env_scheme) catalogService \<Rightarrow> Category \<Rightarrow> ('a env_scheme, Category) io" where
  "AddCategory nfc s c0 = bind_io
     (if catID c0 = [] then on_error (\<lambda>e. NewInternal ''failed to generate category ID'' (Some e)) (Generate ''cat_'')
      else return_io (catID c0))
     (\<lambda>i. let c = with_slug nfc (c0\<lparr>catID := i\<rparr>) in (case ValidateCategory c of
        Some e \<Rightarrow> fail_io (NewBadRequest (err_string e) (Some e))
      | None \<Rightarrow> bind_io (check_slug s c) (\<lambda>_. bind_io
          (case catParentID c of
             None \<Rightarrow> return_io ()
           | Some p \<Rightarrow> if p = [] then return_io ()
               else bind_io (on_error (\<lambda>e. NewNotFound ''parent category not found'' (Some e))
                 (crGetCategoryByID (csRepo s) p)) (\<lambda>_. return_io ()))
          (\<lambda>_. bind_io (on_error (\<lambda>e. NewInternal ''failed to save category'' (Some e)) (crCreateCategory (csRepo s) c))
            (\<lambda>_. return_io c)))))"

text \<open>
  The walk up the parents. The repository may answer anything, so the walk has a value only if it
  ends; the PostgreSQL repository makes it end.
\<close>

partial_function (option) cycle_from ::
  "(string \<Rightarrow> ('w, Category) io) \<Rightarrow> string list \<Rightarrow> string \<Rightarrow> 'w \<Rightarrow> ((err + bool) \<times> 'w) option" where
  "cycle_from get visited cur w =
     (if cur = [] then Some (Inr False, w)
      else if cur \<in> set visited then Some (Inr True, w)
      else (case get cur w of
          (Inl e, w1) \<Rightarrow> Some (if errors_is e ErrCategoryNotFound then Inr False else Inl e, w1)
        | (Inr c, w1) \<Rightarrow> (case catParentID c of
            None \<Rightarrow> Some (Inr False, w1)
          | Some p \<Rightarrow> cycle_from get (cur # visited) p w1)))"

definition detectCategoryCycle ::
  "'w catalogService \<Rightarrow> string \<Rightarrow> string \<Rightarrow> 'w \<Rightarrow> ((err + bool) \<times> 'w) option" where
  "detectCategoryCycle s startParent target = cycle_from (crGetCategoryByID (csRepo s)) [target] startParent"

text \<open>\<open>None\<close>: the walk does not end, and neither does the operation.\<close>

definition check_parent :: "'w catalogService \<Rightarrow> Category \<Rightarrow> 'w \<Rightarrow> ((err + unit) \<times> 'w) option" where
  "check_parent s c w = (case catParentID c of
       None \<Rightarrow> Some (Inr (), w)
     | Some p \<Rightarrow>
         if p = catID c then Some (Inl (NewBadRequest ''Category cannot be its own parent'' None), w)
         else if p = [] then Some (Inr (), w)
         else (case crGetCategoryByID (csRepo s) p w of
             (Inl e, w1) \<Rightarrow> Some (Inl (NewNotFound ''parent category not found'' (Some e)), w1)
           | (Inr _, w1) \<Rightarrow> (case detectCategoryCycle s p (catID c) w1 of
               None \<Rightarrow> None
             | Some (Inl e, w2) \<Rightarrow> Some (Inl (NewInternal ''failed to validate category hierarchy'' (Some e)), w2)
             | Some (Inr True, w2) \<Rightarrow> Some (Inl (NewBadRequest ''circular category dependency detected'' None), w2)
             | Some (Inr False, w2) \<Rightarrow> Some (Inr (), w2))))"

definition update_category_error :: "err \<Rightarrow> err" where
  "update_category_error e = (if errors_is e ErrCategoryNotFound then NewNotFound ''category not found'' (Some e)
     else NewInternal ''failed to update category'' (Some e))"

definition UpdateCategory ::
  "(string \<Rightarrow> string) \<Rightarrow> 'w catalogService \<Rightarrow> Category \<Rightarrow> 'w \<Rightarrow> ((err + Category) \<times> 'w) option" where
  "UpdateCategory nfc s c0 w =
     (if catID c0 = [] then Some (Inl (NewBadRequest ''Category ID is required for update'' None), w)
      else let c = with_slug nfc c0 in (case ValidateCategory c of
        Some e \<Rightarrow> Some (Inl (NewBadRequest ''Invalid category data'' (Some e)), w)
      | None \<Rightarrow> (case check_slug s c w of
          (Inl e, w1) \<Rightarrow> Some (Inl e, w1)
        | (Inr _, w1) \<Rightarrow> (case check_parent s c w1 of
            None \<Rightarrow> None
          | Some (Inl e, w2) \<Rightarrow> Some (Inl e, w2)
          | Some (Inr _, w2) \<Rightarrow> Some (bind_io (on_error update_category_error (crUpdateCategory (csRepo s) c))
              (\<lambda>_. bind_io (invalidate_logged s (category_key (catID c))) (\<lambda>_. return_io c)) w2)))))"

definition delete_category_error :: "err \<Rightarrow> err" where
  "delete_category_error e = (if errors_is e ErrCategoryNotFound then NewNotFound ''category not found'' (Some e)
     else NewInternal ''failed to delete category'' (Some e))"

definition in_category :: "string \<Rightarrow> ProductFilter" where
  "in_category i = \<lparr>pfCategoryIDs = [i], pfMinPrice = None, pfMaxPrice = None, pfInStock = None, pfQ = [],
     pfAttributes = [], pfLimit = 0, pfOffset = 0\<rparr>"

definition DeleteCategory :: "'w catalogService \<Rightarrow> string \<Rightarrow> ('w, unit) io" where
  "DeleteCategory s i =
     (if i = [] then fail_io (NewBadRequest ''Category ID is required for deletion'' None)
      else bind_io (on_error (\<lambda>e. NewInternal ''failed to verify category references'' (Some e))
             (crListProducts (csRepo s) (in_category i)))
        (\<lambda>ps. if \<exists>p\<in>set ps. prodCategoryID p = i
          then fail_io (NewConflict ''cannot delete category: products are assigned to it'' None)
          else bind_io (on_error (\<lambda>e. NewInternal ''failed to verify category references'' (Some e))
                 (crListCategories (csRepo s)))
            (\<lambda>cats. if \<exists>c\<in>set cats. catParentID c = Some i
              then fail_io (NewConflict ''cannot delete category: has child subcategories'' None)
              else bind_io (on_error delete_category_error (crDeleteCategory (csRepo s) i))
                (\<lambda>_. invalidate_logged s (category_key i)))))"

section \<open>Stock levels from the inventory\<close>

text \<open>The subscriber of \<open>inventory.stock_changed\<close>; nobody publishes the payload as a value.\<close>

definition handleCatalogStock :: "'w catalogService \<Rightarrow> event \<Rightarrow> ('w, unit) io" where
  "handleCatalogStock s ev w = (case AsStockChangedRef ev of
       None \<Rightarrow> (Inr (), w)
     | Some p \<Rightarrow> (case crUpdateVariantStock (csRepo s) (sc_VariantID p) (sc_NewQuantity p) w of
         (Inl e, w1) \<Rightarrow> (Inl e, w1)
       | (Inr _, w1) \<Rightarrow> (case crGetProductByVariantID (csRepo s) (sc_VariantID p) w1 of
           (Inl e, w2) \<Rightarrow> (Inr (), w2)
         | (Inr pr, w2) \<Rightarrow> bind_io (invalidate_logged s (product_key (prodID pr)))
             (\<lambda>_. invalidate_logged s (variant_key (sc_VariantID p))) w2)))"

section \<open>The handlers of products\<close>

text \<open>
  What \<open>Controller.UpdateProduct\<close> makes of a request: the product carries the id of the path, and
  neither a version nor stock, discount or images. \<open>VariantDTO\<close> has no stock either.
\<close>

definition dto_variant :: "Variant \<Rightarrow> Variant" where
  "dto_variant v = v\<lparr>varStock := 0\<rparr>"

definition request_product :: "string \<Rightarrow> string \<Rightarrow> string \<Rightarrow> string \<Rightarrow> Variant list \<Rightarrow> Product" where
  "request_product i nm desc cid vs = \<lparr>prodID = i, prodName = nm, prodDescription = desc, prodCategoryID = cid,
     prodVariants = map dto_variant vs, prodImages = [], prodDiscount = None, prodVersion = 0,
     prodCreatedAt = zero_time, prodUpdatedAt = zero_time\<rparr>"

definition http_CreateProduct ::
  "('a env_scheme) catalogService \<Rightarrow> string \<Rightarrow> string \<Rightarrow> string \<Rightarrow> Variant list \<Rightarrow> ('a env_scheme, Product) io" where
  "http_CreateProduct s nm desc cid vs = AddProduct s (request_product [] nm desc cid vs)"

definition http_UpdateProduct ::
  "'w catalogService \<Rightarrow> string \<Rightarrow> string \<Rightarrow> string \<Rightarrow> string \<Rightarrow> Variant list \<Rightarrow> ('w, Product) io" where
  "http_UpdateProduct s i nm desc cid vs =
     (if i = [] then fail_io (NewBadRequest ''Product ID is required'' None)
      else UpdateProduct s (request_product i nm desc cid vs))"

end
