(* ===== verification/Cart.thy ===== *)
theory Cart
  imports Catalog
begin

text \<open>
  Shopping carts: \<open>internal/core/cart/service.go\<close> over a repository and the catalog's query service,
  and \<open>internal/core/cart/merge\<close>, which moves a guest's cart into an account's.
\<close>

section \<open>Data\<close>

record CartItem =
  clVariantID :: string
  clQuantity :: int

record Cart =
  cartCustomerID :: string
  cartItems :: "CartItem list"
  cartCreatedAt :: int
  cartUpdatedAt :: int

definition ErrCartNotFound :: err where [go_defs]: "ErrCartNotFound = Sentinel ''cart'' ''cart not found''"
definition ErrCartInvalidQuantity :: err where
  [go_defs]: "ErrCartInvalidQuantity = Sentinel ''cart'' ''quantity must be greater than zero''"
definition ErrCartVariantIDRequired :: err where
  [go_defs]: "ErrCartVariantIDRequired = Sentinel ''cart'' ''variant ID is required''"

record 'w CartRepository =
  cartGet :: "string \<Rightarrow> ('w, Cart) io"
  cartSave :: "Cart \<Rightarrow> ('w, unit) io"
  cartDelete :: "string \<Rightarrow> ('w, unit) io"

record CartItemResponse =
  ceVariantID :: string
  ceQuantity :: int
  ceName :: string
  ceSKU :: string
  cePrice :: f64
  ceDiscountedPrice :: f64
  ceImageURL :: string
  ceStock :: int
  ceAttributes :: "(string \<times> string) list"

record CartResponse =
  cpCustomerID :: string
  cpItems :: "CartItemResponse list"
  cpTotalPrice :: f64
  cpTotalDiscountedPrice :: f64
  cpUnavailableItems :: "string list"

text \<open>
  Of the catalog, the service calls \<open>GetProductByVariantID\<close>. \<open>cvSched\<close> says in which order the
  goroutines of \<open>enrichCart\<close> make their calls, for a number of lines.
\<close>

record 'w cartService =
  cvRepo :: "'w CartRepository"
  cvLookup :: "string \<Rightarrow> ('w, Product) io"
  cvSched :: "nat \<Rightarrow> nat list"

section \<open>The stored cart\<close>

definition thirty_days :: int where "thirty_days = 30 * 24 * 3600 * 1000000000"

text \<open>A missing cart is an empty one; a cart not touched for 30 days is emptied (and that is saved, or not).\<close>

definition getRawCart :: "('a env_scheme) cartService \<Rightarrow> string \<Rightarrow> ('a env_scheme, Cart) io" where
  "getRawCart s cid w = (case cartGet (cvRepo s) cid w of
       (Inl e, w1) \<Rightarrow>
         if errors_is e ErrCartNotFound then (case time_now w1 of (t, w2) \<Rightarrow>
           (Inr \<lparr>cartCustomerID = cid, cartItems = [], cartCreatedAt = t, cartUpdatedAt = t\<rparr>, w2))
         else (Inl e, w1)
     | (Inr c, w1) \<Rightarrow>
         if cartUpdatedAt c = zero_time then (Inr c, w1)
         else (case time_now w1 of (t, w2) \<Rightarrow>
           if t - cartUpdatedAt c \<le> thirty_days then (Inr c, w2)
           else (case time_now w2 of (t1, w3) \<Rightarrow> (case time_now w3 of (t2, w4) \<Rightarrow>
             let c1 = c\<lparr>cartItems := [], cartCreatedAt := t1, cartUpdatedAt := t2\<rparr> in
             (Inr c1, snd (cartSave (cvRepo s) c1 w4))))))"

section \<open>Names, prices and stock from the catalog\<close>

definition find_variant :: "Product \<Rightarrow> string \<Rightarrow> Variant option" where
  "find_variant p v = List.find (\<lambda>x. varID x = v) (prodVariants p)"

definition round2 :: "f64 \<Rightarrow> f64" where
  "round2 x = fdiv (go_round (fmul x 100)) 100"

definition image_url :: "Product \<Rightarrow> string" where
  "image_url p = (let u = (case List.find imgIsPrimary (prodImages p) of None \<Rightarrow> [] | Some g \<Rightarrow> imgURL g) in
     if u = [] \<and> prodImages p \<noteq> [] then imgURL (hd (prodImages p)) else u)"

definition display_name :: "Product \<Rightarrow> Variant \<Rightarrow> string" where
  "display_name p v = (if varName v = [] then prodName p
     else if varName v \<noteq> prodName p then prodName p @ '' - '' @ varName v else varName v)"

definition enrich_item :: "Product \<Rightarrow> CartItem \<Rightarrow> CartItemResponse option" where
  "enrich_item p it = (case find_variant p (clVariantID it) of
       None \<Rightarrow> None
     | Some v \<Rightarrow> Some \<lparr>ceVariantID = clVariantID it, ceQuantity = clQuantity it, ceName = display_name p v,
         ceSKU = varSKU v, cePrice = varPrice v,
         ceDiscountedPrice = round2 (discounted_price (prodDiscount p) (varPrice v)),
         ceImageURL = image_url p, ceStock = varStock v, ceAttributes = varAttributes v\<rparr>)"

definition enrich_order :: "'w cartService \<Rightarrow> nat \<Rightarrow> nat list" where
  "enrich_order s n = (if mset (cvSched s n) = mset [0..<n] then cvSched s n else [0..<n])"

text \<open>The lookups of the lines with the given indices, one after another.\<close>

fun enrich_lines :: "'w cartService \<Rightarrow> CartItem list \<Rightarrow> nat list \<Rightarrow> 'w \<Rightarrow>
    (nat \<times> CartItemResponse option) list \<times> 'w" where
  "enrich_lines s its [] w = ([], w)"
| "enrich_lines s its (i # is) w = (case cvLookup s (clVariantID (its ! i)) w of (r, w1) \<Rightarrow>
     (case enrich_lines s its is w1 of (xs, w2) \<Rightarrow>
       ((i, case r of Inl e \<Rightarrow> None | Inr p \<Rightarrow> enrich_item p (its ! i)) # xs, w2)))"

definition total_price :: "(CartItemResponse \<Rightarrow> f64) \<Rightarrow> CartItemResponse list \<Rightarrow> f64" where
  "total_price f xs = round2 (fold (\<lambda>x t. fadd t (fmul (f x) (f_of_int (ceQuantity x)))) xs 0)"

definition enrichCart :: "'w cartService \<Rightarrow> Cart \<Rightarrow> ('w, CartResponse) io" where
  "enrichCart s c w = (let its = cartItems c; n = length its in
     (case enrich_lines s its (enrich_order s n) w of (rs, w1) \<Rightarrow>
        let found = List.map_filter (\<lambda>i. case map_of rs i of Some x \<Rightarrow> x | None \<Rightarrow> None) [0..<n] in
        (Inr \<lparr>cpCustomerID = cartCustomerID c, cpItems = found,
           cpTotalPrice = total_price cePrice found, cpTotalDiscountedPrice = total_price ceDiscountedPrice found,
           cpUnavailableItems = map (\<lambda>r. clVariantID (its ! fst r)) (filter (\<lambda>r. snd r = None) rs)\<rparr>, w1)))"

section \<open>Operations\<close>

definition GetCart :: "('a env_scheme) cartService \<Rightarrow> string \<Rightarrow> ('a env_scheme, CartResponse) io" where
  "GetCart s cid = bind_io (getRawCart s cid) (enrichCart s)"

definition lookup_variant :: "'w cartService \<Rightarrow> string \<Rightarrow> ('w, Variant) io" where
  "lookup_variant s v = bind_io (on_error (\<lambda>e. NewNotFound ''Variant not found in catalog'' (Some e)) (cvLookup s v))
     (\<lambda>p. case find_variant p v of
         None \<Rightarrow> fail_io (NewNotFound ''Variant not found in product'' None)
       | Some x \<Rightarrow> return_io x)"

definition check_stock :: "string \<Rightarrow> int \<Rightarrow> Variant \<Rightarrow> ('w, unit) io" where
  "check_stock v n x = (if varStock x < n
     then fail_io (NewBadRequest (''insufficient stock for variant '' @ v @ '' (requested: '' @ itoa n @
       '', available: '' @ itoa (varStock x) @ '')'') (Some (ErrText ''insufficient stock'')))
     else return_io ())"

definition limit_error :: err where
  "limit_error = NewBadRequest ''Quantity per item in cart cannot exceed 10'' (Some (ErrText ''quantity limit exceeded''))"

definition store_cart :: "('a env_scheme) cartService \<Rightarrow> Cart \<Rightarrow> ('a env_scheme, CartResponse) io" where
  "store_cart s c w = (case time_now w of (t, w1) \<Rightarrow> (let c1 = c\<lparr>cartUpdatedAt := t\<rparr> in
     bind_io (on_error (\<lambda>e. NewInternal ''failed to save cart changes'' (Some e)) (cartSave (cvRepo s) c1))
       (\<lambda>_. enrichCart s c1) w1))"

definition raw_cart :: "('a env_scheme) cartService \<Rightarrow> string \<Rightarrow> ('a env_scheme, Cart) io" where
  "raw_cart s cid = on_error (\<lambda>e. NewInternal ''failed to retrieve cart'' (Some e)) (getRawCart s cid)"

definition line_index :: "string \<Rightarrow> CartItem list \<Rightarrow> nat option" where
  "line_index v = find_index (\<lambda>it. clVariantID it = v)"

definition AddItem :: "('a env_scheme) cartService \<Rightarrow> string \<Rightarrow> CartItem \<Rightarrow> ('a env_scheme, CartResponse) io" where
  "AddItem s cid it =
     (if clVariantID it = [] then fail_io (NewBadRequest ''Variant ID is required'' (Some ErrCartVariantIDRequired))
      else if clQuantity it \<le> 0
      then fail_io (NewBadRequest ''Quantity must be greater than zero'' (Some ErrCartInvalidQuantity))
      else bind_io (lookup_variant s (clVariantID it)) (\<lambda>x. bind_io (raw_cart s cid) (\<lambda>c.
        let its = cartItems c; found = line_index (clVariantID it) its;
          n = (case found of None \<Rightarrow> clQuantity it | Some i \<Rightarrow> wrap64 (clQuantity it + clQuantity (its ! i))) in
        if 10 < n then fail_io limit_error
        else bind_io (check_stock (clVariantID it) n x) (\<lambda>_. case found of
            Some i \<Rightarrow> store_cart s (c\<lparr>cartItems := its[i := (its ! i)\<lparr>clQuantity := n\<rparr>]\<rparr>)
          | None \<Rightarrow>
              if 50 \<le> length its
              then fail_io (NewBadRequest ''Cart cannot contain more than 50 unique items''
                (Some (ErrText ''unique items limit exceeded'')))
              else store_cart s (c\<lparr>cartItems := its @ [it]\<rparr>)))))"

definition UpdateCartItem ::
  "('a env_scheme) cartService \<Rightarrow> string \<Rightarrow> string \<Rightarrow> int \<Rightarrow> ('a env_scheme, CartResponse) io" where
  "UpdateCartItem s cid v n =
     (if v = [] then fail_io (NewBadRequest ''Variant ID is required'' (Some ErrCartVariantIDRequired))
      else if n \<le> 0 then fail_io (NewBadRequest ''Quantity must be greater than zero'' (Some ErrCartInvalidQuantity))
      else if 10 < n then fail_io limit_error
      else bind_io (raw_cart s cid) (\<lambda>c. case line_index v (cartItems c) of
          None \<Rightarrow> fail_io (NewNotFound ''Item not found in cart'' (Some (ErrText ''item not in cart'')))
        | Some i \<Rightarrow> bind_io (lookup_variant s v) (\<lambda>x. bind_io (check_stock v n x) (\<lambda>_.
            store_cart s (c\<lparr>cartItems := (cartItems c)[i := (cartItems c ! i)\<lparr>clQuantity := n\<rparr>]\<rparr>)))))"

text \<open>A variant that is not in the cart: nothing is written.\<close>

definition RemoveItem :: "('a env_scheme) cartService \<Rightarrow> string \<Rightarrow> string \<Rightarrow> ('a env_scheme, CartResponse) io" where
  "RemoveItem s cid v =
     (if v = [] then fail_io (NewBadRequest ''Variant ID is required'' (Some ErrCartVariantIDRequired))
      else bind_io (raw_cart s cid) (\<lambda>c.
        let kept = filter (\<lambda>it. clVariantID it \<noteq> v) (cartItems c) in
        if length kept = length (cartItems c) then enrichCart s c
        else store_cart s (c\<lparr>cartItems := kept\<rparr>)))"

definition ClearCart :: "'w cartService \<Rightarrow> string \<Rightarrow> ('w, unit) io" where
  "ClearCart s cid = on_error (\<lambda>e. NewInternal ''failed to empty cart'' (Some e)) (cartDelete (cvRepo s) cid)"

definition count_units :: "CartItem list \<Rightarrow> int" where
  "count_units its = fold (\<lambda>it n. wrap64 (n + clQuantity it)) its 0"

definition CartCount :: "('a env_scheme) cartService \<Rightarrow> string \<Rightarrow> ('a env_scheme, int) io" where
  "CartCount s cid = bind_io (getRawCart s cid) (\<lambda>c. return_io (count_units (cartItems c)))"

definition CartCountDetailed :: "('a env_scheme) cartService \<Rightarrow> string \<Rightarrow> ('a env_scheme, int \<times> int) io" where
  "CartCountDetailed s cid = bind_io (getRawCart s cid)
     (\<lambda>c. return_io (count_units (cartItems c), int (length (cartItems c))))"

section \<open>Merging a guest's cart\<close>

text \<open>An item that cannot be added is skipped, and the guest's cart is deleted whatever happened.\<close>

fun merge_items :: "('a env_scheme) cartService \<Rightarrow> string \<Rightarrow> CartItem list \<Rightarrow> 'a env_scheme \<Rightarrow> 'a env_scheme" where
  "merge_items s acct [] w = w"
| "merge_items s acct (it # its) w = merge_items s acct its (snd (AddItem s acct it w))"

definition MergeGuestCartWithAccount ::
  "('a env_scheme) cartService \<Rightarrow> string \<Rightarrow> string \<Rightarrow> ('a env_scheme, CartResponse) io" where
  "MergeGuestCartWithAccount s acct guest w = (case cartGet (cvRepo s) guest w of
       (Inl e, w1) \<Rightarrow> if errors_is e ErrCartNotFound then GetCart s acct w1 else (Inl e, w1)
     | (Inr g, w1) \<Rightarrow> GetCart s acct (snd (cartDelete (cvRepo s) guest (merge_items s acct (cartItems g) w1))))"

text \<open>The handler checks that the caller is logged in and an id was given, whoever's it is.\<close>

definition http_Merge ::
  "err \<Rightarrow> ('a env_scheme) cartService \<Rightarrow> string \<Rightarrow> string \<Rightarrow> ('a env_scheme, CartResponse) io" where
  "http_Merge bind_error s user guest =
     (if user = [] then fail_io (NewUnauthorized ''unauthorized'' None)
      else if guest = [] then fail_io (NewBadRequest ''Invalid request payload'' (Some bind_error))
      else MergeGuestCartWithAccount s user guest)"

end
