(* ===== verification/Gin.thy ===== *)
theory Gin
  imports GoErrors Strconv
begin

text \<open>
  What the HTTP handlers share. A handler is a function of what the framework hands it: the identity the
  authentication middleware has put into the context (empty if there is none), the path parameters, the
  query parameters (\<open>None\<close> if absent) and the outcome of \<open>ShouldBindJSON\<close>: the decoded and validated
  request, or the error of the decoder. Its value is what it answers with: \<open>Inr\<close> what \<open>GinOK\<close> writes,
  \<open>Inl\<close> the error given to \<open>GinWriteError\<close>, whose status is \<open>http_status\<close>. A panic is passed on as it is.
\<close>

text \<open>\<open>c.GetString(ctxkeys.UserIDKey)\<close> and its check.\<close>

definition authenticated :: "string \<Rightarrow> ('w, 'r) io \<Rightarrow> ('w, 'r) io" where
  "authenticated uid h = (if uid = [] then fail_io (NewUnauthorized ''unauthorized'' None) else h)"

definition bind_body :: "string \<Rightarrow> err + 'b \<Rightarrow> ('b \<Rightarrow> ('w, 'r) io) \<Rightarrow> ('w, 'r) io" where
  "bind_body msg body h = (case body of Inl e \<Rightarrow> fail_io (NewBadRequest msg (Some e)) | Inr req \<Rightarrow> h req)"

definition need_param :: "string \<Rightarrow> string \<Rightarrow> ('w, 'r) io \<Rightarrow> ('w, 'r) io" where
  "need_param msg p h = (if p = [] then fail_io (NewBadRequest msg None) else h)"

text \<open>The page a listing asks for: a missing or unusable number is the default.\<close>

definition limit_query :: "string option \<Rightarrow> int" where
  "limit_query q = (case q of None \<Rightarrow> 20
     | Some s \<Rightarrow> (case atoi s of None \<Rightarrow> 20 | Some n \<Rightarrow> if n \<le> 0 then 20 else n))"

definition offset_query :: "string option \<Rightarrow> int" where
  "offset_query q = (case q of None \<Rightarrow> 0
     | Some s \<Rightarrow> (case atoi s of None \<Rightarrow> 0 | Some n \<Rightarrow> if n < 0 then 0 else n))"

text \<open>An error of a service replaced by another, panics excepted.\<close>

definition answer_error :: "(err \<Rightarrow> err) \<Rightarrow> ('w, 'r) io \<Rightarrow> ('w, 'r) io" where
  "answer_error f = on_error (\<lambda>e. if is_panic e then e else f e)"


text \<open>What follows a handler moves behind its checks.\<close>

lemma bind_io_assoc: "bind_io (bind_io m f) g = bind_io m (\<lambda>x. bind_io (f x) g)"
  by (auto simp: bind_io_def fun_eq_iff split: prod.splits sum.splits)

lemma return_first: "bind_io (return_io x) f = f x"
  by (simp add: bind_io_def return_io_def fun_eq_iff)

lemma bind_fail: "bind_io (fail_io e) f = fail_io e"
  by (simp add: bind_io_def fail_io_def fun_eq_iff)

lemma bind_authenticated: "bind_io (authenticated uid h) f = authenticated uid (bind_io h f)"
  by (simp add: authenticated_def bind_fail)

lemma bind_body_bind: "bind_io (bind_body msg body h) f = bind_body msg body (\<lambda>r. bind_io (h r) f)"
  by (simp add: bind_body_def bind_fail split: sum.splits)

lemma bind_need_param: "bind_io (need_param msg p h) f = need_param msg p (bind_io h f)"
  by (simp add: need_param_def bind_fail)

lemmas handler_seq = bind_io_assoc return_first bind_fail bind_authenticated bind_body_bind bind_need_param

end
