(* ===== verification/CartHandlers.thy ===== *)
theory CartHandlers
  imports Cart Gin
begin

text \<open>
  The HTTP handlers of the cart (\<open>internal/core/cart/controller.go\<close>). Every one of them works on the cart
  of the identity the middleware has set; merging is \<open>http_Merge\<close> of the theory of the cart.
\<close>

definition http_GetCart :: "('a env_scheme) cartService \<Rightarrow> string \<Rightarrow> ('a env_scheme, CartResponse) io" where
  "http_GetCart s uid = authenticated uid (GetCart s uid)"

definition http_AddItem ::
  "('a env_scheme) cartService \<Rightarrow> string \<Rightarrow> err + (string \<times> int) \<Rightarrow> ('a env_scheme, CartResponse) io" where
  "http_AddItem s uid body = authenticated uid (bind_body ''Invalid request payload'' body (\<lambda>(v, n).
     AddItem s uid \<lparr>clVariantID = v, clQuantity = n\<rparr>))"

definition variant_param :: "string \<Rightarrow> ('w, 'r) io \<Rightarrow> ('w, 'r) io" where
  "variant_param v h = (if v = []
     then fail_io (NewBadRequest ''Variant ID path parameter is required'' (Some ErrCartVariantIDRequired)) else h)"

definition http_UpdateItem ::
  "('a env_scheme) cartService \<Rightarrow> string \<Rightarrow> string \<Rightarrow> err + int \<Rightarrow> ('a env_scheme, CartResponse) io" where
  "http_UpdateItem s uid v body = authenticated uid (variant_param v
     (bind_body ''Invalid request payload'' body (\<lambda>n.
        if n \<le> 0 then fail_io (NewBadRequest ''Quantity must be greater than zero'' (Some ErrCartInvalidQuantity))
        else UpdateCartItem s uid v n)))"

definition http_RemoveItem ::
  "('a env_scheme) cartService \<Rightarrow> string \<Rightarrow> string \<Rightarrow> ('a env_scheme, CartResponse) io" where
  "http_RemoveItem s uid v = authenticated uid (variant_param v (RemoveItem s uid v))"

definition http_Clear :: "('a env_scheme) cartService \<Rightarrow> string \<Rightarrow> ('a env_scheme, string) io" where
  "http_Clear s uid = authenticated uid (bind_io (ClearCart s uid) (\<lambda>_. return_io ''cart cleared''))"

definition http_GetCartCount ::
  "('a env_scheme) cartService \<Rightarrow> string \<Rightarrow> ('a env_scheme, int \<times> int) io" where
  "http_GetCartCount s uid = authenticated uid (CartCountDetailed s uid)"

end
