(* ===== verification/CatalogPg.thy ===== *)
theory CatalogPg
  imports Catalog
begin

text \<open>
  The PostgreSQL catalog repository (\<open>internal/infra/db/postgres/catalog/core\<close>) over the tables of
  \<open>migrations/postgres/catalog/001_catalog.up.sql\<close>: unique ids, SKUs and slugs, foreign keys with
  their \<open>ON DELETE\<close> actions, 32-bit versions and stock, \<open>DECIMAL(12, 2)\<close> amounts (\<open>dec\<close>). The
  attributes of a variant are a JSON object.
\<close>

type_synonym decimal_column = "f64 \<Rightarrow> f64 option"

record dbProduct =
  dpID :: string
  dpName :: string
  dpDescription :: "string option"
  dpCategoryID :: "string option"
  dpVersion :: int
  dpDiscountType :: "string option"
  dpDiscountValue :: "f64 option"
  dpCreatedAt :: int
  dpUpdatedAt :: int

text \<open>Rows of \<open>variants\<close> and \<open>product_images\<close> come with their \<open>product_id\<close>.\<close>

record catalog_db = "cached cache_env" +
  products_tbl :: "dbProduct list"
  variants_tbl :: "(string \<times> Variant) list"
  images_tbl :: "(string \<times> ProductImage) list"
  categories_tbl :: "Category list"

section \<open>Rows\<close>

definition toDBProduct :: "Product \<Rightarrow> dbProduct" where
  "toDBProduct p = \<lparr>dpID = prodID p, dpName = prodName p,
     dpDescription = (if prodDescription p \<noteq> [] then Some (prodDescription p) else None),
     dpCategoryID = Some (prodCategoryID p), dpVersion = prodVersion p,
     dpDiscountType = map_option discType (prodDiscount p), dpDiscountValue = map_option discValue (prodDiscount p),
     dpCreatedAt = prodCreatedAt p, dpUpdatedAt = prodUpdatedAt p\<rparr>"

text \<open>\<open>category_id\<close> is read into a Go string, which cannot take NULL.\<close>

definition toDomainProduct :: "dbProduct \<Rightarrow> Variant list \<Rightarrow> ProductImage list \<Rightarrow> Product" where
  "toDomainProduct d vs imgs = \<lparr>prodID = dpID d, prodName = dpName d,
     prodDescription = (case dpDescription d of None \<Rightarrow> [] | Some s \<Rightarrow> s),
     prodCategoryID = (case dpCategoryID d of None \<Rightarrow> [] | Some s \<Rightarrow> s), prodVariants = vs, prodImages = imgs,
     prodDiscount = (case dpDiscountType d of None \<Rightarrow> None
       | Some tp \<Rightarrow> Some \<lparr>discType = tp, discValue = (case dpDiscountValue d of None \<Rightarrow> 0 | Some v \<Rightarrow> v)\<rparr>),
     prodVersion = dpVersion d, prodCreatedAt = dpCreatedAt d, prodUpdatedAt = dpUpdatedAt d\<rparr>"

definition product_variants :: "'a catalog_db_scheme \<Rightarrow> string \<Rightarrow> Variant list" where
  "product_variants w i = map snd (filter (\<lambda>r. fst r = i) (variants_tbl w))"

definition product_images :: "'a catalog_db_scheme \<Rightarrow> string \<Rightarrow> ProductImage list" where
  "product_images w i = map snd (filter (\<lambda>r. fst r = i) (images_tbl w))"

definition product_at :: "'a catalog_db_scheme \<Rightarrow> dbProduct \<Rightarrow> Product" where
  "product_at w d = toDomainProduct d (product_variants w (dpID d)) (product_images w (dpID d))"

text \<open>A discount value is rounded to its column; an amount that does not fit is an error.\<close>

definition round_discount :: "decimal_column \<Rightarrow> dbProduct \<Rightarrow> dbProduct option" where
  "round_discount dec d = (case dpDiscountValue d of
       None \<Rightarrow> Some d
     | Some v \<Rightarrow> map_option (\<lambda>x. d\<lparr>dpDiscountValue := Some x\<rparr>) (dec v))"

section \<open>Statements\<close>

definition has_category :: "'a catalog_db_scheme \<Rightarrow> string option \<Rightarrow> bool" where
  "has_category w c \<longleftrightarrow> (case c of None \<Rightarrow> True | Some i \<Rightarrow> i \<in> catID ` set (categories_tbl w))"

definition insert_product :: "decimal_column \<Rightarrow> dbProduct \<Rightarrow> ('a catalog_db_scheme, unit) io" where
  "insert_product dec d = sql (\<lambda>w. (case round_discount dec d of
       None \<Rightarrow> reject ''numeric field overflow'' w
     | Some d1 \<Rightarrow>
         if \<not> i32 (dpVersion d) then reject ''integer out of range'' w
         else if dpID d \<in> dpID ` set (products_tbl w) then reject ''duplicate key'' w
         else if \<not> has_category w (dpCategoryID d) then reject ''foreign key violation'' w
         else (Inr (), w\<lparr>products_tbl := products_tbl w @ [d1]\<rparr>)))"

definition insert_variant :: "decimal_column \<Rightarrow> string \<Rightarrow> Variant \<Rightarrow> ('a catalog_db_scheme, unit) io" where
  "insert_variant dec pid v = sql (\<lambda>w. (case dec (varPrice v) of
       None \<Rightarrow> reject ''numeric field overflow'' w
     | Some price \<Rightarrow>
         if \<not> i32 (varStock v) then reject ''integer out of range'' w
         else if \<exists>r\<in>set (variants_tbl w). varID (snd r) = varID v \<or> varSKU (snd r) = varSKU v
         then reject ''duplicate key'' w
         else if pid \<notin> dpID ` set (products_tbl w) then reject ''foreign key violation'' w
         else (Inr (), w\<lparr>variants_tbl := variants_tbl w @ [(pid, v\<lparr>varPrice := price\<rparr>)]\<rparr>)))"

definition insert_image :: "string \<Rightarrow> ProductImage \<Rightarrow> ('a catalog_db_scheme, unit) io" where
  "insert_image pid g = sql (\<lambda>w.
     if \<exists>r\<in>set (images_tbl w). imgID (snd r) = imgID g then reject ''duplicate key'' w
     else if pid \<notin> dpID ` set (products_tbl w) then reject ''foreign key violation'' w
     else (Inr (), w\<lparr>images_tbl := images_tbl w @ [(pid, g)]\<rparr>))"

text \<open>\<open>BeginTx\<close>, the statements, \<open>Commit\<close>, with the deferred \<open>Rollback\<close>.\<close>

definition in_own_tx :: "('a env_scheme, 'r) io \<Rightarrow> ('a env_scheme, 'r) io" where
  "in_own_tx fn w = (if in_tx w then (Inl (ErrText ''nested transactions not supported''), w) else RunInTx_pg fn w)"

definition CreateProduct_pg :: "decimal_column \<Rightarrow> Product \<Rightarrow> ('a catalog_db_scheme, unit) io" where
  "CreateProduct_pg dec p = in_own_tx (bind_io (insert_product dec (toDBProduct p))
     (\<lambda>_. bind_io (for_each (insert_variant dec (prodID p)) (prodVariants p))
       (\<lambda>_. for_each (insert_image (prodID p)) (prodImages p))))"

definition read_product :: "dbProduct option \<Rightarrow> ('a catalog_db_scheme, Product) io" where
  "read_product r = (case r of
       None \<Rightarrow> fail_io ErrProductNotFound
     | Some d \<Rightarrow>
         if dpCategoryID d = None then fail_io (ErrText ''converting NULL to string is unsupported'')
         else bind_io (sql (\<lambda>w. (Inr (product_variants w (dpID d)), w)))
           (\<lambda>vs. bind_io (sql (\<lambda>w. (Inr (product_images w (dpID d)), w)))
             (\<lambda>imgs. return_io (toDomainProduct d vs imgs))))"

definition GetProductByID_pg :: "string \<Rightarrow> ('a catalog_db_scheme, Product) io" where
  "GetProductByID_pg i = bind_io (sql (\<lambda>w. (Inr (row_of dpID (products_tbl w) i), w))) read_product"

definition GetProductByVariantID_pg :: "string \<Rightarrow> ('a catalog_db_scheme, Product) io" where
  "GetProductByVariantID_pg v = bind_io (sql (\<lambda>w. (Inr (case List.find (\<lambda>r. varID (snd r) = v) (variants_tbl w) of
       None \<Rightarrow> None
     | Some r \<Rightarrow> row_of dpID (products_tbl w) (fst r)), w))) read_product"

definition UpdateVariantStock_pg :: "string \<Rightarrow> int \<Rightarrow> ('a catalog_db_scheme, unit) io" where
  "UpdateVariantStock_pg v n = sql (\<lambda>w. if \<not> i32 n then reject ''integer out of range'' w
     else (Inr (), w\<lparr>variants_tbl := map (\<lambda>r. if varID (snd r) = v then (fst r, (snd r)\<lparr>varStock := n\<rparr>) else r)
       (variants_tbl w)\<rparr>))"

text \<open>The optimistic update of the product's row; without one, its two causes are told apart.\<close>

definition update_product_row :: "decimal_column \<Rightarrow> Product \<Rightarrow> ('a catalog_db_scheme, unit) io" where
  "update_product_row dec p = bind_io
     (sql (\<lambda>w. let d = (toDBProduct p)\<lparr>dpVersion := wrap64 (prodVersion p + 1)\<rparr> in
        if \<not> i32 (dpVersion d) \<or> \<not> i32 (prodVersion p) then reject ''integer out of range'' w
        else if \<forall>r\<in>set (products_tbl w). \<not> (dpID r = prodID p \<and> dpVersion r = prodVersion p) then (Inr False, w)
        else (case round_discount dec d of
            None \<Rightarrow> reject ''numeric field overflow'' w
          | Some d1 \<Rightarrow>
              if \<not> has_category w (dpCategoryID d) then reject ''foreign key violation'' w
              else (Inr True, w\<lparr>products_tbl := map (\<lambda>r. if dpID r = prodID p \<and> dpVersion r = prodVersion p
                then d1\<lparr>dpCreatedAt := dpCreatedAt r\<rparr> else r) (products_tbl w)\<rparr>))))
     (\<lambda>hit. if hit then return_io ()
       else sql (\<lambda>w. (Inl (if prodID p \<in> dpID ` set (products_tbl w) then ErrVersionConflict else ErrProductNotFound), w)))"

definition replace_variants :: "decimal_column \<Rightarrow> string \<Rightarrow> Variant list \<Rightarrow> ('a catalog_db_scheme, unit) io" where
  "replace_variants dec pid vs = bind_io
     (sql (\<lambda>w. (Inr (), w\<lparr>variants_tbl := filter (\<lambda>r. fst r \<noteq> pid) (variants_tbl w)\<rparr>)))
     (\<lambda>_. for_each (insert_variant dec pid) vs)"

definition replace_images :: "string \<Rightarrow> ProductImage list \<Rightarrow> ('a catalog_db_scheme, unit) io" where
  "replace_images pid imgs = bind_io
     (sql (\<lambda>w. (Inr (), w\<lparr>images_tbl := filter (\<lambda>r. fst r \<noteq> pid) (images_tbl w)\<rparr>)))
     (\<lambda>_. for_each (insert_image pid) imgs)"

definition UpdateProduct_pg :: "decimal_column \<Rightarrow> Product \<Rightarrow> ('a catalog_db_scheme, Product) io" where
  "UpdateProduct_pg dec p = in_own_tx (bind_io (update_product_row dec p)
     (\<lambda>_. bind_io (replace_variants dec (prodID p) (prodVariants p))
       (\<lambda>_. bind_io (replace_images (prodID p) (prodImages p))
         (\<lambda>_. return_io (p\<lparr>prodVersion := wrap64 (prodVersion p + 1)\<rparr>)))))"

text \<open>Variants and images of a product go with it (\<open>ON DELETE CASCADE\<close>).\<close>

definition DeleteProduct_pg :: "string \<Rightarrow> ('a catalog_db_scheme, unit) io" where
  "DeleteProduct_pg i = sql (\<lambda>w.
     if i \<notin> dpID ` set (products_tbl w) then (Inl ErrProductNotFound, w)
     else (Inr (), w\<lparr>products_tbl := filter (\<lambda>d. dpID d \<noteq> i) (products_tbl w),
       variants_tbl := filter (\<lambda>r. fst r \<noteq> i) (variants_tbl w),
       images_tbl := filter (\<lambda>r. fst r \<noteq> i) (images_tbl w)\<rparr>))"

section \<open>Listing\<close>

text \<open>\<open>ILIKE\<close>: \<open>%\<close> is any text, \<open>_\<close> any character, a backslash takes the next character as it is.\<close>

function like_match :: "string \<Rightarrow> string \<Rightarrow> bool" where
  "like_match [] s = (s = [])"
| "like_match (p # ps) s =
     (if p = CHR ''%'' then like_match ps s \<or> (if s = [] then False else like_match (p # ps) (tl s))
      else if p = CHR ''_'' then s \<noteq> [] \<and> like_match ps (tl s)
      else if p = CHR 0x5C then (ps \<noteq> [] \<and> s \<noteq> [] \<and> hd s = hd ps \<and> like_match (tl ps) (tl s))
      else s \<noteq> [] \<and> hd s = p \<and> like_match ps (tl s))"
  by pat_completeness auto
termination
  by (relation "measure (\<lambda>(p, s). length p + length s)") (auto simp: neq_Nil_conv)

definition ilike :: "string \<Rightarrow> string \<Rightarrow> bool" where
  "ilike pat s \<longleftrightarrow> like_match (to_lower pat) (to_lower s)"

text \<open>
  The \<open>WHERE\<close> clause on a product and one row of its left join with \<open>variants\<close> (\<open>None\<close>: a product
  without variants, whose conditions on a variant are not true).
\<close>

definition row_matches :: "ProductFilter \<Rightarrow> 'a catalog_db_scheme \<Rightarrow> dbProduct \<Rightarrow> Variant option \<Rightarrow> bool" where
  "row_matches f w d v \<longleftrightarrow>
     (pfCategoryIDs f \<noteq> [] \<longrightarrow> (\<exists>c\<in>set (pfCategoryIDs f). dpCategoryID d = Some c)) \<and>
     (case pfMinPrice f of None \<Rightarrow> True | Some x \<Rightarrow> (case v of None \<Rightarrow> False | Some a \<Rightarrow> x \<le> varPrice a)) \<and>
     (case pfMaxPrice f of None \<Rightarrow> True | Some x \<Rightarrow> (case v of None \<Rightarrow> False | Some a \<Rightarrow> varPrice a \<le> x)) \<and>
     (case pfInStock f of None \<Rightarrow> True
        | Some True \<Rightarrow> (case v of None \<Rightarrow> False | Some a \<Rightarrow> 0 < varStock a)
        | Some False \<Rightarrow> (\<forall>a\<in>set (product_variants w (dpID d)). \<not> 0 < varStock a)) \<and>
     (pfQ f \<noteq> [] \<longrightarrow> (let pat = ''%'' @ pfQ f @ ''%'' in
        ilike pat (dpName d) \<or> (case dpDescription d of None \<Rightarrow> False | Some s \<Rightarrow> ilike pat s) \<or>
        (case v of None \<Rightarrow> False | Some a \<Rightarrow> ilike pat (varSKU a) \<or> ilike pat (varName a))))"

definition product_matches :: "ProductFilter \<Rightarrow> 'a catalog_db_scheme \<Rightarrow> dbProduct \<Rightarrow> bool" where
  "product_matches f w d = (case product_variants w (dpID d) of
       [] \<Rightarrow> row_matches f w d None
     | vs \<Rightarrow> (\<exists>v\<in>set vs. row_matches f w d (Some v)))"

definition filter_page :: "ProductFilter \<Rightarrow> 'r list \<Rightarrow> 'r list" where
  "filter_page f xs = sql_page (if 0 < pfLimit f \<and> pfLimit f \<le> 100 then pfLimit f else 100)
     (if 0 < pfOffset f then pfOffset f else 0) xs"

definition ListProducts_pg :: "ProductFilter \<Rightarrow> ('a catalog_db_scheme, Product list) io" where
  "ListProducts_pg f = bind_io
     (sql (\<lambda>w. (Inr (filter_page f (filter (product_matches f w) (products_tbl w))), w)))
     (\<lambda>ds. if \<exists>d\<in>set ds. dpCategoryID d = None then fail_io (ErrText ''converting NULL to string is unsupported'')
       else if ds = [] then return_io []
       else bind_io (sql (\<lambda>w. (Inr (map (\<lambda>d. product_variants w (dpID d)) ds), w)))
         (\<lambda>vss. bind_io (sql (\<lambda>w. (Inr (map (\<lambda>d. product_images w (dpID d)) ds), w)))
           (\<lambda>imgss. return_io (map (\<lambda>(d, vs, imgs). toDomainProduct d vs imgs) (zip ds (zip vss imgss))))))"

section \<open>Categories\<close>

definition CreateCategory_pg :: "Category \<Rightarrow> ('a catalog_db_scheme, unit) io" where
  "CreateCategory_pg c = sql (\<lambda>w.
     if \<exists>r\<in>set (categories_tbl w). catID r = catID c \<or> catSlug r = catSlug c then reject ''duplicate key'' w
     else if \<not> has_category w (catParentID c) \<and> catParentID c \<noteq> Some (catID c) then reject ''foreign key violation'' w
     else (Inr (), w\<lparr>categories_tbl := categories_tbl w @ [c]\<rparr>))"

definition GetCategoryByID_pg :: "string \<Rightarrow> ('a catalog_db_scheme, Category) io" where
  "GetCategoryByID_pg i = sql (\<lambda>w. (case row_of catID (categories_tbl w) i of
       None \<Rightarrow> (Inl ErrCategoryNotFound, w)
     | Some c \<Rightarrow> (Inr c, w)))"

definition ListCategories_pg :: "('a catalog_db_scheme, Category list) io" where
  "ListCategories_pg = sql (\<lambda>w. (Inr (categories_tbl w), w))"

definition UpdateCategory_pg :: "Category \<Rightarrow> ('a catalog_db_scheme, unit) io" where
  "UpdateCategory_pg c = sql (\<lambda>w.
     if catID c \<notin> catID ` set (categories_tbl w) then (Inl ErrCategoryNotFound, w)
     else if \<exists>r\<in>set (categories_tbl w). catID r \<noteq> catID c \<and> catSlug r = catSlug c then reject ''duplicate key'' w
     else if \<not> has_category w (catParentID c) then reject ''foreign key violation'' w
     else (Inr (), w\<lparr>categories_tbl := map (\<lambda>r. if catID r = catID c then c\<lparr>catCreatedAt := catCreatedAt r\<rparr> else r)
       (categories_tbl w)\<rparr>))"

text \<open>References to a deleted category become NULL (\<open>ON DELETE SET NULL\<close>).\<close>

definition DeleteCategory_pg :: "string \<Rightarrow> ('a catalog_db_scheme, unit) io" where
  "DeleteCategory_pg i = sql (\<lambda>w.
     if i \<notin> catID ` set (categories_tbl w) then (Inl ErrCategoryNotFound, w)
     else (Inr (), w\<lparr>
       categories_tbl := map (\<lambda>c. if catParentID c = Some i then c\<lparr>catParentID := None\<rparr> else c)
         (filter (\<lambda>c. catID c \<noteq> i) (categories_tbl w)),
       products_tbl := map (\<lambda>d. if dpCategoryID d = Some i then d\<lparr>dpCategoryID := None\<rparr> else d) (products_tbl w)\<rparr>))"

definition catalog_repo_pg :: "decimal_column \<Rightarrow> ('a catalog_db_scheme) CatalogRepository" where
  "catalog_repo_pg dec = \<lparr>crCreateProduct = CreateProduct_pg dec, crGetProductByID = GetProductByID_pg,
     crListProducts = ListProducts_pg, crUpdateProduct = UpdateProduct_pg dec, crDeleteProduct = DeleteProduct_pg,
     crGetProductByVariantID = GetProductByVariantID_pg, crUpdateVariantStock = UpdateVariantStock_pg,
     crCreateCategory = CreateCategory_pg, crGetCategoryByID = GetCategoryByID_pg,
     crListCategories = ListCategories_pg, crUpdateCategory = UpdateCategory_pg,
     crDeleteCategory = DeleteCategory_pg\<rparr>"

definition catalog_service_pg :: "decimal_column \<Rightarrow> int \<Rightarrow> ('a catalog_db_scheme) catalogService" where
  "catalog_service_pg dec l1ttl = \<lparr>csRepo = catalog_repo_pg dec,
     csCache = NewCacheManager (Some memory_cache) None l1ttl\<rparr>"

end
