(* ===== verification/CartPg.thy ===== *)
theory CartPg
  imports Cart CatalogPg
begin

text \<open>
  The PostgreSQL cart repository (\<open>internal/infra/db/postgres/cart\<close>): one row per customer, its lines
  as JSON, and the cart service as the module wires it to the catalog with its in-memory cache.
\<close>

record cart_db = catalog_db +
  carts_tbl :: "Cart list"

definition cartGet_pg :: "string \<Rightarrow> ('a cart_db_scheme, Cart) io" where
  "cartGet_pg cid = sql (\<lambda>w. (case row_of cartCustomerID (carts_tbl w) cid of
       None \<Rightarrow> (Inl ErrCartNotFound, w)
     | Some c \<Rightarrow> (Inr c, w)))"

text \<open>\<open>INSERT ... ON CONFLICT (customer_id) DO UPDATE\<close>; the id column holds 255 characters.\<close>

definition cartSave_pg :: "Cart \<Rightarrow> ('a cart_db_scheme, unit) io" where
  "cartSave_pg c = sql (\<lambda>w.
     if 255 < length (cartCustomerID c) then reject ''value too long'' w
     else (Inr (), w\<lparr>carts_tbl := (if cartCustomerID c \<in> cartCustomerID ` set (carts_tbl w)
       then map (\<lambda>r. if cartCustomerID r = cartCustomerID c
              then r\<lparr>cartItems := cartItems c, cartUpdatedAt := cartUpdatedAt c\<rparr> else r) (carts_tbl w)
       else carts_tbl w @ [c])\<rparr>))"

definition cartDelete_pg :: "string \<Rightarrow> ('a cart_db_scheme, unit) io" where
  "cartDelete_pg cid = sql (\<lambda>w. (Inr (), w\<lparr>carts_tbl := filter (\<lambda>r. cartCustomerID r \<noteq> cid) (carts_tbl w)\<rparr>))"

definition cart_repo_pg :: "('a cart_db_scheme) CartRepository" where
  "cart_repo_pg = \<lparr>cartGet = cartGet_pg, cartSave = cartSave_pg, cartDelete = cartDelete_pg\<rparr>"

text \<open>\<open>NewCartService\<close> in \<open>internal/modules/cart/module.go\<close>.\<close>

definition cart_service_pg :: "decimal_column \<Rightarrow> int \<Rightarrow> (nat \<Rightarrow> nat list) \<Rightarrow> ('a cart_db_scheme) cartService" where
  "cart_service_pg dec l1ttl sched = \<lparr>cvRepo = cart_repo_pg,
     cvLookup = GetProductByVariantID 0 (catalog_service_pg dec l1ttl), cvSched = sched\<rparr>"

end
