(* ===== verification/CacheProps.thy ===== *)
theory CacheProps
  imports Cache
begin

text \<open>
  What the memory cache and the manager over it guarantee: the capacity limit, lookups after
  insertions and expirations, and when the manager asks the source.
\<close>

section \<open>The adapter's items\<close>

abbreviation items :: "('v, 'a) cache_env_scheme \<Rightarrow> (string \<times> 'v cacheItem) list" where
  "items w \<equiv> maItems (mem w)"

lemma is_expired_mem: "is_expired it (w :: ('v, 'a) cache_env_scheme) = (x, w1) \<Longrightarrow> mem w1 = mem w"
  by (auto simp: is_expired_def elim!: time_nowE split: if_splits prod.splits)

lemma is_expired_clock:
  "is_expired it w = (x, w1) \<Longrightarrow> clock w \<le> clock w1 \<and> (x \<longleftrightarrow> 0 < ciExpiration it \<and> ciExpiration it < clock w1)"
  by (auto simp: is_expired_def elim!: time_nowE split: if_splits prod.splits)

lemma put_items_sel [simp]:
  "items (put_items xs w) = xs" "maMaxItems (mem (put_items xs w)) = maMaxItems (mem w)"
  "maMaxValueBytes (mem (put_items xs w)) = maMaxValueBytes (mem w)"
  "maJSONLen (mem (put_items xs w)) = maJSONLen (mem w)"
  "clock (put_items xs w) = clock w" "put_items ys (put_items xs w) = put_items ys w"
  by (simp_all add: put_items_def)

lemma range_keys_sel:
  "range_keys a = (ks, a') \<Longrightarrow> mset ks = mset (map fst (maItems a)) \<and> maItems a' = maItems a \<and>
     maMaxItems a' = maMaxItems a \<and> maMaxValueBytes a' = maMaxValueBytes a \<and> maJSONLen a' = maJSONLen a"
  by (auto simp: range_keys_def Let_def split: list.splits if_splits)

text \<open>What the two eviction loops do: they remove items, and change nothing else of the adapter.\<close>

definition fewer :: "(string \<times> 'v cacheItem) list \<Rightarrow> (string \<times> 'v cacheItem) list \<Rightarrow> bool" where
  "fewer xs ys \<longleftrightarrow> (\<exists>P. ys = filter P xs)"

lemma fewer_refl: "fewer xs xs"
  unfolding fewer_def by (rule exI [of _ "\<lambda>_. True"]) simp

lemma fewer_trans: "fewer xs ys \<Longrightarrow> fewer ys zs \<Longrightarrow> fewer xs zs"
  unfolding fewer_def by (metis filter_filter)

lemma fewer_delete: "fewer xs (AList.delete k xs)"
  unfolding fewer_def AList.delete_eq by blast

lemma fewer_facts:
  assumes "fewer xs ys" "distinct (map fst xs)"
  shows "distinct (map fst ys)" "set ys \<subseteq> set xs" "length ys \<le> length xs"
    "map_of ys k = None \<or> map_of ys k = map_of xs k"
proof -
  obtain P where P: "ys = filter P xs" using assms(1) by (auto simp: fewer_def)
  show d: "distinct (map fst ys)" using assms(2) by (simp add: P distinct_map_filter)
  show s: "set ys \<subseteq> set xs" and "length ys \<le> length xs" by (auto simp: P)
  show "map_of ys k = None \<or> map_of ys k = map_of xs k"
  proof (cases "map_of ys k")
    case (Some v)
    then have "(k, v) \<in> set xs" using s map_of_SomeD by fastforce
    with Some assms(2) show ?thesis by (simp add: map_of_eq_Some_iff)
  qed simp
qed

definition same_limits :: "('v, 'a) cache_env_scheme \<Rightarrow> ('v, 'a) cache_env_scheme \<Rightarrow> bool" where
  "same_limits w w' \<longleftrightarrow> maMaxItems (mem w') = maMaxItems (mem w) \<and> maMaxValueBytes (mem w') = maMaxValueBytes (mem w) \<and>
     maJSONLen (mem w') = maJSONLen (mem w) \<and> clock w \<le> clock w'"

lemma same_limits_refl: "same_limits w w"
  by (simp add: same_limits_def)

lemma same_limits_trans: "same_limits w w1 \<Longrightarrow> same_limits w1 w2 \<Longrightarrow> same_limits w w2"
  by (auto simp: same_limits_def)

lemma drop_expired_fx: "fewer (items w) (items (drop_expired ks w)) \<and> same_limits w (drop_expired ks w)"
proof (induction ks w rule: drop_expired.induct)
  case (2 k ks w)
  show ?case
  proof (cases "map_of (items w) k")
    case (Some it)
    obtain x w1 where x: "is_expired it w = (x, w1)" by fastforce
    let ?w = "if x then put_items (AList.delete k (items w1)) w1 else w1"
    have "fewer (items w) (items ?w)" "same_limits w ?w"
      using is_expired_mem [OF x] is_expired_clock [OF x]
      by (auto simp: fewer_delete fewer_refl same_limits_def)
    moreover have "fewer (items ?w) (items (drop_expired ks ?w)) \<and> same_limits ?w (drop_expired ks ?w)"
      by (rule 2(2) [OF Some x [symmetric]])
    ultimately show ?thesis using Some x by (auto intro: fewer_trans same_limits_trans)
  qed (use 2 in simp)
qed (simp add: fewer_refl same_limits_refl)

lemma least_used_in:
  "least_used xs b = Some kv \<Longrightarrow> kv \<in> set xs \<or> b = Some kv"
  by (induction xs b rule: least_used.induct) (auto split: if_splits)

lemma least_used_None: "least_used xs b = None \<longleftrightarrow> xs = [] \<and> b = None"
  by (induction xs b rule: least_used.induct) auto

lemma lookup_all_in: "kv \<in> set (lookup_all xs ks) \<Longrightarrow> fst kv \<in> set ks \<and> map_of xs (fst kv) = Some (snd kv)"
  by (auto simp: lookup_all_def List.map_filter_def)

lemma lookup_all_Nil: "set ks \<subseteq> fst ` set xs \<Longrightarrow> lookup_all xs ks = [] \<longleftrightarrow> ks = []"
  by (cases ks) (auto simp: lookup_all_def List.map_filter_def filter_empty_conv dest: weak_map_of_SomeI)

lemma evict_least_used_fx:
  "fewer (items w) (items (evict_least_used w)) \<and> same_limits w (evict_least_used w)"
proof -
  obtain ks a where r: "range_keys (mem w) = (ks, a)" by fastforce
  note s = range_keys_sel [OF r]
  with r show ?thesis
    by (auto simp: evict_least_used_def same_limits_def fewer_refl fewer_delete split: option.splits)
qed

lemma length_delete:
  "distinct (map fst xs) \<Longrightarrow> k \<in> fst ` set xs \<Longrightarrow> Suc (length (AList.delete k xs)) = length xs"
proof (induction xs)
  case (Cons x xs)
  then show ?case by (cases "fst x = k") auto
qed simp

lemma evict_least_used_shrinks:
  assumes "distinct (map fst (items w))" "items w \<noteq> []" "[] \<notin> fst ` set (items w)"
  shows "Suc (length (items (evict_least_used w))) = length (items w)"
proof -
  obtain ks a where r: "range_keys (mem w) = (ks, a)" by fastforce
  note s = range_keys_sel [OF r]
  have ks: "set ks = fst ` set (items w)" using s by (metis set_map set_mset_mset)
  have "take 10 ks \<noteq> []" using ks assms(2) by auto
  moreover have "set (take 10 ks) \<subseteq> fst ` set (items w)" using ks set_take_subset [of 10 ks] by blast
  ultimately have "lookup_all (items w) (take 10 ks) \<noteq> []" by (simp only: lookup_all_Nil) simp
  then obtain k it where k: "least_used (lookup_all (items w) (take 10 ks)) None = Some (k, it)"
    using least_used_None by (metis not_None_eq surj_pair)
  then have "map_of (items w) k = Some it"
    using least_used_in [OF k] lookup_all_in [of "(k, it)"] by auto
  then have "k \<in> fst ` set (items w)" by (metis weak_map_of_SomeI domI dom_map_of_conv_image_fst)
  moreover from this have "k \<noteq> []" using assms(3) by metis
  ultimately show ?thesis
    using length_delete [OF assms(1)] r s k by (auto simp: evict_least_used_def)
qed

lemma make_room_fx: "fewer (items w) (items (make_room w)) \<and> same_limits w (make_room w)"
proof (cases "at_capacity w")
  case True
  obtain ks a where r: "range_keys (mem w) = (ks, a)" by fastforce
  let ?w1 = "drop_expired (take 50 ks) (w\<lparr>mem := a\<rparr>)"
  have "fewer (items w) (items ?w1) \<and> same_limits w ?w1"
    using range_keys_sel [OF r] drop_expired_fx [of "w\<lparr>mem := a\<rparr>" "take 50 ks"] by (auto simp: same_limits_def)
  then show ?thesis using True r evict_least_used_fx [of ?w1]
    by (auto simp: make_room_def Let_def intro: fewer_trans same_limits_trans)
qed (simp add: make_room_def fewer_refl same_limits_refl)

lemma make_room_room:
  assumes "distinct (map fst (items w))" "int (length (items w)) \<le> maMaxItems (mem w)" "0 < maMaxItems (mem w)"
    "[] \<notin> fst ` set (items w)"
  shows "int (length (items (make_room w))) < maMaxItems (mem w)"
proof (cases "at_capacity w")
  case True
  obtain ks a where r: "range_keys (mem w) = (ks, a)" by fastforce
  let ?w1 = "drop_expired (take 50 ks) (w\<lparr>mem := a\<rparr>)"
  have w1: "fewer (items w) (items ?w1)" "same_limits w ?w1"
    using range_keys_sel [OF r] drop_expired_fx [of "w\<lparr>mem := a\<rparr>" "take 50 ks"] by (auto simp: same_limits_def)
  note f = fewer_facts(1-3) [OF w1(1) assms(1)]
  show ?thesis
  proof (cases "at_capacity ?w1")
    case True
    then have "items ?w1 \<noteq> []" using assms(3) w1(2) by (auto simp: at_capacity_def same_limits_def)
    moreover have "[] \<notin> fst ` set (items ?w1)" using f(2) assms(4) by blast
    ultimately show ?thesis
      using evict_least_used_shrinks [OF f(1)] f(3) assms(2) True \<open>at_capacity w\<close> r
      by (simp add: make_room_def Let_def)
  next
    case False
    with \<open>at_capacity w\<close> r w1(2) show ?thesis
      by (simp add: make_room_def Let_def) (simp add: at_capacity_def same_limits_def)
  qed
qed (use assms in \<open>simp add: make_room_def at_capacity_def\<close>)

section \<open>The capacity\<close>

definition cache_ok :: "('v, 'a) cache_env_scheme \<Rightarrow> bool" where
  "cache_ok w \<longleftrightarrow> distinct (map fst (items w)) \<and> [] \<notin> fst ` set (items w) \<and> 0 < maMaxItems (mem w) \<and>
     int (length (items w)) \<le> maMaxItems (mem w)"

lemma update_length: "length (AList.update k v xs) \<le> Suc (length xs)"
  by (induction xs) auto

lemma update_keys: "fst ` set (AList.update k v xs) = insert k (fst ` set xs)"
  by (simp add: dom_map_of_conv_image_fst [symmetric] update_conv')

lemma update_length_in: "k \<in> fst ` set xs \<Longrightarrow> length (AList.update k v xs) = length xs"
  by (induction xs) auto

text \<open>\<open>Set\<close> in one step: room is made, then the item is written.\<close>

lemma mem_Set_cases:
  assumes "mem_Set key v ttl w = (r, w')"
  obtains (reject) e where "r = Inl e" "w' = w"
  | (stored) t0 h t where "r = Inr ()" "clock w \<le> t0" "t0 \<le> clock w'" "same_limits w w'"
      "items w' = AList.update key \<lparr>ciValue = Marshal v, ciExpiration = (if 0 < ttl then t0 + ttl else 0),
         ciHits = h, ciLastAccess = t\<rparr> (items (make_room w))"
      "length key \<le> 512" "text_len (mem w) (Marshal v) \<le> maMaxValueBytes (mem w)"
proof (cases "512 < length key \<or> maMaxValueBytes (mem w) < text_len (mem w) (Marshal v)")
  case True
  with assms show thesis by (auto simp: mem_Set_def split: if_splits intro: reject)
next
  case False
  obtain ex w2 where ex: "(if 0 < ttl then (case time_now (make_room w) of (t, w2) \<Rightarrow> (t + ttl, w2)) else (0, make_room w)) = (ex, w2)"
    by fastforce
  obtain t w3 where t: "time_now w2 = (t, w3)" by fastforce
  have m: "mem w2 = mem (make_room w)" "clock (make_room w) \<le> clock w2" "ex = (if 0 < ttl then clock w2 + ttl else 0)"
    using ex by (auto split: if_splits prod.splits elim!: time_nowE)
  have m3: "mem w3 = mem w2" "clock w2 \<le> clock w3" using t by (auto elim!: time_nowE)
  note lim = conjunct2 [OF make_room_fx [of w]]
  from assms False ex t m3 have w': "r = Inr ()"
    "w' = put_items (AList.update key \<lparr>ciValue = Marshal v, ciExpiration = ex,
       ciHits = (case map_of (items w2) key of Some it \<Rightarrow> wrap64 (ciHits it + 1) | None \<Rightarrow> 1), ciLastAccess = t\<rparr> (items w2)) w3"
    by (auto simp: mem_Set_def Let_def)
  show thesis
  proof (rule stored [of "clock w2" _ t])
    show "clock w \<le> clock w2" "clock w2 \<le> clock w'" "same_limits w w'"
      using m m3 lim w' by (auto simp: same_limits_def)
    show "items w' = AList.update key \<lparr>ciValue = Marshal v, ciExpiration = (if 0 < ttl then clock w2 + ttl else 0),
         ciHits = (case map_of (items w2) key of Some it \<Rightarrow> wrap64 (ciHits it + 1) | None \<Rightarrow> 1),
         ciLastAccess = t\<rparr> (items (make_room w))" using w' m by simp
  qed (use w' False in auto)
qed

lemma mem_Set_ok:
  assumes "mem_Set key v ttl w = (r, w')" "key \<noteq> []" "cache_ok w"
  shows "cache_ok w'"
  using assms(1)
proof (cases rule: mem_Set_cases)
  case (stored t0 h t)
  have ok: "distinct (map fst (items w))" "int (length (items w)) \<le> maMaxItems (mem w)"
    "0 < maMaxItems (mem w)" "[] \<notin> fst ` set (items w)" using assms(3) by (auto simp: cache_ok_def)
  note f = fewer_facts(1,2) [OF conjunct1 [OF make_room_fx] ok(1)] and room = make_room_room [OF ok]
  have "fst ` set (items (make_room w)) \<subseteq> fst ` set (items w)" using f(2) by blast
  then show ?thesis
    using f(1) room stored(4,5) ok assms(2) update_length [of key _ "items (make_room w)"]
    unfolding cache_ok_def stored(5) update_keys
    by (auto simp: same_limits_def distinct_update intro: order_trans [OF of_nat_mono [OF update_length]])
qed (use assms in simp)

lemma mem_Get_fx:
  assumes "mem_Get key w = (r, w')"
  shows "same_limits w w' \<and> (case r of
      Inl e \<Rightarrow> e = ErrCacheMiss \<and> fewer (items w) (items w') \<and> (case map_of (items w) key of None \<Rightarrow> True
        | Some it \<Rightarrow> 0 < ciExpiration it \<and> ciExpiration it < clock w')
    | Inr t \<Rightarrow> \<exists>it h a. map_of (items w) key = Some it \<and> t = ciValue it \<and>
        (ciExpiration it \<le> 0 \<or> clock w \<le> ciExpiration it) \<and>
        items w' = AList.update key (it\<lparr>ciHits := h, ciLastAccess := a\<rparr>) (items w))"
proof (cases "map_of (items w) key")
  case None
  with assms show ?thesis by (auto simp: mem_Get_def fewer_refl same_limits_refl)
next
  case (Some it)
  obtain x w1 where x: "is_expired it w = (x, w1)" by fastforce
  note m1 = is_expired_mem [OF x] and c1 = is_expired_clock [OF x]
  show ?thesis
  proof (cases x)
    case True
    obtain y w2 where y: "is_expired it w1 = (y, w2)" by fastforce
    note m2 = is_expired_mem [OF y] and c2 = is_expired_clock [OF y]
    from assms Some x True y have "r = Inl ErrCacheMiss"
      "w' = (if y then put_items (AList.delete key (items w2)) w2 else w2)"
      by (auto simp: mem_Get_def)
    with Some m1 m2 c1 c2 True show ?thesis
      by (auto simp: same_limits_def fewer_refl fewer_delete)
  next
    case False
    obtain t w2 where t: "time_now w1 = (t, w2)" by fastforce
    have m2: "mem w2 = mem w1" "clock w1 \<le> clock w2" using t by (auto elim!: time_nowE)
    from assms Some x False t m1 m2 show ?thesis
      by (auto simp: mem_Get_def same_limits_def intro!: exI) (use c1 in auto)
  qed
qed

text \<open>Any operation but \<open>Increment\<close>, on a key that is not empty; the clock and the rest may change.\<close>

inductive cache_trans :: "('v, 'a) cache_env_scheme \<Rightarrow> ('v, 'a) cache_env_scheme \<Rightarrow> bool" where
  "mem_Set key v ttl w = (r, w') \<Longrightarrow> key \<noteq> [] \<Longrightarrow> cache_trans w w'"
| "mem_Get key w = (t, w') \<Longrightarrow> cache_trans w w'"
| "mem_Delete key w = (r, w') \<Longrightarrow> cache_trans w w'"
| "mem_Exists key w = (b, w') \<Longrightarrow> cache_trans w w'"
| "cache_trans w (mem_cleanupExpired w)"
| "mem w' = mem w \<Longrightarrow> cache_trans w w'"

inductive cache_run :: "('v, 'a) cache_env_scheme \<Rightarrow> ('v, 'a) cache_env_scheme \<Rightarrow> bool" where
  stay: "cache_run w w"
| step: "cache_run w w1 \<Longrightarrow> cache_trans w1 w2 \<Longrightarrow> cache_run w w2"

lemma cache_ok_fewer:
  assumes "cache_ok w" "fewer (items w) (items w')" "maMaxItems (mem w') = maMaxItems (mem w)"
  shows "cache_ok w'"
proof -
  have "distinct (map fst (items w))" using assms(1) by (simp add: cache_ok_def)
  note f = fewer_facts(1-3) [OF assms(2) this]
  have "fst ` set (items w') \<subseteq> fst ` set (items w)" using f(2) by blast
  with f assms(1,3) show ?thesis by (auto simp: cache_ok_def)
qed

lemma mem_cleanupExpired_fx:
  "fewer (items w) (items (mem_cleanupExpired w)) \<and> maMaxItems (mem (mem_cleanupExpired w)) = maMaxItems (mem w)"
  by (auto simp: mem_cleanupExpired_def fewer_def split: prod.splits elim!: time_nowE)

lemma cache_trans_ok:
  assumes "cache_trans w w'" "cache_ok w"
  shows "cache_ok w'"
  using assms(1)
proof cases
  case (1 key v ttl r)
  with mem_Set_ok assms(2) show ?thesis by blast
next
  case (2 key t)
  note fx = mem_Get_fx [OF 2]
  show ?thesis
  proof (cases t)
    case (Inl e)
    with fx cache_ok_fewer [OF assms(2), of w'] show ?thesis by (auto simp: same_limits_def)
  next
    case (Inr x)
    with fx obtain it h a where u: "map_of (items w) key = Some it"
      "items w' = AList.update key (it\<lparr>ciHits := h, ciLastAccess := a\<rparr>) (items w)" "maMaxItems (mem w') = maMaxItems (mem w)"
      by (auto simp: same_limits_def)
    then have k: "key \<in> fst ` set (items w)" by (metis domI dom_map_of_conv_image_fst)
    then have "insert key (fst ` set (items w)) = fst ` set (items w)" by blast
    with k show ?thesis using assms(2) u(3)
      unfolding cache_ok_def u(2) update_keys by (simp only: update_length_in distinct_update simp_thms)
  qed
next
  case (3 key r)
  then have "w' = put_items (AList.delete key (items w)) w" by (simp add: mem_Delete_def)
  with cache_ok_fewer [OF assms(2), of w'] show ?thesis by (simp add: fewer_delete)
next
  case (4 key b)
  have "mem w' = mem w"
    using 4 by (auto simp: mem_Exists_def split: option.splits prod.splits dest: is_expired_mem)
  with assms(2) show ?thesis by (simp add: cache_ok_def)
next
  case 5
  with cache_ok_fewer [OF assms(2), of w'] mem_cleanupExpired_fx [of w] show ?thesis by simp
next
  case 6
  with assms(2) show ?thesis by (simp add: cache_ok_def)
qed

text \<open>The memory cache keeps to its limit: over any run of \<open>Set\<close>, \<open>Get\<close>, \<open>Delete\<close>, \<open>Exists\<close> and the
periodic clean-up, with any expirations and in whatever order Go ranges over its map, every key has
one item and there are never more items than the limit.\<close>
theorem cache_bounded:
  assumes "cache_run w w'" "cache_ok w"
  shows "distinct (map fst (maItems (mem w'))) \<and> int (length (maItems (mem w'))) \<le> maMaxItems (mem w')"
proof -
  from assms have "cache_ok w'" by induction (auto intro: cache_trans_ok)
  then show ?thesis by (simp add: cache_ok_def)
qed

text \<open>\<open>Get\<close> answers what \<open>Set\<close> stored until the time to live has passed, and a miss afterwards; no
other key gets a new value, though one may be evicted.\<close>
theorem cache_get_after_set:
  assumes "mem_Set key v ttl w = (Inr (), w1)" "mem_Get key w1 = (r, w2)" "distinct (map fst (maItems (mem w)))"
    and "0 \<le> clock w"
  shows "(\<exists>t. clock w \<le> t \<and> t \<le> clock w1 \<and>
      (if ttl \<le> 0 \<or> clock w2 \<le> t + ttl then r = Inr (Marshal v)
       else r = Inr (Marshal v) \<and> clock w1 \<le> t + ttl \<or> r = Inl ErrCacheMiss)) \<and>
    (\<forall>k. k \<noteq> key \<longrightarrow> map_of (maItems (mem w1)) k \<in> {None, map_of (maItems (mem w)) k})"
  using assms(1)
proof (cases rule: mem_Set_cases)
  case (stored t0 h t)
  have other: "map_of (items (make_room w)) k = None \<or> map_of (items (make_room w)) k = map_of (items w) k" for k
    using fewer_facts(4) [OF conjunct1 [OF make_room_fx] assms(3)] .
  let ?it = "\<lparr>ciValue = Marshal v, ciExpiration = (if 0 < ttl then t0 + ttl else 0), ciHits = h, ciLastAccess = t\<rparr>"
  have it: "map_of (items w1) key = Some ?it" using stored(5) by (simp add: map_of_put)
  from mem_Get_fx [OF assms(2)] it stored(2,3) assms(4)
  have "if ttl \<le> 0 \<or> clock w2 \<le> t0 + ttl then r = Inr (Marshal v)
       else r = Inr (Marshal v) \<and> clock w1 \<le> t0 + ttl \<or> r = Inl ErrCacheMiss"
    by (auto split: sum.splits if_splits)
  moreover have "k \<noteq> key \<Longrightarrow> map_of (items w1) k \<in> {None, map_of (items w) k}" for k
    using stored(5) other [of k] by (simp add: map_of_put)
  ultimately show ?thesis using stored(2,3) by blast
qed simp

section \<open>The manager over the memory cache\<close>

text \<open>The engine's choice for \<open>cache.type: memory\<close>: one layer.\<close>

definition memory_manager :: "int \<Rightarrow> (('v, 'a) cache_env_scheme, 'v) cacheManager" where
  "memory_manager l1ttl = NewCacheManager (Some memory_cache) None l1ttl"

lemma memory_manager_sel [simp]:
  "cmL1 (memory_manager l) = Some memory_cache" "cmL2 (memory_manager l) = None"
  "cmL1TTL (memory_manager l) = (if 0 < l then l else 60 * 1000000000)" "0 < cmNegativeTTL (memory_manager l)"
  "cSet memory_cache = mem_Set" "cGet memory_cache = mem_Get" "cDelete memory_cache = mem_Delete"
  by (simp_all add: memory_manager_def NewCacheManager_def memory_cache_def)

lemma try_l2_memory [simp]: "try_l2 (memory_manager l) dec key ttl w = (Next, w)"
  by (simp add: try_l2_def)

lemma store_found_memory [simp]:
  "store_found rnd (memory_manager l) key v ttl w =
     (Inr (), snd (mem_Set key (VRaw (Json v)) (min_ttl (if 0 < l then l else 60 * 1000000000) ttl) w))"
  by (simp add: store_found_def set_ignoring_def)

text \<open>
  Items that are either right (\<open>P\<close>) or expire by time \<open>T\<close>: what is left of a change of the source
  that happened one time to live before \<open>T\<close>.
\<close>

definition settling :: "(string \<Rightarrow> 'v \<Rightarrow> bool) \<Rightarrow> int \<Rightarrow> ('v, 'a) cache_env_scheme \<Rightarrow> bool" where
  "settling P T w \<longleftrightarrow> distinct (map fst (items w)) \<and> (\<forall>k it. (k, it) \<in> set (items w) \<longrightarrow>
     (case ciValue it of Plain s \<Rightarrow> True | Json v \<Rightarrow> P k v \<or> 0 < ciExpiration it \<and> ciExpiration it \<le> T))"

lemma settling_fewer: "settling P T w \<Longrightarrow> fewer (items w) (items w') \<Longrightarrow> settling P T w'"
  unfolding settling_def using fewer_facts(1,2) by blast

lemma settling_same: "settling P T w \<Longrightarrow> mem w' = mem w \<Longrightarrow> settling P T w'"
  by (simp add: settling_def)

lemma settling_update:
  assumes "settling P T w" "items w' = AList.update k it (items w)"
    "case ciValue it of Plain s \<Rightarrow> True | Json v \<Rightarrow> P k v \<or> 0 < ciExpiration it \<and> ciExpiration it \<le> T"
  shows "settling P T w'"
proof -
  have d: "distinct (map fst (items w'))" using assms(1,2) by (simp add: settling_def distinct_update)
  have "case ciValue it' of Plain s \<Rightarrow> True | Json v \<Rightarrow> P k' v \<or> 0 < ciExpiration it' \<and> ciExpiration it' \<le> T"
    if "(k', it') \<in> set (items w')" for k' it'
  proof -
    have "map_of (items w') k' = Some it'" using that d by (simp add: map_of_eq_Some_iff)
    then have "k' = k \<and> it' = it \<or> (k', it') \<in> set (items w)"
      using assms(2) by (auto simp: map_of_put split: if_splits dest: map_of_SomeD)
    with assms(1,3) show ?thesis unfolding settling_def by blast
  qed
  with d show ?thesis unfolding settling_def by blast
qed

lemma mem_Set_settling:
  assumes "settling P T w" "case Marshal v of Plain s \<Rightarrow> True | Json x \<Rightarrow> P key x"
  shows "settling P T (snd (mem_Set key v ttl w))"
proof -
  obtain r w' where s: "mem_Set key v ttl w = (r, w')" by fastforce
  then show ?thesis
  proof (cases rule: mem_Set_cases)
    case (stored t0 h t)
    show ?thesis unfolding s snd_conv
      by (rule settling_update [OF settling_fewer [OF assms(1) conjunct1 [OF make_room_fx]] stored(5)])
        (use assms(2) in \<open>auto split: cached_text.splits\<close>)
  qed (use assms s in simp)
qed

lemma mem_Get_settling:
  assumes "settling P T w" "mem_Get key w = (r, w')"
  shows "settling P T w' \<and> clock w \<le> clock w' \<and>
    (\<forall>v. r = Inr (Json v) \<longrightarrow> P key v \<or> clock w \<le> T)"
proof (cases r)
  case (Inl e)
  with mem_Get_fx [OF assms(2)] settling_fewer [OF assms(1), of w'] show ?thesis
    by (auto simp: same_limits_def)
next
  case (Inr t)
  from mem_Get_fx [OF assms(2)] Inr obtain it h a where g: "map_of (items w) key = Some it" "t = ciValue it"
    "ciExpiration it \<le> 0 \<or> clock w \<le> ciExpiration it" "clock w \<le> clock w'"
    "items w' = AList.update key (it\<lparr>ciHits := h, ciLastAccess := a\<rparr>) (items w)"
    by (auto simp: same_limits_def)
  have it: "case ciValue it of Plain s \<Rightarrow> True | Json v \<Rightarrow> P key v \<or> 0 < ciExpiration it \<and> ciExpiration it \<le> T"
    using map_of_SomeD [OF g(1)] assms(1) unfolding settling_def by blast
  then have "settling P T w'" by (intro settling_update [OF assms(1) g(5)]) (simp split: cached_text.splits)
  with it g Inr show ?thesis by (auto split: cached_text.splits)
qed

section \<open>The contract of a layer\<close>

text \<open>
  What a manager with one layer relies on: the state \<open>settled P T\<close> of the layer survives a \<open>Set\<close> of a
  right value and a \<open>Delete\<close>, and a value that \<open>Get\<close> answers is right, or it is still before \<open>T\<close>.
  (With two layers an old value of the second can move to the first and live on there.)
\<close>

locale cache_layer =
  fixes c :: "('w, 'v) Cache" and settled :: "(string \<Rightarrow> 'v \<Rightarrow> bool) \<Rightarrow> int \<Rightarrow> 'w \<Rightarrow> bool" and now :: "'w \<Rightarrow> int"
  assumes set_law: "settled P T w \<Longrightarrow> (case Marshal v of Plain s \<Rightarrow> True | Json x \<Rightarrow> P key x) \<Longrightarrow>
        settled P T (snd (cSet c key v ttl w))"
    and get_law: "settled P T w \<Longrightarrow> cGet c key w = (r, w') \<Longrightarrow>
        settled P T w' \<and> now w \<le> now w' \<and> (\<forall>v. r = Inr (Json v) \<longrightarrow> P key v \<or> now w \<le> T)"
    and delete_law: "settled P T w \<Longrightarrow> settled P T (snd (cDelete c key w))"
begin

abbreviation manager :: "int \<Rightarrow> ('w, 'v) cacheManager" where
  "manager l \<equiv> NewCacheManager (Some c) None l"

lemma manager_sel: "cmL1 (manager l) = Some c" "cmL2 (manager l) = None"
  by (simp_all add: NewCacheManager_def)

lemma try_l1_settled:
  assumes "settled P T w" "try_l1 (manager l) dec key w = (x, w1)"
  shows "settled P T w1 \<and> now w \<le> now w1 \<and>
    (\<forall>y. x = Done (Inr y) \<longrightarrow> (\<exists>v. dec v = Some y \<and> (P key v \<or> now w \<le> T)))"
proof -
  obtain r w' where g: "cGet c key w = (r, w')" by fastforce
  from get_law [OF assms(1) g] assms(2) g show ?thesis
    by (auto simp: try_l1_def read_text_def manager_sel split: sum.splits if_splits option.splits cached_text.splits)
qed

text \<open>One call of the manager: the answer comes from a fetch, from an item that is right, or before \<open>T\<close>.\<close>

lemma GetOrFetch_settled:
  assumes "settled P T w" "GetOrFetch rnd (manager l) enc dec key ttl fetch w = (r, w')"
    and fetch: "\<And>v v' x. fetch v = (x, v') \<Longrightarrow> settled P T v \<Longrightarrow> settled P T v' \<and> (\<forall>y. x = Inr (Some y) \<longrightarrow> P key (enc y))"
  shows "settled P T w' \<and> (\<forall>y. r = Inr y \<longrightarrow> (\<exists>v. dec v = Some y \<and> (P key v \<or> now w \<le> T)))"
proof -
  obtain x w1 where t: "try_l1 (manager l) dec key w = (x, w1)" by fastforce
  note s1 = try_l1_settled [OF assms(1) t]
  show ?thesis
  proof (cases x)
    case (Done y)
    with assms(2) t s1 show ?thesis by (simp add: GetOrFetch_def)
  next
    case Next
    obtain z w2 where z: "fetch w1 = (z, w2)" by fastforce
    note f = fetch [OF z conjunct1 [OF s1]]
    have missing: "settled P T (store_missing (manager l) key w2)"
      using set_law [of P T w2, where v = "VString nullSentinel" and key = key] f
      by (simp add: store_missing_def set_ignoring_def manager_sel)
    have found: "P key v \<Longrightarrow> store_found rnd (manager l) key v ttl w2 = (y, w3) \<Longrightarrow> settled P T w3 \<and> y = Inr ()" for v y w3
      using set_law [of P T w2, where v = "VRaw (Json v)" and key = key] f by (auto simp: store_found_def set_ignoring_def manager_sel)
    have l2: "try_l2 (manager l) dec key ttl w1 = (Next, w1)" by (simp add: try_l2_def manager_sel)
    show ?thesis
    proof (cases "\<exists>y u. z = Inr (Some y) \<and> dec (enc y) = Some u")
      case False
      with assms(2) t Next l2 z f missing show ?thesis
        by (auto simp: GetOrFetch_def split: sum.splits option.splits)
    next
      case True
      then obtain y u where y: "z = Inr (Some y)" "dec (enc y) = Some u" by blast
      obtain q w3 where q: "store_found rnd (manager l) key (enc y) ttl w2 = (q, w3)" by fastforce
      from found [OF _ q] f y(1) have "settled P T w3" "q = Inr ()" by simp_all
      with assms(2) t Next l2 z y q f show ?thesis by (auto simp: GetOrFetch_def)
    qed
  qed
qed

lemma Invalidate_settled:
  assumes "settled P T w"
  shows "settled P T (snd (Invalidate (manager l) key w))"
  using delete_law [OF assms, of key]
  by (auto simp: Invalidate_def delete_from_def manager_sel split: prod.splits sum.splits)

end

interpretation memory: cache_layer "memory_cache :: (('v, 'a) cache_env_scheme, 'v) Cache" settling clock
proof
  fix P T key and w w' :: "('v, 'a) cache_env_scheme" and r
  assume "settling P T w" "cGet memory_cache key w = (r, w')"
  then show "settling P T w' \<and> clock w \<le> clock w' \<and> (\<forall>v. r = Inr (Json v) \<longrightarrow> P key v \<or> clock w \<le> T)"
    using mem_Get_settling by simp
next
  fix P T key ttl and w :: "('v, 'a) cache_env_scheme" and v
  assume "settling P T w" "case Marshal v of Plain s \<Rightarrow> True | Json x \<Rightarrow> P key x"
  then show "settling P T (snd (cSet memory_cache key v ttl w))" using mem_Set_settling by simp
next
  fix P T key and w :: "('v, 'a) cache_env_scheme"
  assume "settling P T w"
  then show "settling P T (snd (cDelete memory_cache key w))"
    using settling_fewer [of P T w "put_items (AList.delete key (items w)) w"] by (simp add: mem_Delete_def fewer_delete)
qed

lemma Invalidate_memory:
  "Invalidate (memory_manager l) key w = (Inr (), put_items (AList.delete key (items w)) w)"
  by (simp add: Invalidate_def delete_from_def mem_Delete_def)

text \<open>Remembering that a record is missing has no effect: after a fetch that found nothing, the next
call for the key asks the source again, although the missing record was cached. \<open>Set\<close> stores the
marker with the quotes of its JSON form, and it is compared without them.\<close>
theorem negative_cache_never_hits:
  assumes "GetOrFetch rnd (memory_manager l) enc dec key ttl (\<lambda>v. (Inr None, v)) w = (r, w1)"
    and "map_of (maItems (mem w)) key = None"
  shows "r = Inl ErrRecordNotFound \<and>
    fst (GetOrFetch rnd' (memory_manager l) enc dec key ttl (\<lambda>v. (Inl e, v)) w1) = Inl e"
proof -
  have "mem_Get key w = (Inl ErrCacheMiss, w)" using assms(2) by (simp add: mem_Get_def)
  then have t: "try_l1 (memory_manager l) dec key w = (Next, w)" by (simp add: try_l1_def)
  let ?v = "VString nullSentinel"
  obtain u x where r: "r = Inl ErrRecordNotFound" and s: "mem_Set key ?v u w = (x, w1)"
    using assms(1) t by (auto simp: GetOrFetch_def store_missing_def set_ignoring_def) (metis surjective_pairing)
  have it: "map_of (items w1) key = None \<or> (\<exists>i. map_of (items w1) key = Some i \<and> ciValue i = Marshal ?v)"
    using s assms(2) by (cases rule: mem_Set_cases) (auto simp: map_of_put)
  obtain y w2 where g: "mem_Get key w1 = (y, w2)" by fastforce
  from mem_Get_fx [OF g] it have "(\<exists>e. y = Inl e) \<or> y = Inr (Marshal ?v)" by (cases y) auto
  then have "try_l1 (memory_manager l) dec key w1 = (Next, w2)"
    using g by (auto simp: try_l1_def nullSentinel_def read_text_def)
  with r show ?thesis by (simp add: GetOrFetch_def)
qed

section \<open>A concrete cache\<close>

definition sample_cache :: "(string \<times> string cacheItem) list \<Rightarrow> string cache_env" where
  "sample_cache xs = env.extend \<lparr>clock = 100, delays = [], uuids = [], faults = [], ctx_trace = None,
     ctx_corr = None, in_tx = False, tx_aborted = False, bus_log = []\<rparr>
     \<lparr>mem = (NewMemoryAdapter 1 (\<lambda>s. int (length s)) [])\<lparr>maItems := xs\<rparr>\<rparr>"

definition sample_item :: "string \<Rightarrow> int \<Rightarrow> string cacheItem" where
  "sample_item s ex = \<lparr>ciValue = Json s, ciExpiration = ex, ciHits = 3, ciLastAccess = 50\<rparr>"

lemma sample_cache_sel [simp]: "items (sample_cache xs) = xs" "maMaxItems (mem (sample_cache xs)) = 1"
    "clock (sample_cache xs) = 100"
  by (simp_all add: sample_cache_def NewMemoryAdapter_def env.defs)

theorem cache_bounded_witness:
  "let w' = snd (mem_Set ''k2'' (VValue ''b'') 0 (sample_cache [(''k1'', sample_item ''a'' 0)]))
   in length (maItems (mem w')) \<le> 1 \<and> maItems (mem w') \<noteq> []"
proof -
  let ?w = "sample_cache [(''k1'', sample_item ''a'' 0)]"
  obtain r w' where s: "mem_Set ''k2'' (VValue ''b'') 0 ?w = (r, w')" by fastforce
  have "cache_run ?w w'" by (rule cache_run.step [OF cache_run.stay cache_trans.intros(1) [OF s]]) simp
  moreover have "cache_ok ?w" by (simp add: cache_ok_def)
  ultimately have b: "int (length (maItems (mem w'))) \<le> maMaxItems (mem w')" using cache_bounded by blast
  have "maMaxItems (mem (snd (mem_Set ''k2'' (VValue ''b'') 0 ?w))) = 1 \<and>
      maItems (mem (snd (mem_Set ''k2'' (VValue ''b'') 0 ?w))) \<noteq> []" by code_simp
  with b s show ?thesis by simp
qed

theorem cache_get_after_set_witness:
  "\<exists>w1. mem_Set ''k2'' (VValue ''b'') 50 (sample_cache [(''k1'', sample_item ''a'' 0)]) = (Inr (), w1) \<and>
     fst (mem_Get ''k2'' w1) = Inr (Json ''b'')"
proof -
  let ?w = "sample_cache [(''k1'', sample_item ''a'' 0)]"
  obtain r w1 where s: "mem_Set ''k2'' (VValue ''b'') 50 ?w = (r, w1)" by fastforce
  have "fst (mem_Set ''k2'' (VValue ''b'') 50 ?w) = Inr ()" by code_simp
  with s have s': "mem_Set ''k2'' (VValue ''b'') 50 ?w = (Inr (), w1)" by simp
  obtain x w2 where g: "mem_Get ''k2'' w1 = (x, w2)" by fastforce
  have "clock (snd (mem_Get ''k2'' (snd (mem_Set ''k2'' (VValue ''b'') 50 ?w)))) = 100" by code_simp
  then have c: "clock w2 = 100" using s g by simp
  from cache_get_after_set [OF s' g] obtain t where "clock ?w \<le> t"
    "if (50::int) \<le> 0 \<or> clock w2 \<le> t + 50 then x = Inr (Marshal (VValue ''b''))
       else x = Inr (Marshal (VValue ''b'')) \<and> clock w1 \<le> t + 50 \<or> x = Inl ErrCacheMiss"
    unfolding sample_cache_sel by fastforce
  then have "x = Inr (Json ''b'')" using c by simp
  with s' g show ?thesis by (intro exI [of _ w1]) simp
qed

theorem negative_cache_never_hits_witness:
  "let w1 = snd (GetOrFetch 0 (memory_manager 0) id Some ''k'' 60 (\<lambda>v. (Inr None, v)) (sample_cache []))
   in maItems (mem w1) \<noteq> [] \<and>
     fst (GetOrFetch 0 (memory_manager 0) id Some ''k'' 60 (\<lambda>v. (Inl (DbError ''asked''), v)) w1) = Inl (DbError ''asked'')"
proof -
  let ?g = "GetOrFetch 0 (memory_manager 0) id Some ''k'' 60 (\<lambda>v. (Inr None, v)) (sample_cache [])"
  obtain r w1 where g: "?g = (r, w1)" by fastforce
  have "maItems (mem (snd ?g)) \<noteq> []" by code_simp
  moreover have "fst (GetOrFetch 0 (memory_manager 0) id Some ''k'' 60 (\<lambda>v. (Inl (DbError ''asked''), v)) w1) = Inl (DbError ''asked'')"
    using negative_cache_never_hits [OF g] by simp
  ultimately show ?thesis using g by (simp add: Let_def)
qed

end
