(* ===== verification/CatalogRules.thy ===== *)
theory CatalogRules
  imports CatalogPg CacheProps
begin

text \<open>
  Rules the proofs about the PostgreSQL catalog share: what a statement, a read and a transaction
  leave of the tables and of the cache, and a small concrete catalog.
\<close>

section \<open>Statements and reads\<close>

abbreviation cat_view :: "'a catalog_db_scheme \<Rightarrow> Category list" where
  "cat_view w \<equiv> categories_tbl w"

lemma catalog_same_more:
  "env.more w1 = env.more (w :: 'a catalog_db_scheme) \<Longrightarrow> mem w1 = mem w \<and> products_tbl w1 = products_tbl w \<and>
     variants_tbl w1 = variants_tbl w \<and> images_tbl w1 = images_tbl w \<and> categories_tbl w1 = categories_tbl w"
  by (cases w; cases w1) simp

lemma catalog_service_sel [simp]:
  "csRepo (catalog_service_pg dec l) = catalog_repo_pg dec"
  "csCache (catalog_service_pg dec l) = NewCacheManager (Some memory_cache) None l"
  by (simp_all add: catalog_service_pg_def)

lemma catalog_repo_sel [simp]:
  "crCreateProduct (catalog_repo_pg dec) = CreateProduct_pg dec"
  "crGetProductByID (catalog_repo_pg dec) = GetProductByID_pg"
  "crListProducts (catalog_repo_pg dec) = ListProducts_pg"
  "crUpdateProduct (catalog_repo_pg dec) = UpdateProduct_pg dec"
  "crDeleteProduct (catalog_repo_pg dec) = DeleteProduct_pg"
  "crGetProductByVariantID (catalog_repo_pg dec) = GetProductByVariantID_pg"
  "crUpdateVariantStock (catalog_repo_pg dec) = UpdateVariantStock_pg"
  "crCreateCategory (catalog_repo_pg dec) = CreateCategory_pg"
  "crGetCategoryByID (catalog_repo_pg dec) = GetCategoryByID_pg"
  "crListCategories (catalog_repo_pg dec) = ListCategories_pg"
  "crUpdateCategory (catalog_repo_pg dec) = UpdateCategory_pg"
  "crDeleteCategory (catalog_repo_pg dec) = DeleteCategory_pg"
  by (simp_all add: catalog_repo_pg_def)

lemma keeps_read_product: "keeps same_store (read_product r)"
  by (cases r) (auto simp: read_product_def intro!: keeps_same)

lemma keeps_reads:
  shows keeps_GetProductByID: "keeps same_store (GetProductByID_pg i)"
    and keeps_GetProductByVariantID: "keeps same_store (GetProductByVariantID_pg v)"
    and keeps_ListProducts: "keeps same_store (ListProducts_pg f)"
    and keeps_GetCategoryByID: "keeps same_store (GetCategoryByID_pg i)"
    and keeps_ListCategories: "keeps same_store ListCategories_pg"
proof -
  show "keeps same_store (GetProductByID_pg i)" "keeps same_store (GetProductByVariantID_pg v)"
    unfolding GetProductByID_pg_def GetProductByVariantID_pg_def by (intro keeps_same keeps_read_product)+
  show "keeps same_store (ListProducts_pg f)"
    unfolding ListProducts_pg_def by (auto intro!: keeps_same)
  show "keeps same_store (GetCategoryByID_pg i)" "keeps same_store ListCategories_pg"
    unfolding GetCategoryByID_pg_def ListCategories_pg_def
    by (rule keeps_sql_read, auto simp: same_store_def split: option.splits)+
qed

text \<open>A statement that reached the database saw the tables as they were; one that did not changed nothing.\<close>

definition same_tables :: "'a catalog_db_scheme \<Rightarrow> 'a catalog_db_scheme \<Rightarrow> bool" where
  "same_tables w w' \<longleftrightarrow> products_tbl w' = products_tbl w \<and> variants_tbl w' = variants_tbl w \<and>
     images_tbl w' = images_tbl w \<and> categories_tbl w' = categories_tbl w \<and> mem w' = mem w"

lemma same_tables_more: "env.more w1 = env.more w \<Longrightarrow> same_tables w w1"
  using catalog_same_more by (auto simp: same_tables_def)

lemma sql_cases:
  assumes "sql f w = (r, w')"
  obtains (reached) w1 where "same_tables w w1" "in_tx w1 = in_tx w" "f w1 = (r, w')"
  | (failed) m where "r = Inl (DbError m)" "same_tables w w'" "in_tx w' = in_tx w"
  using sql_fx [OF assms] same_tables_more unfolding same_store_def by blast

lemma reject_sel [simp]:
  "reject m w = (r, w') \<longleftrightarrow> r = Inl (DbError m) \<and> w' = db_reject w"
  "categories_tbl (db_reject w) = categories_tbl w" "products_tbl (db_reject w) = products_tbl w"
  "variants_tbl (db_reject w) = variants_tbl w" "images_tbl (db_reject w) = images_tbl w" "mem (db_reject w) = mem w"
  by (auto simp: reject_def db_reject_def)

section \<open>Transactions\<close>

lemma same_tables_refl [simp]: "same_tables w w"
  by (simp add: same_tables_def)

lemma same_tables_trans: "same_tables w w1 \<Longrightarrow> same_tables w1 w2 \<Longrightarrow> same_tables w w2"
  by (simp add: same_tables_def)

lemma same_tables_sym: "same_tables w w1 \<Longrightarrow> same_tables w1 w"
  by (simp add: same_tables_def)

lemma same_tables_db_call: "db_call w = (x, w1) \<Longrightarrow> same_tables w w1"
  by (auto simp: same_tables_def elim!: db_callE)

text \<open>A transaction that fails leaves the tables as they were; one that commits made its statements' changes.\<close>

lemma in_own_tx_cases:
  assumes "in_own_tx fn w = (r, w')"
  obtains (failed) e where "r = Inl e" "same_tables w w'"
  | (committed) x w1 w2 where "r = Inr x" "same_tables w w1" "fn w1 = (Inr x, w2)" "same_tables w2 w'"
proof (cases "in_tx w")
  case True
  with assms failed show thesis by (auto simp: in_own_tx_def)
next
  case False
  with assms have run: "RunInTx_pg fn w = (r, w')" by (simp add: in_own_tx_def)
  obtain y w1 where y: "db_call w = (y, w1)" by fastforce
  note s1 = same_tables_db_call [OF y]
  have s1': "same_tables w (w1\<lparr>in_tx := True\<rparr>)" using s1 by (simp add: same_tables_def)
  have undo: "same_tables w (rollback w1 v)" for v using s1 by (simp add: same_tables_def rollback_def)
  show thesis
  proof (cases y)
    case (Inl e)
    with run y False s1 failed show thesis by (auto simp: RunInTx_pg_def)
  next
    case (Inr u)
    obtain x w2 where x: "fn (w1\<lparr>in_tx := True\<rparr>) = (x, w2)" by fastforce
    obtain z w3 where z: "db_call w2 = (z, w3)" by fastforce
    have "same_tables w2 (w3\<lparr>in_tx := False\<rparr>)" using same_tables_db_call [OF z] by (simp add: same_tables_def)
    with run y False Inr x z undo s1' failed committed show thesis
      by (cases x; cases z) (auto simp: RunInTx_pg_def split: if_splits)
  qed
qed

section \<open>The cache changes only itself and the clock\<close>

definition outside :: "('v, 'a) cache_env_scheme \<Rightarrow> ('v, 'a) cache_env_scheme" where
  "outside w = w\<lparr>clock := 0, delays := [], mem := NewMemoryAdapter 0 (\<lambda>_. 0) []\<rparr>"

lemma outside_sel [simp]:
  "outside (put_items xs w) = outside w" "outside (w\<lparr>mem := a\<rparr>) = outside w" "in_tx (outside w) = in_tx w"
  by (simp_all add: outside_def put_items_def)

lemma outside_time: "time_now w = (t, w1) \<Longrightarrow> outside w1 = outside w"
  by (auto simp: outside_def elim!: time_nowE)

lemma outside_expired: "is_expired it w = (x, w1) \<Longrightarrow> outside w1 = outside w"
  by (auto simp: is_expired_def outside_time split: if_splits prod.splits)

lemma outside_drop [simp]: "outside (drop_expired ks w) = outside w"
proof (induction ks w rule: drop_expired.induct)
  case (2 k ks w)
  show ?case
  proof (cases "map_of (items w) k")
    case (Some it)
    obtain x w1 where x: "is_expired it w = (x, w1)" by fastforce
    from 2(2) [OF Some x [symmetric]] outside_expired [OF x] show ?thesis using Some x by simp
  qed (use 2 in simp)
qed simp

lemma outside_make_room [simp]: "outside (make_room w) = outside w"
  by (simp add: make_room_def evict_least_used_def Let_def split: prod.splits option.splits)

lemma outside_Set [simp]: "outside (snd (mem_Set k v t w)) = outside w"
  by (auto simp: mem_Set_def Let_def outside_time split: prod.splits dest: outside_time)

lemma outside_Get: "mem_Get k w = (r, w') \<Longrightarrow> outside w' = outside w"
  by (auto simp: mem_Get_def split: option.splits prod.splits bool.splits dest!: outside_time outside_expired)

text \<open>A function of the world the cache has no part in.\<close>

lemma outside_fun: "(\<And>w. f (outside w) = f w) \<Longrightarrow> outside w = outside w' \<Longrightarrow> f w = f w'"
  by metis

text \<open>What every cache operation and the fetch keep, a cached read keeps.\<close>

lemma keeps_GetOrFetch:
  assumes R: "transp R" "reflp R"
    and get: "\<And>k w r w'. mem_Get k w = (r, w') \<Longrightarrow> R w w'" and set: "\<And>k v t w. R w (snd (mem_Set k v t w))"
    and fetch: "keeps R fetch"
  shows "keeps R (GetOrFetch rnd (memory_manager l) enc dec key ttl fetch)"
  unfolding keeps_def
proof (intro allI impI)
  fix w x w'
  assume run: "GetOrFetch rnd (memory_manager l) enc dec key ttl fetch w = (x, w')"
  obtain y w1 where y: "try_l1 (memory_manager l) dec key w = (y, w1)" by fastforce
  obtain g v where g: "mem_Get key w = (g, v)" by fastforce
  have "R w w1" using y g get [OF g]
    by (auto simp: try_l1_def split: sum.splits if_splits option.splits)
  moreover have "R w1 w'" if "y = Next"
  proof -
    obtain z w2 where z: "fetch w1 = (z, w2)" by fastforce
    have "R w1 w2" using keepsD [OF fetch z] .
    moreover have "R w2 w'"
      using run y z that R(2) set
      by (auto simp: GetOrFetch_def store_missing_def set_ignoring_def reflpD split: sum.splits option.splits if_splits)
    ultimately show ?thesis using R(1) by (blast dest: transpD)
  qed
  moreover have "w' = w1" if "y \<noteq> Next" using run y that by (cases y) (auto simp: GetOrFetch_def)
  ultimately show "R w w'" using R(1) by (blast dest: transpD)
qed

lemma mem_Set_clock: "clock w \<le> clock (snd (mem_Set k v t w))"
proof -
  obtain r w' where s: "mem_Set k v t w = (r, w')" by fastforce
  then show ?thesis by (cases rule: mem_Set_cases) (use s in auto)
qed

lemma mem_Get_clock: "mem_Get k w = (r, w') \<Longrightarrow> clock w \<le> clock w'"
  by (auto dest: mem_Get_fx simp: same_limits_def)

section \<open>A concrete catalog\<close>

definition sample_catalog :: "dbProduct list \<Rightarrow> (string \<times> Variant) list \<Rightarrow> (string \<times> ProductImage) list \<Rightarrow>
    Category list \<Rightarrow> catalog_db" where
  "sample_catalog ps vs imgs cs = \<lparr>clock = 100, delays = [], uuids = [], faults = [], ctx_trace = None,
     ctx_corr = None, in_tx = False, tx_aborted = False, bus_log = [], mem = NewMemoryAdapter 100 (\<lambda>_. 1) [],
     products_tbl = ps, variants_tbl = vs, images_tbl = imgs, categories_tbl = cs\<rparr>"

definition sample_category :: "string \<Rightarrow> string option \<Rightarrow> Category" where
  "sample_category i p = \<lparr>catID = i, catName = ''c'' @ i, catSlug = ''c'' @ i, catParentID = p,
     catCreatedAt = 0, catUpdatedAt = 0\<rparr>"

definition sample_product :: "string \<Rightarrow> string \<Rightarrow> int \<Rightarrow> dbProduct" where
  "sample_product i c v = \<lparr>dpID = i, dpName = ''p'' @ i, dpDescription = None, dpCategoryID = Some c,
     dpVersion = v, dpDiscountType = None, dpDiscountValue = None, dpCreatedAt = 0, dpUpdatedAt = 0\<rparr>"

definition sample_variant :: "string \<Rightarrow> f64 \<Rightarrow> int \<Rightarrow> Variant" where
  "sample_variant i p n = \<lparr>varID = i, varSKU = ''s'' @ i, varName = ''v'' @ i, varPrice = p, varStock = n,
     varAttributes = []\<rparr>"

end
