(* ===== verification/CartProps.thy ===== *)
theory CartProps
  imports CartPg CatalogRules
begin

text \<open>
  Properties of carts: what the service relies on (\<open>cart_store\<close>), the limits every cart keeps, what
  an operation does to the quantities, and what a merge does to both carts.
\<close>

section \<open>Carts as quantities\<close>

type_synonym basket = "string \<rightharpoonup> int"

definition quantities :: "CartItem list \<Rightarrow> basket" where
  "quantities its = map_of (map (\<lambda>it. (clVariantID it, clQuantity it)) its)"

definition line_ok :: "CartItem \<Rightarrow> bool" where
  "line_ok it \<longleftrightarrow> clVariantID it \<noteq> [] \<and> 1 \<le> clQuantity it \<and> clQuantity it \<le> 10"

definition lines_ok :: "CartItem list \<Rightarrow> bool" where
  "lines_ok its \<longleftrightarrow> length its \<le> 50 \<and> distinct (map clVariantID its) \<and> (\<forall>it\<in>set its. line_ok it)"

lemma lines_ok_Nil [simp]: "lines_ok []"
  by (simp add: lines_ok_def)

lemma line_index_None: "line_index v its = None \<longleftrightarrow> v \<notin> clVariantID ` set its"
  by (auto simp: line_index_def find_index_None)

lemma line_index_Some: "line_index v its = Some i \<Longrightarrow> i < length its \<and> clVariantID (its ! i) = v"
  unfolding line_index_def using find_index_Some by fastforce

lemma lines_ok_filter: "lines_ok its \<Longrightarrow> lines_ok (filter P its)"
  unfolding lines_ok_def by (auto simp: distinct_map inj_on_def intro: order_trans [OF length_filter_le])

lemma lines_ok_append:
  "lines_ok its \<Longrightarrow> line_ok it \<Longrightarrow> clVariantID it \<notin> clVariantID ` set its \<Longrightarrow> length its < 50 \<Longrightarrow> lines_ok (its @ [it])"
  by (auto simp: lines_ok_def)

lemma lines_ok_update:
  assumes "lines_ok its" "i < length its" "1 \<le> n" "n \<le> 10"
  shows "lines_ok (its[i := (its ! i)\<lparr>clQuantity := n\<rparr>])"
proof -
  have "map clVariantID (its[i := (its ! i)\<lparr>clQuantity := n\<rparr>]) = map clVariantID its"
    using assms(2) by (simp add: map_update list_update_same_conv)
  then show ?thesis using assms set_update_subset_insert [of its i "(its ! i)\<lparr>clQuantity := n\<rparr>"]
    unfolding lines_ok_def line_ok_def by auto
qed

lemma quantities_append:
  "clVariantID it \<notin> clVariantID ` set its \<Longrightarrow> quantities (its @ [it]) = (quantities its)(clVariantID it \<mapsto> clQuantity it)"
  by (induction its) (auto simp: quantities_def fun_upd_twist)

lemma quantities_update:
  assumes "i < length its" "line_index (clVariantID (its ! i)) its = Some i"
  shows "quantities (its[i := (its ! i)\<lparr>clQuantity := n\<rparr>]) = (quantities its)(clVariantID (its ! i) \<mapsto> n)"
proof -
  have first: "\<forall>j<i. clVariantID (its ! j) \<noteq> clVariantID (its ! i)"
    using find_index_Some [OF assms(2) [unfolded line_index_def]] by blast
  have "\<forall>j<k. clVariantID (xs ! j) \<noteq> clVariantID (xs ! k) \<Longrightarrow> k < length xs \<Longrightarrow>
      quantities (xs[k := (xs ! k)\<lparr>clQuantity := n\<rparr>]) = (quantities xs)(clVariantID (xs ! k) \<mapsto> n)" for xs k
  proof (induction xs arbitrary: k)
    case (Cons x xs)
    show ?case
    proof (cases k)
      case (Suc m)
      from Cons.prems Suc have "\<forall>j<m. clVariantID (xs ! j) \<noteq> clVariantID (xs ! m)" "m < length xs"
        "clVariantID x \<noteq> clVariantID (xs ! m)" by auto
      with Cons.IH [of m] Suc show ?thesis by (auto simp: quantities_def fun_upd_twist)
    qed (auto simp: quantities_def)
  qed simp
  with first assms(1) show ?thesis by blast
qed

lemma quantities_filter: "quantities (filter (\<lambda>it. clVariantID it \<noteq> v) its) = (quantities its)(v := None)"
  by (induction its) (auto simp: quantities_def)

lemma quantities_index:
  "line_index v its = Some i \<Longrightarrow> quantities its v = Some (clQuantity (its ! i))"
  unfolding quantities_def line_index_def
proof (induction its arbitrary: i)
  case (Cons x xs)
  then show ?case by (auto split: if_splits)
qed simp

lemma quantities_None: "quantities its v = None \<longleftrightarrow> v \<notin> clVariantID ` set its"
  by (auto simp: quantities_def map_of_eq_None_iff image_image)

text \<open>The carts by customer, as the services see them.\<close>

type_synonym shelves = "string \<rightharpoonup> Cart"

definition lines_in :: "shelves \<Rightarrow> string \<Rightarrow> CartItem list" where
  "lines_in m cid = (case m cid of None \<Rightarrow> [] | Some c \<Rightarrow> cartItems c)"

definition expired :: "shelves \<Rightarrow> string \<Rightarrow> int \<Rightarrow> bool" where
  "expired m cid t \<longleftrightarrow> (\<exists>c. m cid = Some c \<and> thirty_days < t - cartUpdatedAt c)"

definition only :: "string \<Rightarrow> shelves \<Rightarrow> shelves \<Rightarrow> bool" where
  "only cid m m1 \<longleftrightarrow> (\<forall>k. k \<noteq> cid \<longrightarrow> m1 k = m k)"

lemma only_simps [simp]: "only cid m m" "only cid m (m(cid := x))" "lines_in (m(cid := x)) cid = (case x of None \<Rightarrow> [] | Some c \<Rightarrow> cartItems c)"
  by (simp_all add: only_def lines_in_def)

lemma only_trans: "only cid m m1 \<Longrightarrow> only cid m1 m2 \<Longrightarrow> only cid m m2"
  by (simp add: only_def)

text \<open>Adding a line to a basket, and what a variant may end up with when a guest's basket is merged in.\<close>

definition added :: "basket \<Rightarrow> CartItem \<Rightarrow> int" where
  "added q it = clQuantity it + (case q (clVariantID it) of None \<Rightarrow> 0 | Some m \<Rightarrow> m)"

definition merged :: "basket \<Rightarrow> basket \<Rightarrow> string \<Rightarrow> int option \<Rightarrow> bool" where
  "merged q g v x \<longleftrightarrow> x = None \<or> x = q v \<or> x = g v \<or> (\<exists>m n. q v = Some m \<and> g v = Some n \<and> x = Some (m + n))"

lemma merged_None [simp]: "merged q g v None"
  by (simp add: merged_def)

lemma quantities_Nil [simp]: "quantities [] = Map.empty"
  by (simp add: quantities_def)

lemma quantities_item:
  assumes "distinct (map clVariantID its)" "it \<in> set its"
  shows "quantities its (clVariantID it) = Some (clQuantity it)"
  using assms unfolding quantities_def by (induction its) (auto simp: image_iff)

section \<open>What the cart service relies on\<close>

locale cart_store =
  fixes svc :: "('a env_scheme) cartService" and carts :: "'a env_scheme \<Rightarrow> shelves"
  assumes get_fx: "cartGet (cvRepo svc) cid w = (r, w1) \<Longrightarrow> carts w1 = carts w \<and> clock w \<le> clock w1 \<and>
        (case r of Inr c \<Rightarrow> carts w cid = Some c \<and> cartCustomerID c = cid
         | Inl e \<Rightarrow> errors_is e ErrCartNotFound \<longrightarrow> carts w cid = None)"
    and save_fx: "cartSave (cvRepo svc) c w = (u, w1) \<Longrightarrow> clock w \<le> clock w1 \<and>
        (if isl u then carts w1 = carts w
         else (\<exists>t. carts w1 = (carts w)(cartCustomerID c \<mapsto> c\<lparr>cartCreatedAt := t\<rparr>)))"
    and delete_fx: "cartDelete (cvRepo svc) cid w = (u, w1) \<Longrightarrow>
        carts w1 = (if isl u then carts w else (carts w)(cid := None)) \<and> clock w \<le> clock w1"
    and lookup_fx: "cvLookup svc v w = (p, w1) \<Longrightarrow> carts w1 = carts w \<and> clock w \<le> clock w1"
    and carts_stable: "env.more w1 = env.more w \<Longrightarrow> carts w1 = carts w"
begin

lemma time_carts: "time_now w = (t, w1) \<Longrightarrow> carts w1 = carts w \<and> t = clock w1 \<and> clock w \<le> clock w1"
  by (elim time_nowE) (auto intro: carts_stable)

text \<open>Reading a cart: its lines, or none when it has not been touched for 30 days.\<close>

lemma getRawCart_fx:
  assumes "getRawCart svc cid w = (r, w1)"
  shows "only cid (carts w) (carts w1) \<and> clock w \<le> clock w1 \<and> (isl r \<longrightarrow> carts w1 = carts w) \<and>
    (\<forall>c. r = Inr c \<longrightarrow> cartCustomerID c = cid \<and>
       (cartItems c = lines_in (carts w) cid \<and> carts w1 = carts w \<or>
        cartItems c = [] \<and> expired (carts w) cid (clock w1) \<and>
          lines_in (carts w1) cid \<in> {lines_in (carts w) cid, []}))"
proof -
  obtain g v where g: "cartGet (cvRepo svc) cid w = (g, v)" by fastforce
  note fx = get_fx [OF g]
  show ?thesis
  proof (cases g)
    case (Inl e)
    obtain t u where t: "time_now v = (t, u)" by fastforce
    show ?thesis using assms g Inl t fx time_carts [OF t]
      by (auto simp: getRawCart_def lines_in_def split: if_splits)
  next
    case (Inr c)
    obtain t u where t: "time_now v = (t, u)" by fastforce
    obtain t1 u1 where t1: "time_now u = (t1, u1)" by fastforce
    obtain t2 u2 where t2: "time_now u1 = (t2, u2)" by fastforce
    let ?c = "c\<lparr>cartItems := [], cartCreatedAt := t1, cartUpdatedAt := t2\<rparr>"
    obtain x u3 where x: "cartSave (cvRepo svc) ?c u2 = (x, u3)" by fastforce
    note tc = time_carts [OF t] time_carts [OF t1] time_carts [OF t2] and s = save_fx [OF x]
    show ?thesis
    proof (cases "cartUpdatedAt c = zero_time \<or> t - cartUpdatedAt c \<le> thirty_days")
      case True
      have "r = Inr c" "w1 = v \<or> w1 = u"
        using True assms g Inr t by (auto simp: getRawCart_def split: if_splits)
      with fx tc(1) Inr show ?thesis by (auto simp: lines_in_def)
    next
      case False
      then have r: "r = Inr ?c" "w1 = u3" using assms g Inr t t1 t2 x by (auto simp: getRawCart_def)
      have "carts u2 = carts w" using fx tc by simp
      then have "carts u3 = carts w \<or> (\<exists>t. carts u3 = (carts w)(cid \<mapsto> ?c\<lparr>cartCreatedAt := t\<rparr>))"
        using s fx Inr by (auto split: if_splits)
      then have "only cid (carts w) (carts u3)" "lines_in (carts u3) cid \<in> {lines_in (carts w) cid, []}" by auto
      moreover have "expired (carts w) cid (clock u3)"
        using False fx tc s Inr by (auto simp: expired_def intro!: exI [of _ c])
      ultimately show ?thesis using r fx Inr tc s by auto
    qed
  qed
qed

lemma enrich_lines_fx: "carts (snd (enrich_lines svc its is w)) = carts w \<and> clock w \<le> clock (snd (enrich_lines svc its is w))"
proof (induction "is" arbitrary: w)
  case (Cons i "is")
  obtain r v where r: "cvLookup svc (clVariantID (its ! i)) w = (r, v)" by fastforce
  with Cons.IH [of v] lookup_fx [OF r] show ?case by (simp add: split_beta)
qed simp

lemma enrichCart_fx: "enrichCart svc c w = (r, w1) \<Longrightarrow> carts w1 = carts w \<and> clock w \<le> clock w1 \<and> \<not> isl r"
  using enrich_lines_fx [of "cartItems c" "enrich_order svc (length (cartItems c))" w]
  by (auto simp: enrichCart_def Let_def split: prod.splits)

lemma store_cart_fx:
  assumes "store_cart svc c w = (r, w1)" "cartCustomerID c = cid"
  shows "only cid (carts w) (carts w1) \<and> clock w \<le> clock w1 \<and>
    (if isl r then carts w1 = carts w else lines_in (carts w1) cid = cartItems c)"
proof -
  obtain t u where t: "time_now w = (t, u)" by fastforce
  let ?c = "c\<lparr>cartUpdatedAt := t\<rparr>"
  obtain x v where x: "cartSave (cvRepo svc) ?c u = (x, v)" by fastforce
  obtain y z where y: "enrichCart svc ?c v = (y, z)" by fastforce
  note fx = time_carts [OF t] save_fx [OF x] enrichCart_fx [OF y]
  show ?thesis
  proof (cases x)
    case (Inl e)
    with assms t x have "isl r" "w1 = v" by (auto simp: store_cart_def bind_io_def on_error_def Let_def)
    with fx(1,2) Inl show ?thesis by simp
  next
    case (Inr q)
    with assms t x y have r: "r = y" "w1 = z" by (auto simp: store_cart_def bind_io_def on_error_def Let_def)
    from fx(2) Inr assms(2) obtain k where "carts v = (carts u)(cid \<mapsto> ?c\<lparr>cartCreatedAt := k\<rparr>)" by auto
    with fx r show ?thesis by simp
  qed
qed

lemma lookup_variant_fx: "lookup_variant svc v w = (r, w1) \<Longrightarrow> carts w1 = carts w \<and> clock w \<le> clock w1"
  by (auto simp: lookup_variant_def bind_io_def on_error_def split: prod.splits sum.splits option.splits dest: lookup_fx)

lemma check_stock_fx: "\<exists>e. check_stock v n x w = (if n \<le> varStock x then Inr () else Inl e, w)"
  by (auto simp: check_stock_def fail_io_def return_io_def)

text \<open>The cart an operation works on.\<close>

definition basis :: "'a env_scheme \<Rightarrow> string \<Rightarrow> 'a env_scheme \<Rightarrow> CartItem list \<Rightarrow> bool" where
  "basis w cid w1 its \<longleftrightarrow> its = lines_in (carts w) cid \<or> its = [] \<and> expired (carts w) cid (clock w1)"

lemma raw_cart_fx:
  assumes "raw_cart svc cid w = (r, w1)"
  shows "only cid (carts w) (carts w1) \<and> clock w \<le> clock w1 \<and> (isl r \<longrightarrow> carts w1 = carts w) \<and>
    (\<forall>c. r = Inr c \<longrightarrow> cartCustomerID c = cid \<and> basis w cid w1 (cartItems c) \<and> basis w cid w1 (lines_in (carts w1) cid))"
proof -
  obtain x where x: "getRawCart svc cid w = (x, w1)" "case x of Inl e \<Rightarrow> isl r | Inr c \<Rightarrow> r = Inr c"
    using assms by (auto simp: raw_cart_def on_error_def split: prod.splits sum.splits)
  note fx = getRawCart_fx [OF x(1)]
  show ?thesis
  proof (cases x)
    case (Inl e)
    with x(2) fx show ?thesis by (cases r) simp_all
  next
    case (Inr c)
    then have c: "r = Inr c" using x(2) by simp
    from fx Inr have "cartItems c = lines_in (carts w) cid \<and> carts w1 = carts w \<or>
        cartItems c = [] \<and> expired (carts w) cid (clock w1) \<and> lines_in (carts w1) cid \<in> {lines_in (carts w) cid, []}"
      by blast
    then have "basis w cid w1 (cartItems c) \<and> basis w cid w1 (lines_in (carts w1) cid)"
      by (elim disjE) (auto simp: basis_def)
    with fx Inr c show ?thesis by simp
  qed
qed

lemma basis_later: "basis w cid v its \<Longrightarrow> clock v \<le> clock w1 \<Longrightarrow> basis w cid w1 its"
  by (fastforce simp: basis_def expired_def)

text \<open>What an operation on one cart does: on an error the cart is as it was, or emptied by its expiry.\<close>

definition cart_effect :: "'a env_scheme \<Rightarrow> string \<Rightarrow> (err + 'r) \<Rightarrow> 'a env_scheme \<Rightarrow> (CartItem list \<Rightarrow> CartItem list \<Rightarrow> bool) \<Rightarrow> bool" where
  "cart_effect w cid r w1 Q \<longleftrightarrow> only cid (carts w) (carts w1) \<and> clock w \<le> clock w1 \<and>
     (if isl r then basis w cid w1 (lines_in (carts w1) cid)
      else (\<exists>its. basis w cid w1 its \<and> Q its (lines_in (carts w1) cid)))"

lemma effect_error:
  assumes "raw_cart svc cid w = (Inr c, v)" "clock v \<le> clock w1" "carts w1 = carts v"
  shows "cart_effect w cid (Inl e) w1 Q"
  using raw_cart_fx [OF assms(1)] assms(2,3) basis_later by (auto simp: cart_effect_def)

lemma effect_store:
  assumes "raw_cart svc cid w = (Inr c, v)" "clock v \<le> clock u" "carts u = carts v"
    "store_cart svc (c\<lparr>cartItems := its\<rparr>) u = (r, w1)" "Q (cartItems c) its"
  shows "cart_effect w cid r w1 Q"
proof -
  note raw = raw_cart_fx [OF assms(1)]
  have "cartCustomerID (c\<lparr>cartItems := its\<rparr>) = cid" using raw by simp
  note st = store_cart_fx [OF assms(4) this]
  have o: "only cid (carts w) (carts w1)" using raw st assms(3) only_trans by metis
  have b: "basis w cid w1 (cartItems c)" "basis w cid w1 (lines_in (carts v) cid)"
    using raw st assms(2) basis_later [of w cid v _ w1] by auto
  show ?thesis
  proof (cases "isl r")
    case True
    with st assms(2,3) raw o b show ?thesis by (simp add: cart_effect_def)
  next
    case False
    with st assms(2,5) raw o b show ?thesis by (auto simp: cart_effect_def)
  qed
qed

lemma effect_read_error:
  assumes "raw_cart svc cid w = (Inl e, v)"
  shows "cart_effect w cid (Inl e') v Q"
  using raw_cart_fx [OF assms] by (auto simp: cart_effect_def basis_def)

lemma effect_same:
  assumes "carts w1 = carts w" "clock w \<le> clock w1"
  shows "cart_effect w cid (Inl e) w1 Q" "cart_effect w1 cid r w2 Q \<Longrightarrow> cart_effect w cid r w2 Q"
  using assms by (auto simp: cart_effect_def basis_def)

lemma AddItem_fx:
  assumes "AddItem svc cid it w = (r, w1)"
  shows "cart_effect w cid r w1 (\<lambda>its its1. clVariantID it \<noteq> [] \<and> 0 < clQuantity it \<and>
    (case line_index (clVariantID it) its of
       None \<Rightarrow> its1 = its @ [it] \<and> length its < 50 \<and> clQuantity it \<le> 10
     | Some i \<Rightarrow> let n = wrap64 (clQuantity it + clQuantity (its ! i)) in
         n \<le> 10 \<and> its1 = its[i := (its ! i)\<lparr>clQuantity := n\<rparr>]))" (is "cart_effect w cid r w1 ?Q")
proof (cases "clVariantID it = [] \<or> clQuantity it \<le> 0")
  case True
  with assms obtain e where "r = Inl e" "w1 = w" by (auto simp: AddItem_def split: if_splits)
  then show ?thesis by (simp add: effect_same(1))
next
  case False
  obtain l u where l: "lookup_variant svc (clVariantID it) w = (l, u)" by fastforce
  note lfx = lookup_variant_fx [OF l]
  obtain c v where c: "raw_cart svc cid u = (c, v)" by fastforce
  show ?thesis
  proof (cases "isl l \<or> isl c")
    case True
    with assms False l c have "\<exists>e. r = Inl e \<and> (w1 = u \<or> w1 = v \<and> (\<exists>e'. c = Inl e'))"
      by (auto simp: AddItem_def bind_io_def isl_def split: sum.splits)
    with lfx effect_same effect_read_error c show ?thesis by blast
  next
    case ok: False
    then obtain x k where x: "l = Inr x" and k: "c = Inr k" by (cases l; cases c) auto
    let ?i = "line_index (clVariantID it) (cartItems k)"
    let ?n = "case ?i of None \<Rightarrow> clQuantity it | Some i \<Rightarrow> wrap64 (clQuantity it + clQuantity (cartItems k ! i))"
    obtain s t where s: "check_stock (clVariantID it) ?n x v = (s, t)" by fastforce
    have t: "t = v" using s by (auto simp: check_stock_def split: if_splits)
    have run: "(if 10 < ?n then fail_io limit_error else bind_io (check_stock (clVariantID it) ?n x) (\<lambda>_. case ?i of
          Some i \<Rightarrow> store_cart svc (k\<lparr>cartItems := (cartItems k)[i := (cartItems k ! i)\<lparr>clQuantity := ?n\<rparr>]\<rparr>)
        | None \<Rightarrow> if 50 \<le> length (cartItems k)
            then fail_io (NewBadRequest ''Cart cannot contain more than 50 unique items''
                (Some (ErrText ''unique items limit exceeded'')))
            else store_cart svc (k\<lparr>cartItems := cartItems k @ [it]\<rparr>))) v = (r, w1)"
      using assms False l x c k by (auto simp: AddItem_def bind_io_def Let_def)
    show ?thesis
    proof (cases "10 < ?n \<or> isl s \<or> ?i = None \<and> 50 \<le> length (cartItems k)")
      case True
      with run s t obtain e where "r = Inl e" "w1 = v"
        by (auto simp: bind_io_def isl_def fail_io_def split: sum.splits if_splits)
      with effect_error [OF c [unfolded k] order_refl refl] have "cart_effect u cid r w1 ?Q" by simp
      with lfx effect_same(2) show ?thesis by blast
    next
      case go: False
      note store = effect_store [OF c [unfolded k] order_refl refl]
      have "cart_effect u cid r w1 ?Q"
      proof (cases ?i)
        case None
        with run s t go have "store_cart svc (k\<lparr>cartItems := cartItems k @ [it]\<rparr>) v = (r, w1)"
          by (auto simp: bind_io_def split: sum.splits)
        from store [OF this] None go False show ?thesis by auto
      next
        case (Some i)
        with run s t go have "store_cart svc (k\<lparr>cartItems := (cartItems k)[i := (cartItems k ! i)\<lparr>clQuantity := ?n\<rparr>]\<rparr>) v = (r, w1)"
          by (auto simp: bind_io_def split: sum.splits)
        from store [OF this] Some go False show ?thesis by (auto simp: Let_def)
      qed
      with lfx effect_same(2) show ?thesis by blast
    qed
  qed
qed

lemma UpdateCartItem_fx:
  assumes "UpdateCartItem svc cid v n w = (r, w1)"
  shows "cart_effect w cid r w1 (\<lambda>its its1. 0 < n \<and> n \<le> 10 \<and>
    (\<exists>i. line_index v its = Some i \<and> its1 = its[i := (its ! i)\<lparr>clQuantity := n\<rparr>]))" (is "cart_effect w cid r w1 ?Q")
proof (cases "v = [] \<or> n \<le> 0 \<or> 10 < n")
  case True
  with assms obtain e where "r = Inl e" "w1 = w" by (auto simp: UpdateCartItem_def split: if_splits)
  then show ?thesis by (simp add: effect_same(1))
next
  case False
  obtain c u where c: "raw_cart svc cid w = (c, u)" by fastforce
  show ?thesis
  proof (cases c)
    case (Inl e)
    with assms False c have "r = Inl e \<and> w1 = u" by (auto simp: UpdateCartItem_def bind_io_def)
    with effect_read_error c Inl show ?thesis by blast
  next
    case k: (Inr k)
    obtain l t where l: "lookup_variant svc v u = (l, t)" by fastforce
    note lfx = lookup_variant_fx [OF l]
    have chk: "\<exists>e. check_stock v n x t = (if n \<le> varStock x then Inr () else Inl e, t)" for x by (rule check_stock_fx)
    show ?thesis
    proof (cases "\<exists>i x. line_index v (cartItems k) = Some i \<and> l = Inr x \<and> n \<le> varStock x")
      case True
      then obtain i x where i: "line_index v (cartItems k) = Some i" "l = Inr x" "n \<le> varStock x" by blast
      with assms False c k l have "store_cart svc (k\<lparr>cartItems := (cartItems k)[i := (cartItems k ! i)\<lparr>clQuantity := n\<rparr>]\<rparr>) t = (r, w1)"
        by (simp add: UpdateCartItem_def bind_io_def check_stock_def return_io_def)
      from effect_store [OF c [unfolded k] _ _ this] lfx i False show ?thesis by auto
    next
      case no: False
      have "\<exists>e. r = Inl e \<and> (w1 = u \<or> w1 = t)"
      proof (cases "line_index v (cartItems k)")
        case None
        with assms False c k show ?thesis by (auto simp: UpdateCartItem_def bind_io_def fail_io_def)
      next
        case (Some i)
        show ?thesis
        proof (cases l)
          case (Inl e)
          with assms False c k l Some show ?thesis by (auto simp: UpdateCartItem_def bind_io_def)
        next
          case (Inr x)
          with no Some have "\<not> n \<le> varStock x" by simp
          with chk [of x] obtain e where "check_stock v n x t = (Inl e, t)" by auto
          with assms False c k l Some Inr show ?thesis by (auto simp: UpdateCartItem_def bind_io_def)
        qed
      qed
      with effect_error [OF c [unfolded k]] lfx show ?thesis by auto
    qed
  qed
qed

lemma RemoveItem_fx:
  assumes "RemoveItem svc cid v w = (r, w1)"
  shows "cart_effect w cid r w1 (\<lambda>its its1. its1 = filter (\<lambda>it. clVariantID it \<noteq> v) its \<or>
    v \<notin> clVariantID ` set its \<and> basis w cid w1 its1)" (is "cart_effect w cid r w1 ?Q")
proof (cases "v = []")
  case True
  with assms obtain e where "r = Inl e" "w1 = w" by (auto simp: RemoveItem_def)
  then show ?thesis by (simp add: effect_same(1))
next
  case False
  obtain c u where c: "raw_cart svc cid w = (c, u)" by fastforce
  note raw = raw_cart_fx [OF c]
  show ?thesis
  proof (cases c)
    case (Inl e)
    with assms False c have "r = Inl e \<and> w1 = u" by (auto simp: RemoveItem_def bind_io_def)
    with effect_read_error c Inl show ?thesis by blast
  next
    case k: (Inr k)
    let ?kept = "filter (\<lambda>it. clVariantID it \<noteq> v) (cartItems k)"
    show ?thesis
    proof (cases "length ?kept = length (cartItems k)")
      case True
      with assms False c k have e: "enrichCart svc k u = (r, w1)" by (simp add: RemoveItem_def bind_io_def)
      have "v \<notin> clVariantID ` set (cartItems k)"
        using True length_filter_less [of _ "cartItems k" "\<lambda>it. clVariantID it \<noteq> v"] by fastforce
      moreover note fx = enrichCart_fx [OF e]
      moreover have "basis w cid w1 (cartItems k)" "basis w cid w1 (lines_in (carts u) cid)"
        using raw k fx basis_later by auto
      ultimately show ?thesis using raw k by (auto simp: cart_effect_def)
    next
      case less: False
      with assms False c k have "store_cart svc (k\<lparr>cartItems := ?kept\<rparr>) u = (r, w1)"
        by (simp add: RemoveItem_def bind_io_def Let_def)
      from effect_store [OF c [unfolded k] order_refl refl this] show ?thesis by simp
    qed
  qed
qed

lemma raw_reads:
  assumes "getRawCart svc cid w = (r, v)" "carts w1 = carts v" "clock v \<le> clock w1"
  shows "only cid (carts w) (carts w1) \<and> clock w \<le> clock w1 \<and> basis w cid w1 (lines_in (carts w1) cid)"
proof -
  note fx = getRawCart_fx [OF assms(1)]
  have "basis w cid v (lines_in (carts v) cid)"
    using fx by (cases r) (auto simp: basis_def)
  with fx assms(2,3) basis_later [of w cid v _ w1] show ?thesis by auto
qed

lemma GetCart_fx:
  assumes "GetCart svc cid w = (r, w1)"
  shows "only cid (carts w) (carts w1) \<and> clock w \<le> clock w1 \<and> basis w cid w1 (lines_in (carts w1) cid)"
proof -
  obtain x v where x: "getRawCart svc cid w = (x, v)" by fastforce
  have "carts w1 = carts v \<and> clock v \<le> clock w1"
    using assms x enrichCart_fx by (cases x) (auto simp: GetCart_def bind_io_def)
  with raw_reads [OF x] show ?thesis by blast
qed

lemma AddItem_abs:
  assumes "AddItem svc cid it w = (r, w1)" "lines_ok (lines_in (carts w) cid)" "clQuantity it + 10 < 2 ^ 63"
  shows "only cid (carts w) (carts w1) \<and> clock w \<le> clock w1 \<and>
    (\<exists>q. (q = quantities (lines_in (carts w) cid) \<or> q = Map.empty \<and> expired (carts w) cid (clock w1)) \<and>
      quantities (lines_in (carts w1) cid) = (if isl r then q else q(clVariantID it \<mapsto> added q it)) \<and>
      (\<not> isl r \<longrightarrow> 0 < clQuantity it \<and> added q it \<le> 10))"
proof -
  note fx = AddItem_fx [OF assms(1)]
  show ?thesis
  proof (cases "isl r")
    case True
    with fx show ?thesis by (fastforce simp: cart_effect_def basis_def)
  next
    case False
    with fx obtain its where b: "basis w cid w1 its" and q: "0 < clQuantity it"
      "case line_index (clVariantID it) its of
         None \<Rightarrow> lines_in (carts w1) cid = its @ [it] \<and> length its < 50 \<and> clQuantity it \<le> 10
       | Some i \<Rightarrow> let n = wrap64 (clQuantity it + clQuantity (its ! i)) in
           n \<le> 10 \<and> lines_in (carts w1) cid = its[i := (its ! i)\<lparr>clQuantity := n\<rparr>]"
      by (auto simp: cart_effect_def)
    have ok: "lines_ok its" using b assms(2) by (auto simp: basis_def)
    have "quantities (lines_in (carts w1) cid) = (quantities its)(clVariantID it \<mapsto> added (quantities its) it) \<and>
        added (quantities its) it \<le> 10"
    proof (cases "line_index (clVariantID it) its")
      case None
      with q quantities_append quantities_None [of its "clVariantID it"] show ?thesis
        by (auto simp: added_def line_index_None)
    next
      case (Some i)
      then have i: "i < length its" "clVariantID (its ! i) = clVariantID it" using line_index_Some by blast+
      then have "line_ok (its ! i)" using ok by (simp add: lines_ok_def)
      then have "i64 (clQuantity it + clQuantity (its ! i))" using q(1) assms(3) by (auto simp: line_ok_def i64_def)
      with q Some i quantities_update [of i its] quantities_index [OF Some] show ?thesis
        by (auto simp: Let_def added_def)
    qed
    with b q(1) False fx show ?thesis by (fastforce simp: cart_effect_def basis_def)
  qed
qed

text \<open>The limits of one cart and the same of every cart.\<close>

definition carts_ok :: "'a env_scheme \<Rightarrow> bool" where
  "carts_ok w \<longleftrightarrow> (\<forall>cid. lines_ok (lines_in (carts w) cid))"

lemma carts_ok_only:
  "carts_ok w \<Longrightarrow> only cid (carts w) (carts w1) \<Longrightarrow> lines_ok (lines_in (carts w1) cid) \<Longrightarrow> carts_ok w1"
  unfolding carts_ok_def only_def lines_in_def by metis

lemma basis_ok: "carts_ok w \<Longrightarrow> basis w cid w1 its \<Longrightarrow> lines_ok its"
  by (auto simp: basis_def carts_ok_def)

lemma effect_ok:
  assumes "cart_effect w cid r w1 Q" "carts_ok w" "\<And>its its1. lines_ok its \<Longrightarrow> Q its its1 \<Longrightarrow> lines_ok its1"
  shows "carts_ok w1"
proof (rule carts_ok_only [OF assms(2)])
  show "only cid (carts w) (carts w1)" using assms(1) by (simp add: cart_effect_def)
  show "lines_ok (lines_in (carts w1) cid)"
  proof (cases "isl r")
    case True
    with assms(1) basis_ok [OF assms(2)] show ?thesis by (auto simp: cart_effect_def)
  next
    case False
    with assms(1) obtain its where "basis w cid w1 its" "Q its (lines_in (carts w1) cid)"
      by (auto simp: cart_effect_def)
    with basis_ok [OF assms(2)] assms(3) show ?thesis by blast
  qed
qed

lemma AddItem_ok:
  assumes "AddItem svc cid it w = (r, w1)" "carts_ok w" "clQuantity it + 10 < 2 ^ 63"
  shows "carts_ok w1"
proof (rule effect_ok [OF AddItem_fx [OF assms(1)] assms(2)])
  fix its its1
  assume ok: "lines_ok its" and q: "clVariantID it \<noteq> [] \<and> 0 < clQuantity it \<and>
    (case line_index (clVariantID it) its of
       None \<Rightarrow> its1 = its @ [it] \<and> length its < 50 \<and> clQuantity it \<le> 10
     | Some i \<Rightarrow> let n = wrap64 (clQuantity it + clQuantity (its ! i)) in
         n \<le> 10 \<and> its1 = its[i := (its ! i)\<lparr>clQuantity := n\<rparr>])"
  show "lines_ok its1"
  proof (cases "line_index (clVariantID it) its")
    case None
    with ok q show ?thesis by (auto simp: line_index_None line_ok_def intro!: lines_ok_append)
  next
    case (Some i)
    then have i: "i < length its" using line_index_Some by blast
    then have "line_ok (its ! i)" using ok by (simp add: lines_ok_def)
    then have "1 \<le> clQuantity it + clQuantity (its ! i)" "i64 (clQuantity it + clQuantity (its ! i))"
      using q assms(3) by (auto simp: line_ok_def i64_def)
    with q Some i ok show ?thesis by (auto simp: Let_def intro!: lines_ok_update)
  qed
qed

lemma UpdateCartItem_ok: "UpdateCartItem svc cid v n w = (r, w1) \<Longrightarrow> carts_ok w \<Longrightarrow> carts_ok w1"
  by (erule effect_ok [OF UpdateCartItem_fx]) (auto intro!: lines_ok_update dest: line_index_Some)

lemma RemoveItem_ok:
  assumes "RemoveItem svc cid v w = (r, w1)" "carts_ok w"
  shows "carts_ok w1"
  by (rule effect_ok [OF RemoveItem_fx [OF assms(1)] assms(2)])
    (use basis_ok [OF assms(2)] lines_ok_filter in blast)

lemma GetCart_ok: "GetCart svc cid w = (r, w1) \<Longrightarrow> carts_ok w \<Longrightarrow> carts_ok w1"
  using GetCart_fx basis_ok carts_ok_only by blast

lemma delete_ok: "cartDelete (cvRepo svc) cid w = (u, w1) \<Longrightarrow> carts_ok w \<Longrightarrow> carts_ok w1"
  using delete_fx [of cid w u w1] by (auto simp: carts_ok_def lines_in_def split: if_splits)

lemma merge_items_ok:
  "carts_ok w \<Longrightarrow> \<forall>it\<in>set its. line_ok it \<Longrightarrow> carts_ok (merge_items svc acct its w)"
proof (induction its arbitrary: w)
  case (Cons it its)
  obtain r w1 where a: "AddItem svc acct it w = (r, w1)" by fastforce
  have "carts_ok w1" using AddItem_ok [OF a] Cons.prems by (auto simp: line_ok_def)
  with Cons a show ?case by simp
qed simp

lemma Merge_ok:
  assumes "MergeGuestCartWithAccount svc acct guest w = (r, w1)" "carts_ok w"
  shows "carts_ok w1"
proof -
  obtain g v where g: "cartGet (cvRepo svc) guest w = (g, v)" by fastforce
  note fx = get_fx [OF g]
  have v: "carts_ok v" using fx assms(2) by (simp add: carts_ok_def)
  show ?thesis
  proof (cases g)
    case (Inl e)
    with assms(1) g v GetCart_ok show ?thesis by (auto simp: MergeGuestCartWithAccount_def split: if_splits)
  next
    case (Inr c)
    have "lines_in (carts w) guest = cartItems c" using fx Inr by (simp add: lines_in_def)
    then have "\<forall>it\<in>set (cartItems c). line_ok it"
      using assms(2) unfolding carts_ok_def lines_ok_def by metis
    from merge_items_ok [OF v this] have "carts_ok (snd (cartDelete (cvRepo svc) guest (merge_items svc acct (cartItems c) v)))"
      using delete_ok prod.collapse by metis
    with assms(1) g Inr GetCart_ok show ?thesis by (auto simp: MergeGuestCartWithAccount_def)
  qed
qed

text \<open>Every variant ends up with its old quantity, the guest's, both together, or (expired) none.\<close>

lemma merge_items_merged:
  assumes "carts_ok w" "\<forall>it\<in>set its. line_ok it" "distinct (map clVariantID its)"
    "\<forall>it\<in>set its. g (clVariantID it) = Some (clQuantity it)"
    "\<forall>v. merged q g v (quantities (lines_in (carts w) acct) v)"
    "\<forall>it\<in>set its. quantities (lines_in (carts w) acct) (clVariantID it) \<in> {None, q (clVariantID it)}"
  shows "(\<forall>v. merged q g v (quantities (lines_in (carts (merge_items svc acct its w)) acct) v)) \<and>
    only acct (carts w) (carts (merge_items svc acct its w))"
  using assms
proof (induction its arbitrary: w)
  case (Cons it its)
  obtain r w1 where a: "AddItem svc acct it w = (r, w1)" by fastforce
  have small: "clQuantity it + 10 < 2 ^ 63" using Cons.prems(2) by (auto simp: line_ok_def)
  have ok1: "carts_ok w1" using AddItem_ok [OF a Cons.prems(1) small] .
  have "lines_ok (lines_in (carts w) acct)" using Cons.prems(1) by (simp add: carts_ok_def)
  from AddItem_abs [OF a this small] obtain p where p: "only acct (carts w) (carts w1)"
    "p = quantities (lines_in (carts w) acct) \<or> p = Map.empty"
    "quantities (lines_in (carts w1) acct) = (if isl r then p else p(clVariantID it \<mapsto> added p it))" by blast
  have pm: "merged q g v (p v)" for v using p(2) Cons.prems(5) by auto
  have "p (clVariantID it) \<in> {None, q (clVariantID it)}" using p(2) Cons.prems(6) by auto
  then have new: "merged q g (clVariantID it) (Some (added p it))"
    using Cons.prems(4) by (cases "q (clVariantID it)") (auto simp: merged_def added_def)
  have m: "\<forall>v. merged q g v (quantities (lines_in (carts w1) acct) v)"
    using p(3) pm new by auto
  have "\<forall>x\<in>set its. quantities (lines_in (carts w1) acct) (clVariantID x) \<in> {None, q (clVariantID x)}"
  proof
    fix x assume x: "x \<in> set its"
    then have "clVariantID x \<noteq> clVariantID it" using Cons.prems(3) by (metis distinct.simps(2) list.simps(9) imageI list.set_map)
    with x p(2,3) Cons.prems(6) show "quantities (lines_in (carts w1) acct) (clVariantID x) \<in> {None, q (clVariantID x)}"
      by auto
  qed
  with Cons.IH [OF ok1 _ _ _ m] Cons.prems(2-4)
  have "(\<forall>v. merged q g v (quantities (lines_in (carts (merge_items svc acct its w1)) acct) v)) \<and>
      only acct (carts w1) (carts (merge_items svc acct its w1))" by simp
  with a p(1) only_trans show ?case by auto
qed simp

lemma Merge_merged:
  assumes "MergeGuestCartWithAccount svc acct guest w = (Inr resp, w1)" "carts_ok w" "acct \<noteq> guest"
  shows "\<forall>v. merged (quantities (lines_in (carts w) acct)) (quantities (lines_in (carts w) guest)) v
      (quantities (lines_in (carts w1) acct) v)" (is "\<forall>v. merged ?q ?g v _")
    and "\<forall>k. k \<noteq> acct \<and> k \<noteq> guest \<longrightarrow> carts w1 k = carts w k"
proof -
  obtain g v where g: "cartGet (cvRepo svc) guest w = (g, v)" by fastforce
  note fx = get_fx [OF g]
  have read: "(\<forall>x. merged ?q ?g x (quantities (lines_in (carts w1) acct) x)) \<and> only acct (carts u) (carts w1)"
    if "GetCart svc acct u = (Inr resp, w1)" "\<forall>x. merged ?q ?g x (quantities (lines_in (carts u) acct) x)" for u
    using GetCart_fx [OF that(1)] that(2) by (auto simp: basis_def)
  have "(\<forall>x. merged ?q ?g x (quantities (lines_in (carts w1) acct) x)) \<and>
      (\<forall>k. k \<noteq> acct \<and> k \<noteq> guest \<longrightarrow> carts w1 k = carts w k)"
  proof (cases g)
    case (Inl e)
    with assms(1) g have "GetCart svc acct v = (Inr resp, w1)"
      by (auto simp: MergeGuestCartWithAccount_def split: if_splits)
    from read [OF this] fx show ?thesis by (auto simp: merged_def only_def)
  next
    case (Inr c)
    have lines: "lines_in (carts w) guest = cartItems c" using fx Inr by (simp add: lines_in_def)
    have v: "carts_ok v" "carts v = carts w" using fx assms(2) by (simp_all add: carts_ok_def)
    have ok: "lines_ok (cartItems c)" using assms(2) lines unfolding carts_ok_def by metis
    let ?u = "merge_items svc acct (cartItems c) v"
    obtain d u1 where d: "cartDelete (cvRepo svc) guest ?u = (d, u1)" by fastforce
    have items: "(\<forall>x. merged ?q ?g x (quantities (lines_in (carts ?u) acct) x)) \<and> only acct (carts v) (carts ?u)"
      by (rule merge_items_merged [OF v(1)])
        (use ok v(2) lines quantities_item in \<open>auto simp: lines_ok_def merged_def\<close>)
    have del: "carts u1 = carts ?u \<or> carts u1 = (carts ?u)(guest := None)"
      using delete_fx [OF d] by (simp split: if_splits)
    then have "lines_in (carts u1) acct = lines_in (carts ?u) acct" using assms(3) by (auto simp: lines_in_def)
    moreover have "GetCart svc acct u1 = (Inr resp, w1)"
      using assms(1) g Inr d by (simp add: MergeGuestCartWithAccount_def)
    ultimately show ?thesis using read [of u1] items del v(2) by (auto simp: only_def)
  qed
  then show "\<forall>v. merged ?q ?g v (quantities (lines_in (carts w1) acct) v)"
    "\<forall>k. k \<noteq> acct \<and> k \<noteq> guest \<longrightarrow> carts w1 k = carts w k" by blast+
qed

end

text \<open>The same when no call fails: \<open>calm\<close> is a condition of the world that every call keeps.\<close>

locale calm_cart_store = cart_store svc carts for svc carts +
  fixes calm :: "'a env_scheme \<Rightarrow> bool"
  assumes calm_get: "calm w \<Longrightarrow> calm (snd (cartGet (cvRepo svc) cid w))"
    and calm_save: "calm w \<Longrightarrow> calm (snd (cartSave (cvRepo svc) c w))"
    and calm_delete: "calm w \<Longrightarrow> cartDelete (cvRepo svc) cid w = (d, w1) \<Longrightarrow> d = Inr () \<and> calm w1"
    and calm_lookup: "calm w \<Longrightarrow> calm (snd (cvLookup svc v w))"
    and calm_time: "calm w \<Longrightarrow> time_now w = (t, w1) \<Longrightarrow> calm w1"
begin

abbreviation kept :: "('a env_scheme, 'b) io \<Rightarrow> bool" where
  "kept \<equiv> keeps (\<lambda>w w1. calm w \<longrightarrow> calm w1)"

lemma calm_rel: "transp (\<lambda>w w1. calm w \<longrightarrow> calm w1)" "reflp (\<lambda>w w1. calm w \<longrightarrow> calm w1)"
  by (auto simp: transp_def reflp_def)

lemma kept_snd: "kept m \<longleftrightarrow> (\<forall>w. calm w \<longrightarrow> calm (snd (m w)))"
  unfolding keeps_def by (metis prod.collapse snd_conv)

lemmas kept_intros = keeps_bind [OF calm_rel(1)] keeps_pure [OF calm_rel(2)] keeps_on_error

lemma kept_raw: "kept (getRawCart svc cid)"
proof -
  have "calm (snd (getRawCart svc cid w))" if w: "calm w" for w
  proof -
    obtain g v where g: "cartGet (cvRepo svc) cid w = (g, v)" by fastforce
    have v: "calm v" using calm_get [OF w, of cid] g by simp
    show ?thesis using g v
      by (auto simp: getRawCart_def Let_def split: sum.splits prod.splits intro!: calm_save) (meson calm_time)+
  qed
  then show ?thesis by (simp add: kept_snd)
qed

lemma kept_lookup: "kept (cvLookup svc v)"
  by (simp add: kept_snd calm_lookup)

lemma calm_lines: "calm w \<Longrightarrow> calm (snd (enrich_lines svc its is w))"
proof (induction "is" arbitrary: w)
  case (Cons i "is")
  then show ?case using calm_lookup [OF Cons.prems, of "clVariantID (its ! i)"] by (simp add: split_beta)
qed simp

lemma kept_enrich: "kept (enrichCart svc c)"
  by (simp add: kept_snd enrichCart_def Let_def split_beta calm_lines)

lemma kept_store: "kept (store_cart svc c)"
proof -
  have "kept (bind_io (on_error f (cartSave (cvRepo svc) c1)) (\<lambda>_. enrichCart svc c1))" for f c1
    by (intro kept_intros kept_enrich) (simp add: kept_snd calm_save)
  then show ?thesis unfolding keeps_def store_cart_def Let_def by (auto split: prod.splits dest: calm_time)
qed

lemma kept_AddItem: "kept (AddItem svc cid it)"
  unfolding AddItem_def lookup_variant_def raw_cart_def check_stock_def Let_def
  by (auto intro!: kept_intros kept_raw kept_lookup kept_store split: option.splits)

lemma calm_merge_items: "calm w \<Longrightarrow> calm (merge_items svc acct its w)"
  by (induction its arbitrary: w) (use kept_AddItem in \<open>auto simp: kept_snd\<close>)

lemma Merge_takes_guest:
  assumes "calm w" "MergeGuestCartWithAccount svc acct guest w = (Inr resp, w1)"
  shows "carts w1 guest = None \<and> (acct = guest \<longrightarrow> cpItems resp = [])"
proof -
  have read: "carts w1 guest = None \<and> (acct = guest \<longrightarrow> cpItems resp = [])"
    if run: "GetCart svc acct u = (Inr resp, w1)" and none: "carts u guest = None" for u
  proof (cases "acct = guest")
    case True
    from run obtain c v where c: "getRawCart svc acct u = (Inr c, v)" "enrichCart svc c v = (Inr resp, w1)"
      by (auto simp: GetCart_def bind_io_Inr)
    note raw = getRawCart_fx [OF c(1)]
    have "\<not> expired (carts u) acct t" for t using none True by (simp add: expired_def)
    then have "cartItems c = []" "carts v = carts u" using raw none True by (auto simp: lines_in_def)
    with c(2) enrichCart_fx [OF c(2)] none show ?thesis
      by (auto simp: enrichCart_def enrich_order_def Let_def List.map_filter_def split: prod.splits)
  next
    case False
    with GetCart_fx [OF run] none show ?thesis by (auto simp: only_def)
  qed
  obtain g v where g: "cartGet (cvRepo svc) guest w = (g, v)" by fastforce
  note fx = get_fx [OF g]
  show ?thesis
  proof (cases g)
    case (Inl e)
    with assms(2) g have "errors_is e ErrCartNotFound" "GetCart svc acct v = (Inr resp, w1)"
      by (auto simp: MergeGuestCartWithAccount_def split: if_splits)
    with fx Inl read show ?thesis by auto
  next
    case (Inr c)
    obtain d u where d: "cartDelete (cvRepo svc) guest (merge_items svc acct (cartItems c) v) = (d, u)" by fastforce
    have "calm v" using calm_get [OF assms(1), of guest] g by simp
    from calm_delete [OF calm_merge_items [OF this] d] delete_fx [OF d] have "carts u guest = None" by simp
    with assms(2) g d Inr read [of u] show ?thesis by (simp add: MergeGuestCartWithAccount_def)
  qed
qed

end

section \<open>Runs of cart requests\<close>

datatype cart_op =
    AddOp string CartItem
  | UpdateOp string string int
  | RemoveOp string string
  | ClearOp string
  | MergeOp string string
  | ViewOp string
  | CountOp string

definition cart_step :: "('a env_scheme) cartService \<Rightarrow> cart_op \<Rightarrow> 'a env_scheme \<Rightarrow> 'a env_scheme" where
  "cart_step svc op w = (case op of
       AddOp cid it \<Rightarrow> snd (AddItem svc cid it w)
     | UpdateOp cid v n \<Rightarrow> snd (UpdateCartItem svc cid v n w)
     | RemoveOp cid v \<Rightarrow> snd (RemoveItem svc cid v w)
     | ClearOp cid \<Rightarrow> snd (ClearCart svc cid w)
     | MergeOp acct guest \<Rightarrow> snd (MergeGuestCartWithAccount svc acct guest w)
     | ViewOp cid \<Rightarrow> snd (GetCart svc cid w)
     | CountOp cid \<Rightarrow> snd (CartCountDetailed svc cid w))"

text \<open>The quantities of a request are far below the largest \<open>int\<close>.\<close>

definition small_op :: "cart_op \<Rightarrow> bool" where
  "small_op op \<longleftrightarrow> (case op of AddOp cid it \<Rightarrow> clQuantity it + 10 < 2 ^ 63 | _ \<Rightarrow> True)"

context cart_store
begin

lemma cart_step_ok:
  assumes "carts_ok w" "small_op op"
  shows "carts_ok (cart_step svc op w)"
proof (cases op)
  case (AddOp cid it)
  with assms AddItem_ok [OF surjective_pairing assms(1)] show ?thesis by (simp add: cart_step_def small_op_def)
next
  case (UpdateOp cid v n)
  with UpdateCartItem_ok [OF surjective_pairing assms(1)] show ?thesis by (simp add: cart_step_def)
next
  case (RemoveOp cid v)
  with RemoveItem_ok [OF surjective_pairing assms(1)] show ?thesis by (simp add: cart_step_def)
next
  case (ClearOp cid)
  have "snd (ClearCart svc cid w) = snd (cartDelete (cvRepo svc) cid w)"
    by (simp add: ClearCart_def on_error_def split: prod.splits sum.splits)
  with ClearOp delete_ok [OF surjective_pairing assms(1)] show ?thesis by (simp add: cart_step_def)
next
  case (MergeOp acct guest)
  with Merge_ok [OF surjective_pairing assms(1)] show ?thesis by (simp add: cart_step_def)
next
  case (ViewOp cid)
  with GetCart_ok [OF surjective_pairing assms(1)] show ?thesis by (simp add: cart_step_def)
next
  case (CountOp cid)
  obtain r v where r: "getRawCart svc cid w = (r, v)" by fastforce
  then have "snd (CartCountDetailed svc cid w) = v"
    by (simp add: CartCountDetailed_def bind_io_def return_io_def split: sum.splits)
  moreover have "carts_ok v"
    using raw_reads [OF r refl order_refl] assms(1) basis_ok carts_ok_only by blast
  ultimately show ?thesis using CountOp by (simp add: cart_step_def)
qed

lemma cart_run_ok: "carts_ok w \<Longrightarrow> \<forall>op\<in>set ops. small_op op \<Longrightarrow> carts_ok (fold (cart_step svc) ops w)"
  by (induction ops arbitrary: w) (auto intro: cart_step_ok)

end

section \<open>Carts on PostgreSQL\<close>

definition carts_pg :: "'a cart_db_scheme \<Rightarrow> shelves" where
  "carts_pg w = row_of cartCustomerID (carts_tbl w)"

lemma cart_same_more: "env.more w1 = env.more (w :: 'a cart_db_scheme) \<Longrightarrow> carts_tbl w1 = carts_tbl w"
  by (cases w; cases w1) simp

lemma carts_same_store: "same_store w w1 \<Longrightarrow> carts_pg w1 = carts_pg w \<and> clock w1 = clock w"
  unfolding same_store_def carts_pg_def using cart_same_more by metis

lemma sql_carts:
  assumes "sql f w = (r, w')"
  obtains (reached) w1 where "carts_pg w1 = carts_pg w" "clock w1 = clock w" "f w1 = (r, w')"
  | (failed) m where "r = Inl (DbError m)" "carts_pg w' = carts_pg w" "clock w' = clock w"
  using sql_fx [OF assms] carts_same_store by blast

lemma carts_outside: "outside w' = outside w \<Longrightarrow> carts_pg w' = carts_pg (w :: 'a cart_db_scheme)"
proof -
  have "carts_tbl (outside w) = carts_tbl w" for w :: "'a cart_db_scheme" by (simp add: outside_def)
  then show "outside w' = outside w \<Longrightarrow> carts_pg w' = carts_pg w" unfolding carts_pg_def by metis
qed

lemma carts_Set: "carts_pg (snd (mem_Set k v t w)) = carts_pg w"
  by (rule carts_outside) simp

lemma carts_Get: "mem_Get k w = (r, w') \<Longrightarrow> carts_pg w' = carts_pg w"
  by (rule carts_outside) (rule outside_Get)

definition keeps_carts :: "'a cart_db_scheme \<Rightarrow> 'a cart_db_scheme \<Rightarrow> bool" where
  "keeps_carts w w' \<longleftrightarrow> carts_pg w' = carts_pg w \<and> clock w \<le> clock w'"

lemma keeps_carts_rel: "transp keeps_carts" "reflp keeps_carts"
  by (auto simp: keeps_carts_def transp_def reflp_def)

lemma lookup_keeps_carts: "keeps keeps_carts (GetProductByVariantID 0 (catalog_service_pg dec l) v)"
proof -
  have "keeps keeps_carts (GetProductByVariantID_pg v)"
    using keepsD [OF keeps_GetProductByVariantID] carts_same_store
    by (fastforce simp: keeps_def keeps_carts_def)
  then have f: "keeps keeps_carts (bind_io (GetProductByVariantID_pg v) (\<lambda>p. return_io (Some p)))"
    by (intro keeps_bind keeps_pure keeps_carts_rel)
  have "keeps keeps_carts (GetOrFetch 0 (memory_manager l) CProduct as_product (variant_key v) fifteen_min
      (bind_io (GetProductByVariantID_pg v) (\<lambda>p. return_io (Some p))))"
    by (rule keeps_GetOrFetch [OF keeps_carts_rel _ _ f])
      (auto simp: keeps_carts_def mem_Set_clock carts_Set carts_Get mem_Get_clock)
  then show ?thesis unfolding GetProductByVariantID_def cached_product_def memory_manager_def
    by (simp, intro keeps_on_error)
qed

lemma cart_service_sel [simp]:
  "cartGet (cvRepo (cart_service_pg dec l sched)) = cartGet_pg"
  "cartSave (cvRepo (cart_service_pg dec l sched)) = cartSave_pg"
  "cartDelete (cvRepo (cart_service_pg dec l sched)) = cartDelete_pg"
  "cvLookup (cart_service_pg dec l sched) = GetProductByVariantID 0 (catalog_service_pg dec l)"
  by (simp_all add: cart_service_pg_def cart_repo_pg_def)

lemma cartGet_fx:
  assumes "cartGet_pg cid w = (r, w')"
  shows "carts_pg w' = carts_pg w \<and> clock w' = clock w \<and> (case r of
     Inr c \<Rightarrow> carts_pg w cid = Some c \<and> cartCustomerID c = cid
   | Inl e \<Rightarrow> errors_is e ErrCartNotFound \<longrightarrow> carts_pg w cid = None)"
  using assms unfolding cartGet_pg_def
  by (cases rule: sql_carts) (auto simp: carts_pg_def ErrCartNotFound_def fun_eq_iff split: option.splits dest: row_of_Some)

lemma upsert_cart:
  fixes c :: Cart
  shows "row_of cartCustomerID (if cartCustomerID c \<in> cartCustomerID ` set cs
     then map (\<lambda>r. if cartCustomerID r = cartCustomerID c
            then r\<lparr>cartItems := cartItems c, cartUpdatedAt := cartUpdatedAt c\<rparr> else r) cs
     else cs @ [c]) = (row_of cartCustomerID cs)(cartCustomerID c \<mapsto> c\<lparr>cartCreatedAt :=
       (case row_of cartCustomerID cs (cartCustomerID c) of None \<Rightarrow> cartCreatedAt c | Some r \<Rightarrow> cartCreatedAt r)\<rparr>)"
proof (cases "row_of cartCustomerID cs (cartCustomerID c)")
  case None
  then have "cartCustomerID c \<notin> cartCustomerID ` set cs" by (simp add: row_of_None)
  with None show ?thesis using row_of_insert [of cartCustomerID cs c] by simp
next
  case (Some r)
  then have "r\<lparr>cartItems := cartItems c, cartUpdatedAt := cartUpdatedAt c\<rparr> = c\<lparr>cartCreatedAt := cartCreatedAt r\<rparr>"
    using row_of_Some [OF Some] by (cases r; cases c) simp
  with Some row_of_Some [OF Some] row_of_update [of cartCustomerID "cartCustomerID c"
      "\<lambda>r. r\<lparr>cartItems := cartItems c, cartUpdatedAt := cartUpdatedAt c\<rparr>" cs] show ?thesis
    by (auto simp: image_iff)
qed

lemma cartSave_fx:
  assumes "cartSave_pg c w = (r, w')"
  shows "clock w' = clock w \<and> (if isl r then carts_pg w' = carts_pg w
     else (\<exists>t. carts_pg w' = (carts_pg w)(cartCustomerID c \<mapsto> c\<lparr>cartCreatedAt := t\<rparr>)))"
  using assms unfolding cartSave_pg_def
proof (cases rule: sql_carts)
  case (reached w1)
  show ?thesis
  proof (cases "255 < length (cartCustomerID c)")
    case True
    with reached show ?thesis by (auto simp: db_reject_def carts_pg_def)
  next
    case False
    with reached(3) have "r = Inr ()" "clock w' = clock w1"
      "carts_pg w' = (carts_pg w1)(cartCustomerID c \<mapsto> c\<lparr>cartCreatedAt :=
       (case row_of cartCustomerID (carts_tbl w1) (cartCustomerID c) of None \<Rightarrow> cartCreatedAt c | Some r \<Rightarrow> cartCreatedAt r)\<rparr>)"
      unfolding carts_pg_def by (auto simp: upsert_cart)
    with reached(1,2) show ?thesis by auto
  qed
qed auto

lemma cartDelete_fx:
  assumes "cartDelete_pg cid w = (r, w')"
  shows "carts_pg w' = (if isl r then carts_pg w else (carts_pg w)(cid := None)) \<and> clock w' = clock w"
  using assms unfolding cartDelete_pg_def
  by (cases rule: sql_carts) (auto simp: carts_pg_def row_of_delete)

interpretation pg_carts: cart_store "cart_service_pg dec l sched :: ('a cart_db_scheme) cartService" carts_pg
proof (unfold_locales, unfold cart_service_sel)
  fix cid and w w1 :: "'a cart_db_scheme" and r
  assume "cartGet_pg cid w = (r, w1)"
  from cartGet_fx [OF this] show "carts_pg w1 = carts_pg w \<and> clock w \<le> clock w1 \<and>
      (case r of Inr c \<Rightarrow> carts_pg w cid = Some c \<and> cartCustomerID c = cid
       | Inl e \<Rightarrow> errors_is e ErrCartNotFound \<longrightarrow> carts_pg w cid = None)" by simp
next
  fix c u and w w1 :: "'a cart_db_scheme"
  assume "cartSave_pg c w = (u, w1)"
  from cartSave_fx [OF this] show "clock w \<le> clock w1 \<and> (if isl u then carts_pg w1 = carts_pg w
      else (\<exists>t. carts_pg w1 = (carts_pg w)(cartCustomerID c \<mapsto> c\<lparr>cartCreatedAt := t\<rparr>)))" by simp
next
  fix cid u and w w1 :: "'a cart_db_scheme"
  assume "cartDelete_pg cid w = (u, w1)"
  from cartDelete_fx [OF this] show
    "carts_pg w1 = (if isl u then carts_pg w else (carts_pg w)(cid := None)) \<and> clock w \<le> clock w1" by simp
next
  fix v p and w w1 :: "'a cart_db_scheme"
  assume "GetProductByVariantID 0 (catalog_service_pg dec l) v w = (p, w1)"
  from keepsD [OF lookup_keeps_carts this] show "carts_pg w1 = carts_pg w \<and> clock w \<le> clock w1"
    by (simp add: keeps_carts_def)
next
  fix w1 w :: "'a cart_db_scheme"
  assume "env.more w1 = env.more w"
  from cart_same_more [OF this] show "carts_pg w1 = carts_pg w" by (simp add: carts_pg_def)
qed

section \<open>A database that answers\<close>

definition cart_calm :: "'a cart_db_scheme \<Rightarrow> bool" where
  "cart_calm w \<longleftrightarrow> db_calm w \<and> \<not> in_tx w"

lemma sql_calm: "cart_calm w \<Longrightarrow> sql f w = f w"
  by (simp add: sql_def bind_io_def cart_calm_def)

lemma cart_calm_sel [simp]:
  "cart_calm (w\<lparr>carts_tbl := t\<rparr>) = cart_calm w" "cart_calm (outside w) = cart_calm w"
  "cart_calm w \<Longrightarrow> cart_calm (db_reject w)"
  by (simp_all add: cart_calm_def db_calm_def outside_def db_reject_def)

lemma calm_outside: "outside w' = outside w \<Longrightarrow> cart_calm w \<Longrightarrow> cart_calm (w' :: 'a cart_db_scheme)"
  by (metis cart_calm_sel(2))

abbreviation keeps_calm :: "'a cart_db_scheme \<Rightarrow> 'a cart_db_scheme \<Rightarrow> bool" where
  "keeps_calm \<equiv> \<lambda>w w1. cart_calm w \<longrightarrow> cart_calm w1"

lemma keeps_calm_rel: "transp keeps_calm" "reflp keeps_calm"
  by (auto simp: transp_def reflp_def)

lemma keeps_calm_sql: "keeps keeps_calm (sql (\<lambda>w. (Inr (g w), w)))"
  by (auto simp: keeps_def sql_calm)

lemma lookup_keeps_calm: "keeps keeps_calm (GetProductByVariantID 0 (catalog_service_pg dec l) v)"
proof -
  note kk = keeps_bind [OF keeps_calm_rel(1)] keeps_pure [OF keeps_calm_rel(2)] keeps_calm_sql
  have "keeps keeps_calm (read_product r)" for r
    by (cases r) (auto simp: read_product_def intro!: kk)
  then have "keeps keeps_calm (GetProductByVariantID_pg v)"
    unfolding GetProductByVariantID_pg_def by (intro kk)
  then have f: "keeps keeps_calm (bind_io (GetProductByVariantID_pg v) (\<lambda>p. return_io (Some p)))"
    by (intro kk)
  have "keeps keeps_calm (GetOrFetch 0 (memory_manager l) CProduct as_product (variant_key v) fifteen_min
      (bind_io (GetProductByVariantID_pg v) (\<lambda>p. return_io (Some p))))"
    by (rule keeps_GetOrFetch [OF keeps_calm_rel _ _ f])
      (metis calm_outside outside_Get, metis calm_outside outside_Set)
  then show ?thesis unfolding GetProductByVariantID_def cached_product_def memory_manager_def
    by (simp, intro keeps_on_error)
qed

interpretation calm_carts: calm_cart_store "cart_service_pg dec l sched :: ('a cart_db_scheme) cartService" carts_pg cart_calm
proof (unfold_locales, unfold cart_service_sel)
  fix w :: "'a cart_db_scheme"
  assume w: "cart_calm w"
  show "cart_calm (snd (cartGet_pg cid w))" for cid
    using w by (simp add: cartGet_pg_def sql_calm split: option.split)
  show "cart_calm (snd (cartSave_pg c w))" for c
    using w by (simp add: cartSave_pg_def sql_calm reject_def)
  show "d = Inr () \<and> cart_calm w1" if "cartDelete_pg cid w = (d, w1)" for cid d w1
    using w that by (auto simp: cartDelete_pg_def sql_calm)
  show "cart_calm (snd (GetProductByVariantID 0 (catalog_service_pg dec l) v w))" for v
    using keepsD [OF lookup_keeps_calm surjective_pairing] w by blast
  show "cart_calm w1" if "time_now w = (t, w1)" for t w1
    using outside_time [OF that] calm_outside w by blast
qed

section \<open>Properties\<close>



text \<open>C25. A merge adds nothing that neither cart had: every variant of the account's cart ends with its old
quantity, the guest's, both together (never twice the guest's), or none, and no third cart changes, whatever fails.\<close>
theorem merge_adds_once:
  assumes "http_Merge be (cart_service_pg dec l sched) user guest w = (Inr resp, w1)" and "user \<noteq> guest"
    and "\<forall>k. lines_ok (lines_in (carts_pg w) k)"
  shows "(\<forall>v. merged (quantities (lines_in (carts_pg w) user)) (quantities (lines_in (carts_pg w) guest)) v
      (quantities (lines_in (carts_pg w1) user) v)) \<and>
    (\<forall>k. k \<noteq> user \<and> k \<noteq> guest \<longrightarrow> carts_pg w1 k = carts_pg w k)"
proof -
  have run: "MergeGuestCartWithAccount (cart_service_pg dec l sched) user guest w = (Inr resp, w1)"
    using assms(1) by (simp add: http_Merge_def split: if_splits)
  have "pg_carts.carts_ok w" using assms(3) by (simp add: pg_carts.carts_ok_def)
  from pg_carts.Merge_merged [OF run this assms(2)] show ?thesis by blast
qed

text \<open>C26. The merge handler takes any cart whose id the caller names: when it answers and no call fails, that
cart is gone, also when it was another customer's; and with the caller's own id, the own cart is deleted
and the answer is an empty cart.\<close>
theorem merge_takes_named_cart:
  assumes "http_Merge be (cart_service_pg dec l sched) user guest w = (Inr resp, w1)" and "cart_calm w"
  shows "carts_pg w1 guest = None \<and> (user = guest \<longrightarrow> cpItems resp = [])"
proof -
  have run: "MergeGuestCartWithAccount (cart_service_pg dec l sched) user guest w = (Inr resp, w1)"
    using assms(1) by (simp add: http_Merge_def split: if_splits)
  show ?thesis by (rule calm_carts.Merge_takes_guest [OF assms(2) run])
qed

section \<open>Witnesses\<close>

definition sample_carts :: "Cart list \<Rightarrow> cart_db" where
  "sample_carts cs = catalog_db.extend (sample_catalog [sample_product ''1'' ''a'' 0]
       [(''1'', sample_variant ''9'' 0 5), (''1'', sample_variant ''8'' 0 20)] [] [sample_category ''a'' None])
     (cart_db.fields cs)"

definition sample_cart :: "string \<Rightarrow> CartItem list \<Rightarrow> Cart" where
  "sample_cart cid its = \<lparr>cartCustomerID = cid, cartItems = its, cartCreatedAt = 50, cartUpdatedAt = 50\<rparr>"

abbreviation cart_line :: "string \<Rightarrow> int \<Rightarrow> CartItem" where
  "cart_line v n \<equiv> \<lparr>clVariantID = v, clQuantity = n\<rparr>"

lemma sample_carts_view: "carts_pg (sample_carts cs) = row_of cartCustomerID cs" "cart_calm (sample_carts cs)"
  by (simp_all add: carts_pg_def sample_carts_def sample_catalog_def cart_calm_def db_calm_def
      catalog_db.defs cart_db.defs)

definition two_carts :: cart_db where
  "two_carts = sample_carts [sample_cart ''u'' [cart_line ''9'' 2], sample_cart ''g'' [cart_line ''9'' 3, cart_line ''8'' 9]]"

lemma two_carts_ok: "lines_ok (lines_in (carts_pg two_carts) k)" "cart_calm two_carts"
  by (simp_all add: two_carts_def sample_carts_view lines_in_def row_of_def sample_cart_def lines_ok_def line_ok_def)



lemma two_carts_merge:
  assumes "g = ''g'' \<or> g = ''u''"
  obtains x w1 where "http_Merge (ErrText ''EOF'') (cart_service_pg Some 0 (\<lambda>n. [])) ''u'' g two_carts = (Inr x, w1)"
proof -
  have "\<not> isl (fst (http_Merge (ErrText ''EOF'') (cart_service_pg Some 0 (\<lambda>n. [])) ''u'' ''g'' two_carts))"
    "\<not> isl (fst (http_Merge (ErrText ''EOF'') (cart_service_pg Some 0 (\<lambda>n. [])) ''u'' ''u'' two_carts))" by code_simp+
  with assms have k: "\<not> isl (fst (http_Merge (ErrText ''EOF'') (cart_service_pg Some 0 (\<lambda>n. [])) ''u'' g two_carts))" by blast
  obtain r w1 where r: "http_Merge (ErrText ''EOF'') (cart_service_pg Some 0 (\<lambda>n. [])) ''u'' g two_carts = (r, w1)" by fastforce
  with k that show thesis by (cases r) auto
qed

theorem merge_adds_once_witness:
  "\<exists>r w1. http_Merge (ErrText ''EOF'') (cart_service_pg Some 0 (\<lambda>n. [])) ''u'' ''g'' two_carts = (Inr r, w1) \<and>
     quantities (lines_in (carts_pg w1) ''u'') ''9'' \<in> {None, Some 2, Some 3, Some 5}"
proof -
  obtain x w1 where x: "http_Merge (ErrText ''EOF'') (cart_service_pg Some 0 (\<lambda>n. [])) ''u'' ''g'' two_carts = (Inr x, w1)"
    using two_carts_merge by blast
  have "quantities (lines_in (carts_pg two_carts) ''u'') ''9'' = Some 2" "quantities (lines_in (carts_pg two_carts) ''g'') ''9'' = Some 3"
    by (simp_all add: two_carts_def sample_carts_view lines_in_def row_of_def sample_cart_def quantities_def)
  moreover have "merged (quantities (lines_in (carts_pg two_carts) ''u'')) (quantities (lines_in (carts_pg two_carts) ''g'')) ''9''
      (quantities (lines_in (carts_pg w1) ''u'') ''9'')"
    using merge_adds_once [OF x] two_carts_ok(1) by simp
  ultimately show ?thesis using x by (auto simp: merged_def)
qed

theorem merge_takes_named_cart_witness:
  "(\<exists>r w1. http_Merge (ErrText ''EOF'') (cart_service_pg Some 0 (\<lambda>n. [])) ''u'' ''g'' two_carts = (Inr r, w1) \<and>
     carts_pg w1 ''g'' = None \<and> carts_pg two_carts ''g'' \<noteq> None) \<and>
   (\<exists>r w1. http_Merge (ErrText ''EOF'') (cart_service_pg Some 0 (\<lambda>n. [])) ''u'' ''u'' two_carts = (Inr r, w1) \<and>
     carts_pg w1 ''u'' = None \<and> cpItems r = [])"
proof -
  obtain x w1 where g: "http_Merge (ErrText ''EOF'') (cart_service_pg Some 0 (\<lambda>n. [])) ''u'' ''g'' two_carts = (Inr x, w1)"
    using two_carts_merge by blast
  obtain y w2 where u: "http_Merge (ErrText ''EOF'') (cart_service_pg Some 0 (\<lambda>n. [])) ''u'' ''u'' two_carts = (Inr y, w2)"
    using two_carts_merge by blast
  have "carts_pg two_carts ''g'' \<noteq> None" by (simp add: two_carts_def sample_carts_view row_of_def sample_cart_def)
  with g u merge_takes_named_cart [OF g two_carts_ok(2)] merge_takes_named_cart [OF u two_carts_ok(2)] show ?thesis by blast
qed

end
