(* ===== verification/CatalogFeatures.thy ===== *)
theory CatalogFeatures
  imports CatalogPg
begin

text \<open>
  The catalog's feature services over their PostgreSQL repositories: variants, images, discounts and
  bulk import (\<open>internal/core/catalog/features\<close>, \<open>internal/infra/db/postgres/catalog\<close>). The file
  storage is a parameter.
\<close>

definition product_missing :: "string \<Rightarrow> err \<Rightarrow> err" where
  "product_missing pid e = NewNotFound (''product '' @ pid @ '' not found'') (Some e)"

section \<open>Variants\<close>

record 'w VariantRepository =
  vrGetProductByID :: "string \<Rightarrow> ('w, Product) io"
  vrUpdateProductVariants :: "string \<Rightarrow> Variant list \<Rightarrow> ('w, unit) io"

definition GetVariants :: "'w VariantRepository \<Rightarrow> string \<Rightarrow> ('w, Variant list) io" where
  "GetVariants r pid = bind_io (on_error (product_missing pid) (vrGetProductByID r pid)) (\<lambda>p. return_io (prodVariants p))"

text \<open>The candidate list is validated and stored as a whole.\<close>

definition store_variants :: "'w VariantRepository \<Rightarrow> string \<Rightarrow> string \<Rightarrow> Variant list \<Rightarrow> ('w, unit) io" where
  "store_variants r pid msg vs = (case ValidateVariants vs of
       Some e \<Rightarrow> fail_io (NewBadRequest (err_string e) (Some e))
     | None \<Rightarrow> on_error (\<lambda>e. NewInternal msg (Some e)) (vrUpdateProductVariants r pid vs))"

definition AddVariant :: "('a env_scheme) VariantRepository \<Rightarrow> string \<Rightarrow> Variant \<Rightarrow> ('a env_scheme, unit) io" where
  "AddVariant r pid v = bind_io (on_error (product_missing pid) (vrGetProductByID r pid)) (\<lambda>p.
     bind_io (if varID v = [] then bind_io (on_error (\<lambda>e. NewInternal ''failed to generate variant ID'' (Some e))
           (Generate ''var_'')) (\<lambda>i. return_io (v\<lparr>varID := i\<rparr>))
         else return_io v)
       (\<lambda>v1. store_variants r pid ''failed to add variant'' (prodVariants p @ [v1])))"

fun variant_index :: "string \<Rightarrow> Variant list \<Rightarrow> nat option" where
  "variant_index i [] = None"
| "variant_index i (v # vs) = (if varID v = i then Some 0 else map_option Suc (variant_index i vs))"

definition variant_missing :: "string \<Rightarrow> err" where
  "variant_missing i = NewNotFound (''variant '' @ i @ '' not found on product'') None"

definition UpdateVariant :: "'w VariantRepository \<Rightarrow> string \<Rightarrow> Variant \<Rightarrow> ('w, unit) io" where
  "UpdateVariant r pid v = bind_io (on_error (product_missing pid) (vrGetProductByID r pid)) (\<lambda>p.
     if varID v = [] then fail_io (NewBadRequest ''Variant ID is required for update'' None)
     else (case variant_index (varID v) (prodVariants p) of
         None \<Rightarrow> fail_io (variant_missing (varID v))
       | Some k \<Rightarrow> store_variants r pid ''failed to update variant'' ((prodVariants p)[k := v])))"

definition DeleteVariant :: "'w VariantRepository \<Rightarrow> string \<Rightarrow> string \<Rightarrow> ('w, unit) io" where
  "DeleteVariant r pid i = bind_io (on_error (product_missing pid) (vrGetProductByID r pid)) (\<lambda>p.
     if length (prodVariants p) \<le> 1
     then fail_io (NewBadRequest ''cannot delete variant: products must have at least one variant'' None)
     else (case variant_index i (prodVariants p) of
         None \<Rightarrow> fail_io (variant_missing i)
       | Some k \<Rightarrow> on_error (\<lambda>e. NewInternal ''failed to delete variant'' (Some e))
           (vrUpdateProductVariants r pid (take k (prodVariants p) @ drop (Suc k) (prodVariants p)))))"

section \<open>Images\<close>

record 'w ImageRepository =
  igGetProductByID :: "string \<Rightarrow> ('w, Product) io"
  igUpdateProductImages :: "string \<Rightarrow> ProductImage list \<Rightarrow> ('w, unit) io"

record PresignUploadResult =
  puUploadURL :: string
  puPublicURL :: string
  puMethod :: string

record 'w FileStorage =
  fsDelete :: "string \<Rightarrow> string \<Rightarrow> ('w, unit) io"
  fsPresignUpload :: "string \<Rightarrow> string \<Rightarrow> string \<Rightarrow> ('w, PresignUploadResult) io"
  fsGetPublicURL :: "string \<Rightarrow> string \<Rightarrow> ('w, string) io"

record 'w imageService =
  imRepo :: "'w ImageRepository"
  imStorage :: "'w FileStorage"

record PresignImageRequest =
  pqFilename :: string
  pqContentType :: string

record PresignImageResponse =
  psFilename :: string
  psUploadURL :: string
  psPublicURL :: string
  psKey :: string
  psMethod :: string

record RegisterImageRequest =
  riKey :: string
  riIsPrimary :: bool

text \<open>\<open>filepath.Base\<close> and \<open>filepath.Ext\<close>.\<close>

definition path_base :: "string \<Rightarrow> string" where
  "path_base p = (if p = [] then ''.''
     else (let q = rev (dropWhile (\<lambda>c. c = CHR ''/'') (rev p)) in
       if q = [] then ''/'' else rev (takeWhile (\<lambda>c. c \<noteq> CHR ''/'') (rev q))))"

definition path_ext :: "string \<Rightarrow> string" where
  "path_ext p = (let r = rev p; e = takeWhile (\<lambda>c. c \<noteq> CHR ''.'' \<and> c \<noteq> CHR ''/'') r in
     if take 1 (drop (length e) r) = ''.'' then CHR ''.'' # rev e else [])"

text \<open>\<open>path.Join\<close> of elements of which the first is not rooted: the cleaned path.\<close>

fun clean_elems :: "string list \<Rightarrow> string list \<Rightarrow> string list" where
  "clean_elems acc [] = rev acc"
| "clean_elems acc (e # es) =
     (if e = [] \<or> e = ''.'' then clean_elems acc es
      else if e = ''..'' \<and> acc \<noteq> [] \<and> hd acc \<noteq> ''..'' then clean_elems (tl acc) es
      else clean_elems (e # acc) es)"

fun join_by :: "char \<Rightarrow> string list \<Rightarrow> string" where
  "join_by c [] = []"
| "join_by c [s] = s"
| "join_by c (s # ss) = s @ c # join_by c ss"

definition path_join :: "string list \<Rightarrow> string" where
  "path_join ps = (let es = clean_elems [] (concat (map (split_at (CHR ''/'')) ps)) in
     if es = [] then ''.'' else join_by (CHR ''/'') es)"

definition image_extensions :: "string list" where
  "image_extensions = [''.jpg'', ''.jpeg'', ''.png'', ''.gif'', ''.webp'', ''.svg'']"

definition image_types :: "string list" where
  "image_types = [''image/jpeg'', ''image/png'', ''image/gif'', ''image/webp'', ''image/svg+xml'']"

definition new_image_id :: "('a env_scheme, string) io" where
  "new_image_id = on_error (\<lambda>e. NewInternal ''failed to generate image ID'' (Some e)) (Generate ''img_'')"

definition presign_file :: "('a env_scheme) imageService \<Rightarrow> string \<Rightarrow> PresignImageRequest \<Rightarrow>
    ('a env_scheme, PresignImageResponse) io" where
  "presign_file s pid f = (let ext = to_lower (path_ext (path_base (pqFilename f))) in
     if ext \<notin> set image_extensions then fail_io (NewBadRequest (''unsupported image extension: '' @ ext) None)
     else if to_lower (pqContentType f) \<notin> set image_types
     then fail_io (NewBadRequest (''unsupported image content type: '' @ to_lower (pqContentType f)) None)
     else bind_io new_image_id (\<lambda>i. let key = path_join [''products'', pid, i @ ext] in
       bind_io (on_error (\<lambda>e. NewInternal ''failed to generate presigned upload URL'' (Some e))
           (fsPresignUpload (imStorage s) ''products'' key (pqContentType f)))
         (\<lambda>r. return_io \<lparr>psFilename = pqFilename f, psUploadURL = puUploadURL r, psPublicURL = puPublicURL r,
           psKey = key, psMethod = puMethod r\<rparr>)))"

fun map_io :: "('x \<Rightarrow> ('w, 'y) io) \<Rightarrow> 'x list \<Rightarrow> ('w, 'y list) io" where
  "map_io f [] = return_io []"
| "map_io f (x # xs) = bind_io (f x) (\<lambda>y. bind_io (map_io f xs) (\<lambda>ys. return_io (y # ys)))"

definition PresignUploadURLs :: "('a env_scheme) imageService \<Rightarrow> string \<Rightarrow> PresignImageRequest list \<Rightarrow>
    ('a env_scheme, PresignImageResponse list) io" where
  "PresignUploadURLs s pid files = bind_io (on_error (product_missing pid) (igGetProductByID (imRepo s) pid)) (\<lambda>_.
     if files = [] then fail_io (NewBadRequest ''no files provided for presign request'' None)
     else map_io (presign_file s pid) files)"

definition register_image :: "('a env_scheme) imageService \<Rightarrow> string \<Rightarrow> RegisterImageRequest \<Rightarrow>
    ('a env_scheme, ProductImage) io" where
  "register_image s pid g =
     (if \<not> has_prefix (''products/'' @ pid @ ''/'') (riKey g) \<or> contains (riKey g) ''..''
      then fail_io (NewBadRequest (''invalid image key: '' @ riKey g) None)
      else bind_io (on_error (\<lambda>e. NewInternal ''failed to resolve public image URL'' (Some e))
          (fsGetPublicURL (imStorage s) ''products'' (riKey g)))
        (\<lambda>url. bind_io new_image_id
          (\<lambda>i. return_io \<lparr>imgID = i, imgURL = url, imgKey = riKey g, imgIsPrimary = riIsPrimary g\<rparr>)))"

definition first_primary :: "ProductImage list \<Rightarrow> ProductImage list" where
  "first_primary gs = (case gs of [] \<Rightarrow> [] | g # rest \<Rightarrow> g\<lparr>imgIsPrimary := True\<rparr> # rest)"

definition RegisterUploadedImages :: "('a env_scheme) imageService \<Rightarrow> string \<Rightarrow> RegisterImageRequest list \<Rightarrow>
    ('a env_scheme, ProductImage list) io" where
  "RegisterUploadedImages s pid gs = bind_io (on_error (product_missing pid) (igGetProductByID (imRepo s) pid)) (\<lambda>p.
     if gs = [] then fail_io (NewBadRequest ''no uploaded images provided'' None)
     else bind_io (map_io (register_image s pid) gs) (\<lambda>new0.
       let new = (if prodImages p = [] then first_primary new0 else new0) in
       bind_io (on_error (\<lambda>e. NewInternal ''failed to update product record with registered images'' (Some e))
           (igUpdateProductImages (imRepo s) pid (prodImages p @ new)))
         (\<lambda>_. return_io new)))"

definition trim_prefix :: "string \<Rightarrow> string \<Rightarrow> string" where
  "trim_prefix p s = (if has_prefix p s then drop (length p) s else s)"

definition delete_key :: "ProductImage \<Rightarrow> string" where
  "delete_key g = (if imgKey g = [] then trim_prefix ''/'' (trim_prefix ''/uploads/products/'' (imgURL g)) else imgKey g)"

text \<open>An error of the storage is only logged.\<close>

definition DeleteImage :: "'w imageService \<Rightarrow> string \<Rightarrow> string \<Rightarrow> ('w, unit) io" where
  "DeleteImage s pid i = bind_io (on_error (product_missing pid) (igGetProductByID (imRepo s) pid)) (\<lambda>p.
     let hits = filter (\<lambda>g. imgID g = i) (prodImages p); rest = filter (\<lambda>g. imgID g \<noteq> i) (prodImages p) in
     if hits = [] then fail_io (NewNotFound (''image '' @ i @ '' not found on product'') None)
     else (\<lambda>w. on_error (\<lambda>e. NewInternal ''failed to delete image from product record'' (Some e))
       (igUpdateProductImages (imRepo s) pid (if imgIsPrimary (last hits) then first_primary rest else rest))
       (snd (fsDelete (imStorage s) ''products'' (delete_key (last hits)) w))))"

definition SetPrimaryImage :: "'w imageService \<Rightarrow> string \<Rightarrow> string \<Rightarrow> ('w, unit) io" where
  "SetPrimaryImage s pid i = bind_io (on_error (product_missing pid) (igGetProductByID (imRepo s) pid)) (\<lambda>p.
     if i \<notin> imgID ` set (prodImages p) then fail_io (NewNotFound (''image '' @ i @ '' not found on product'') None)
     else on_error (\<lambda>e. NewInternal ''failed to update primary image setting'' (Some e))
       (igUpdateProductImages (imRepo s) pid (map (\<lambda>g. g\<lparr>imgIsPrimary := imgID g = i\<rparr>) (prodImages p))))"

section \<open>Discounts\<close>

record 'w DiscountRepository =
  drGetProductByID :: "string \<Rightarrow> ('w, Product) io"
  drUpdateProductDiscount :: "string \<Rightarrow> ProductDiscount option \<Rightarrow> ('w, unit) io"

definition quoted :: "string \<Rightarrow> string" where "quoted s = CHR 0x27 # s @ [CHR 0x27]"

definition discount_error :: "ProductDiscount option \<Rightarrow> err option" where
  "discount_error d = (case d of
       None \<Rightarrow> Some (NewBadRequest ''Discount payload is required'' None)
     | Some x \<Rightarrow>
         if discType x \<noteq> ''percentage'' \<and> discType x \<noteq> ''fixed''
         then Some (NewBadRequest (''Discount type must be either '' @ quoted ''percentage'' @ '' or '' @ quoted ''fixed'') None)
         else if discValue x < 0 then Some (NewBadRequest ''Discount value cannot be negative'' None)
         else if discType x = ''percentage'' \<and> 100 < discValue x
         then Some (NewBadRequest ''Percentage discount cannot exceed 100%'' None)
         else None)"

definition ApplyDiscount :: "'w DiscountRepository \<Rightarrow> string \<Rightarrow> ProductDiscount option \<Rightarrow> ('w, unit) io" where
  "ApplyDiscount r pid d = (case discount_error d of
       Some e \<Rightarrow> fail_io e
     | None \<Rightarrow> bind_io (on_error (product_missing pid) (drGetProductByID r pid))
         (\<lambda>_. on_error (\<lambda>e. NewInternal ''failed to apply discount'' (Some e)) (drUpdateProductDiscount r pid d)))"

definition RemoveDiscount :: "'w DiscountRepository \<Rightarrow> string \<Rightarrow> ('w, unit) io" where
  "RemoveDiscount r pid = bind_io (on_error (product_missing pid) (drGetProductByID r pid))
     (\<lambda>_. on_error (\<lambda>e. NewInternal ''failed to remove discount'' (Some e)) (drUpdateProductDiscount r pid None))"

section \<open>Bulk import\<close>

record 'w BulkRepository =
  bkGetCategoryByID :: "string \<Rightarrow> ('w, Category) io"
  bkBulkCreate :: "Product list \<Rightarrow> ('w, unit) io"
  bkBulkUpdate :: "Product list \<Rightarrow> ('w, unit) io"
  bkBulkDelete :: "string list \<Rightarrow> ('w, unit) io"

text \<open>The checks of one product; \<open>k\<close> is its index.\<close>

definition check_bulk :: "'w BulkRepository \<Rightarrow> nat \<Rightarrow> Product \<Rightarrow> ('w, Product) io" where
  "check_bulk r k p = (case ValidateProduct p of
       Some e \<Rightarrow> fail_io (NewBadRequest (''validation failed for product at index '' @ itoa (int k) @ '': '' @ err_string e) (Some e))
     | None \<Rightarrow> bind_io (on_error (\<lambda>e. NewNotFound (''category with ID '' @ prodCategoryID p @
             '' not found for product at index '' @ itoa (int k)) (Some e)) (bkGetCategoryByID r (prodCategoryID p)))
         (\<lambda>_. return_io p))"

definition catBulkCreate :: "('a env_scheme) BulkRepository \<Rightarrow> Product list \<Rightarrow> ('a env_scheme, unit) io" where
  "catBulkCreate r ps = bind_io (map_io (\<lambda>(k, p). bind_io (fill_ids p) (check_bulk r k)) (enumerate 0 ps))
     (\<lambda>ps1. on_error (\<lambda>e. NewInternal ''bulk creation failed'' (Some e)) (bkBulkCreate r ps1))"

definition catBulkUpdate :: "'w BulkRepository \<Rightarrow> Product list \<Rightarrow> ('w, unit) io" where
  "catBulkUpdate r ps = bind_io (map_io (\<lambda>(k, p).
       if prodID p = [] then fail_io (NewBadRequest (''product ID is required for update at index '' @ itoa (int k)) None)
       else check_bulk r k p) (enumerate 0 ps))
     (\<lambda>ps1. on_error (\<lambda>e. NewInternal ''bulk update failed'' (Some e)) (bkBulkUpdate r ps1))"

definition catBulkDelete :: "'w BulkRepository \<Rightarrow> string list \<Rightarrow> ('w, unit) io" where
  "catBulkDelete r ids = (if ids = [] then fail_io (NewBadRequest ''at least one product ID must be provided'' None)
     else on_error (\<lambda>e. NewInternal ''bulk deletion failed'' (Some e)) (bkBulkDelete r ids))"

section \<open>The repositories\<close>

definition UpdateProductVariants_pg :: "decimal_column \<Rightarrow> string \<Rightarrow> Variant list \<Rightarrow> ('a catalog_db_scheme, unit) io" where
  "UpdateProductVariants_pg dec pid vs = in_own_tx (replace_variants dec pid vs)"

definition UpdateProductImages_pg :: "string \<Rightarrow> ProductImage list \<Rightarrow> ('a catalog_db_scheme, unit) io" where
  "UpdateProductImages_pg pid gs = in_own_tx (replace_images pid gs)"

definition UpdateProductDiscount_pg :: "decimal_column \<Rightarrow> string \<Rightarrow> ProductDiscount option \<Rightarrow> ('a catalog_db_scheme, unit) io" where
  "UpdateProductDiscount_pg dec pid d = sql (\<lambda>w. (case d of
       None \<Rightarrow> (Inr (), w\<lparr>products_tbl := map (\<lambda>r. if dpID r = pid then r\<lparr>dpDiscountType := None, dpDiscountValue := None\<rparr> else r)
         (products_tbl w)\<rparr>)
     | Some x \<Rightarrow> if pid \<notin> dpID ` set (products_tbl w) then (Inr (), w)
         else (case dec (discValue x) of
           None \<Rightarrow> reject ''numeric field overflow'' w
         | Some v \<Rightarrow> (Inr (), w\<lparr>products_tbl := map (\<lambda>r. if dpID r = pid
             then r\<lparr>dpDiscountType := Some (discType x), dpDiscountValue := Some v\<rparr> else r) (products_tbl w)\<rparr>))))"

definition variant_repo_pg :: "decimal_column \<Rightarrow> ('a catalog_db_scheme) VariantRepository" where
  "variant_repo_pg dec = \<lparr>vrGetProductByID = GetProductByID_pg, vrUpdateProductVariants = UpdateProductVariants_pg dec\<rparr>"

definition image_repo_pg :: "('a catalog_db_scheme) ImageRepository" where
  "image_repo_pg = \<lparr>igGetProductByID = GetProductByID_pg, igUpdateProductImages = UpdateProductImages_pg\<rparr>"

definition discount_repo_pg :: "decimal_column \<Rightarrow> ('a catalog_db_scheme) DiscountRepository" where
  "discount_repo_pg dec = \<lparr>drGetProductByID = GetProductByID_pg, drUpdateProductDiscount = UpdateProductDiscount_pg dec\<rparr>"

definition cat_bulk_repo_pg :: "decimal_column \<Rightarrow> ('a catalog_db_scheme) BulkRepository" where
  "cat_bulk_repo_pg dec = \<lparr>bkGetCategoryByID = GetCategoryByID_pg,
     bkBulkCreate = (\<lambda>ps. RunInTx_pg (for_each (CreateProduct_pg dec) ps)),
     bkBulkUpdate = (\<lambda>ps. RunInTx_pg (for_each (\<lambda>p. bind_io (UpdateProduct_pg dec p) (\<lambda>_. return_io ())) ps)),
     bkBulkDelete = (\<lambda>ids. RunInTx_pg (for_each DeleteProduct_pg ids))\<rparr>"

end
