(* ===== verification/CatalogProps.thy ===== *)
theory CatalogProps
  imports CatalogRules
begin

text \<open>
  Properties of the catalog on PostgreSQL: the optimistic lock of an update, what an update through
  the API loses, a change is what the next reader sees, cached answers converge to the tables, and
  which categories can be deleted.
\<close>

section \<open>Updating a product\<close>

definition stored_variant :: "decimal_column \<Rightarrow> Variant \<Rightarrow> Variant" where
  "stored_variant dec v = v\<lparr>varPrice := the (dec (varPrice v))\<rparr>"

lemma insert_variant_fx:
  assumes "insert_variant dec i v w = (Inr (), w')"
  shows "variants_tbl w' = variants_tbl w @ [(i, stored_variant dec v)] \<and> products_tbl w' = products_tbl w \<and>
    images_tbl w' = images_tbl w \<and> categories_tbl w' = categories_tbl w \<and> mem w' = mem w"
  using assms unfolding insert_variant_def
  by (cases rule: sql_cases) (auto simp: same_tables_def stored_variant_def split: option.splits if_splits)

lemma insert_image_fx:
  assumes "insert_image i g w = (Inr (), w')"
  shows "images_tbl w' = images_tbl w @ [(i, g)] \<and> products_tbl w' = products_tbl w \<and>
    variants_tbl w' = variants_tbl w \<and> categories_tbl w' = categories_tbl w \<and> mem w' = mem w"
  using assms unfolding insert_image_def
  by (cases rule: sql_cases) (auto simp: same_tables_def split: if_splits)

lemma insert_variants_fx:
  "for_each (insert_variant dec i) vs w = (Inr (), w') \<Longrightarrow>
    variants_tbl w' = variants_tbl w @ map (\<lambda>v. (i, stored_variant dec v)) vs \<and> products_tbl w' = products_tbl w \<and>
    images_tbl w' = images_tbl w \<and> categories_tbl w' = categories_tbl w \<and> mem w' = mem w"
proof (induction vs arbitrary: w)
  case (Cons v vs)
  obtain r w1 where r: "insert_variant dec i v w = (r, w1)" by fastforce
  with Cons.prems show ?case using Cons.IH [of w1] insert_variant_fx [of dec i v w w1]
    by (cases r) (auto simp: bind_io_def)
qed simp

lemma insert_images_fx:
  "for_each (insert_image i) gs w = (Inr (), w') \<Longrightarrow>
    images_tbl w' = images_tbl w @ map (Pair i) gs \<and> products_tbl w' = products_tbl w \<and>
    variants_tbl w' = variants_tbl w \<and> categories_tbl w' = categories_tbl w \<and> mem w' = mem w"
proof (induction gs arbitrary: w)
  case (Cons g gs)
  obtain r w1 where r: "insert_image i g w = (r, w1)" by fastforce
  with Cons.prems show ?case using Cons.IH [of w1] insert_image_fx [of i g w w1]
    by (cases r) (auto simp: bind_io_def)
qed simp

lemma bind_io_ok:
  assumes "bind_io m f w = (Inr y, w')"
  obtains x w1 where "m w = (Inr x, w1)" "f x w1 = (Inr y, w')"
  using assms by (auto simp: bind_io_def split: prod.splits sum.splits)

lemma replace_variants_fx:
  assumes "replace_variants dec i vs w = (Inr (), w')"
  shows "product_variants w' i = map (stored_variant dec) vs \<and> products_tbl w' = products_tbl w \<and>
    images_tbl w' = images_tbl w \<and> categories_tbl w' = categories_tbl w \<and> mem w' = mem w"
proof -
  obtain w1 where d: "sql (\<lambda>w. (Inr (), w\<lparr>variants_tbl := filter (\<lambda>r. fst r \<noteq> i) (variants_tbl w)\<rparr>)) w = (Inr (), w1)"
    and ins: "for_each (insert_variant dec i) vs w1 = (Inr (), w')"
    using assms unfolding replace_variants_def by (elim bind_io_ok) simp
  from d have "filter (\<lambda>r. fst r = i) (variants_tbl w1) = [] \<and> products_tbl w1 = products_tbl w \<and>
      images_tbl w1 = images_tbl w \<and> categories_tbl w1 = categories_tbl w \<and> mem w1 = mem w"
    by (cases rule: sql_cases) (auto simp: same_tables_def)
  with insert_variants_fx [OF ins] show ?thesis by (simp add: product_variants_def comp_def)
qed

lemma replace_images_fx:
  assumes "replace_images i gs w = (Inr (), w')"
  shows "product_images w' i = gs \<and> products_tbl w' = products_tbl w \<and>
    variants_tbl w' = variants_tbl w \<and> categories_tbl w' = categories_tbl w \<and> mem w' = mem w"
proof -
  obtain w1 where d: "sql (\<lambda>w. (Inr (), w\<lparr>images_tbl := filter (\<lambda>r. fst r \<noteq> i) (images_tbl w)\<rparr>)) w = (Inr (), w1)"
    and ins: "for_each (insert_image i) gs w1 = (Inr (), w')"
    using assms unfolding replace_images_def by (elim bind_io_ok) simp
  from d have "filter (\<lambda>r. fst r = i) (images_tbl w1) = [] \<and> products_tbl w1 = products_tbl w \<and>
      variants_tbl w1 = variants_tbl w \<and> categories_tbl w1 = categories_tbl w \<and> mem w1 = mem w"
    by (cases rule: sql_cases) (auto simp: same_tables_def)
  with insert_images_fx [OF ins] show ?thesis by (simp add: product_images_def comp_def)
qed

text \<open>The row an update writes.\<close>

definition updated_row :: "decimal_column \<Rightarrow> Product \<Rightarrow> dbProduct option" where
  "updated_row dec p = round_discount dec ((toDBProduct p)\<lparr>dpVersion := prodVersion p + 1\<rparr>)"

lemma updated_row_sel: "updated_row dec p = Some d \<Longrightarrow> dpID d = prodID p \<and> dpVersion d = prodVersion p + 1"
  by (auto simp: updated_row_def round_discount_def toDBProduct_def split: option.splits)

lemma i32_wrap64: "i32 x \<Longrightarrow> wrap64 (x + 1) = x + 1"
  by (rule i32_add) (auto simp: i32_def)

lemma update_product_row_fx:
  assumes "update_product_row dec p w = (Inr (), w')"
  shows "i32 (prodVersion p) \<and> i32 (prodVersion p + 1) \<and> mem w' = mem w \<and> categories_tbl w' = categories_tbl w \<and>
    variants_tbl w' = variants_tbl w \<and> images_tbl w' = images_tbl w \<and>
    (\<exists>r\<in>set (products_tbl w). dpID r = prodID p \<and> dpVersion r = prodVersion p) \<and>
    (\<exists>d. updated_row dec p = Some d \<and> products_tbl w' = map (\<lambda>r. if dpID r = prodID p \<and> dpVersion r = prodVersion p
       then d\<lparr>dpCreatedAt := dpCreatedAt r\<rparr> else r) (products_tbl w))"
  using assms unfolding update_product_row_def
  apply (elim bind_io_ok)
  apply (erule sql_cases)
  subgoal for hit w1 w0
    by (cases "i32 (prodVersion p)"; cases hit)
      (auto simp: Let_def same_tables_def updated_row_def i32_wrap64 sql_def bind_io_def
        split: if_splits option.splits prod.splits sum.splits)
  by simp

text \<open>A version in force: the row the product has, and what the next reader gets of it.\<close>

definition version_of :: "'a catalog_db_scheme \<Rightarrow> string \<Rightarrow> int option" where
  "version_of w i = map_option dpVersion (row_of dpID (products_tbl w) i)"

definition product_now :: "'a catalog_db_scheme \<Rightarrow> string \<Rightarrow> Product option" where
  "product_now w i = map_option (product_at w) (row_of dpID (products_tbl w) i)"

lemma same_tables_now:
  assumes "same_tables w w'"
  shows "version_of w' i = version_of w i" "product_now w' i = product_now w i"
  using assms by (auto simp: same_tables_def version_of_def product_now_def product_at_def product_variants_def
      product_images_def fun_eq_iff map_option_case split: option.splits)

definition stored_product :: "decimal_column \<Rightarrow> Product \<Rightarrow> int \<Rightarrow> Product option" where
  "stored_product dec p t = map_option
     (\<lambda>d. (toDomainProduct d (map (stored_variant dec) (prodVariants p)) (prodImages p))\<lparr>prodCreatedAt := t\<rparr>)
     (updated_row dec p)"

lemma row_of_distinct: "distinct (map f t) \<Longrightarrow> r \<in> set t \<Longrightarrow> row_of f t (f r) = Some r"
  by (induction t) (auto simp: row_of_def)

lemma row_of_map_same:
  assumes "\<And>r. f (g r) = f r"
  shows "row_of f (map g t) k = map_option g (row_of f t k)"
  by (induction t) (auto simp: row_of_def assms)

lemma UpdateProduct_pg_fx:
  assumes d: "distinct (map dpID (products_tbl w))" and run: "UpdateProduct_pg dec p w = (r, w')"
  shows "case r of
       Inl e \<Rightarrow> same_tables w w'
     | Inr q \<Rightarrow> q = p\<lparr>prodVersion := prodVersion p + 1\<rparr> \<and> mem w' = mem w \<and> categories_tbl w' = categories_tbl w \<and>
         distinct (map dpID (products_tbl w')) \<and>
         version_of w (prodID p) = Some (prodVersion p) \<and> version_of w' (prodID p) = Some (prodVersion p + 1) \<and>
         (\<exists>t. product_now w' (prodID p) = stored_product dec p t \<and> stored_product dec p t \<noteq> None)"
  using run unfolding UpdateProduct_pg_def
proof (cases rule: in_own_tx_cases)
  case (committed q w1 w2)
  from committed(3) obtain v1 v2 where u: "update_product_row dec p w1 = (Inr (), v1)"
    and vs: "replace_variants dec (prodID p) (prodVariants p) v1 = (Inr (), v2)"
    and gs: "replace_images (prodID p) (prodImages p) v2 = (Inr (), w2)"
    and q: "q = p\<lparr>prodVersion := wrap64 (prodVersion p + 1)\<rparr>"
    by (elim bind_io_ok) auto
  note fx = update_product_row_fx [OF u] replace_variants_fx [OF vs] replace_images_fx [OF gs]
  let ?i = "prodID p"
  obtain d1 where d1: "updated_row dec p = Some d1" "products_tbl v1 = map (\<lambda>r. if dpID r = ?i \<and>
      dpVersion r = prodVersion p then d1\<lparr>dpCreatedAt := dpCreatedAt r\<rparr> else r) (products_tbl w1)" (is "_ = map ?g _")
    using fx(1) by blast
  have g: "dpID (?g r) = dpID r" for r using updated_row_sel [OF d1(1)] by simp
  obtain r0 where r0: "r0 \<in> set (products_tbl w1)" "dpID r0 = ?i" "dpVersion r0 = prodVersion p" using fx(1) by blast
  have tw: "products_tbl w1 = products_tbl w" using committed(2) by (simp add: same_tables_def)
  have old: "row_of dpID (products_tbl w1) ?i = Some r0" using row_of_distinct [of dpID "products_tbl w" r0] d r0 tw by simp
  have tw': "products_tbl w' = map ?g (products_tbl w1)"
    using fx(2,3) committed(4) d1(2) by (simp add: same_tables_def)
  have new: "row_of dpID (products_tbl w') ?i = Some (d1\<lparr>dpCreatedAt := dpCreatedAt r0\<rparr>)"
    unfolding tw' using row_of_map_same [of dpID ?g, OF g] old r0 by simp
  have imgs: "product_images w' ?i = prodImages p" "product_variants w' ?i = map (stored_variant dec) (prodVariants p)"
    using fx(2,3) committed(4) by (auto simp: same_tables_def product_images_def product_variants_def)
  have dist: "distinct (map dpID (products_tbl w'))" using d unfolding tw' tw by (simp add: g comp_def)
  have "mem w' = mem w" "categories_tbl w' = categories_tbl w"
    using fx committed(2,4) by (auto simp: same_tables_def)
  moreover have "q = p\<lparr>prodVersion := prodVersion p + 1\<rparr>" using q fx(1) by (simp add: i32_wrap64)
  moreover have "version_of w ?i = Some (prodVersion p)" using old tw r0 by (simp add: version_of_def)
  moreover have "version_of w' ?i = Some (prodVersion p + 1)"
    using new updated_row_sel [OF d1(1)] by (simp add: version_of_def)
  moreover have "product_now w' ?i = stored_product dec p (dpCreatedAt r0)"
    using new imgs updated_row_sel [OF d1(1)] d1(1)
    by (simp add: product_now_def stored_product_def product_at_def toDomainProduct_def split: option.splits)
  ultimately show ?thesis using dist committed(1) d1(1) by (simp add: stored_product_def) blast
qed simp

text \<open>C18. The optimistic lock: an update of a product succeeds only against the version it was read at, and
raises the version by one; a second update made from the same reading, whatever it wants to store and
whatever happened to the other tables since, is refused and changes no table, so neither overwrites the other.\<close>
theorem optimistic_lock:
  assumes "distinct (map dpID (products_tbl w))"
    and "UpdateProduct_pg dec p w = (Inr q, w1)" and "products_tbl w2 = products_tbl w1"
    and "prodID p' = prodID p" "prodVersion p' = prodVersion p" "UpdateProduct_pg dec p' w2 = (r, w3)"
  shows "version_of w (prodID p) = Some (prodVersion p) \<and> version_of w1 (prodID p) = Some (prodVersion p + 1) \<and>
    isl r \<and> same_tables w2 w3"
proof -
  note first = UpdateProduct_pg_fx [OF assms(1,2), simplified]
  have "distinct (map dpID (products_tbl w2))" "version_of w2 (prodID p) = Some (prodVersion p + 1)"
    using first assms(3) by (auto simp: version_of_def)
  with UpdateProduct_pg_fx [OF _ assms(6)] assms(4,5) first show ?thesis by (cases r) auto
qed

section \<open>Updates through the service\<close>

lemma same_tables_reads:
  assumes "keeps same_store m" "m w = (x, w')"
  shows "same_tables w w'"
  using keepsD [OF assms] same_tables_more by (auto simp: same_store_def)

text \<open>Invalidation changes the cache alone, and the product's key is gone from it.\<close>

definition same_data :: "'a catalog_db_scheme \<Rightarrow> 'a catalog_db_scheme \<Rightarrow> bool" where
  "same_data w w' \<longleftrightarrow> products_tbl w' = products_tbl w \<and> variants_tbl w' = variants_tbl w \<and>
     images_tbl w' = images_tbl w \<and> categories_tbl w' = categories_tbl w"

lemma same_data_tables: "same_tables w w' \<longleftrightarrow> same_data w w' \<and> mem w' = mem w"
  by (auto simp: same_tables_def same_data_def)

lemma invalidate_logged_pg:
  "invalidate_logged (catalog_service_pg dec l) key w = (Inr (), put_items (AList.delete key (maItems (mem w))) w)"
  using Invalidate_memory [unfolded memory_manager_def, of l key w] by (simp add: invalidate_logged_def)

lemma put_items_data [simp]: "maItems (mem (put_items xs w)) = xs" "same_data w (put_items xs w)"
  by (simp_all add: put_items_def same_data_def)

lemma same_data_trans: "same_data w w1 \<Longrightarrow> same_data w1 w2 \<Longrightarrow> same_data w w2"
  by (simp add: same_data_def)

lemma invalidate_keys:
  "\<exists>w'. for_each (invalidate_logged (catalog_service_pg dec l)) ks w = (Inr (), w') \<and> same_data w w' \<and>
     (\<forall>k. map_of (maItems (mem w')) k = (if k \<in> set ks then None else map_of (maItems (mem w)) k))"
proof (induction ks arbitrary: w)
  case (Cons k ks)
  let ?w = "put_items (AList.delete k (maItems (mem w))) w"
  obtain w' where w': "for_each (invalidate_logged (catalog_service_pg dec l)) ks ?w = (Inr (), w')" "same_data ?w w'"
    "\<forall>j. map_of (maItems (mem w')) j = (if j \<in> set ks then None else map_of (maItems (mem ?w)) j)"
    using Cons.IH by blast
  have "for_each (invalidate_logged (catalog_service_pg dec l)) (k # ks) w = (Inr (), w')"
    unfolding for_each.simps bind_io_Inr using invalidate_logged_pg [of dec l k w] w'(1) by blast
  with w'(2,3) same_data_trans [OF put_items_data(2) w'(2)] show ?case by (auto simp: delete_conv')
qed (simp add: same_data_def)

lemma for_each_map: "for_each f (map g xs) = for_each (\<lambda>x. f (g x)) xs"
  by (induction xs) simp_all

lemma invalidate_product_keys:
  "invalidate_product s p = for_each (invalidate_logged s)
     (product_key (prodID p) # map (\<lambda>v. variant_key (varID v)) (prodVariants p))"
  by (simp add: invalidate_product_def for_each_map)

lemma UpdateProduct_cases:
  assumes "UpdateProduct (catalog_service_pg dec l) p w = (r, w')"
  obtains (refused) "isl r" "same_tables w w'"
  | (saved) q w1 w2 where "r = Inr q" "same_tables w w1" "UpdateProduct_pg dec p w1 = (Inr q, w2)"
      "invalidate_product (catalog_service_pg dec l) q w2 = (Inr (), w')"
proof -
  obtain c w1 where c: "GetCategoryByID_pg (prodCategoryID p) w = (c, w1)" by fastforce
  note s1 = same_tables_reads [OF keeps_GetCategoryByID c]
  obtain u w2 where u: "UpdateProduct_pg dec p w1 = (u, w2)" by fastforce
  show thesis
  proof (cases u)
    case (Inl e)
    from u Inl have "same_tables w1 w2" unfolding UpdateProduct_pg_def by (auto elim: in_own_tx_cases)
    then have "isl r \<and> same_tables w w'"
      using assms c u Inl s1 same_tables_trans [OF s1] by (cases c)
        (auto simp: UpdateProduct_def require_category_def bind_io_def on_error_def split: if_splits option.splits)
    with refused show thesis by blast
  next
    case (Inr q)
    obtain w3 where w3: "invalidate_product (catalog_service_pg dec l) q w2 = (Inr (), w3)"
      using invalidate_keys [of dec l _ w2] unfolding invalidate_product_keys by blast
    then have "isl r \<and> same_tables w w' \<or> r = Inr q \<and> w' = w3"
      using assms c u Inr s1 by (cases c)
        (auto simp: UpdateProduct_def require_category_def bind_io_def on_error_def split: if_splits option.splits)
    with refused saved s1 u Inr w3 show thesis by blast
  qed
qed

lemma UpdateProduct_fx:
  assumes "distinct (map dpID (products_tbl w))" "UpdateProduct (catalog_service_pg dec l) p w = (r, w')"
  shows "(case r of
       Inl e \<Rightarrow> same_tables w w'
     | Inr q \<Rightarrow> q = p\<lparr>prodVersion := prodVersion p + 1\<rparr> \<and> distinct (map dpID (products_tbl w')) \<and>
         version_of w (prodID p) = Some (prodVersion p) \<and> version_of w' (prodID p) = Some (prodVersion p + 1) \<and>
         (\<exists>t. product_now w' (prodID p) = stored_product dec p t \<and> stored_product dec p t \<noteq> None) \<and>
         map_of (maItems (mem w')) (product_key (prodID p)) = None)"
  using assms(2)
proof (cases rule: UpdateProduct_cases)
  case (saved q w1 w2)
  have d1: "distinct (map dpID (products_tbl w1))" using assms(1) saved(2) by (simp add: same_tables_def)
  note fx = UpdateProduct_pg_fx [OF d1 saved(3), simplified]
  obtain v where "for_each (invalidate_logged (catalog_service_pg dec l))
      (product_key (prodID q) # map (\<lambda>v. variant_key (varID v)) (prodVariants q)) w2 = (Inr (), v)"
    "same_data w2 v" "map_of (maItems (mem v)) (product_key (prodID q)) = None"
    using invalidate_keys [of dec l "product_key (prodID q) # map (\<lambda>v. variant_key (varID v)) (prodVariants q)" w2]
    by auto
  with saved(4) have inv: "same_data w2 w'" "map_of (maItems (mem w')) (product_key (prodID q)) = None"
    unfolding invalidate_product_keys by simp_all
  have now: "version_of w' i = version_of w2 i" "product_now w' i = product_now w2 i" for i
    using inv(1) by (auto simp: same_data_def version_of_def product_now_def product_at_def product_variants_def
        product_images_def map_option_case split: option.splits)
  have "distinct (map dpID (products_tbl w'))" using fx inv(1) by (simp add: same_data_def)
  moreover have "version_of w (prodID p) = Some (prodVersion p)" using fx same_tables_now(1) [OF saved(2)] by simp
  ultimately show ?thesis using saved(1) fx inv(2) now by simp
qed (auto split: sum.splits)

text \<open>C21. The API can update a product at most once: the handler never passes the version the client read,
so the update is made against version 0. If it succeeds, the product is left at version 1, without images
and discount and with no stock in any variant, and every later update of the product through the API, with
whatever content, is refused and changes no table.\<close>
theorem api_update_once:
  assumes "distinct (map dpID (products_tbl w))"
    and "http_UpdateProduct (catalog_service_pg dec l) i nm desc cid vs w = (Inr q, w1)"
    and "products_tbl w2 = products_tbl w1"
    and "http_UpdateProduct (catalog_service_pg dec l) i nm' desc' cid' vs' w2 = (r, w3)"
  shows "version_of w i = Some 0 \<and> version_of w1 i = Some 1 \<and> isl r \<and> same_tables w2 w3 \<and>
    (\<exists>pr. product_now w1 i = Some pr \<and> prodImages pr = [] \<and> prodDiscount pr = None \<and>
       (\<forall>v\<in>set (prodVariants pr). varStock v = 0))"
proof -
  have run: "UpdateProduct (catalog_service_pg dec l) (request_product i nm desc cid vs) w = (Inr q, w1)"
    using assms(2) by (simp add: http_UpdateProduct_def split: if_splits)
  from UpdateProduct_fx [OF assms(1) run] obtain t where first: "distinct (map dpID (products_tbl w1))"
    "version_of w i = Some 0" "version_of w1 i = Some 1"
    "product_now w1 i = stored_product dec (request_product i nm desc cid vs) t"
    "stored_product dec (request_product i nm desc cid vs) t \<noteq> None" by (auto simp: request_product_def)
  have "\<exists>pr. product_now w1 i = Some pr \<and> prodImages pr = [] \<and> prodDiscount pr = None \<and>
      (\<forall>v\<in>set (prodVariants pr). varStock v = 0)"
    using first(4,5) by (auto simp: stored_product_def updated_row_def round_discount_def toDBProduct_def
        toDomainProduct_def request_product_def dto_variant_def stored_variant_def split: option.splits)
  moreover have "isl r \<and> same_tables w2 w3"
  proof (cases "i = []")
    case False
    with assms(4) have "UpdateProduct (catalog_service_pg dec l) (request_product i nm' desc' cid' vs') w2 = (r, w3)"
      by (simp add: http_UpdateProduct_def)
    from UpdateProduct_fx [OF _ this] first(1,3) assms(3) show ?thesis
      by (cases r) (auto simp: request_product_def version_of_def)
  qed (use assms(4) in \<open>simp add: http_UpdateProduct_def\<close>)
  ultimately show ?thesis using first by blast
qed

section \<open>Reading through the cache\<close>


lemma sql_pure_ok: "sql (\<lambda>w. (Inr (g w), w)) w = (Inr y, w') \<Longrightarrow> same_tables w w' \<and> y = g w'"
  by (erule sql_cases) auto

lemma same_tables_at: "same_tables w w1 \<Longrightarrow> product_variants w1 = product_variants w \<and> product_images w1 = product_images w"
  by (auto simp: same_tables_def product_variants_def product_images_def fun_eq_iff)

lemma GetProductByID_ok:
  assumes "GetProductByID_pg i w = (Inr p, w')"
  shows "product_now w i = Some p \<and> same_tables w w'"
proof -
  obtain r w1 where r: "sql (\<lambda>w. (Inr (row_of dpID (products_tbl w) i), w)) w = (Inr r, w1)"
    and p: "read_product r w1 = (Inr p, w')"
    using assms unfolding GetProductByID_pg_def by (elim bind_io_ok)
  note s1 = sql_pure_ok [OF r]
  obtain d where d: "r = Some d" using p by (cases r) (auto simp: read_product_def)
  then obtain vs imgs w2 where v: "sql (\<lambda>w. (Inr (product_variants w (dpID d)), w)) w1 = (Inr vs, w2)"
    and g: "sql (\<lambda>w. (Inr (product_images w (dpID d)), w)) w2 = (Inr imgs, w')" and pr: "p = toDomainProduct d vs imgs"
    using p by (auto simp: read_product_def split: if_splits elim!: bind_io_ok)
  note s2 = sql_pure_ok [OF v] and s3 = sql_pure_ok [OF g]
  have s: "same_tables w w2" "same_tables w w'" using s1 s2 s3 by (auto intro: same_tables_trans)
  have "row_of dpID (products_tbl w) i = Some d" using s1 d by (simp add: same_tables_def)
  then show ?thesis using pr s2 s3 same_tables_at [OF s(1)] same_tables_at [OF s(2)] s
    by (simp add: product_now_def product_at_def)
qed

text \<open>A product whose key is not cached is read from the tables.\<close>

lemma GetProduct_uncached:
  assumes "map_of (maItems (mem w)) (product_key i) = None" "GetProduct rnd (catalog_service_pg dec l) i w = (Inr resp, w')"
  shows "\<exists>p. product_now w i = Some p \<and> resp = mapProductToResponse p True"
proof -
  let ?m = "NewCacheManager (Some memory_cache) None l"
  have l1: "try_l1 ?m as_product (product_key i) w = (Next, w)"
    using assms(1) by (simp add: try_l1_def NewCacheManager_def memory_cache_def mem_Get_def)
  have l2: "try_l2 ?m as_product (product_key i) fifteen_min w = (Next, w)"
    by (simp add: try_l2_def NewCacheManager_def)
  obtain y w1 where y: "GetProductByID_pg i w = (y, w1)" by fastforce
  from assms(2) obtain p w2 where p: "cached_product rnd (catalog_service_pg dec l) (product_key i) (GetProductByID_pg i) w = (Inr p, w2)"
    "resp = mapProductToResponse p True"
    by (auto simp: GetProduct_def bind_io_Inr)
  then have "y = Inr p" using y l1 l2
    by (cases y) (auto simp: cached_product_def GetOrFetch_def bind_io_def return_io_def as_product_def
        split: prod.splits sum.splits option.splits)
  with y p(2) GetProductByID_ok show ?thesis by blast
qed

text \<open>C20. A successful update is what the next reader gets: after \<open>UpdateProduct\<close> answered, a
\<open>GetProduct\<close> that answers shows the data the update stored, with the amounts as the columns round them, and never a copy
the cache kept from before.\<close>
theorem read_your_update:
  assumes "distinct (map dpID (products_tbl w))"
    and "UpdateProduct (catalog_service_pg dec l) p w = (Inr q, w1)"
    and "GetProduct rnd (catalog_service_pg dec l) (prodID p) w1 = (Inr resp, w2)"
  shows "map_option (\<lambda>p'. mapProductToResponse p' True) (stored_product dec p 0) = Some resp"
proof -
  have "map_option (\<lambda>p'. mapProductToResponse p' True) (stored_product dec p t) =
      map_option (\<lambda>p'. mapProductToResponse p' True) (stored_product dec p 0)" for t
    by (cases "updated_row dec p") (simp_all add: stored_product_def mapProductToResponse_def)
  note same = this
  from UpdateProduct_fx [OF assms(1,2)] obtain t where t: "product_now w1 (prodID p) = stored_product dec p t"
    "map_of (maItems (mem w1)) (product_key (prodID p)) = None" by auto
  from GetProduct_uncached [OF t(2) assms(3)] t(1) same [of t] show ?thesis
    by (cases "stored_product dec p 0") auto
qed

section \<open>Cached answers converge\<close>

text \<open>How long an item lives: every cached value expires within \<open>L\<close> of the present.\<close>

definition lives :: "int \<Rightarrow> ('v, 'a) cache_env_scheme \<Rightarrow> bool" where
  "lives L w \<longleftrightarrow> 0 \<le> clock w \<and> settling (\<lambda>_ _. False) (clock w + L) w"

lemma settling_later: "settling P T w \<Longrightarrow> T \<le> T' \<Longrightarrow> settling P T' w"
  unfolding settling_def by (fastforce split: cached_text.splits)

lemma settling_weaken: "settling P T w \<Longrightarrow> (\<And>k v. P k v \<Longrightarrow> Q k v) \<Longrightarrow> settling Q T w"
  unfolding settling_def by (fastforce split: cached_text.splits)

lemma lives_later: "lives L w \<Longrightarrow> mem w' = mem w \<Longrightarrow> clock w \<le> clock w' \<Longrightarrow> lives L w'"
  unfolding lives_def by (auto intro: settling_later settling_same)

lemma lives_Set:
  assumes "lives L w" "0 < ttl" "ttl \<le> L \<or> (\<exists>s. Marshal v = Plain s)"
  shows "lives L (snd (mem_Set key v ttl w))"
proof -
  obtain r w' where s: "mem_Set key v ttl w = (r, w')" by fastforce
  then show ?thesis
  proof (cases rule: mem_Set_cases)
    case (stored t0 h t)
    have "settling (\<lambda>_ _. False) (clock w' + L) w" and c: "0 \<le> clock w" "0 \<le> clock w'"
      using assms(1) stored(2,3) unfolding lives_def by (auto elim: settling_later)
    from settling_fewer [OF this(1) conjunct1 [OF make_room_fx]] have "settling (\<lambda>_ _. False) (clock w' + L) w'"
      by (rule settling_update [OF _ stored(5)]) (use assms(2,3) stored(2,3) c in \<open>auto split: cached_text.splits\<close>)
    with c s show ?thesis by (simp add: lives_def)
  qed (use assms s in simp)
qed

lemma lives_Get: "lives L w \<Longrightarrow> mem_Get key w = (r, w') \<Longrightarrow> lives L w'"
  unfolding lives_def using mem_Get_settling [of "\<lambda>_ _. False" _ w key r w'] settling_later by fastforce

lemma lives_GetOrFetch:
  assumes "lives L w" "min_ttl (if 0 < l then l else 60 * 1000000000) ttl = L" "0 < ttl"
    "GetOrFetch rnd (NewCacheManager (Some memory_cache) None l) enc dec key ttl fetch w = (r, w')"
    and fetch: "\<And>v v' x. fetch v = (x, v') \<Longrightarrow> mem v' = mem v \<and> clock v \<le> clock v'"
  shows "lives L w'"
proof -
  let ?m = "memory_manager l"
  have L: "0 < L" using assms(2,3) by (auto simp: min_ttl_def split: if_splits)
  obtain x w1 where t: "try_l1 ?m dec key w = (x, w1)" by fastforce
  obtain y v where g: "mem_Get key w = (y, v)" by fastforce
  have w1: "lives L w1" using t g lives_Get [OF assms(1) g]
    by (auto simp: try_l1_def split: sum.splits if_splits option.splits)
  obtain z w2 where z: "fetch w1 = (z, w2)" by fastforce
  have w2: "lives L w2" using lives_later [OF w1] fetch [OF z] by blast
  have "lives L (store_missing ?m key w2)"
    using lives_Set [OF w2, of "30 * 1000000000" "VString nullSentinel" key] L
    by (simp add: store_missing_def set_ignoring_def memory_manager_def NewCacheManager_def)
  moreover have "lives L (snd (mem_Set key (VRaw (Json u)) L w2))" for u
    using lives_Set [OF w2 L] by simp
  moreover note assms(4) [folded memory_manager_def] t z w1 w2
  ultimately show ?thesis using assms(2) by (cases x) (auto simp: GetOrFetch_def split: sum.splits option.splits)
qed

text \<open>Reads of the catalog, and what they should answer.\<close>

datatype catalog_read = ReadProduct string | ReadVariant string | ReadCategory string

definition read_catalog :: "int \<Rightarrow> ('a catalog_db_scheme) catalogService \<Rightarrow> catalog_read \<Rightarrow>
    'a catalog_db_scheme \<Rightarrow> 'a catalog_db_scheme" where
  "read_catalog rnd svc q w = (case q of
       ReadProduct i \<Rightarrow> snd (GetProduct rnd svc i w)
     | ReadVariant v \<Rightarrow> snd (GetProductByVariantID rnd svc v w)
     | ReadCategory c \<Rightarrow> snd (GetCategory rnd svc c w))"

text \<open>Product and variant keys overlap: \<open>catalog:product:variant:v\<close> is also the key of product \<open>variant:v\<close>.\<close>

definition plain_id :: "string \<Rightarrow> bool" where "plain_id i \<longleftrightarrow> take 8 i \<noteq> ''variant:''"

definition plain_read :: "catalog_read \<Rightarrow> bool" where
  "plain_read q = (case q of ReadProduct i \<Rightarrow> plain_id i | _ \<Rightarrow> True)"

definition current :: "'a catalog_db_scheme \<Rightarrow> string \<Rightarrow> cached \<Rightarrow> bool" where
  "current w k v \<longleftrightarrow> (\<forall>i. k = product_key i \<and> plain_id i \<longrightarrow> v \<in> CProduct ` set_option (product_now w i))"

lemma key_clash:
  "product_key i = product_key j \<longleftrightarrow> i = j" "variant_key v = product_key i \<Longrightarrow> \<not> plain_id i"
  "category_key c \<noteq> product_key i"
  by (auto simp: product_key_def variant_key_def category_key_def plain_id_def)

lemma same_data_now:
  assumes "same_data w w'"
  shows "product_now w' = product_now w" "current w' = current w"
proof -
  show "product_now w' = product_now w"
    using assms by (auto simp: same_data_def product_now_def product_at_def product_variants_def
        product_images_def fun_eq_iff map_option_case split: option.splits)
  then show "current w' = current w" by (simp add: current_def fun_eq_iff)
qed

lemma outside_tables:
  "products_tbl (outside w) = products_tbl w" "variants_tbl (outside w) = variants_tbl w"
  "images_tbl (outside w) = images_tbl w" "categories_tbl (outside w) = categories_tbl w"
  by (simp_all add: outside_def)

lemma same_data_outside: "outside w' = outside w \<Longrightarrow> same_data w (w' :: 'a catalog_db_scheme)"
  unfolding same_data_def by (metis outside_tables)

interpretation pg_cache: cache_layer "memory_cache :: ('a catalog_db_scheme, cached) Cache"
  "\<lambda>P T w. settling P T w \<and> same_data w0 w" clock for w0 :: "'a catalog_db_scheme"
proof
  fix P T key ttl v and w :: "'a catalog_db_scheme"
  assume "settling P T w \<and> same_data w0 w" "case Marshal v of Plain s \<Rightarrow> True | Json x \<Rightarrow> P key x"
  then show "settling P T (snd (cSet memory_cache key v ttl w)) \<and> same_data w0 (snd (cSet memory_cache key v ttl w))"
    using mem_Set_settling [where P = P and T = T and w = w and v = v and key = key and ttl = ttl] same_data_trans [OF _ same_data_outside [OF outside_Set]]
    by (auto simp: memory_cache_def)
next
  fix P T key r and w w' :: "'a catalog_db_scheme"
  assume "settling P T w \<and> same_data w0 w" "cGet memory_cache key w = (r, w')"
  then show "(settling P T w' \<and> same_data w0 w') \<and> clock w \<le> clock w' \<and> (\<forall>v. r = Inr (Json v) \<longrightarrow> P key v \<or> clock w \<le> T)"
    using mem_Get_settling [of P T w key r w'] same_data_trans [OF _ same_data_outside [OF outside_Get]]
    by (auto simp: memory_cache_def)
next
  fix P T key and w :: "'a catalog_db_scheme"
  assume a: "settling P T w \<and> same_data w0 w"
  let ?w = "put_items (AList.delete key (items w)) w"
  have "settling P T ?w" using a settling_fewer [of P T w ?w] by (simp add: fewer_delete)
  with a show "settling P T (snd (cDelete memory_cache key w)) \<and> same_data w0 (snd (cDelete memory_cache key w))"
    using same_data_trans [OF _ put_items_data(2)] by (auto simp: memory_cache_def mem_Delete_def)
qed

text \<open>What a cached read keeps: every item is right or gone by \<open>T\<close>, and every item lives at most \<open>L\<close>.\<close>

definition lifetime :: "int \<Rightarrow> int" where
  "lifetime l = min_ttl (if 0 < l then l else 60 * 1000000000) fifteen_min"

lemma cached_read:
  fixes m :: "('a catalog_db_scheme, 't) io"
  assumes "keeps same_store m" "GetOrFetch rnd (NewCacheManager (Some memory_cache) None l) enc dec key fifteen_min
      (bind_io m (\<lambda>p. return_io (Some p))) w = (r, w')"
  shows "lives (lifetime l) w \<Longrightarrow> lives (lifetime l) w'"
    and "settling (current w0) T w \<Longrightarrow> same_data w0 w \<Longrightarrow>
      (\<And>p v v'. m v = (Inr p, v') \<Longrightarrow> same_data w0 v \<Longrightarrow> current w0 key (enc p)) \<Longrightarrow>
      settling (current w0) T w' \<and> same_data w0 w' \<and>
        (\<forall>y. r = Inr y \<longrightarrow> (\<exists>v. dec v = Some y \<and> (current w0 key v \<or> clock w \<le> T)))"
proof -
  let ?f = "bind_io m (\<lambda>p. return_io (Some p))"
  have f: "same_tables v v' \<and> clock v \<le> clock v' \<and> (\<forall>y. x = Inr (Some y) \<longrightarrow> m v = (Inr y, v'))" if "?f v = (x, v')" for v v' x
  proof -
    obtain z u where z: "m v = (z, u)" by fastforce
    then have "u = v'" "\<forall>y. x = Inr (Some y) \<longrightarrow> z = Inr y" using that by (auto simp: bind_io_def split: sum.splits)
    with z same_tables_reads [OF assms(1) z] keepsD [OF assms(1) z] show ?thesis by (auto simp: same_store_def)
  qed
  show "lives (lifetime l) w'" if "lives (lifetime l) w"
    by (rule lives_GetOrFetch [OF that _ _ assms(2)])
      (use f in \<open>auto simp: lifetime_def fifteen_min_def same_tables_def\<close>)
  show "settling (current w0) T w' \<and> same_data w0 w' \<and>
      (\<forall>y. r = Inr y \<longrightarrow> (\<exists>v. dec v = Some y \<and> (current w0 key v \<or> clock w \<le> T)))"
    if "settling (current w0) T w" "same_data w0 w"
      "\<And>p v v'. m v = (Inr p, v') \<Longrightarrow> same_data w0 v \<Longrightarrow> current w0 key (enc p)"
  proof -
    have "(settling (current w0) T v' \<and> same_data w0 v') \<and> (\<forall>y. x = Inr (Some y) \<longrightarrow> current w0 key (enc y))"
      if "?f v = (x, v')" "settling (current w0) T v \<and> same_data w0 v" for v v' x
    proof -
      have "same_data v v'" "mem v' = mem v" using f [OF that(1)] by (auto simp: same_data_tables)
      then have "settling (current w0) T v' \<and> same_data w0 v'"
        using that(2) settling_same same_data_trans by blast
      with f [OF that(1)] that(2) \<open>\<And>p v v'. m v = (Inr p, v') \<Longrightarrow> same_data w0 v \<Longrightarrow> current w0 key (enc p)\<close>
      show ?thesis by blast
    qed
    note step = this
    have "(settling (current w0) T w' \<and> same_data w0 w') \<and>
        (\<forall>y. r = Inr y \<longrightarrow> (\<exists>v. dec v = Some y \<and> (current w0 key v \<or> clock w \<le> T)))"
      by (rule pg_cache.GetOrFetch_settled [OF conjI [OF that(1,2)] assms(2)]) (rule step)
    then show ?thesis by blast
  qed
qed

text \<open>The three cached reads.\<close>

lemma snd_on_error [simp]: "snd (on_error g m w) = snd (m w)"
  by (simp add: on_error_def split: prod.splits sum.splits)

lemma snd_bind_return [simp]: "snd (bind_io m (\<lambda>x. return_io (f x)) w) = snd (m w)"
  by (simp add: bind_io_def return_io_def split: prod.splits sum.splits)

lemma read_catalog_cached:
  obtains (product) i r where "q = ReadProduct i" "GetOrFetch rnd (NewCacheManager (Some memory_cache) None l) CProduct
      as_product (product_key i) fifteen_min (bind_io (GetProductByID_pg i) (\<lambda>p. return_io (Some p))) w =
      (r, read_catalog rnd (catalog_service_pg dec l) q w)"
  | (variant) v r where "q = ReadVariant v" "GetOrFetch rnd (NewCacheManager (Some memory_cache) None l) CProduct
      as_product (variant_key v) fifteen_min (bind_io (GetProductByVariantID_pg v) (\<lambda>p. return_io (Some p))) w =
      (r, read_catalog rnd (catalog_service_pg dec l) q w)"
  | (category) c r where "q = ReadCategory c" "GetOrFetch rnd (NewCacheManager (Some memory_cache) None l) CCategory
      as_category (category_key c) fifteen_min (bind_io (GetCategoryByID_pg c) (\<lambda>p. return_io (Some p))) w =
      (r, read_catalog rnd (catalog_service_pg dec l) q w)"
proof (cases q)
  case (ReadProduct i)
  with product [of i] show thesis
    by (simp add: read_catalog_def GetProduct_def cached_product_def) (metis prod.collapse)
next
  case (ReadVariant v)
  with variant [of v] show thesis
    by (simp add: read_catalog_def GetProductByVariantID_def cached_product_def) (metis prod.collapse)
next
  case (ReadCategory c)
  with category [of c] show thesis
    by (simp add: read_catalog_def GetCategory_def) (metis prod.collapse)
qed

lemma read_catalog_lives: "lives (lifetime l) w \<Longrightarrow> lives (lifetime l) (read_catalog rnd (catalog_service_pg dec l) q w)"
  by (rule read_catalog_cached [of q rnd l w dec]) (use cached_read(1) keeps_reads in blast)+

lemma read_catalog_settles:
  fixes w :: "'a catalog_db_scheme"
  assumes "plain_read q" "settling (current w0) T w" "same_data w0 w"
  shows "settling (current w0) T (read_catalog rnd (catalog_service_pg dec l) q w) \<and>
    same_data w0 (read_catalog rnd (catalog_service_pg dec l) q w)"
proof -
  have now: "current w0 (product_key i) (CProduct p)"
    if "GetProductByID_pg i v = (Inr p, v')" "same_data w0 v" for i v p v'
    using GetProductByID_ok [OF that(1)] same_data_now(1) [OF that(2)] by (auto simp: current_def key_clash)
  have other: "current w0 (variant_key v) x" "current w0 (category_key c) x" for v c x
    using key_clash(2,3) unfolding current_def by blast+
  show ?thesis
  proof (cases rule: read_catalog_cached [of q rnd l w dec])
    case (product i r)
    from cached_read(2) [OF keeps_GetProductByID product(2) assms(2,3)] now show ?thesis by blast
  next
    case (variant v r)
    from cached_read(2) [OF keeps_GetProductByVariantID variant(2) assms(2,3)] other show ?thesis by blast
  next
    case (category c r)
    from cached_read(2) [OF keeps_GetCategoryByID category(2) assms(2,3)] other show ?thesis by blast
  qed
qed

text \<open>
  A catalog with its cache: reads, invalidations, and anything that changes the tables and leaves the
  cache alone, in any order; then only reads (and time).
\<close>

inductive catalog_life :: "decimal_column \<Rightarrow> int \<Rightarrow> 'a catalog_db_scheme \<Rightarrow> bool" for dec l where
  start: "maItems (mem w) = [] \<Longrightarrow> 0 \<le> clock w \<Longrightarrow> catalog_life dec l w"
| reading: "catalog_life dec l w \<Longrightarrow> catalog_life dec l (read_catalog rnd (catalog_service_pg dec l) q w)"
| invalidation: "catalog_life dec l w \<Longrightarrow> catalog_life dec l (snd (Invalidate (csCache (catalog_service_pg dec l)) k w))"
| change: "catalog_life dec l w \<Longrightarrow> mem w' = mem w \<Longrightarrow> clock w \<le> clock w' \<Longrightarrow> catalog_life dec l w'"

inductive catalog_quiet :: "decimal_column \<Rightarrow> int \<Rightarrow> 'a catalog_db_scheme \<Rightarrow> 'a catalog_db_scheme \<Rightarrow> bool" for dec l w0 where
  stay: "catalog_quiet dec l w0 w0"
| reading: "catalog_quiet dec l w0 w \<Longrightarrow> plain_read q \<Longrightarrow>
     catalog_quiet dec l w0 (read_catalog rnd (catalog_service_pg dec l) q w)"
| waiting: "catalog_quiet dec l w0 w \<Longrightarrow> same_tables w w' \<Longrightarrow> clock w \<le> clock w' \<Longrightarrow> catalog_quiet dec l w0 w'"

lemma catalog_life_lives: "catalog_life dec l w \<Longrightarrow> lives (lifetime l) w"
proof (induction rule: catalog_life.induct)
  case (start w)
  then show ?case by (simp add: lives_def settling_def)
next
  case (invalidation w k)
  have "fewer (items w) (items (put_items (AList.delete k (items w)) w))" by (simp add: fewer_delete)
  with invalidation(2) settling_fewer Invalidate_memory [unfolded memory_manager_def, of l k w]
  show ?case by (fastforce simp: lives_def put_items_def)
qed (auto intro: read_catalog_lives lives_later)

lemma catalog_quiet_settles:
  "catalog_quiet dec l w0 w \<Longrightarrow> settling (current w0) T w0 \<Longrightarrow> settling (current w0) T w \<and> same_data w0 w"
proof (induction rule: catalog_quiet.induct)
  case stay
  then show ?case by (simp add: same_data_def)
next
  case (reading w q rnd)
  then show ?case using read_catalog_settles by blast
next
  case (waiting w w')
  then show ?case by (auto simp: same_data_tables intro: settling_same same_data_trans)
qed

text \<open>C19. Stale answers end: whatever reads, invalidations and changes of the tables came before (also changes
that no invalidation followed), once the tables stay as they are, a \<open>GetProduct\<close> that answers later than the
life time of a cached item after the last change shows the product as it is in the tables. (The id must not
look like a key of a variant, \<open>variant:...\<close>.)\<close>
theorem cached_product_converges:
  assumes "catalog_life dec l w0" and "catalog_quiet dec l w0 w1" and "clock w0 + lifetime l < clock w1"
    and "plain_id i" and "GetProduct rnd (catalog_service_pg dec l) i w1 = (Inr resp, w2)"
  shows "\<exists>p. product_now w0 i = Some p \<and> resp = mapProductToResponse p True"
proof -
  let ?T = "clock w0 + lifetime l"
  have "settling (current w0) ?T w0"
    using catalog_life_lives [OF assms(1)] by (auto simp: lives_def intro: settling_weaken)
  from catalog_quiet_settles [OF assms(2) this] have s: "settling (current w0) ?T w1" "same_data w0 w1" by simp_all
  obtain p w3 where p: "GetOrFetch rnd (NewCacheManager (Some memory_cache) None l) CProduct as_product (product_key i)
      fifteen_min (bind_io (GetProductByID_pg i) (\<lambda>p. return_io (Some p))) w1 = (Inr p, w3)"
    "resp = mapProductToResponse p True"
    using assms(5) by (auto simp: GetProduct_def bind_io_Inr cached_product_def)
  have "current w0 (product_key i) (CProduct q)"
    if "GetProductByID_pg i v = (Inr q, v')" "same_data w0 v" for v q v'
    using GetProductByID_ok [OF that(1)] same_data_now(1) [OF that(2)] by (auto simp: current_def key_clash)
  from cached_read(2) [OF keeps_GetProductByID p(1) s this] assms(3) obtain v where
    "as_product v = Some p" "current w0 (product_key i) v" by fastforce
  with assms(4) p(2) show ?thesis
    by (auto simp: current_def as_product_def split: cached.splits)
qed

section \<open>Deleting a category\<close>

lemma in_category_matches: "product_matches (in_category i) w d \<longleftrightarrow> dpCategoryID d = Some i"
  by (cases "product_variants w (dpID d)") (auto simp: product_matches_def row_matches_def in_category_def)

lemma filter_page_Nil: "filter_page (in_category i) xs = [] \<longleftrightarrow> xs = []"
  by (simp add: filter_page_def in_category_def sql_page_def)

lemma ListProducts_in_category:
  assumes "ListProducts_pg (in_category i) w = (Inr ps, w')"
  shows "same_tables w w' \<and> (ps = [] \<longleftrightarrow> (\<forall>d\<in>set (products_tbl w). dpCategoryID d \<noteq> Some i)) \<and>
    (\<forall>p\<in>set ps. prodCategoryID p = i)"
proof -
  obtain ds w1 where ds: "sql (\<lambda>w. (Inr (filter_page (in_category i) (filter (product_matches (in_category i) w)
      (products_tbl w))), w)) w = (Inr ds, w1)"
    and rest: "(if \<exists>d\<in>set ds. dpCategoryID d = None then fail_io (ErrText ''converting NULL to string is unsupported'')
       else if ds = [] then return_io []
       else bind_io (sql (\<lambda>w. (Inr (map (\<lambda>d. product_variants w (dpID d)) ds), w)))
         (\<lambda>vss. bind_io (sql (\<lambda>w. (Inr (map (\<lambda>d. product_images w (dpID d)) ds), w)))
           (\<lambda>imgss. return_io (map (\<lambda>(d, vs, imgs). toDomainProduct d vs imgs) (zip ds (zip vss imgss)))))) w1 = (Inr ps, w')"
    using assms unfolding ListProducts_pg_def by (elim bind_io_ok)
  note s1 = sql_pure_ok [OF ds]
  have d: "d \<in> set ds \<Longrightarrow> dpCategoryID d = Some i" for d
    using s1 by (auto simp: filter_page_def sql_page_def in_category_matches dest!: in_set_takeD in_set_dropD)
  have nil: "ds = [] \<longleftrightarrow> (\<forall>d\<in>set (products_tbl w). dpCategoryID d \<noteq> Some i)"
    using s1 by (auto simp: filter_page_Nil filter_empty_conv in_category_matches same_tables_def)
  show ?thesis
  proof (cases "ds = []")
    case True
    with rest nil s1 show ?thesis by auto
  next
    case False
    with rest d obtain vss imgss w2 where v: "sql (\<lambda>w. (Inr (map (\<lambda>d. product_variants w (dpID d)) ds), w)) w1 = (Inr vss, w2)"
      and g: "sql (\<lambda>w. (Inr (map (\<lambda>d. product_images w (dpID d)) ds), w)) w2 = (Inr imgss, w')"
      and ps: "ps = map (\<lambda>(d, vs, imgs). toDomainProduct d vs imgs) (zip ds (zip vss imgss))"
      by (auto split: if_splits elim!: bind_io_ok)
    note s2 = sql_pure_ok [OF v] and s3 = sql_pure_ok [OF g]
    have "length ps = length ds" using ps s2 s3 by simp
    moreover have "\<forall>p\<in>set ps. prodCategoryID p = i"
      using ps d by (auto simp: toDomainProduct_def dest!: set_zip_leftD)
    moreover have "same_tables w w'" using s1 s2 s3 by (auto intro: same_tables_trans)
    ultimately show ?thesis using False nil by auto
  qed
qed

text \<open>A category can only be deleted when nothing uses it: when \<open>DeleteCategory\<close> answers without an
error, no product was in the category and no category below it, every product and every other category is
as before, and the category is gone; so the \<open>ON DELETE SET NULL\<close> of the tables, after which a product
could not be read any more, never takes effect.\<close>
theorem delete_category_unused:
  assumes "DeleteCategory (catalog_service_pg dec l) i w = (Inr (), w')"
  shows "(\<forall>d\<in>set (products_tbl w). dpCategoryID d \<noteq> Some i) \<and> products_tbl w' = products_tbl w \<and>
    categories_tbl w' = filter (\<lambda>c. catID c \<noteq> i) (categories_tbl w) \<and>
    (\<forall>c\<in>set (categories_tbl w). catParentID c \<noteq> Some i)"
proof -
  obtain ps w1 cats w2 w3 where ps: "ListProducts_pg (in_category i) w = (Inr ps, w1)"
    and cats: "ListCategories_pg w1 = (Inr cats, w2)" and del: "DeleteCategory_pg i w2 = (Inr (), w3)"
    and inv: "invalidate_logged (catalog_service_pg dec l) (category_key i) w3 = (Inr (), w')"
    and guards: "\<forall>p\<in>set ps. prodCategoryID p \<noteq> i" "\<forall>c\<in>set cats. catParentID c \<noteq> Some i"
    using assms by (auto simp: DeleteCategory_def bind_io_Inr split: if_splits)
  note p = ListProducts_in_category [OF ps]
  have "ps = []" using p guards(1) by (cases ps) auto
  with p have none: "\<forall>d\<in>set (products_tbl w). dpCategoryID d \<noteq> Some i" by simp
  have c: "same_tables w1 w2 \<and> cats = categories_tbl w2"
    using cats unfolding ListCategories_pg_def by (rule sql_pure_ok)
  then have s: "same_tables w w2" using p same_tables_trans by blast
  have keep: "map (\<lambda>d. if dpCategoryID d = Some i then d\<lparr>dpCategoryID := None\<rparr> else d) ps = ps"
    if "\<forall>d\<in>set ps. dpCategoryID d \<noteq> Some i" for ps using that by (induction ps) auto
  have keep': "map (\<lambda>c. if catParentID c = Some i then c\<lparr>catParentID := None\<rparr> else c) (filter P cs) = filter P cs"
    if "\<forall>c\<in>set cs. catParentID c \<noteq> Some i" for cs P using that by (induction cs) auto
  have "products_tbl w3 = products_tbl w \<and> categories_tbl w3 = filter (\<lambda>c. catID c \<noteq> i) (categories_tbl w)"
    using del unfolding DeleteCategory_pg_def
    by (cases rule: sql_cases) (use s c none guards(2) keep keep' in \<open>auto simp: same_tables_def split: if_splits\<close>)
  moreover have "same_data w3 w'" using inv by (simp add: invalidate_logged_pg) (metis put_items_data(2))
  ultimately show ?thesis using none guards(2) c s by (auto simp: same_data_def same_tables_def)
qed

section \<open>Witnesses\<close>

definition shelf :: "int \<Rightarrow> catalog_db" where
  "shelf v = sample_catalog [sample_product ''1'' ''a'' v] [(''1'', sample_variant ''9'' 100 5)] [] [sample_category ''a'' None]"

definition offer :: "string \<Rightarrow> int \<Rightarrow> Product" where
  "offer nm v = (request_product ''1'' nm [] ''a'' [sample_variant ''9'' 80 0])\<lparr>prodVersion := v\<rparr>"

lemma shelf_distinct: "distinct (map dpID (products_tbl (shelf v)))"
  by (simp add: shelf_def sample_catalog_def)

theorem optimistic_lock_witness:
  "\<exists>q w1. UpdateProduct_pg Some (offer ''x'' 3) (shelf 3) = (Inr q, w1) \<and>
     isl (fst (UpdateProduct_pg Some (offer ''y'' 3) w1)) \<and> version_of w1 ''1'' = Some 4"
proof -
  obtain r w1 where run: "UpdateProduct_pg Some (offer ''x'' 3) (shelf 3) = (r, w1)" by fastforce
  have "\<not> isl (fst (UpdateProduct_pg Some (offer ''x'' 3) (shelf 3)))" by code_simp
  with run obtain q where q: "UpdateProduct_pg Some (offer ''x'' 3) (shelf 3) = (Inr q, w1)" by (cases r) auto
  obtain r2 w3 where second: "UpdateProduct_pg Some (offer ''y'' 3) w1 = (r2, w3)" by fastforce
  from optimistic_lock [OF shelf_distinct q refl _ _ second] q second show ?thesis
    by (auto simp: offer_def request_product_def)
qed

theorem api_update_once_witness:
  "let svc = catalog_service_pg Some 0; vs = [sample_variant ''9'' 80 7] in
   \<exists>q w1. http_UpdateProduct svc ''1'' ''x'' [] ''a'' vs (shelf 0) = (Inr q, w1) \<and>
     isl (fst (http_UpdateProduct svc ''1'' ''y'' [] ''a'' vs w1))"
proof -
  let ?svc = "catalog_service_pg Some 0" and ?vs = "[sample_variant ''9'' 80 7]"
  obtain r w1 where run: "http_UpdateProduct ?svc ''1'' ''x'' [] ''a'' ?vs (shelf 0) = (r, w1)" by fastforce
  have "\<not> isl (fst (http_UpdateProduct ?svc ''1'' ''x'' [] ''a'' ?vs (shelf 0)))" by code_simp
  with run obtain q where q: "http_UpdateProduct ?svc ''1'' ''x'' [] ''a'' ?vs (shelf 0) = (Inr q, w1)" by (cases r) auto
  obtain r2 w3 where second: "http_UpdateProduct ?svc ''1'' ''y'' [] ''a'' ?vs w1 = (r2, w3)" by fastforce
  from api_update_once [OF shelf_distinct q refl second] q second show ?thesis by (auto simp: Let_def)
qed

theorem read_your_update_witness:
  "let svc = catalog_service_pg Some 0; w = snd (GetProduct 0 svc ''1'' (shelf 3)) in
   \<exists>q w1 resp w2. maItems (mem w) \<noteq> [] \<and> UpdateProduct svc (offer ''x'' 3) w = (Inr q, w1) \<and>
     GetProduct 0 svc ''1'' w1 = (Inr resp, w2) \<and> prName resp = ''x''"
proof -
  let ?svc = "catalog_service_pg Some 0 :: catalog_db catalogService"
  let ?w = "snd (GetProduct 0 ?svc ''1'' (shelf 3))"
  have k: "maItems (mem ?w) \<noteq> [] \<and> map dpID (products_tbl ?w) = [''1''] \<and>
      \<not> isl (fst (UpdateProduct ?svc (offer ''x'' 3) ?w)) \<and>
      \<not> isl (fst (GetProduct 0 ?svc ''1'' (snd (UpdateProduct ?svc (offer ''x'' 3) ?w))))" by code_simp
  then obtain q w1 resp w2 where run: "UpdateProduct ?svc (offer ''x'' 3) ?w = (Inr q, w1)"
    "GetProduct 0 ?svc ''1'' w1 = (Inr resp, w2)"
    by (cases "UpdateProduct ?svc (offer ''x'' 3) ?w"; cases "fst (UpdateProduct ?svc (offer ''x'' 3) ?w)";
        cases "GetProduct 0 ?svc ''1'' (snd (UpdateProduct ?svc (offer ''x'' 3) ?w))";
        cases "fst (GetProduct 0 ?svc ''1'' (snd (UpdateProduct ?svc (offer ''x'' 3) ?w)))") auto
  have id: "prodID (offer ''x'' 3) = ''1''" by (simp add: offer_def request_product_def)
  have "distinct (map dpID (products_tbl ?w))" using k by simp
  from read_your_update [OF this run(1)] run(2) id
  have "map_option (\<lambda>p'. mapProductToResponse p' True) (stored_product Some (offer ''x'' 3) 0) = Some resp" by simp
  moreover have "map_option (\<lambda>p'. prName (mapProductToResponse p' True)) (stored_product Some (offer ''x'' 3) 0) = Some ''x''"
    by code_simp
  ultimately have "prName resp = ''x''" by auto
  with k run show ?thesis unfolding Let_def by blast
qed

theorem delete_category_unused_witness:
  "let w = sample_catalog [sample_product ''1'' ''a'' 0] [] [] [sample_category ''a'' None, sample_category ''b'' (Some ''a'')]
   in \<exists>w'. DeleteCategory (catalog_service_pg Some 0) ''b'' w = (Inr (), w') \<and> categories_tbl w' = [sample_category ''a'' None]"
proof -
  let ?w = "sample_catalog [sample_product ''1'' ''a'' 0] [] [] [sample_category ''a'' None, sample_category ''b'' (Some ''a'')]"
  obtain r w' where run: "DeleteCategory (catalog_service_pg Some 0) ''b'' ?w = (r, w')" by fastforce
  have "\<not> isl (fst (DeleteCategory (catalog_service_pg Some 0) ''b'' ?w))" by code_simp
  with run have ok: "DeleteCategory (catalog_service_pg Some 0) ''b'' ?w = (Inr (), w')" by (cases r) auto
  from delete_category_unused [OF ok] ok show ?thesis
    by (simp add: sample_catalog_def sample_category_def Let_def)
qed

theorem cached_product_converges_witness:
  "let svc = catalog_service_pg Some 0; w = read_catalog 0 svc (ReadProduct ''1'') (shelf 3);
     w0 = w\<lparr>products_tbl := [(sample_product ''1'' ''a'' 4)\<lparr>dpName := ''new''\<rparr>]\<rparr>;
     w1 = w0\<lparr>clock := 70 * 1000000000\<rparr>
   in \<exists>resp w2. GetProduct 0 svc ''1'' w1 = (Inr resp, w2) \<and> prName resp = ''new'' \<and>
     map_sum id prName (fst (GetProduct 0 svc ''1'' w0)) = Inr ''p1''"
proof -
  let ?svc = "catalog_service_pg Some 0 :: catalog_db catalogService"
  let ?w = "read_catalog 0 ?svc (ReadProduct ''1'') (shelf 3)"
  let ?w0 = "?w\<lparr>products_tbl := [(sample_product ''1'' ''a'' 4)\<lparr>dpName := ''new''\<rparr>]\<rparr>"
  let ?w1 = "?w0\<lparr>clock := 70 * 1000000000\<rparr>"
  have "catalog_life Some 0 (shelf 3)" by (rule catalog_life.start) (simp_all add: shelf_def sample_catalog_def NewMemoryAdapter_def)
  note used = catalog_life.reading [OF this, of 0 "ReadProduct ''1''"]
  have life: "catalog_life Some 0 ?w0" by (rule catalog_life.change [OF used]) simp_all
  have k: "\<not> isl (fst (GetProduct 0 ?svc ''1'' ?w1)) \<and> clock ?w = 100 \<and> lifetime 0 = 60 * 1000000000 \<and>
      map_option prodName (product_now ?w0 ''1'') = Some ''new'' \<and>
      map_sum id prName (fst (GetProduct 0 ?svc ''1'' ?w0)) = Inr ''p1''" by code_simp
  then have quiet: "catalog_quiet Some 0 ?w0 ?w1"
    by (intro catalog_quiet.waiting [OF catalog_quiet.stay]) (simp_all add: same_tables_def)
  obtain resp w2 where g: "GetProduct 0 ?svc ''1'' ?w1 = (Inr resp, w2)"
    using k by (cases "GetProduct 0 ?svc ''1'' ?w1"; cases "fst (GetProduct 0 ?svc ''1'' ?w1)") auto
  have "\<exists>p. product_now ?w0 ''1'' = Some p \<and> resp = mapProductToResponse p True"
    by (rule cached_product_converges [OF life quiet _ _ g]) (use k in \<open>simp_all add: plain_id_def\<close>)
  then have "prName resp = ''new''" using k by (auto simp: mapProductToResponse_def)
  with g k show ?thesis unfolding Let_def by blast
qed

end
