(* ===== verification/CatalogFeatureProps.thy ===== *)
theory CatalogFeatureProps
  imports CatalogFeatures CatalogProps
begin

text \<open>
  Properties of the catalog's features. \<open>part_store\<close> is what the variant and the image service rely on:
  a repository that reads a product and replaces one of its lists. It is interpreted for both lists
  on PostgreSQL, so what every edit of a list keeps holds over any run of requests.
\<close>

section \<open>Replacing a list of a product\<close>

locale part_store =
  fixes get :: "string \<Rightarrow> ('a env_scheme, Product) io" and put :: "string \<Rightarrow> 'p list \<Rightarrow> ('a env_scheme, unit) io"
    and proj :: "Product \<Rightarrow> 'p list" and part :: "'a env_scheme \<Rightarrow> string \<Rightarrow> 'p list" and stored :: "'p \<Rightarrow> 'p"
    and storable :: "'p \<Rightarrow> bool" and key :: "'p \<Rightarrow> string"
  assumes read: "get i w = (r, w1) \<Longrightarrow> part w1 = part w \<and> (case r of Inl _ \<Rightarrow> True | Inr p \<Rightarrow> proj p = part w i)"
    and written: "put i xs w = (Inr u, w1) \<Longrightarrow> part w1 = (part w)(i := map stored xs) \<and>
      (\<forall>x\<in>set xs. storable x) \<and> distinct (map key xs)"
    and refused: "put i xs w = (Inl e, w1) \<Longrightarrow> part w1 = part w"
    and apart: "env.more w1 = env.more w \<Longrightarrow> part w1 = part w"
begin

text \<open>One list was replaced by a new one that is \<open>Q\<close> to the old one, or nothing happened.\<close>

definition edited :: "string \<Rightarrow> ('p list \<Rightarrow> 'p list \<Rightarrow> bool) \<Rightarrow> 'a env_scheme \<Rightarrow> 'a env_scheme \<Rightarrow> bool" where
  "edited i Q w w1 \<longleftrightarrow> part w1 = part w \<or> (\<exists>xs. Q (part w i) xs \<and> part w1 = (part w)(i := map stored xs) \<and>
     (\<forall>x\<in>set xs. storable x) \<and> distinct (map key xs))"

lemma edited_same: "part w1 = part w \<Longrightarrow> edited i Q w w1"
  by (simp add: edited_def)

lemma edited_put: "on_error g (put i xs) w = (r, w1) \<Longrightarrow> Q (part w i) xs \<Longrightarrow> edited i Q w w1"
proof -
  assume run: "on_error g (put i xs) w = (r, w1)" and q: "Q (part w i) xs"
  obtain x where x: "put i xs w = (x, w1)" using run by (auto simp: on_error_def split: prod.splits sum.splits)
  show ?thesis
  proof (cases x)
    case (Inl e)
    with x refused show ?thesis by (auto intro: edited_same)
  next
    case (Inr u)
    with x written [of i xs w u w1] q show ?thesis by (auto simp: edited_def)
  qed
qed

text \<open>Every operation reads the product first; what follows may rest on the list it found.\<close>

lemma edited_read:
  assumes run: "bind_io (on_error f (get i)) k w = (r, w1)"
    and go: "\<And>p v x v'. proj p = part v i \<Longrightarrow> k p v = (x, v') \<Longrightarrow> edited i Q v v'"
  shows "edited i Q w w1"
proof -
  obtain x v where x: "get i w = (x, v)" by fastforce
  note rd = read [OF x]
  show ?thesis
  proof (cases x)
    case (Inl e)
    with run x rd show ?thesis by (auto simp: bind_io_def on_error_def intro: edited_same)
  next
    case (Inr p)
    with run x have "k p v = (r, w1)" by (simp add: bind_io_def on_error_def)
    from go [OF _ this] rd Inr show ?thesis by (simp add: edited_def)
  qed
qed

lemma edited_from: "part v = part w \<Longrightarrow> edited i Q v w1 \<Longrightarrow> edited i Q w w1"
  by (simp add: edited_def)

text \<open>An invariant of single lists is kept when every edit makes a good list of a good one.\<close>

lemma edited_invariant:
  assumes "edited i Q w w1" "\<And>j. P j (part w j)"
    and good: "\<And>old xs. P i old \<Longrightarrow> Q old xs \<Longrightarrow> \<forall>x\<in>set xs. storable x \<Longrightarrow> distinct (map key xs) \<Longrightarrow> P i (map stored xs)"
  shows "P j (part w1 j)"
proof (cases "part w1 = part w")
  case False
  with assms(1) obtain xs where xs: "Q (part w i) xs" "part w1 = (part w)(i := map stored xs)" "\<forall>x\<in>set xs. storable x"
    "distinct (map key xs)" by (auto simp: edited_def)
  from good [OF assms(2) this(1,3,4)] xs(2) assms(2) show ?thesis by simp
qed (simp add: assms(2))

end

section \<open>The variant service\<close>

lemma variant_index_Some: "variant_index i vs = Some k \<Longrightarrow> k < length vs \<and> varID (vs ! k) = i"
  by (induction vs arbitrary: k) (auto split: if_splits)

lemma ValidateVariants_None:
  "ValidateVariants vs = None \<longleftrightarrow> distinct (map (trim_space \<circ> varSKU) vs) \<and>
     (\<forall>v\<in>set vs. 0 \<le> varPrice v \<and> trim_space (varSKU v) \<noteq> [])"
  by (auto simp: ValidateVariants_def validate_variants_None)

lemma ValidateVariants_less:
  "ValidateVariants vs = None \<Longrightarrow> ValidateVariants (take k vs @ drop (Suc k) vs) = None"
proof -
  assume v: "ValidateVariants vs = None"
  have "distinct (map f (take k vs @ drop (Suc k) vs))" if "distinct (map f vs)" for f :: "Variant \<Rightarrow> string"
    using that set_take_disj_set_drop_if_distinct [of "map f vs" k "Suc k"]
    by (simp flip: take_map drop_map)
  then have "distinct (map (trim_space \<circ> varSKU) (take k vs @ drop (Suc k) vs))" using v by (simp only: ValidateVariants_None)
  moreover have "set (take k vs @ drop (Suc k) vs) \<subseteq> set vs" by (auto dest: in_set_takeD in_set_dropD)
  ultimately show ?thesis using v unfolding ValidateVariants_None by blast
qed

text \<open>What the service may make of a product's variants: a valid nonempty list, or one variant less.\<close>

definition variant_edit :: "Variant list \<Rightarrow> Variant list \<Rightarrow> bool" where
  "variant_edit old vs \<longleftrightarrow> vs \<noteq> [] \<and> (ValidateVariants old = None \<longrightarrow> ValidateVariants vs = None)"

locale variant_store = part_store "vrGetProductByID r" "vrUpdateProductVariants r" prodVariants part stored storable varID
  for r :: "('a env_scheme) VariantRepository" and part stored storable
begin

lemma store_variants_edited:
  "store_variants r i m vs w = (u, w1) \<Longrightarrow> vs \<noteq> [] \<Longrightarrow> edited i variant_edit w w1"
  by (auto simp: store_variants_def fail_io_def variant_edit_def split: option.splits intro: edited_same edited_put)

lemma AddVariant_edited:
  assumes "AddVariant r i v w = (u, w1)"
  shows "edited i variant_edit w w1"
  using assms unfolding AddVariant_def
proof (rule edited_read)
  fix p v0 x v'
  assume run: "bind_io (if varID v = [] then bind_io (on_error (\<lambda>e. NewInternal ''failed to generate variant ID'' (Some e))
        (Generate ''var_'')) (\<lambda>i. return_io (v\<lparr>varID := i\<rparr>)) else return_io v)
      (\<lambda>v1. store_variants r i ''failed to add variant'' (prodVariants p @ [v1])) v0 = (x, v')"
  obtain g v1 where g: "Generate ''var_'' v0 = (g, v1)" by fastforce
  have same: "part v1 = part v0" using g by (elim GenerateE) (auto intro: apart)
  show "edited i variant_edit v0 v'"
  proof (cases "varID v = []")
    case False
    with run show ?thesis by (auto simp: bind_io_def return_io_def intro: store_variants_edited)
  next
    case True
    with run g same show ?thesis
      by (cases g) (auto simp: bind_io_def return_io_def on_error_def
        intro: edited_same edited_from [OF same] store_variants_edited)
  qed
qed

lemma UpdateVariant_edited:
  assumes "UpdateVariant r i v w = (u, w1)"
  shows "edited i variant_edit w w1"
  using assms unfolding UpdateVariant_def
  by (rule edited_read) (fastforce simp: fail_io_def split: if_splits option.splits
    intro: edited_same elim: store_variants_edited dest: variant_index_Some)

lemma DeleteVariant_edited:
  assumes "DeleteVariant r i v w = (u, w1)"
  shows "edited i variant_edit w w1"
  using assms unfolding DeleteVariant_def
proof (rule edited_read)
  fix p v0 x v'
  assume p: "prodVariants p = part v0 i"
    and run: "(if length (prodVariants p) \<le> 1
      then fail_io (NewBadRequest ''cannot delete variant: products must have at least one variant'' None)
      else (case variant_index v (prodVariants p) of
         None \<Rightarrow> fail_io (variant_missing v)
       | Some k \<Rightarrow> on_error (\<lambda>e. NewInternal ''failed to delete variant'' (Some e)) (vrUpdateProductVariants r i
           (take k (prodVariants p) @ drop (Suc k) (prodVariants p))))) v0 = (x, v')"
  show "edited i variant_edit v0 v'"
  proof (cases "length (prodVariants p) \<le> 1 \<or> variant_index v (prodVariants p) = None")
    case True
    with run show ?thesis by (auto simp: fail_io_def intro: edited_same split: if_splits)
  next
    case False
    then obtain k where k: "variant_index v (prodVariants p) = Some k" by auto
    then have "length (take k (prodVariants p) @ drop (Suc k) (prodVariants p)) = length (prodVariants p) - 1"
      using variant_index_Some [OF k] by simp
    with False have "variant_edit (part v0 i) (take k (prodVariants p) @ drop (Suc k) (prodVariants p))"
      using p ValidateVariants_less [of "part v0 i" k] unfolding variant_edit_def by fastforce
    with run False k show ?thesis by (auto intro: edited_put)
  qed
qed

end

section \<open>The image service\<close>

text \<open>What is relied on of the file storage: it does not touch what is stored of products.\<close>

definition storage_keeps :: "('w \<Rightarrow> 'v) \<Rightarrow> 'w FileStorage \<Rightarrow> bool" where
  "storage_keeps part st \<longleftrightarrow> (\<forall>b k w. part (snd (fsDelete st b k w)) = part w) \<and>
     (\<forall>b k t w. part (snd (fsPresignUpload st b k t w)) = part w) \<and> (\<forall>b k w. part (snd (fsGetPublicURL st b k w)) = part w)"

lemma storage_keepsD:
  assumes "storage_keeps part st"
  shows "fsDelete st b k w = (x, w1) \<Longrightarrow> part w1 = part w" "fsPresignUpload st b k t w = (y, w1) \<Longrightarrow> part w1 = part w"
    "fsGetPublicURL st b k w = (z, w1) \<Longrightarrow> part w1 = part w"
  using assms unfolding storage_keeps_def by (metis snd_conv)+

definition own_key :: "string \<Rightarrow> string \<Rightarrow> bool" where
  "own_key pid k \<longleftrightarrow> has_prefix (''products/'' @ pid @ ''/'') k \<and> \<not> contains k ''..''"

definition proper_images :: "string \<Rightarrow> ProductImage list \<Rightarrow> bool" where
  "proper_images pid gs \<longleftrightarrow> distinct (map imgID gs) \<and> (gs \<noteq> [] \<longrightarrow> (\<exists>g\<in>set gs. imgIsPrimary g)) \<and>
     (\<forall>g\<in>set gs. imgKey g = [] \<or> own_key pid (imgKey g))"

definition image_edit :: "string \<Rightarrow> ProductImage list \<Rightarrow> ProductImage list \<Rightarrow> bool" where
  "image_edit pid old gs \<longleftrightarrow> (proper_images pid old \<and> distinct (map imgID gs) \<longrightarrow> proper_images pid gs)"

lemma first_primary_sel [simp]:
  "map imgID (first_primary gs) = map imgID gs" "map imgKey (first_primary gs) = map imgKey gs"
  "first_primary gs = [] \<longleftrightarrow> gs = []" "gs \<noteq> [] \<Longrightarrow> \<exists>g\<in>set (first_primary gs). imgIsPrimary g"
  by (cases gs; simp add: first_primary_def)+

lemma first_primary_keys: "(\<forall>g\<in>set (first_primary gs). P (imgKey g)) \<longleftrightarrow> (\<forall>g\<in>set gs. P (imgKey g))"
  by (cases gs) (simp_all add: first_primary_def)

lemma register_edit:
  assumes "\<forall>g\<in>set new. own_key pid (imgKey g)" "new \<noteq> []"
  shows "image_edit pid old (old @ (if old = [] then first_primary new else new))"
  using assms first_primary_sel(4) [OF assms(2)] first_primary_keys [of new "\<lambda>k. k = [] \<or> own_key pid k"]
  by (auto simp: image_edit_def proper_images_def)

lemma delete_edit:
  assumes "i \<in> imgID ` set old"
  shows "image_edit pid old (let rest = filter (\<lambda>g. imgID g \<noteq> i) old in
    if imgIsPrimary (last (filter (\<lambda>g. imgID g = i) old)) then first_primary rest else rest)"
proof (cases "proper_images pid old")
  case True
  let ?hits = "filter (\<lambda>g. imgID g = i) old" and ?rest = "filter (\<lambda>g. imgID g \<noteq> i) old"
  have "?hits \<noteq> []" using assms by (auto simp: filter_empty_conv)
  then have l: "last ?hits \<in> set old" "imgID (last ?hits) = i" using last_in_set [of ?hits] by auto
  have one: "g = last ?hits" if "g \<in> set old" "imgID g = i" for g
    using True that l by (metis proper_images_def distinct_map inj_onD)
  have keys: "\<forall>g\<in>set ?rest. imgKey g = [] \<or> own_key pid (imgKey g)" using True by (simp add: proper_images_def)
  show ?thesis
  proof (cases "imgIsPrimary (last ?hits)")
    case True
    then show ?thesis using keys first_primary_keys [of ?rest "\<lambda>k. k = [] \<or> own_key pid k"] first_primary_sel(4) [of ?rest]
      by (simp add: image_edit_def proper_images_def Let_def)
  next
    case False
    obtain h where "h \<in> set old" "imgIsPrimary h" using True l(1) unfolding proper_images_def by force
    with False one have "h \<in> set ?rest" "imgIsPrimary h" by auto
    with keys False show ?thesis by (auto simp: image_edit_def proper_images_def Let_def)
  qed
qed (simp add: image_edit_def)

lemma primary_edit:
  "i \<in> imgID ` set old \<Longrightarrow> image_edit pid old (map (\<lambda>g. g\<lparr>imgIsPrimary := imgID g = i\<rparr>) old)"
  by (auto simp: image_edit_def proper_images_def comp_def)

lemma map_io_kept:
  assumes "\<And>x v r v'. f x v = (r, v') \<Longrightarrow> part v' = part v \<and> (\<forall>y. r = Inr y \<longrightarrow> P y)"
  shows "map_io f xs w = (r, w') \<Longrightarrow> part w' = part w \<and> (\<forall>ys. r = Inr ys \<longrightarrow> (\<forall>y\<in>set ys. P y) \<and> length ys = length xs)"
proof (induction xs arbitrary: w r w')
  case (Cons x xs)
  obtain a w1 where a: "f x w = (a, w1)" by fastforce
  obtain b w2 where b: "map_io f xs w1 = (b, w2)" by fastforce
  from assms [OF a] Cons.IH [OF b] Cons.prems a b show ?case
    by (cases a; cases b) (auto simp: bind_io_def return_io_def)
qed (simp add: return_io_def)

locale image_store = part_store "igGetProductByID r" "igUpdateProductImages r" prodImages part "\<lambda>g. g" "\<lambda>_. True" imgID
  for r :: "('a env_scheme) ImageRepository" and part
begin

lemma new_image_id_part: "new_image_id w = (x, w1) \<Longrightarrow> part w1 = part w"
  by (auto simp: new_image_id_def on_error_def split: prod.splits sum.splits elim!: GenerateE intro: apart)

lemma register_image_part:
  assumes "storage_keeps part (imStorage s)" "register_image s i q w = (x, w1)"
  shows "part w1 = part w \<and> (\<forall>g. x = Inr g \<longrightarrow> own_key i (imgKey g))"
proof -
  obtain y v where y: "fsGetPublicURL (imStorage s) ''products'' (riKey q) w = (y, v)" by fastforce
  obtain z v1 where z: "new_image_id v = (z, v1)" by fastforce
  have "part v = part w" "part v1 = part v" by (rule storage_keepsD(3) [OF assms(1) y], rule new_image_id_part [OF z])
  moreover have "w1 = w \<or> w1 = v \<or> w1 = v1"
    using assms(2) y z by (cases y; cases z) (auto simp: register_image_def fail_io_def return_io_def bind_io_def on_error_def split: if_splits)
  moreover have "own_key i (imgKey g)" if "x = Inr g" for g
    using assms(2) y z that
    by (cases y; cases z) (auto simp: register_image_def fail_io_def return_io_def bind_io_def on_error_def own_key_def split: if_splits)
  ultimately show ?thesis by auto
qed

lemma RegisterUploadedImages_edited:
  assumes "imRepo s = r" "storage_keeps part (imStorage s)" "RegisterUploadedImages s i qs w = (u, w1)"
  shows "edited i (image_edit i) w w1"
  using assms(3) unfolding RegisterUploadedImages_def assms(1)
proof (rule edited_read)
  fix p v x v'
  assume p: "prodImages p = part v i"
    and run: "(if qs = [] then fail_io (NewBadRequest ''no uploaded images provided'' None)
     else bind_io (map_io (register_image s i) qs) (\<lambda>new0.
       let new = (if prodImages p = [] then first_primary new0 else new0) in
       bind_io (on_error (\<lambda>e. NewInternal ''failed to update product record with registered images'' (Some e))
           (igUpdateProductImages r i (prodImages p @ new)))
         (\<lambda>_. return_io new))) v = (x, v')"
  obtain y v1 where y: "map_io (register_image s i) qs v = (y, v1)" by fastforce
  from map_io_kept [where part = part and P = "\<lambda>g. own_key i (imgKey g)", OF register_image_part [OF assms(2)] y]
  have same: "part v1 = part v" and ok: "\<forall>ys. y = Inr ys \<longrightarrow> (\<forall>g\<in>set ys. own_key i (imgKey g)) \<and> length ys = length qs"
    by simp_all
  show "edited i (image_edit i) v v'"
  proof (cases y)
    case (Inl e)
    with run y same show ?thesis by (auto simp: fail_io_def bind_io_def split: if_splits intro: edited_same)
  next
    case (Inr new)
    show ?thesis
    proof (cases "qs = []")
      case False
      let ?all = "prodImages p @ (if prodImages p = [] then first_primary new else new)"
      obtain z where z: "on_error (\<lambda>e. NewInternal ''failed to update product record with registered images'' (Some e))
          (igUpdateProductImages r i ?all) v1 = (z, v')"
        using run y Inr False by (auto simp: bind_io_def return_io_def Let_def split: prod.splits sum.splits if_splits)
      have "new \<noteq> []" using ok Inr False by auto
      from register_edit [OF _ this, of i "part v i"] have "image_edit i (part v1 i) ?all"
        using ok Inr unfolding p same by blast
      from edited_from [OF same edited_put [where Q = "image_edit i", OF z this]] show ?thesis .
    qed (use run in \<open>auto simp: fail_io_def intro: edited_same\<close>)
  qed
qed

lemma DeleteImage_edited:
  assumes "imRepo s = r" "storage_keeps part (imStorage s)" "DeleteImage s i g w = (u, w1)"
  shows "edited i (image_edit i) w w1"
  using assms(3) unfolding DeleteImage_def assms(1)
proof (rule edited_read)
  fix p v x v'
  let ?hits = "filter (\<lambda>h. imgID h = g) (prodImages p)" and ?rest = "filter (\<lambda>h. imgID h \<noteq> g) (prodImages p)"
  let ?new = "if imgIsPrimary (last ?hits) then first_primary ?rest else ?rest"
  assume p: "prodImages p = part v i"
    and run: "(let hits = ?hits; rest = ?rest in
     if hits = [] then fail_io (NewNotFound (''image '' @ g @ '' not found on product'') None)
     else (\<lambda>w. on_error (\<lambda>e. NewInternal ''failed to delete image from product record'' (Some e))
       (igUpdateProductImages r i (if imgIsPrimary (last hits) then first_primary rest else rest))
       (snd (fsDelete (imStorage s) ''products'' (delete_key (last hits)) w)))) v = (x, v')"
  obtain y v1 where y: "fsDelete (imStorage s) ''products'' (delete_key (last ?hits)) v = (y, v1)" by fastforce
  have same: "part v1 = part v" by (rule storage_keepsD(1) [OF assms(2) y])
  show "edited i (image_edit i) v v'"
  proof (cases "?hits = []")
    case True
    with run show ?thesis by (auto simp: fail_io_def intro: edited_same)
  next
    case False
    then have "g \<in> imgID ` set (part v i)" using p by (auto simp: filter_empty_conv)
    from delete_edit [OF this, of i] have e: "image_edit i (part v1 i) ?new" unfolding p same Let_def .
    have "on_error (\<lambda>e. NewInternal ''failed to delete image from product record'' (Some e))
       (igUpdateProductImages r i ?new) v1 = (x, v')" using run y False by (simp add: Let_def)
    from edited_from [OF same edited_put [where Q = "image_edit i", OF this e]] show ?thesis .
  qed
qed

lemma SetPrimaryImage_edited:
  assumes "imRepo s = r" "SetPrimaryImage s i g w = (u, w1)"
  shows "edited i (image_edit i) w w1"
  using assms(2) unfolding SetPrimaryImage_def assms(1)
  by (rule edited_read) (auto simp: fail_io_def split: if_splits intro: edited_same edited_put primary_edit)

end

section \<open>The lists on PostgreSQL\<close>

lemma for_each_insert_distinct:
  assumes step: "\<And>x w w'. f x w = (Inr (), w') \<Longrightarrow> key x \<notin> keys w \<and> keys w' = insert (key x) (keys w)"
  shows "for_each f xs w = (Inr (), w') \<Longrightarrow> distinct (map key xs) \<and> keys w \<inter> key ` set xs = {}"
proof (induction xs arbitrary: w)
  case (Cons x xs)
  obtain r w1 where r: "f x w = (r, w1)" by fastforce
  with Cons.prems have ok: "f x w = (Inr (), w1)" "for_each f xs w1 = (Inr (), w')" by (auto simp: bind_io_def split: sum.splits)
  from step [OF ok(1)] Cons.IH [OF ok(2)] show ?case by auto
qed simp

lemma insert_variant_key:
  "insert_variant dec i v w = (Inr (), w') \<Longrightarrow> varID v \<notin> (varID \<circ> snd) ` set (variants_tbl w) \<and>
     (varID \<circ> snd) ` set (variants_tbl w') = insert (varID v) ((varID \<circ> snd) ` set (variants_tbl w))"
  using insert_variant_fx [of dec i v w w'] unfolding insert_variant_def
  by (auto elim!: sql_cases simp: same_tables_def stored_variant_def split: option.splits if_splits; force)

lemma insert_image_key:
  "insert_image i g w = (Inr (), w') \<Longrightarrow> imgID g \<notin> (imgID \<circ> snd) ` set (images_tbl w) \<and>
     (imgID \<circ> snd) ` set (images_tbl w') = insert (imgID g) ((imgID \<circ> snd) ` set (images_tbl w))"
  using insert_image_fx [of i g w w'] unfolding insert_image_def
  by (auto elim!: sql_cases simp: same_tables_def split: if_splits; force)

lemma insert_variants_storable:
  "for_each (insert_variant dec i) vs w = (Inr (), w') \<Longrightarrow> \<forall>v\<in>set vs. dec (varPrice v) \<noteq> None"
proof (induction vs arbitrary: w)
  case (Cons v vs)
  obtain r w1 where r: "insert_variant dec i v w = (r, w1)" by fastforce
  with Cons.prems have ok: "insert_variant dec i v w = (Inr (), w1)" "for_each (insert_variant dec i) vs w1 = (Inr (), w')"
    by (auto simp: bind_io_def split: sum.splits)
  have "dec (varPrice v) \<noteq> None" using ok(1) unfolding insert_variant_def by (auto elim!: sql_cases split: option.splits)
  with Cons.IH [OF ok(2)] show ?case by simp
qed simp

lemma put_variants:
  assumes "UpdateProductVariants_pg dec i vs w = (Inr u, w1)"
  shows "product_variants w1 = (product_variants w)(i := map (stored_variant dec) vs) \<and>
    (\<forall>v\<in>set vs. dec (varPrice v) \<noteq> None) \<and> distinct (map varID vs)"
  using assms unfolding UpdateProductVariants_pg_def
proof (cases rule: in_own_tx_cases)
  case (committed x v v')
  then have run: "replace_variants dec i vs v = (Inr (), v')" by simp
  then obtain v1 where d: "sql (\<lambda>w. (Inr (), w\<lparr>variants_tbl := filter (\<lambda>r. fst r \<noteq> i) (variants_tbl w)\<rparr>)) v = (Inr (), v1)"
    and ins: "for_each (insert_variant dec i) vs v1 = (Inr (), v')"
    unfolding replace_variants_def by (elim bind_io_ok) simp
  from d have v1: "variants_tbl v1 = filter (\<lambda>r. fst r \<noteq> i) (variants_tbl v)"
    by (cases rule: sql_cases) (auto simp: same_tables_def)
  have "product_variants v' j = (if j = i then map (stored_variant dec) vs else product_variants v j)" for j
    using insert_variants_fx [OF ins] by (auto simp: v1 product_variants_def comp_def filter_map intro!: arg_cong [of _ _ "map snd"] filter_cong)
  then have "product_variants v' = (product_variants v)(i := map (stored_variant dec) vs)" by auto
  moreover have "product_variants v = product_variants w" "product_variants w1 = product_variants v'"
    using same_tables_at committed by blast+
  moreover have "distinct (map varID vs)"
    using for_each_insert_distinct [where f = "insert_variant dec i" and key = varID
      and keys = "\<lambda>w. (varID \<circ> snd) ` set (variants_tbl w)", OF insert_variant_key ins] by simp
  ultimately show ?thesis using insert_variants_storable [OF ins] by simp
qed simp

lemma put_images:
  assumes "UpdateProductImages_pg i gs w = (Inr u, w1)"
  shows "product_images w1 = (product_images w)(i := gs) \<and> distinct (map imgID gs)"
  using assms unfolding UpdateProductImages_pg_def
proof (cases rule: in_own_tx_cases)
  case (committed x v v')
  then have run: "replace_images i gs v = (Inr (), v')" by simp
  then obtain v1 where d: "sql (\<lambda>w. (Inr (), w\<lparr>images_tbl := filter (\<lambda>r. fst r \<noteq> i) (images_tbl w)\<rparr>)) v = (Inr (), v1)"
    and ins: "for_each (insert_image i) gs v1 = (Inr (), v')"
    unfolding replace_images_def by (elim bind_io_ok) simp
  from d have v1: "images_tbl v1 = filter (\<lambda>r. fst r \<noteq> i) (images_tbl v)"
    by (cases rule: sql_cases) (auto simp: same_tables_def)
  have "product_images v' j = (if j = i then gs else product_images v j)" for j
    using insert_images_fx [OF ins] by (auto simp: v1 product_images_def comp_def filter_map intro!: arg_cong [of _ _ "map snd"] filter_cong)
  then have "product_images v' = (product_images v)(i := gs)" by auto
  moreover have "product_images v = product_images w" "product_images w1 = product_images v'"
    using same_tables_at committed by blast+
  moreover have "distinct (map imgID gs)"
    using for_each_insert_distinct [where f = "insert_image i" and key = imgID
      and keys = "\<lambda>w. (imgID \<circ> snd) ` set (images_tbl w)", OF insert_image_key ins] by simp
  ultimately show ?thesis by simp
qed simp

lemma GetProductByID_parts:
  assumes "GetProductByID_pg i w = (r, w1)"
  shows "same_tables w w1 \<and> (case r of Inl _ \<Rightarrow> True | Inr p \<Rightarrow> prodVariants p = product_variants w i \<and> prodImages p = product_images w i)"
proof -
  have "env.more w1 = env.more w" using keepsD [OF keeps_GetProductByID assms] by (simp add: same_store_def)
  then have s: "same_tables w w1" by (rule same_tables_more)
  show ?thesis
  proof (cases r)
    case (Inr p)
    from GetProductByID_ok [OF assms [unfolded Inr]] obtain d where "row_of dpID (products_tbl w) i = Some d" "p = product_at w d"
      by (auto simp: product_now_def)
    with row_of_Some [of dpID "products_tbl w" i d] s Inr show ?thesis by (simp add: product_at_def toDomainProduct_def)
  qed (use s in simp)
qed

interpretation pg_variants: variant_store "variant_repo_pg dec :: ('a catalog_db_scheme) VariantRepository"
    product_variants "stored_variant dec" "\<lambda>v. dec (varPrice v) \<noteq> None"
proof (unfold_locales, unfold variant_repo_pg_def VariantRepository.simps)
  fix i xs u e and w w1 :: "'a catalog_db_scheme" and r
  show "product_variants w1 = product_variants w \<and> (case r of Inl _ \<Rightarrow> True | Inr p \<Rightarrow> prodVariants p = product_variants w i)"
    if "GetProductByID_pg i w = (r, w1)"
    using GetProductByID_parts [OF that] same_tables_at by (auto split: sum.splits)
  show "product_variants w1 = (product_variants w)(i := map (stored_variant dec) xs) \<and>
      (\<forall>x\<in>set xs. dec (varPrice x) \<noteq> None) \<and> distinct (map varID xs)" if "UpdateProductVariants_pg dec i xs w = (Inr u, w1)"
    by (rule put_variants [OF that])
  show "product_variants w1 = product_variants w" if "UpdateProductVariants_pg dec i xs w = (Inl e, w1)"
    using that same_tables_at unfolding UpdateProductVariants_pg_def by (cases rule: in_own_tx_cases) auto
  show "product_variants w1 = product_variants w" if "env.more w1 = env.more w"
    using same_tables_at [OF same_tables_more [OF that]] by simp
qed

interpretation pg_images: image_store "image_repo_pg :: ('a catalog_db_scheme) ImageRepository" product_images
proof (unfold_locales, unfold image_repo_pg_def ImageRepository.simps)
  fix i xs u e and w w1 :: "'a catalog_db_scheme" and r
  show "product_images w1 = product_images w \<and> (case r of Inl _ \<Rightarrow> True | Inr p \<Rightarrow> prodImages p = product_images w i)"
    if "GetProductByID_pg i w = (r, w1)"
    using GetProductByID_parts [OF that] same_tables_at by (auto split: sum.splits)
  show "product_images w1 = (product_images w)(i := map (\<lambda>g. g) xs) \<and> (\<forall>x\<in>set xs. True) \<and> distinct (map imgID xs)"
    if "UpdateProductImages_pg i xs w = (Inr u, w1)"
    using put_images [OF that] by simp
  show "product_images w1 = product_images w" if "UpdateProductImages_pg i xs w = (Inl e, w1)"
    using that same_tables_at unfolding UpdateProductImages_pg_def by (cases rule: in_own_tx_cases) auto
  show "product_images w1 = product_images w" if "env.more w1 = env.more w"
    using same_tables_at [OF same_tables_more [OF that]] by simp
qed

section \<open>Variants stay valid\<close>

datatype variant_request = AddV string Variant | UpdateV string Variant | DeleteV string string

definition variant_step :: "decimal_column \<Rightarrow> variant_request \<Rightarrow> 'a catalog_db_scheme \<Rightarrow> 'a catalog_db_scheme" where
  "variant_step dec q w = (case q of
       AddV i v \<Rightarrow> snd (AddVariant (variant_repo_pg dec) i v w)
     | UpdateV i v \<Rightarrow> snd (UpdateVariant (variant_repo_pg dec) i v w)
     | DeleteV i v \<Rightarrow> snd (DeleteVariant (variant_repo_pg dec) i v w))"

fun variant_product :: "variant_request \<Rightarrow> string" where
  "variant_product (AddV i v) = i"
| "variant_product (UpdateV i v) = i"
| "variant_product (DeleteV i v) = i"

lemma variant_step_edited: "pg_variants.edited dec (variant_product q) variant_edit w (variant_step dec q w)"
  using pg_variants.AddVariant_edited [OF surjective_pairing] pg_variants.UpdateVariant_edited [OF surjective_pairing]
    pg_variants.DeleteVariant_edited [OF surjective_pairing]
  by (cases q) (simp_all add: variant_step_def)

lemma stored_variants_valid:
  assumes "\<And>x y. 0 \<le> x \<Longrightarrow> dec x = Some y \<Longrightarrow> 0 \<le> y" "ValidateVariants vs = None" "\<forall>v\<in>set vs. dec (varPrice v) \<noteq> None"
  shows "ValidateVariants (map (stored_variant dec) vs) = None"
proof -
  have "varSKU (stored_variant dec v) = varSKU v" for v by (simp add: stored_variant_def)
  moreover have "0 \<le> varPrice (stored_variant dec v)" if "v \<in> set vs" for v
    using assms that by (fastforce simp: ValidateVariants_None stored_variant_def)
  ultimately show ?thesis using assms(2) by (simp add: ValidateVariants_None comp_def)
qed

text \<open>C36. The variants of a product stay valid: over any sequence of requests that add, change or delete variants,
with failures of the database in between, every product's stored variants keep to the validation rules (no negative
price, a nonblank SKU, no SKU twice) and a product that had variants never loses its last one. The prices are what
the column makes of them; the column must not turn a price that is not negative into a negative one.\<close>
theorem variants_stay_valid:
  assumes "\<And>x y. 0 \<le> x \<Longrightarrow> dec x = Some y \<Longrightarrow> 0 \<le> y" and "\<And>j. ValidateVariants (product_variants w j) = None"
  shows "ValidateVariants (product_variants (fold (variant_step dec) qs w) i) = None \<and>
    (product_variants w i \<noteq> [] \<longrightarrow> product_variants (fold (variant_step dec) qs w) i \<noteq> [])"
  using assms(2)
proof (induction qs arbitrary: w)
  case (Cons q qs)
  let ?P = "\<lambda>j vs. ValidateVariants vs = None \<and> (product_variants w j \<noteq> [] \<longrightarrow> vs \<noteq> [])"
  have "?P j (product_variants (variant_step dec q w) j)" for j
    by (rule pg_variants.edited_invariant [where P = ?P, OF variant_step_edited [of dec q w]])
      (use Cons.prems stored_variants_valid [OF assms(1)] in \<open>auto simp: variant_edit_def\<close>)
  then show ?case using Cons.IH [of "variant_step dec q w"] by simp
qed simp

theorem variants_stay_valid_witness:
  "let w = sample_catalog [sample_product ''p1'' ''Pen'' 1] [(''p1'', sample_variant ''v1'' 2 3)] [] [];
     v = (sample_variant ''v2'' 5 1); qs = [DeleteV ''p1'' ''v1'', AddV ''p1'' v, DeleteV ''p1'' ''v1''] in
   product_variants (fold (variant_step Some) qs w) ''p1'' = [v] \<and>
   ValidateVariants (product_variants (fold (variant_step Some) qs w) ''p1'') = None"
proof -
  let ?w = "sample_catalog [sample_product ''p1'' ''Pen'' 1] [(''p1'', sample_variant ''v1'' 2 3)] [] [] :: catalog_db"
  let ?qs = "[DeleteV ''p1'' ''v1'', AddV ''p1'' (sample_variant ''v2'' 5 1), DeleteV ''p1'' ''v1'']"
  have v: "ValidateVariants [sample_variant ''v1'' 2 3] = None" by code_simp
  have "ValidateVariants (product_variants ?w j) = None" for j
    using v by (auto simp: sample_catalog_def product_variants_def ValidateVariants_def)
  from variants_stay_valid [of Some ?w ?qs "''p1''", OF _ this]
  have "ValidateVariants (product_variants (fold (variant_step Some) ?qs ?w) ''p1'') = None" by simp
  moreover have "product_variants (fold (variant_step Some) ?qs ?w) ''p1'' = [sample_variant ''v2'' 5 1]" by code_simp
  ultimately show ?thesis by (simp add: Let_def)
qed

section \<open>Images stay proper\<close>

datatype image_request = RegisterI string "RegisterImageRequest list" | DeleteI string string | PrimaryI string string

definition image_step :: "('a catalog_db_scheme) FileStorage \<Rightarrow> image_request \<Rightarrow> 'a catalog_db_scheme \<Rightarrow> 'a catalog_db_scheme" where
  "image_step st q w = (let s = \<lparr>imRepo = image_repo_pg, imStorage = st\<rparr> in case q of
       RegisterI i gs \<Rightarrow> snd (RegisterUploadedImages s i gs w)
     | DeleteI i g \<Rightarrow> snd (DeleteImage s i g w)
     | PrimaryI i g \<Rightarrow> snd (SetPrimaryImage s i g w))"

fun image_product :: "image_request \<Rightarrow> string" where
  "image_product (RegisterI i gs) = i"
| "image_product (DeleteI i g) = i"
| "image_product (PrimaryI i g) = i"

lemma image_step_edited:
  assumes "storage_keeps product_images st"
  shows "pg_images.edited (image_product q) (image_edit (image_product q)) w (image_step st q w)"
  using pg_images.RegisterUploadedImages_edited [OF _ _ surjective_pairing, of "\<lparr>imRepo = image_repo_pg, imStorage = st\<rparr>"]
    pg_images.DeleteImage_edited [OF _ _ surjective_pairing, of "\<lparr>imRepo = image_repo_pg, imStorage = st\<rparr>"]
    pg_images.SetPrimaryImage_edited [OF _ surjective_pairing, of "\<lparr>imRepo = image_repo_pg, imStorage = st\<rparr>"] assms
  by (cases q) (simp_all add: image_step_def)

text \<open>C37. The images of a product stay proper: over any sequence of requests that register, delete or promote
images, with failures of the database and of the file storage in between, no product's list holds an image id
twice, a product with images has a primary one, and the key of every image that has one lies in the product's own
directory of the storage without a way up, so deleting an image never names another product's file. The file storage itself is
arbitrary.\<close>
theorem images_stay_proper:
  assumes "storage_keeps product_images st" and "\<And>j. proper_images j (product_images w j)"
  shows "proper_images i (product_images (fold (image_step st) qs w) i)"
  using assms(2)
proof (induction qs arbitrary: w)
  case (Cons q qs)
  have "proper_images j (product_images (image_step st q w) j)" for j
    by (rule pg_images.edited_invariant [where P = proper_images, OF image_step_edited [OF assms(1), of q w]])
      (use Cons.prems in \<open>auto simp: image_edit_def\<close>)
  then show ?case using Cons.IH [of "image_step st q w"] by simp
qed simp

definition plain_storage :: "'w FileStorage" where
  "plain_storage = \<lparr>fsDelete = (\<lambda>b k. return_io ()),
     fsPresignUpload = (\<lambda>b k t. return_io \<lparr>puUploadURL = k, puPublicURL = k, puMethod = ''PUT''\<rparr>),
     fsGetPublicURL = (\<lambda>b k. return_io (''/'' @ b @ ''/'' @ k))\<rparr>"

theorem images_stay_proper_witness:
  "let w = (sample_catalog [sample_product ''p1'' ''Pen'' 1] [] [] [])\<lparr>uuids := [Some ''1'', Some ''2'']\<rparr>;
     qs = [RegisterI ''p1'' [\<lparr>riKey = ''products/p1/a.png'', riIsPrimary = False\<rparr>,
       \<lparr>riKey = ''products/p1/b.png'', riIsPrimary = False\<rparr>], DeleteI ''p1'' ''img_1''] in
   map (\<lambda>g. (imgKey g, imgIsPrimary g)) (product_images (fold (image_step plain_storage) qs w) ''p1'') =
     [(''products/p1/b.png'', True)] \<and>
   proper_images ''p1'' (product_images (fold (image_step plain_storage) qs w) ''p1'')"
proof -
  let ?w = "(sample_catalog [sample_product ''p1'' ''Pen'' 1] [] [] [])\<lparr>uuids := [Some ''1'', Some ''2'']\<rparr> :: catalog_db"
  let ?qs = "[RegisterI ''p1'' [\<lparr>riKey = ''products/p1/a.png'', riIsPrimary = False\<rparr>,
    \<lparr>riKey = ''products/p1/b.png'', riIsPrimary = False\<rparr>], DeleteI ''p1'' ''img_1'']"
  have "storage_keeps product_images (plain_storage :: catalog_db FileStorage)"
    by (simp add: storage_keeps_def plain_storage_def return_io_def)
  moreover have "proper_images j (product_images ?w j)" for j
    by (simp add: proper_images_def product_images_def sample_catalog_def)
  ultimately have "proper_images ''p1'' (product_images (fold (image_step plain_storage) ?qs ?w) ''p1'')"
    by (rule images_stay_proper)
  moreover have "map (\<lambda>g. (imgKey g, imgIsPrimary g)) (product_images (fold (image_step plain_storage) ?qs ?w) ''p1'') =
     [(''products/p1/b.png'', True)]" by code_simp
  ultimately show ?thesis by (simp add: Let_def)
qed

section \<open>Bulk import\<close>

lemma nested_refused:
  assumes "\<And>x w. x \<in> set xs \<Longrightarrow> in_tx w \<Longrightarrow> f x w = (Inl e, w)" "xs \<noteq> []" "RunInTx_pg (for_each f xs) w = (r, w1)"
  shows "isl r \<and> same_tables w w1"
proof -
  obtain x ys where xs: "xs = x # ys" using assms(2) by (cases xs) auto
  have fn: "for_each f xs v = (Inl e, v)" if "in_tx v" for v
    using assms(1) [of x v] that by (simp add: xs bind_io_def)
  obtain c v where c: "db_call w = (c, v)" by fastforce
  have "same_tables w v" by (rule same_tables_db_call [OF c])
  then have "same_tables w (rollback v (v\<lparr>in_tx := True\<rparr>))" by (simp add: same_tables_def rollback_def)
  with assms(3) c fn \<open>same_tables w v\<close> show ?thesis
    by (cases c) (auto simp: RunInTx_pg_def split: if_splits)
qed

lemma product_in_tx [simp]:
  "in_tx v \<Longrightarrow> CreateProduct_pg dec p v = (Inl (ErrText ''nested transactions not supported''), v)"
  "in_tx v \<Longrightarrow> UpdateProduct_pg dec p v = (Inl (ErrText ''nested transactions not supported''), v)"
  by (simp_all add: CreateProduct_pg_def UpdateProduct_pg_def in_own_tx_def)

lemma keeps_Generate: "keeps same_store (Generate p)"
  by (auto simp: keeps_def same_store_def elim!: GenerateE)

lemma keeps_fill_ids: "keeps same_store (fill_ids p)"
proof -
  have "keeps same_store (fill_variant_ids vs)" for vs
    by (induction vs) (auto intro!: keeps_same keeps_Generate keeps_on_error)
  then show ?thesis unfolding fill_ids_def by (auto intro!: keeps_same keeps_Generate keeps_on_error)
qed

lemma keeps_check_bulk: "keeps same_store (check_bulk (cat_bulk_repo_pg dec) k p)"
  by (auto simp: check_bulk_def cat_bulk_repo_pg_def split: option.splits
    intro!: keeps_same keeps_on_error keeps_GetCategoryByID)

lemma keeps_map_io: "(\<And>x. keeps same_store (f x)) \<Longrightarrow> keeps same_store (map_io f xs)"
  by (induction xs) (auto intro!: keeps_same)

text \<open>The list is checked first, which changes no table; then the nested transaction is refused.\<close>

lemma bulk_refused:
  assumes "keeps same_store (map_io f xs)" "xs \<noteq> []" "\<And>y v. in_tx v \<Longrightarrow> h y v = (Inl e, v)"
    and "bind_io (map_io f xs) (\<lambda>ys. on_error g (RunInTx_pg (for_each h ys))) w = (r, w1)"
  shows "isl r \<and> same_tables w w1"
proof -
  obtain y v where y: "map_io f xs w = (y, v)" by fastforce
  have s: "same_tables w v" by (rule same_tables_reads [OF assms(1) y])
  show ?thesis
  proof (cases y)
    case (Inl x)
    with assms(4) y s show ?thesis by (auto simp: bind_io_def)
  next
    case (Inr ys)
    have "length ys = length xs" using map_io_kept [of f "\<lambda>_. ()" "\<lambda>_. True", OF _ y] Inr by simp
    then have ne: "ys \<noteq> []" using assms(2) by auto
    obtain z v1 where z: "RunInTx_pg (for_each h ys) v = (z, v1)" by fastforce
    from nested_refused [OF assms(3) ne z] have "isl z" "same_tables v v1" by simp_all
    with assms(4) y Inr z same_tables_trans [OF s] show ?thesis by (auto simp: bind_io_def on_error_def split: sum.splits)
  qed
qed

text \<open>C38. On PostgreSQL every bulk creation and every bulk update of at least one product fails and changes no
table: the repository opens a transaction for the whole list, and the per-product operation it calls in it opens its
own, which the adapter refuses.\<close>
theorem bulk_import_refused:
  assumes "ps \<noteq> []" and "m = catBulkCreate (cat_bulk_repo_pg dec) ps \<or> m = catBulkUpdate (cat_bulk_repo_pg dec) ps"
    and "m w = (r, w1)"
  shows "isl r \<and> same_tables w w1"
  using assms(2)
proof
  assume m: "m = catBulkCreate (cat_bulk_repo_pg dec) ps"
  show ?thesis
    by (rule bulk_refused [OF keeps_map_io _ _ assms(3) [unfolded m catBulkCreate_def cat_bulk_repo_pg_def BulkRepository.simps]])
      (auto simp: assms(1) enumerate_eq_zip
        intro!: keeps_same keeps_fill_ids keeps_check_bulk [unfolded cat_bulk_repo_pg_def])
next
  assume m: "m = catBulkUpdate (cat_bulk_repo_pg dec) ps"
  show ?thesis
    by (rule bulk_refused [OF keeps_map_io _ _ assms(3) [unfolded m catBulkUpdate_def cat_bulk_repo_pg_def BulkRepository.simps]])
      (auto simp: assms(1) enumerate_eq_zip bind_io_def
        intro!: keeps_same keeps_check_bulk [unfolded cat_bulk_repo_pg_def])
qed

theorem bulk_import_refused_witness:
  "let w = sample_catalog [] [] [] [sample_category ''Pen'' None];
     p = toDomainProduct (sample_product ''p1'' ''Pen'' 1) [sample_variant ''v1'' 2 3] [] in
   (\<exists>w1. catBulkCreate (cat_bulk_repo_pg Some) [p] w =
     (Inl (NewInternal ''bulk creation failed'' (Some (ErrText ''nested transactions not supported''))), w1) \<and> same_tables w w1)"
proof -
  let ?w = "sample_catalog [] [] [] [sample_category ''Pen'' None]"
  let ?p = "toDomainProduct (sample_product ''p1'' ''Pen'' 1) [sample_variant ''v1'' 2 3] []"
  let ?m = "catBulkCreate (cat_bulk_repo_pg Some) [?p]"
  have "same_tables ?w (snd (?m ?w))"
    using bulk_import_refused [OF _ _ surjective_pairing, of "[?p]" ?m Some ?w] by simp
  moreover have "fst (?m ?w) = Inl (NewInternal ''bulk creation failed'' (Some (ErrText ''nested transactions not supported'')))"
    by code_simp
  ultimately show ?thesis by (metis prod.collapse)
qed

end
