(* ===== verification/CategoryTree.thy ===== *)
theory CategoryTree
  imports CatalogRules
begin

text \<open>
  The category tree: what the category operations rely on (\<open>category_store\<close>), that they keep the
  parents acyclic and an update of a category always returns, and the categories below a category.
\<close>

section \<open>Parents\<close>

definition parent_edges :: "Category list \<Rightarrow> (string \<times> string) set" where
  "parent_edges cs = {(catID c, p) | c p. c \<in> set cs \<and> catParentID c = Some p}"








section \<open>What the category operations rely on\<close>


section \<open>The categories on PostgreSQL\<close>








section \<open>Runs of category operations\<close>







section \<open>The categories below a category\<close>

lemma child_categories_edges: "i \<noteq> [] \<Longrightarrow> set (child_categories cs i) = {x. (x, i) \<in> parent_edges cs}"
  by (auto simp: child_categories_def parent_edges_def)

lemma child_categories_sub: "set (child_categories cs i) \<subseteq> {x. (x, i) \<in> parent_edges cs}"
  by (auto simp: child_categories_def parent_edges_def)

text \<open>The search keeps what it has seen, visits what is on the stack, and is complete: a seen category's
children are seen or on the stack.\<close>

lemma visit_categories_fx:
  assumes "\<forall>x\<in>set seen. set (child_categories cs x) \<subseteq> set seen \<union> set st" "distinct seen"
  shows "distinct (visit_categories cs st seen) \<and> set seen \<union> set st \<subseteq> set (visit_categories cs st seen) \<and>
    (\<forall>x\<in>set (visit_categories cs st seen). set (child_categories cs x) \<subseteq> set (visit_categories cs st seen)) \<and>
    (\<forall>x\<in>set (visit_categories cs st seen). x \<in> set seen \<or> (\<exists>y\<in>set st. (x, y) \<in> (parent_edges cs)\<^sup>*))"
  using assms
proof (induction cs st seen rule: visit_categories.induct)
  case (2 cs c st seen)
  show ?case
  proof (cases "c \<in> set seen")
    case True
    have "\<forall>x\<in>set seen. set (child_categories cs x) \<subseteq> set seen \<union> set st" using 2(3) True by auto
    from 2(1) [OF True this 2(4)] True show ?thesis by auto
  next
    case False
    have "\<forall>x\<in>set (c # seen). set (child_categories cs x) \<subseteq> set (c # seen) \<union> set (child_categories cs c @ st)"
      using 2(3) by auto
    note ih = 2(2) [OF False this]
    have "x \<in> set seen \<or> (\<exists>y\<in>set (c # st). (x, y) \<in> (parent_edges cs)\<^sup>*)"
      if "x \<in> set (c # seen) \<or> (\<exists>y\<in>set (child_categories cs c @ st). (x, y) \<in> (parent_edges cs)\<^sup>*)" for x
      using that child_categories_sub [of cs c] by (auto intro: rtrancl_into_rtrancl)
    with ih 2(4) False show ?thesis by auto
  qed
qed auto

text \<open>C22. Filtering by a category includes exactly its subtree: \<open>getCategoryDescendants\<close> ends on any list of
categories, also one whose parents form a cycle, and returns each category from which the parents lead to
the target, and the target, once.\<close>
theorem descendants_reachable:
  assumes "t \<noteq> []" and "[] \<notin> catID ` set cs"
  shows "distinct (getCategoryDescendants t cs) \<and> set (getCategoryDescendants t cs) = {x. (x, t) \<in> (parent_edges cs)\<^sup>*}"
proof -
  let ?R = "set (getCategoryDescendants t cs)"
  have fx: "distinct (getCategoryDescendants t cs)" "t \<in> ?R" "\<forall>x\<in>?R. set (child_categories cs x) \<subseteq> ?R"
    "\<forall>x\<in>?R. x = t \<or> (\<exists>y\<in>set (child_categories cs t). (x, y) \<in> (parent_edges cs)\<^sup>*)"
    using visit_categories_fx [of "[t]" cs "child_categories cs t"] by (auto simp: getCategoryDescendants_def)
  have "x \<in> ?R" if "(x, t) \<in> (parent_edges cs)\<^sup>*" for x
    using that
  proof (induction rule: converse_rtrancl_induct)
    case base
    show ?case by (rule fx(2))
  next
    case (step x y)
    have "y \<noteq> []" using step(2) assms by (auto elim: converse_rtranclE simp: parent_edges_def)
    with step fx(3) child_categories_edges show ?case by blast
  qed
  moreover have "(x, t) \<in> (parent_edges cs)\<^sup>*" if "x \<in> ?R" for x
    using bspec [OF fx(4) that] child_categories_sub [of cs t] by (auto intro: rtrancl_into_rtrancl)
  ultimately show ?thesis using fx(1) by blast
qed

theorem descendants_reachable_witness:
  "let cs = [sample_category ''b'' (Some ''a''), sample_category ''c'' (Some ''b''), sample_category ''d'' (Some ''e''),
     sample_category ''e'' (Some ''d''), sample_category ''f'' (Some ''e'')]
   in getCategoryDescendants ''a'' cs = [''c'', ''b'', ''a''] \<and> (''f'', ''d'') \<in> (parent_edges cs)\<^sup>*"
proof -
  let ?cs = "[sample_category ''b'' (Some ''a''), sample_category ''c'' (Some ''b''), sample_category ''d'' (Some ''e''),
     sample_category ''e'' (Some ''d''), sample_category ''f'' (Some ''e'')]"
  have "[] \<notin> catID ` set ?cs" by (simp add: sample_category_def)
  from descendants_reachable [OF _ this, of "''d''"]
  have "set (getCategoryDescendants ''d'' ?cs) = {x. (x, ''d'') \<in> (parent_edges ?cs)\<^sup>*}" by blast
  moreover have "''f'' \<in> set (getCategoryDescendants ''d'' ?cs)" by code_simp
  moreover have "getCategoryDescendants ''a'' ?cs = [''c'', ''b'', ''a'']" by code_simp
  ultimately show ?thesis unfolding Let_def by blast
qed

end
