(* ===== verification/DepGraph.thy ===== *)
theory DepGraph
  imports GoErrors
begin

text \<open>
  The module dependency graph of \<open>internal/engine/depgraph.go\<close>: Kahn's algorithm over in-degrees,
  and the search for a cycle that the error message shows. Go visits a map in an unspecified order;
  the two such loops take that order as an argument, a list of the map's keys.
\<close>

record 'c Module =
  mName :: string
  mRequires :: "string list"
  mInit :: "'c \<Rightarrow> err + 'c"

section \<open>Building the graph\<close>

definition byName :: "('c, 'm) Module_scheme list \<Rightarrow> string \<Rightarrow> ('c, 'm) Module_scheme option" where
  "byName ms = fold (\<lambda>m f. f(mName m \<mapsto> m)) ms Map.empty"

text \<open>The first declared dependency that is not in the set, with the module that declares it.\<close>

fun missing_in :: "(string \<Rightarrow> bool) \<Rightarrow> string list \<Rightarrow> string option" where
  "missing_in known [] = None"
| "missing_in known (d # ds) = (if known d then missing_in known ds else Some d)"

fun missing_requirement ::
  "(string \<Rightarrow> bool) \<Rightarrow> ('c, 'm) Module_scheme list \<Rightarrow> (string \<times> string) option" where
  "missing_requirement known [] = None"
| "missing_requirement known (m # ms) = (case missing_in known (mRequires m) of
       Some d \<Rightarrow> Some (mName m, d)
     | None \<Rightarrow> missing_requirement known ms)"

text \<open>
  \<open>inDegree\<close> is an association list, so that a read of a missing key is 0 as in Go, and
  \<open>dependents\<close> a function to lists, empty where Go's map has no key.
\<close>

type_synonym degrees = "(string \<times> int) list"

definition degree :: "degrees \<Rightarrow> string \<Rightarrow> int" where
  "degree dg n = (case map_of dg n of None \<Rightarrow> 0 | Some k \<Rightarrow> k)"

definition add_edges ::
  "string \<Rightarrow> string list \<Rightarrow> degrees \<times> (string \<Rightarrow> string list) \<Rightarrow> degrees \<times> (string \<Rightarrow> string list)" where
  "add_edges n ds st = fold (\<lambda>d (dg, dp). (AList.update n (degree dg n + 1) dg, dp(d := dp d @ [n]))) ds st"

definition add_module ::
  "('c, 'm) Module_scheme \<Rightarrow> degrees \<times> (string \<Rightarrow> string list) \<Rightarrow> degrees \<times> (string \<Rightarrow> string list)" where
  "add_module m st = (case st of (dg, dp) \<Rightarrow>
     add_edges (mName m) (mRequires m)
       (if map_of dg (mName m) = None then AList.update (mName m) 0 dg else dg, dp))"

definition build_graph :: "('c, 'm) Module_scheme list \<Rightarrow> degrees \<times> (string \<Rightarrow> string list)" where
  "build_graph ms = fold add_module ms ([], \<lambda>_. [])"

section \<open>Kahn's algorithm\<close>

text \<open>The inner loop: each dependent of the module just placed loses one requirement.\<close>

fun release :: "string list \<Rightarrow> string list \<Rightarrow> degrees \<Rightarrow> string list \<times> degrees" where
  "release [] q dg = (q, dg)"
| "release (x # xs) q dg = (let dg' = AList.update x (degree dg x - 1) dg in
     release xs (if degree dg' x = 0 then q @ [x] else q) dg')"

definition load :: "degrees \<Rightarrow> nat" where
  "load dg = sum_list (map (\<lambda>kv. nat (snd kv)) dg)"

lemma load_update:
  "load (AList.update k v dg) + nat (degree dg k) = load dg + nat v"
  by (induction dg) (auto simp: load_def degree_def)

lemma degree_update [simp]: "degree (AList.update k v dg) n = (if n = k then v else degree dg n)"
  by (simp add: degree_def update_conv')

lemma release_load: "load (snd (release xs q dg)) + length (fst (release xs q dg)) \<le> load dg + length q"
proof (induction xs q dg rule: release.induct)
  case (2 x xs q dg)
  let ?dg = "AList.update x (degree dg x - 1) dg"
  have "load ?dg + nat (degree dg x) = load dg + nat (degree dg x - 1)" by (rule load_update)
  with 2 [OF refl] show ?case
    by (cases "degree dg x = 1") (auto simp: Let_def)
qed simp

text \<open>Every round takes one name from the queue, and a name joins only when its degree drops to 0.\<close>

function kahn ::
  "(string \<Rightarrow> string list) \<Rightarrow> string list \<Rightarrow> degrees \<Rightarrow> string list \<Rightarrow> string list \<times> degrees" where
  "kahn dp [] dg acc = (acc, dg)"
| "kahn dp (c # q) dg acc =
    kahn dp (fst (release (dp c) q dg)) (snd (release (dp c) q dg)) (acc @ [c])"
  by pat_completeness auto
termination
proof (relation "measure (\<lambda>(dp, q, dg, acc). load dg + length q)", goal_cases)
  case (2 dp c q dg acc)
  then show ?case using release_load [of "dp c" q dg] by auto
qed simp

section \<open>The reported cycle\<close>

text \<open>
  The walk from a module left over, always to the first requirement that is left over and not
  visited; at its end it returns to the first requirement that is left over.
\<close>

definition open_nodes :: "degrees \<Rightarrow> string list \<Rightarrow> string \<Rightarrow> nat" where
  "open_nodes dg visited current =
     card {n \<in> fst ` set dg. degree dg n > 0 \<and> n \<notin> set visited \<and> n \<noteq> current}"

lemma degree_key: "0 < degree dg n \<Longrightarrow> n \<in> fst ` set dg"
  by (auto simp: degree_def split: option.splits dest: map_of_SomeD intro: rev_image_eqI)

definition requires_of :: "(string \<Rightarrow> ('c, 'm) Module_scheme option) \<Rightarrow> string \<Rightarrow> string list" where
  "requires_of names n = (case names n of None \<Rightarrow> [] | Some m \<Rightarrow> mRequires m)"

function cycle_walk ::
  "(string \<Rightarrow> string list) \<Rightarrow> degrees \<Rightarrow> string list \<Rightarrow> string list \<Rightarrow> string \<Rightarrow> string list" where
  "cycle_walk req dg visited0 path current = (let visited = visited0 @ [current] in
     case find (\<lambda>d. degree dg d > 0 \<and> d \<notin> set visited) (req current) of
       Some d \<Rightarrow> cycle_walk req dg visited (path @ [d]) d
     | None \<Rightarrow> (case find (\<lambda>d. degree dg d > 0) (req current) of
         Some d \<Rightarrow> path @ [d]
       | None \<Rightarrow> path))"
  by pat_completeness auto
termination
proof (relation "measure (\<lambda>(req, dg, visited, path, current). open_nodes dg visited current)", goal_cases)
  case (2 req dg visited0 path current visited d)
  then have d: "degree dg d > 0" "d \<notin> set visited0" "d \<noteq> current"
    by (auto simp: find_Some_iff)
  have "{n \<in> fst ` set dg. degree dg n > 0 \<and> n \<notin> set visited \<and> n \<noteq> d}
      \<subset> {n \<in> fst ` set dg. degree dg n > 0 \<and> n \<notin> set visited0 \<and> n \<noteq> current}"
    using d degree_key [OF d(1)] 2(1) by auto
  then show ?case by (simp add: open_nodes_def psubset_card_mono)
qed simp

declare cycle_walk.simps [simp del]

fun join_path :: "string list \<Rightarrow> string" where
  "join_path [] = []"
| "join_path [p] = p"
| "join_path (p # ps) = p @ '' -> '' @ join_path ps"

definition cycle_path ::
  "string list \<Rightarrow> (string \<Rightarrow> string list) \<Rightarrow> degrees \<Rightarrow> string list" where
  "cycle_path ks req dg = (case find (\<lambda>n. degree dg n > 0) ks of
       None \<Rightarrow> []
     | Some start \<Rightarrow> if start = [] then [] else cycle_walk req dg [] [start] start)"

definition findCycle :: "string list \<Rightarrow> (string \<Rightarrow> string list) \<Rightarrow> degrees \<Rightarrow> string" where
  "findCycle ks req dg = (case cycle_path ks req dg of [] \<Rightarrow> ''(unknown)'' | p \<Rightarrow> join_path p)"

section \<open>The whole check\<close>

text \<open>
  \<open>ks\<close> and \<open>ks'\<close> are the orders in which the two loops visit \<open>inDegree\<close>. The sorted list holds
  interface values, so a name without a module would be \<open>nil\<close>.
\<close>

definition missing_error :: "string \<Rightarrow> string \<Rightarrow> err" where
  "missing_error n d = ErrText (''module '' @ go_quote n @ '' requires '' @ go_quote d @ '' but '' @ go_quote d
     @ '' is either disabled or not registered; enable it in config.yaml under modules.'' @ d @ ''.enabled: true'')"

definition validateAndSort ::
  "string list \<Rightarrow> string list \<Rightarrow> ('c, 'm) Module_scheme list \<Rightarrow> err + ('c, 'm) Module_scheme option list" where
  "validateAndSort ks ks' ms = (let names = byName ms in
     case missing_requirement (\<lambda>n. names n \<noteq> None) ms of
       Some (n, d) \<Rightarrow> Inl (missing_error n d)
     | None \<Rightarrow> (case build_graph ms of (dg0, dp) \<Rightarrow>
         (case kahn dp (filter (\<lambda>n. degree dg0 n = 0) ks) dg0 [] of (placed, dg) \<Rightarrow>
            if length placed \<noteq> length ms
            then Inl (ErrText (''circular dependency detected among modules: '' @ findCycle ks' (requires_of names) dg))
            else Inr (map names placed))))"

end
