(* ===== verification/DepGraphProps.thy ===== *)
theory DepGraphProps
  imports DepGraph
begin

text \<open>
  Correctness of the module order: the in-degrees count the requirements not placed yet, the queue
  holds the names whose count is 0, so the check succeeds exactly on acyclic sets with all
  requirements present and its result is a dependency-first permutation.
\<close>

section \<open>The graph that is built\<close>

definition reqs :: "('c, 'm) Module_scheme list \<Rightarrow> string \<Rightarrow> string list" where
  "reqs ms n = concat (map mRequires (filter (\<lambda>m. mName m = n) ms))"

definition requirement_edges :: "('c, 'm) Module_scheme list \<Rightarrow> (string \<times> string) set" where
  "requirement_edges ms = {(n, d). \<exists>m\<in>set ms. n = mName m \<and> d \<in> set (mRequires m)}"

lemma set_reqs: "d \<in> set (reqs ms n) \<longleftrightarrow> (n, d) \<in> requirement_edges ms"
  by (auto simp: reqs_def requirement_edges_def)

lemma byName_rev: "byName ms = map_of (rev (map (\<lambda>m. (mName m, m)) ms))"
proof -
  have "fold (\<lambda>m f. f(mName m \<mapsto> m)) ms g = g ++ map_of (rev (map (\<lambda>m. (mName m, m)) ms))"
    for g :: "string \<Rightarrow> ('a, 'b) Module_scheme option"
    by (induction ms arbitrary: g) (simp_all add: map_add_assoc [symmetric] fun_upd_def map_add_def fun_eq_iff
        split: option.splits)
  then show ?thesis by (simp add: byName_def)
qed

lemma byName_None: "byName ms n = None \<longleftrightarrow> n \<notin> mName ` set ms"
  by (auto simp: byName_rev map_of_eq_None_iff image_image)

lemma byName_Some: "byName ms n = Some m \<Longrightarrow> m \<in> set ms \<and> mName m = n"
  unfolding byName_rev by (drule map_of_SomeD) auto

lemma byName_distinct: "distinct (map mName ms) \<Longrightarrow> m \<in> set ms \<Longrightarrow> byName ms (mName m) = Some m"
  unfolding byName_rev by (rule map_of_is_SomeI) (auto simp: comp_def rev_map [symmetric])

lemma requires_of_reqs:
  assumes "distinct (map mName ms)"
  shows "requires_of (byName ms) n = reqs ms n"
proof (cases "n \<in> mName ` set ms")
  case False
  then have "filter (\<lambda>m. mName m = n) ms = []" by (auto simp: filter_empty_conv)
  with False byName_None [of ms n] show ?thesis by (simp add: requires_of_def reqs_def)
next
  case True
  then obtain m where m: "m \<in> set ms" "mName m = n" by auto
  with assms have "filter (\<lambda>m. mName m = n) ms = [m]"
    by (induction ms) (force simp: filter_empty_conv image_iff)+
  with byName_distinct [OF assms m(1)] m show ?thesis by (simp add: requires_of_def reqs_def)
qed

lemma missing_in_None: "missing_in known ds = None \<longleftrightarrow> (\<forall>d\<in>set ds. known d)"
  by (induction ds) auto

lemma missing_requirement_None:
  "missing_requirement known ms = None \<longleftrightarrow> (\<forall>m\<in>set ms. \<forall>d\<in>set (mRequires m). known d)"
  by (induction ms) (auto simp: missing_in_None [symmetric] split: option.splits)

lemma add_edges_degree:
  "degree (fst (add_edges n ds st)) k = degree (fst st) k + (if k = n then int (length ds) else 0)"
  unfolding add_edges_def by (induction ds arbitrary: st) (auto simp: split: prod.splits)

lemma add_edges_dependents:
  "count_list (snd (add_edges n ds st) d) k = count_list (snd st d) k + (if k = n then count_list ds d else 0)"
  unfolding add_edges_def by (induction ds arbitrary: st) (auto split: prod.splits)

lemma build_graph_counts:
  "degree (fst (build_graph ms)) k = int (length (reqs ms k)) \<and>
   count_list (snd (build_graph ms) d) k = count_list (reqs ms k) d"
proof -
  have "degree (fst (fold add_module ms st)) k = degree (fst st) k + int (length (reqs ms k)) \<and>
    count_list (snd (fold add_module ms st) d) k = count_list (snd st d) k + count_list (reqs ms k) d" for st
  proof (induction ms arbitrary: st)
    case (Cons m ms)
    have start: "degree (if map_of dg (mName m) = None then AList.update (mName m) 0 dg else dg) k = degree dg k" for dg
      by (simp add: degree_def [of dg] split: option.splits)
    have "degree (fst (add_module m st)) k = degree (fst st) k + (if k = mName m then int (length (mRequires m)) else 0)"
      "count_list (snd (add_module m st) d) k = count_list (snd st d) k + (if k = mName m then count_list (mRequires m) d else 0)"
      by (cases st; simp add: add_module_def add_edges_degree add_edges_dependents start del: degree_update)+
    with Cons.IH [of "add_module m st"] show ?case by (auto simp: reqs_def)
  qed (simp add: reqs_def)
  from this [of "([], \<lambda>_. [])"] show ?thesis by (simp add: build_graph_def degree_def)
qed

section \<open>The invariant of the loop\<close>

lemma release_spec:
  assumes "\<And>n. int (count_list xs n) \<le> degree dg n"
  shows "(\<exists>new. fst (release xs q dg) = q @ new \<and> distinct new \<and>
      set new = {n \<in> set xs. degree dg n = int (count_list xs n)}) \<and>
    (\<forall>n. degree (snd (release xs q dg)) n = degree dg n - int (count_list xs n))"
  using assms
proof (induction xs q dg rule: release.induct)
  case (2 x xs q dg)
  let ?dg = "AList.update x (degree dg x - 1) dg"
  let ?q = "if degree dg x = 1 then q @ [x] else q"
  have le: "int (count_list xs n) \<le> degree ?dg n" for n
    using "2.prems" [of n] by (auto split: if_splits)
  have rel: "release (x # xs) q dg = release xs ?q ?dg" by (simp add: Let_def)
  obtain new where new: "fst (release xs ?q ?dg) = ?q @ new" "distinct new"
      "set new = {n \<in> set xs. degree ?dg n = int (count_list xs n)}"
    and deg: "\<And>n. degree (snd (release xs ?q ?dg)) n = degree ?dg n - int (count_list xs n)"
    using "2.IH" [OF refl] le by auto
  let ?new = "if degree dg x = 1 then x # new else new"
  have fresh: "x \<notin> set xs" if "degree dg x = 1"
    using that le [of x] by (simp add: count_list_0_iff)
  have "fst (release xs ?q ?dg) = q @ ?new" "distinct ?new"
    using new fresh by auto
  moreover have "set ?new = {n \<in> set (x # xs). degree dg n = int (count_list (x # xs) n)}"
  proof (intro set_eqI)
    fix n
    have cz: "count_list xs x = 0 \<longleftrightarrow> x \<notin> set xs" by (simp add: count_list_0_iff)
    from new(3) fresh show "n \<in> set ?new \<longleftrightarrow>
        n \<in> {n \<in> set (x # xs). degree dg n = int (count_list (x # xs) n)}"
      by (cases "n = x"; cases "degree dg x = 1") (auto simp: cz)
  qed
  moreover have "degree (snd (release xs ?q ?dg)) n = degree dg n - int (count_list (x # xs) n)" for n
    using deg [of n] by auto
  ultimately show ?case unfolding rel by blast
qed simp

text \<open>\<open>rq\<close> are the requirements of a name, \<open>N\<close> the names.\<close>

definition kahn_inv ::
  "(string \<Rightarrow> string list) \<Rightarrow> string set \<Rightarrow> string list \<Rightarrow> degrees \<Rightarrow> string list \<Rightarrow> bool" where
  "kahn_inv rq N q dg P \<longleftrightarrow> distinct (P @ q) \<and>
     (\<forall>n. degree dg n = int (length (filter (\<lambda>d. d \<notin> set P) (rq n)))) \<and>
     (\<forall>n. n \<in> set (P @ q) \<longleftrightarrow> n \<in> N \<and> degree dg n = 0) \<and>
     (\<forall>i<length P. set (rq (P ! i)) \<subseteq> set (take i P))"

lemma kahn_invD:
  assumes "kahn_inv rq N q dg P"
  shows "distinct (P @ q)" "degree dg n = int (length (filter (\<lambda>d. d \<notin> set P) (rq n)))"
    "n \<in> set (P @ q) \<longleftrightarrow> n \<in> N \<and> degree dg n = 0"
    "i < length P \<Longrightarrow> set (rq (P ! i)) \<subseteq> set (take i P)"
  using assms unfolding kahn_inv_def by blast+

lemma kahn_inv_open:
  assumes "kahn_inv rq N q dg P"
  shows "0 < degree dg n \<longleftrightarrow> (\<exists>d\<in>set (rq n). d \<notin> set P)"
  unfolding kahn_invD(2) [OF assms] by (auto simp: filter_empty_conv)

lemma length_filter_split:
  "c \<notin> A \<Longrightarrow> length (filter (\<lambda>d. d \<notin> A) xs) = length (filter (\<lambda>d. d \<notin> insert c A) xs) + count_list xs c"
  by (induction xs) auto

lemma kahn_inv_step:
  assumes inv: "kahn_inv rq N (c # q) dg P"
    and dp: "\<And>d n. count_list (dp d) n = count_list (rq n) d" and N: "\<And>n. rq n \<noteq> [] \<Longrightarrow> n \<in> N"
  shows "kahn_inv rq N (fst (release (dp c) q dg)) (snd (release (dp c) q dg)) (P @ [c])"
proof -
  have c: "c \<notin> set P" "c \<notin> set q" "degree dg c = 0" "c \<in> N" and dist: "distinct (P @ q)"
    using inv by (auto simp: kahn_inv_def)
  have split: "degree dg n = int (length (filter (\<lambda>d. d \<notin> set (P @ [c])) (rq n))) + int (count_list (dp c) n)" for n
    using inv length_filter_split [OF c(1), of "rq n"] dp by (simp add: kahn_inv_def)
  then have le: "int (count_list (dp c) n) \<le> degree dg n" for n by simp
  obtain new where new: "fst (release (dp c) q dg) = q @ new" "distinct new"
      "set new = {n \<in> set (dp c). degree dg n = int (count_list (dp c) n)}"
    and deg: "\<And>n. degree (snd (release (dp c) q dg)) n = degree dg n - int (count_list (dp c) n)"
    using release_spec [OF le, of q] by blast
  have pos: "n \<in> set (dp c) \<longleftrightarrow> 0 < count_list (dp c) n" for n
    by (metis count_list_0_iff neq0_conv)
  have "set (rq c) \<subseteq> set P"
    using inv c(3) by (auto simp: kahn_inv_def filter_empty_conv)
  with inv have order: "\<forall>i<length (P @ [c]). set (rq ((P @ [c]) ! i)) \<subseteq> set (take i (P @ [c]))"
    by (auto simp: kahn_inv_def nth_append less_Suc_eq)
  have mem: "n \<in> set (P @ c # q) \<longleftrightarrow> n \<in> N \<and> degree dg n = 0" for n
    using inv by (auto simp: kahn_inv_def)
  have newN: "n \<in> N" if "n \<in> set (dp c)" for n
    using that dp [of c n] N [of n] by (cases "rq n") (auto simp: pos)
  have old: "n \<notin> set new" if "n \<in> set (P @ c # q)" for n
    using that mem [of n] new(3) pos [of n] by auto
  have "n \<in> set ((P @ [c]) @ q @ new) \<longleftrightarrow> n \<in> N \<and> degree dg n - int (count_list (dp c) n) = 0" for n
  proof (cases "n \<in> set (P @ c # q)")
    case True
    then show ?thesis using mem [of n] le [of n] by auto
  next
    case False
    then show ?thesis using mem [of n] new(3) pos [of n] newN [of n] by auto
  qed
  with order c dist old new(1,2) deg split show ?thesis
    unfolding kahn_inv_def by auto
qed

lemma kahn_inv_final:
  assumes "kahn_inv rq N q dg P"
    and "\<And>d n. count_list (dp d) n = count_list (rq n) d" and "\<And>n. rq n \<noteq> [] \<Longrightarrow> n \<in> N"
  shows "kahn_inv rq N [] (snd (kahn dp q dg P)) (fst (kahn dp q dg P))"
  using assms by (induction dp q dg P rule: kahn.induct) (auto dest: kahn_inv_step)

text \<open>What the whole loop leaves behind, for a set of modules whose requirements are all present.\<close>

lemma kahn_result:
  assumes "set ks = mName ` set ms" "distinct ks" "build_graph ms = (dg0, dp)"
    and "kahn dp (filter (\<lambda>n. degree dg0 n = 0) ks) dg0 [] = (P, dg)"
  shows "kahn_inv (reqs ms) (mName ` set ms) [] dg P"
proof -
  have N: "n \<in> mName ` set ms" if "reqs ms n \<noteq> []" for n
    using that by (auto simp: reqs_def filter_empty_conv)
  have "kahn_inv (reqs ms) (mName ` set ms) (filter (\<lambda>n. degree dg0 n = 0) ks) dg0 []"
    using assms(1,2) build_graph_counts [of ms] assms(3) by (simp add: kahn_inv_def)
  from kahn_inv_final [OF this _ N, of dp] assms(3,4) build_graph_counts [of ms] show ?thesis by simp
qed

section \<open>Acyclic sets\<close>

lemma placed_all_acyclic:
  assumes "kahn_inv (reqs ms) (mName ` set ms) [] dg P" "set P = mName ` set ms"
  shows "acyclic (requirement_edges ms)"
proof (rule acyclicI_order)
  define pos where "pos = the_inv_into {..<length P} ((!) P)"
  have dist: "distinct P" using assms(1) by (simp add: kahn_inv_def)
  then have pos: "pos (P ! i) = i" if "i < length P" for i
    unfolding pos_def using that by (intro the_inv_into_f_f) (auto simp: inj_on_nth)
  show "pos d < pos n" if "(n, d) \<in> requirement_edges ms" for n d
  proof -
    have "n \<in> set P" using that assms(2) by (auto simp: requirement_edges_def)
    then obtain i where i: "i < length P" "n = P ! i" by (auto simp: in_set_conv_nth)
    have "d \<in> set (reqs ms (P ! i))" using that i(2) by (simp add: set_reqs)
    then have "d \<in> set (take i P)" using kahn_invD(4) [OF assms(1) i(1)] by blast
    then obtain j where "j < i" "d = P ! j" by (auto simp: in_set_conv_nth)
    with i pos show ?thesis by simp
  qed
qed

lemma finite_edges: "finite (requirement_edges ms)"
proof -
  have "requirement_edges ms \<subseteq> mName ` set ms \<times> (\<Union>m\<in>set ms. set (mRequires m))"
    by (auto simp: requirement_edges_def)
  then show ?thesis by (rule finite_subset) auto
qed

lemma acyclic_placed_all:
  assumes "kahn_inv (reqs ms) (mName ` set ms) [] dg P" "acyclic (requirement_edges ms)"
    and "\<forall>m\<in>set ms. set (mRequires m) \<subseteq> mName ` set ms"
  shows "set P = mName ` set ms"
proof (rule ccontr)
  assume ne: "set P \<noteq> mName ` set ms"
  have mem: "n \<in> set P \<longleftrightarrow> n \<in> mName ` set ms \<and> degree dg n = 0" for n
    using kahn_invD(3) [OF assms(1), of n] by simp
  then have "set P \<subseteq> mName ` set ms" by (meson subsetI)
  with ne obtain n where n: "n \<in> mName ` set ms - set P" by auto
  have "wf ((requirement_edges ms)\<inverse>)"
    using finite_edges assms(2) by (rule finite_acyclic_wf_converse)
  from this n obtain z where z: "z \<in> mName ` set ms - set P"
    "\<And>y. (y, z) \<in> (requirement_edges ms)\<inverse> \<Longrightarrow> y \<notin> mName ` set ms - set P"
    by (rule wfE_min) (rule that)
  then have "0 < degree dg z" using mem [of z] kahn_invD(2) [OF assms(1), of z] by simp
  then obtain d where "d \<in> set (reqs ms z)" "d \<notin> set P" using kahn_inv_open [OF assms(1)] by blast
  with z(2) [of d] assms(3) show False by (auto simp: set_reqs requirement_edges_def)
qed

text \<open>What \<open>validateAndSort\<close> answers, in terms of the final state of the loop.\<close>

lemma validateAndSort_cases:
  assumes "set ks = mName ` set ms" "distinct ks"
  obtains (missing) n d where "validateAndSort ks ks' ms = Inl (missing_error n d)"
      "\<exists>m\<in>set ms. \<not> set (mRequires m) \<subseteq> mName ` set ms"
  | (looped) P dg where "\<forall>m\<in>set ms. set (mRequires m) \<subseteq> mName ` set ms"
      "kahn_inv (reqs ms) (mName ` set ms) [] dg P"
      "validateAndSort ks ks' ms = (if length P \<noteq> length ms
        then Inl (ErrText (''circular dependency detected among modules: '' @
               findCycle ks' (requires_of (byName ms)) dg))
        else Inr (map (byName ms) P))"
proof -
  obtain dg0 dp where g: "build_graph ms = (dg0, dp)" by fastforce
  obtain P dg where k: "kahn dp (filter (\<lambda>n. degree dg0 n = 0) ks) dg0 [] = (P, dg)" by fastforce
  have miss: "missing_requirement (\<lambda>n. byName ms n \<noteq> None) ms = None \<longleftrightarrow>
      (\<forall>m\<in>set ms. set (mRequires m) \<subseteq> mName ` set ms)"
    by (auto simp: missing_requirement_None byName_None)
  show thesis
  proof (cases "missing_requirement (\<lambda>n. byName ms n \<noteq> None) ms")
    case None
    with miss g k kahn_result [OF assms g k] show thesis
      by (intro looped [of dg P]) (simp_all add: validateAndSort_def)
  next
    case (Some nd)
    with miss show thesis
      by (intro missing [of "fst nd" "snd nd"]) (auto simp: validateAndSort_def split: prod.splits)
  qed
qed

lemma placed_all_iff:
  assumes "kahn_inv (reqs ms) (mName ` set ms) [] dg P"
  shows "length P = length ms \<longleftrightarrow> distinct (map mName ms) \<and> set P = mName ` set ms"
proof -
  have dist: "distinct P" and sub: "set P \<subseteq> mName ` set ms"
    using kahn_invD(1,3) [OF assms] by auto
  then have P: "length P = card (set P)" by (simp add: distinct_card)
  have "card (set P) \<le> card (mName ` set ms)" using sub by (simp add: card_mono)
  moreover have "card (mName ` set ms) \<le> length ms"
    by (metis card_length length_map set_map)
  moreover have "card (mName ` set ms) = length ms \<longleftrightarrow> distinct (map mName ms)"
    by (metis card_distinct distinct_card length_map set_map)
  moreover have "card (set P) = card (mName ` set ms) \<longleftrightarrow> set P = mName ` set ms"
    using sub by (metis List.finite_set card_subset_eq finite_imageI)
  ultimately show ?thesis unfolding P by linarith
qed

section \<open>The order and the reported cycle\<close>

text \<open>C15. Modules are started exactly when that is possible: for every order in which Go may visit its
maps, the check succeeds if and only if names are unique, every required module is enabled and the
requirements have no cycle; then the result holds every module once, each after all it requires.\<close>
theorem module_order_correct:
  assumes "set ks = mName ` set ms" "distinct ks"
  shows "((\<exists>ss. validateAndSort ks ks' ms = Inr ss) \<longleftrightarrow>
      distinct (map mName ms) \<and> (\<forall>m\<in>set ms. set (mRequires m) \<subseteq> mName ` set ms) \<and>
      acyclic (requirement_edges ms)) \<and>
    (\<forall>ss. validateAndSort ks ks' ms = Inr ss \<longrightarrow>
      (\<exists>ts. ss = map Some ts \<and> distinct ts \<and> set ts = set ms \<and>
        (\<forall>i<length ts. set (mRequires (ts ! i)) \<subseteq> mName ` set (take i ts))))"
  using assms
proof (cases rule: validateAndSort_cases [of ks ms ks'])
  case (missing n d)
  then show ?thesis by auto
next
  case (looped P dg)
  note all = placed_all_iff [OF looped(2)]
  have sorted: "\<exists>ts. map (byName ms) P = map Some ts \<and> distinct ts \<and> set ts = set ms \<and>
      (\<forall>i<length ts. set (mRequires (ts ! i)) \<subseteq> mName ` set (take i ts))"
    if d: "distinct (map mName ms)" and P: "set P = mName ` set ms"
  proof (intro exI conjI allI impI)
    let ?ts = "map (the \<circ> byName ms) P"
    have nm: "byName ms n = Some ((the \<circ> byName ms) n)" "mName ((the \<circ> byName ms) n) = n"
      "mRequires ((the \<circ> byName ms) n) = reqs ms n" if "n \<in> set P" for n
    proof -
      have "byName ms n \<noteq> None" using that unfolding P byName_None by blast
      then obtain m where m: "byName ms n = Some m" by blast
      with byName_Some [OF m] requires_of_reqs [OF d, of n]
      show "byName ms n = Some ((the \<circ> byName ms) n)" "mName ((the \<circ> byName ms) n) = n"
        "mRequires ((the \<circ> byName ms) n) = reqs ms n" by (simp_all add: requires_of_def)
    qed
    show "map (byName ms) P = map Some ?ts" using nm(1) by simp
    have names: "map mName ?ts = P" using nm(2) by (simp add: map_idI)
    then show "distinct ?ts" using kahn_invD(1) [OF looped(2)] by (metis append_Nil2 distinct_map)
    show "set ?ts = set ms"
      using P byName_distinct [OF d] by (auto simp: image_iff)
    show "set (mRequires (?ts ! i)) \<subseteq> mName ` set (take i ?ts)" if "i < length ?ts" for i
    proof -
      have "mName ` set (take i ?ts) = set (take i P)" using names by (metis set_map take_map)
      moreover have "mRequires (?ts ! i) = reqs ms (P ! i)" using nm(3) that by simp
      ultimately show ?thesis using kahn_invD(4) [OF looped(2), of i] that by simp
    qed
  qed
  show ?thesis
    using looped(1,3) all sorted placed_all_acyclic [OF looped(2)] acyclic_placed_all [OF looped(2) _ looped(1)]
    by (cases "length P = length ms") auto
qed

definition sample_module :: "string \<Rightarrow> string list \<Rightarrow> unit Module" where
  "sample_module n ds = \<lparr>mName = n, mRequires = ds, mInit = Inr\<rparr>"

theorem module_order_correct_witness:
  "let ms = [sample_module ''cart'' [''catalog''], sample_module ''catalog'' []] in
     acyclic (requirement_edges ms) \<and>
     validateAndSort [''cart'', ''catalog''] [] ms = Inr (map Some (rev ms))"
proof -
  let ?ms = "[sample_module ''cart'' [''catalog''], sample_module ''catalog'' []]"
  have run: "validateAndSort [''cart'', ''catalog''] [] ?ms = Inr (map Some (rev ?ms))"
    by (simp add: sample_module_def validateAndSort_def byName_def build_graph_def add_module_def
        add_edges_def degree_def)
  have "set [''cart'', ''catalog''] = mName ` set ?ms" "distinct [''cart'', ''catalog'']"
    by (simp_all add: sample_module_def)
  from module_order_correct [OF this, of "[]"] run show ?thesis by auto
qed

lemma cycle_walk_closes:
  assumes "\<And>n. 0 < degree dg n \<Longrightarrow> \<exists>d\<in>set (req n). 0 < degree dg d"
    and "visited @ [current] = path" "successively (\<lambda>a b. b \<in> set (req a)) path"
    and "\<forall>n\<in>set path. 0 < degree dg n"
  shows "2 \<le> length (cycle_walk req dg visited path current) \<and>
    successively (\<lambda>a b. b \<in> set (req a)) (cycle_walk req dg visited path current) \<and>
    last (cycle_walk req dg visited path current) \<in> set (butlast (cycle_walk req dg visited path current))"
  using assms
proof (induction req dg visited path current rule: cycle_walk.induct)
  case (1 req dg visited path current)
  have last: "last path = current" "path \<noteq> []" using "1.prems"(2) by auto
  have step: "successively (\<lambda>a b. b \<in> set (req a)) (path @ [d])" if "d \<in> set (req current)" for d
    using that last "1.prems"(3) by (simp add: successively_append_iff)
  let ?open = "find (\<lambda>d. degree dg d > 0 \<and> d \<notin> set (visited @ [current])) (req current)"
  show ?case
  proof (cases ?open)
    case (Some d)
    then have d: "0 < degree dg d" "d \<in> set (req current)" by (auto simp: find_Some_iff)
    have "(visited @ [current]) @ [d] = path @ [d]" using "1.prems"(2) by simp
    from "1.IH" [OF refl Some "1.prems"(1) this step [OF d(2)]] d(1) "1.prems"(4) Some
    show ?thesis by (subst (1 2 3 4) cycle_walk.simps) (simp add: Let_def)
  next
    case None
    have "0 < degree dg current" using "1.prems"(2,4) by auto
    from "1.prems"(1) [OF this] obtain d where d: "find (\<lambda>d. degree dg d > 0) (req current) = Some d"
      by (cases "find (\<lambda>d. degree dg d > 0) (req current)") (auto simp: find_None_iff)
    then have "0 < degree dg d" "d \<in> set (req current)" by (auto simp: find_Some_iff)
    moreover from this None have "d \<in> set path" using "1.prems"(2) by (auto simp: find_None_iff)
    moreover have "cycle_walk req dg visited path current = path @ [d]"
      by (subst cycle_walk.simps) (simp only: Let_def None d option.case)
    ultimately show ?thesis using step [of d] last by (cases path) auto
  qed
qed

text \<open>The error for a circular dependency names a real one: when module names are unique and not
empty and every required module is enabled, a failing check shows a path in which each module
requires the next and whose last module occurs before, whatever order Go visits its maps in.\<close>
theorem cycle_report_genuine:
  assumes "set ks = mName ` set ms" "distinct ks" "set ks' = mName ` set ms"
    and "distinct (map mName ms)" "[] \<notin> mName ` set ms"
    and "\<forall>m\<in>set ms. set (mRequires m) \<subseteq> mName ` set ms"
    and "validateAndSort ks ks' ms = Inl e"
  shows "\<exists>p. e = ErrText (''circular dependency detected among modules: '' @ join_path p) \<and>
    2 \<le> length p \<and> successively (\<lambda>a b. b \<in> set (requires_of (byName ms) a)) p \<and>
    last p \<in> set (butlast p)"
  using assms(1,2)
proof (cases rule: validateAndSort_cases [of ks ms ks'])
  case (missing n d)
  with assms(6) show ?thesis by blast
next
  case (looped P dg)
  let ?req = "requires_of (byName ms)"
  have req: "?req = reqs ms" by (rule ext) (rule requires_of_reqs [OF assms(4)])
  have mem: "n \<in> set P \<longleftrightarrow> n \<in> mName ` set ms \<and> degree dg n = 0" for n
    using kahn_invD(3) [OF looped(2), of n] by simp
  have pos: "0 \<le> degree dg n" for n using kahn_invD(2) [OF looped(2), of n] by simp
  have closed: "\<exists>d\<in>set (?req n). 0 < degree dg d" if open_n: "0 < degree dg n" for n
  proof -
    obtain d where d: "d \<in> set (reqs ms n)" "d \<notin> set P" using kahn_inv_open [OF looped(2)] open_n by blast
    then have "d \<in> mName ` set ms" using assms(6) by (auto simp: set_reqs requirement_edges_def)
    then have "0 < degree dg d" using mem [of d] d(2) pos [of d] by auto
    with d(1) show ?thesis unfolding req by blast
  qed
  have "length P \<noteq> length ms" using looped(3) assms(7) by (auto split: if_splits)
  then have ne: "set P \<noteq> mName ` set ms" using placed_all_iff [OF looped(2)] assms(4) by blast
  have "set P \<subseteq> mName ` set ms" using mem by (meson subsetI)
  with ne obtain n where n: "n \<in> mName ` set ms" "n \<notin> set P" by auto
  then have "0 < degree dg n" using mem [of n] pos [of n] by auto
  with n(1) assms(3) obtain start where start: "find (\<lambda>n. degree dg n > 0) ks' = Some start"
    by (cases "find (\<lambda>n. degree dg n > 0) ks'") (auto simp: find_None_iff)
  then have s: "0 < degree dg start" "start \<in> set ks'" by (auto simp: find_Some_iff)
  then have "start \<noteq> []" using assms(3,5) by metis
  then have path: "cycle_path ks' ?req dg = cycle_walk ?req dg [] [start] start"
    using start by (simp add: cycle_path_def)
  note walk = cycle_walk_closes [where dg = dg and req = ?req and visited = "[]" and current = start
      and path = "[start]", OF closed]
  have "findCycle ks' ?req dg = join_path (cycle_walk ?req dg [] [start] start)"
    using walk s(1) by (cases "cycle_walk ?req dg [] [start] start") (auto simp: findCycle_def path)
  then show ?thesis
    using looped(3) \<open>length P \<noteq> length ms\<close> assms(7) walk s(1) by auto
qed

theorem cycle_report_genuine_witness:
  "let ms = [sample_module ''a'' [''b''], sample_module ''b'' [''c''], sample_module ''c'' [''b'']];
       ks = [''a'', ''b'', ''c'']
   in \<exists>p. validateAndSort ks ks ms = Inl (ErrText (''circular dependency detected among modules: '' @ join_path p)) \<and>
     last p \<in> set (butlast p)"
proof -
  let ?ms = "[sample_module ''a'' [''b''], sample_module ''b'' [''c''], sample_module ''c'' [''b'']]"
  let ?ks = "[''a'', ''b'', ''c'']"
  have h: "set ?ks = mName ` set ?ms" "distinct ?ks" "distinct (map mName ?ms)" "[] \<notin> mName ` set ?ms"
    "\<forall>m\<in>set ?ms. set (mRequires m) \<subseteq> mName ` set ?ms"
    by (simp_all add: sample_module_def)
  have "isl (validateAndSort ?ks ?ks ?ms)"
    by (simp add: sample_module_def validateAndSort_def byName_def build_graph_def add_module_def
        add_edges_def degree_def)
  then obtain e where e: "validateAndSort ?ks ?ks ?ms = Inl e" by (cases "validateAndSort ?ks ?ks ?ms") auto
  from cycle_report_genuine [OF h(1,2,1,3,4,5) e] e show ?thesis by auto
qed

end
