(* ===== verification/Orders.thy ===== *)
theory Orders
  imports Events
begin

text \<open>
  Orders: the domain (\<open>internal/core/orders/domain\<close>: item validation, totals and the status
  state machine) and the service (\<open>internal/core/orders/service.go\<close>) over its repository, outbox,
  transaction manager and event bus. The contract a repository has to meet is \<open>order_store\<close>.
\<close>

section \<open>Domain\<close>

text \<open>\<open>OrderStatus\<close> is a string type; \<open>OtherStatus\<close> is any text that is none of the constants.\<close>

datatype OrderStatus =
    StatusPending | StatusPaid | StatusShipped | StatusDone | StatusCanceled | OtherStatus string

definition ErrEmptyOrder :: err where
  [go_defs]: "ErrEmptyOrder = Sentinel ''orders/domain'' ''order must contain at least one item''"
definition ErrVariantIDRequired :: err where
  [go_defs]: "ErrVariantIDRequired = Sentinel ''orders/domain'' ''variant ID is required''"
definition ErrInvalidItemQuantity :: err where
  [go_defs]: "ErrInvalidItemQuantity = Sentinel ''orders/domain'' ''quantity must be greater than zero''"
definition ErrInvalidPrice :: err where
  [go_defs]: "ErrInvalidPrice = Sentinel ''orders/domain'' ''price cannot be negative''"
definition ErrOrderNotFound :: err where
  [go_defs]: "ErrOrderNotFound = Sentinel ''orders/domain'' ''order not found''"
definition ErrInvalidTransition :: err where
  [go_defs]: "ErrInvalidTransition = Sentinel ''orders/domain'' ''invalid transition action''"

record OrderItem =
  oiVariantID :: string
  oiQuantity :: int
  oiPrice :: f64

record OrderCustomerSnapshot =
  csName :: string
  csEmail :: string
  csContactNumber :: string

record Order =
  ordID :: string
  ordCustomerID :: string
  ordCustomerSnapshot :: OrderCustomerSnapshot
  ordItems :: "OrderItem list"
  ordTotal :: f64
  ordStatus :: OrderStatus
  ordCreatedAt :: int

fun validate_each :: "OrderItem list \<Rightarrow> err option" where
  "validate_each [] = None"
| "validate_each (i # is) =
     (if oiVariantID i = [] then Some ErrVariantIDRequired
      else if oiQuantity i \<le> 0 then Some ErrInvalidItemQuantity
      else if oiPrice i < 0 then Some ErrInvalidPrice
      else validate_each is)"

definition ValidateItems :: "OrderItem list \<Rightarrow> err option" where
  "ValidateItems is = (if is = [] then Some ErrEmptyOrder else validate_each is)"

definition CalculateTotal :: "OrderItem list \<Rightarrow> f64" where
  "CalculateTotal is =
     foldl (\<lambda>total i. fadd total (fmul (oiPrice i) (f_of_int (oiQuantity i)))) 0 is"

definition Transition :: "OrderStatus \<Rightarrow> string \<Rightarrow> err + OrderStatus" where
  "Transition current action = (case current of
       StatusPending \<Rightarrow>
         if action = ''pay'' then Inr StatusPaid
         else if action = ''cancel'' then Inr StatusCanceled else Inl ErrInvalidTransition
     | StatusPaid \<Rightarrow>
         if action = ''ship'' then Inr StatusShipped
         else if action = ''cancel'' then Inr StatusCanceled else Inl ErrInvalidTransition
     | StatusShipped \<Rightarrow>
         if action = ''complete'' then Inr StatusDone else Inl ErrInvalidTransition
     | _ \<Rightarrow> Inl ErrInvalidTransition)"

section \<open>Service\<close>

record 'w OrderRepository =
  oCreate :: "Order \<Rightarrow> ('w, unit) io"
  oGetByID :: "string \<Rightarrow> ('w, Order) io"
  oUpdate :: "Order \<Rightarrow> ('w, unit) io"
  oListByCustomerID :: "string \<Rightarrow> int \<Rightarrow> int \<Rightarrow> ('w, Order list) io"
  oListAll :: "int \<Rightarrow> int \<Rightarrow> ('w, Order list) io"

text \<open>\<open>outbox\<close> and \<open>txManager\<close> are nil when the outbox feature is off.\<close>

record 'w orderService =
  osRepo :: "'w OrderRepository"
  osBus :: "'w bus"
  osOutbox :: "'w OutboxRepository option"
  osTx :: "(('w, unit) io \<Rightarrow> ('w, unit) io) option"

definition create_order_error :: "err \<Rightarrow> err" where
  "create_order_error e =
     (if e = ErrEmptyOrder then NewBadRequest ''order must contain at least one item'' (Some ErrEmptyOrder)
      else if e = ErrVariantIDRequired
      then NewBadRequest ''variant ID is required for each item'' (Some ErrVariantIDRequired)
      else if e = ErrInvalidItemQuantity
      then NewBadRequest ''quantity must be greater than zero'' (Some ErrInvalidItemQuantity)
      else if e = ErrInvalidPrice then NewBadRequest ''price cannot be negative'' (Some ErrInvalidPrice)
      else NewBadRequest ''invalid order items'' (Some e))"

text \<open>The body both operations run in a transaction: a write and the event in the outbox.\<close>

definition write_with_event :: "('w, unit) io \<Rightarrow> 'w OutboxRepository \<Rightarrow> event \<Rightarrow> ('w, unit) io" where
  "write_with_event write ob evt w = (case write w of
       (Inl e, w1) \<Rightarrow> (Inl e, w1)
     | (Inr _, w1) \<Rightarrow> Store ob [evt] w1)"

definition CreateOrder ::
  "('a env_scheme) orderService \<Rightarrow> string \<Rightarrow> OrderCustomerSnapshot \<Rightarrow> OrderItem list \<Rightarrow>
   ('a env_scheme, Order) io" where
  "CreateOrder s customerID snapshot is w =
    (case ValidateItems is of Some e \<Rightarrow> (Inl (create_order_error e), w)
     | None \<Rightarrow>
     (case Generate ''ord_'' w of
       (Inl e, w1) \<Rightarrow> (Inl (NewInternal ''failed to generate order ID'' (Some e)), w1)
     | (Inr oid, w1) \<Rightarrow>
     (case time_now w1 of (now, w2) \<Rightarrow>
      let order = \<lparr>ordID = oid, ordCustomerID = customerID, ordCustomerSnapshot = snapshot,
                   ordItems = is, ordTotal = CalculateTotal is, ordStatus = StatusPending,
                   ordCreatedAt = now\<rparr> in
     (case NewEventFromCtx OrderCreatedTopic ''orders''
             (POrderCreated \<lparr>oc_OrderID = oid, oc_CustomerID = customerID,
                oc_Total = CalculateTotal is, oc_CreatedAt = now\<rparr>) w2 of
       (Inl p, w3) \<Rightarrow> (Inl p, w3)
     | (Inr evt, w3) \<Rightarrow>
     (case (osOutbox s, osTx s) of
        (Some ob, Some runTx) \<Rightarrow>
          (case runTx (write_with_event (oCreate (osRepo s) order) ob evt) w3 of
             (Inl e, w4) \<Rightarrow> (Inl (NewInternal ''failed to create order'' (Some e)), w4)
           | (Inr _, w4) \<Rightarrow> (Inr order, w4))
      | _ \<Rightarrow>
          (case oCreate (osRepo s) order w3 of
             (Inl e, w4) \<Rightarrow> (Inl (NewInternal ''failed to create order'' (Some e)), w4)
           | (Inr _, w4) \<Rightarrow> (Inr order, osBus s evt w4)))))))"

text \<open>The event that a new status announces, if any.\<close>

definition status_payload :: "Order \<Rightarrow> OrderStatus \<Rightarrow> (string \<times> payload) option" where
  "status_payload o1 st = (case st of
       StatusPaid \<Rightarrow> Some (OrderPaidTopic, POrderPaid \<lparr>op_OrderID = ordID o1, op_Amount = ordTotal o1\<rparr>)
     | StatusCanceled \<Rightarrow> Some (OrderCancelledTopic,
         POrderCancelled \<lparr>ox_OrderID = ordID o1, ox_Reason = ''order cancelled''\<rparr>)
     | _ \<Rightarrow> None)"

definition update_failed :: "err \<Rightarrow> err" where
  "update_failed e = NewInternal ''failed to update order status'' (Some e)"

definition TransitionOrder ::
  "('a env_scheme) orderService \<Rightarrow> string \<Rightarrow> string \<Rightarrow> ('a env_scheme, Order) io" where
  "TransitionOrder s oid action w = (case oGetByID (osRepo s) oid w of
       (Inl e, w1) \<Rightarrow> (Inl (NewNotFound ''order not found'' (Some ErrOrderNotFound)), w1)
     | (Inr order0, w1) \<Rightarrow>
     (case Transition (ordStatus order0) action of
       Inl e \<Rightarrow> (Inl (NewBadRequest ''invalid state transition action'' (Some ErrInvalidTransition)), w1)
     | Inr next \<Rightarrow>
     (let order = order0\<lparr>ordStatus := next\<rparr> in
      case status_payload order next of
       None \<Rightarrow>
         (case oUpdate (osRepo s) order w1 of
            (Inl e, w2) \<Rightarrow> (Inl (update_failed e), w2)
          | (Inr _, w2) \<Rightarrow> (Inr order, w2))
     | Some (topic, pl) \<Rightarrow>
         (case NewEventFromCtx topic ''orders'' pl w1 of
            (Inl p, w2) \<Rightarrow> (Inl p, w2)
          | (Inr evt, w2) \<Rightarrow>
            (case (osOutbox s, osTx s) of
               (Some ob, Some runTx) \<Rightarrow>
                 (case runTx (write_with_event (oUpdate (osRepo s) order) ob evt) w2 of
                    (Inl e, w3) \<Rightarrow> (Inl (update_failed e), w3)
                  | (Inr _, w3) \<Rightarrow> (Inr order, w3))
             | _ \<Rightarrow>
                 (case oUpdate (osRepo s) order w2 of
                    (Inl e, w3) \<Rightarrow> (Inl (update_failed e), w3)
                  | (Inr _, w3) \<Rightarrow> (Inr order, osBus s evt w3)))))))"

definition GetOrder :: "('a env_scheme) orderService \<Rightarrow> string \<Rightarrow> ('a env_scheme, Order) io" where
  "GetOrder s oid w = (case oGetByID (osRepo s) oid w of
       (Inl e, w1) \<Rightarrow> (Inl (NewNotFound ''order not found'' (Some ErrOrderNotFound)), w1)
     | (Inr o1, w1) \<Rightarrow> (Inr o1, w1))"

definition GetCustomerOrders ::
  "('a env_scheme) orderService \<Rightarrow> string \<Rightarrow> int \<Rightarrow> int \<Rightarrow> ('a env_scheme, Order list) io" where
  "GetCustomerOrders s c limit offset w =
    (case oListByCustomerID (osRepo s) c (page_limit limit) (page_offset offset) w of
       (Inl e, w1) \<Rightarrow> (Inl (NewInternal ''failed to list customer orders'' (Some e)), w1)
     | (Inr os, w1) \<Rightarrow> (Inr os, w1))"

definition GetAllOrders ::
  "('a env_scheme) orderService \<Rightarrow> int \<Rightarrow> int \<Rightarrow> ('a env_scheme, Order list) io" where
  "GetAllOrders s limit offset w =
    (case oListAll (osRepo s) (page_limit limit) (page_offset offset) w of
       (Inl e, w1) \<Rightarrow> (Inl (NewInternal ''failed to list all orders'' (Some e)), w1)
     | (Inr os, w1) \<Rightarrow> (Inr os, w1))"

text \<open>The subscriber of \<open>payment.succeeded\<close>; a payload of another type is logged and accepted.\<close>

definition handlePaymentSucceeded ::
  "('a env_scheme) orderService \<Rightarrow> event \<Rightarrow> ('a env_scheme, unit) io" where
  "handlePaymentSucceeded s ev w = (case AsPaymentEvent ev of
       None \<Rightarrow> (Inr (), w)
     | Some p \<Rightarrow> (case TransitionOrder s (pe_OrderID p) ''pay'' w of
           (Inl e, w1) \<Rightarrow> (Inl e, w1)
         | (Inr _, w1) \<Rightarrow> (Inr (), w1)))"

section \<open>Writing an order and its event\<close>

text \<open>The step both operations end with: in a transaction with the outbox, or published afterwards.\<close>

definition recorded ::
  "'w orderService \<Rightarrow> ('w, unit) io \<Rightarrow> event \<Rightarrow> ('w, unit) io" where
  "recorded s write evt w = (case (osOutbox s, osTx s) of
       (Some ob, Some runTx) \<Rightarrow> runTx (write_with_event write ob evt) w
     | _ \<Rightarrow> (case write w of (Inl e, w1) \<Rightarrow> (Inl e, w1) | (Inr u, w1) \<Rightarrow> (Inr (), osBus s evt w1)))"

lemma recorded_outbox:
  "osOutbox s = Some ob \<Longrightarrow> osTx s = Some runTx \<Longrightarrow> recorded s write evt w = runTx (write_with_event write ob evt) w"
  by (simp add: recorded_def)

lemma CreateOrder_cases:
  assumes "CreateOrder s c snap is w = (r, w')"
  obtains (refused) "isl r" "env.more w' = env.more w" "in_tx w' = in_tx w"
  | (written) o1 evt v x where
      "ValidateItems is = None" "ordItems o1 = is" "ordTotal o1 = CalculateTotal is" "ordStatus o1 = StatusPending"
      "ordCustomerID o1 = c" "evTopic evt = OrderCreatedTopic"
      "evPayload evt = POrderCreated \<lparr>oc_OrderID = ordID o1, oc_CustomerID = c, oc_Total = ordTotal o1,
         oc_CreatedAt = ordCreatedAt o1\<rparr>"
      "env.more v = env.more w" "in_tx v = in_tx w" "recorded s (oCreate (osRepo s) o1) evt v = (x, w')"
      "r = map_sum (\<lambda>e. NewInternal ''failed to create order'' (Some e)) (\<lambda>_. o1) x"
proof -
  obtain g w1 where g: "Generate ''ord_'' w = (g, w1)" by fastforce
  obtain t w2 where t: "time_now w1 = (t, w2)" by fastforce
  have e2: "env.more w1 = env.more w \<and> in_tx w1 = in_tx w" "env.more w2 = env.more w \<and> in_tx w2 = in_tx w"
    using g t by (auto elim!: GenerateE time_nowE)
  show thesis
  proof (cases "ValidateItems is = None \<and> \<not> isl g")
    case False
    then show thesis using assms g e2
      by (intro refused) (auto simp: CreateOrder_def split: option.splits sum.splits)
  next
    case True
    then obtain oid where oid: "g = Inr oid" by (cases g) auto
    define o1 where "o1 = \<lparr>ordID = oid, ordCustomerID = c, ordCustomerSnapshot = snap, ordItems = is,
        ordTotal = CalculateTotal is, ordStatus = StatusPending, ordCreatedAt = t\<rparr>"
    obtain ev v where ev: "NewEventFromCtx OrderCreatedTopic ''orders'' (POrderCreated
        \<lparr>oc_OrderID = oid, oc_CustomerID = c, oc_Total = CalculateTotal is, oc_CreatedAt = t\<rparr>) w2 = (ev, v)"
      by fastforce
    then have v: "env.more v = env.more w" "in_tx v = in_tx w" using e2 by (auto elim!: NewEventFromCtxE)
    show thesis
    proof (cases ev)
      case (Inl p)
      then show thesis using assms g t ev True oid v by (intro refused) (auto simp: CreateOrder_def Let_def)
    next
      case (Inr evt)
      obtain x w4 where x: "recorded s (oCreate (osRepo s) o1) evt v = (x, w4)" by fastforce
      have "(r, w') = (map_sum (\<lambda>e. NewInternal ''failed to create order'' (Some e)) (\<lambda>_. o1) x, w4)"
        using assms g t ev Inr True oid x
        by (auto simp: CreateOrder_def Let_def o1_def recorded_def split: sum.splits option.splits prod.splits)
      with ev Inr x v True show thesis
        by (intro written [of o1 evt v x]) (auto simp: o1_def elim!: NewEventFromCtxE)
    qed
  qed
qed

lemma TransitionOrder_cases:
  assumes "TransitionOrder s oid a w = (r, w')"
  obtains (unread) e where "oGetByID (osRepo s) oid w = (Inl e, w')" "isl r"
  | (refused) o0 v where "oGetByID (osRepo s) oid w = (Inr o0, v)" "isl r" "env.more w' = env.more v" "in_tx w' = in_tx v"
  | (plain) o0 v st x where "oGetByID (osRepo s) oid w = (Inr o0, v)" "Transition (ordStatus o0) a = Inr st"
      "status_payload (o0\<lparr>ordStatus := st\<rparr>) st = None" "oUpdate (osRepo s) (o0\<lparr>ordStatus := st\<rparr>) v = (x, w')"
      "r = map_sum update_failed (\<lambda>_. o0\<lparr>ordStatus := st\<rparr>) x"
  | (announced) o0 v st tp pl evt u x where "oGetByID (osRepo s) oid w = (Inr o0, v)" "Transition (ordStatus o0) a = Inr st"
      "status_payload (o0\<lparr>ordStatus := st\<rparr>) st = Some (tp, pl)" "evTopic evt = tp" "evPayload evt = pl"
      "env.more u = env.more v" "in_tx u = in_tx v"
      "recorded s (oUpdate (osRepo s) (o0\<lparr>ordStatus := st\<rparr>)) evt u = (x, w')"
      "r = map_sum update_failed (\<lambda>_. o0\<lparr>ordStatus := st\<rparr>) x"
proof -
  obtain g v where g: "oGetByID (osRepo s) oid w = (g, v)" by fastforce
  show thesis
  proof (cases g)
    case (Inl e)
    then show thesis using assms g by (intro unread [of e]) (auto simp: TransitionOrder_def)
  next
    case o0: (Inr o0)
    show thesis
    proof (cases "Transition (ordStatus o0) a")
      case (Inl e)
      then show thesis using assms g o0 by (intro refused [of o0 v]) (auto simp: TransitionOrder_def)
    next
      case st: (Inr st)
      define o1 where "o1 = o0\<lparr>ordStatus := st\<rparr>"
      note run = assms [unfolded TransitionOrder_def Let_def, unfolded g prod.case o0 sum.case st o1_def [symmetric]]
      show thesis
      proof (cases "status_payload o1 st")
        case None
        then show thesis using run g o0 st
          by (intro plain [of o0 v st "fst (oUpdate (osRepo s) o1 v)"]) (auto simp: o1_def split: sum.splits prod.splits)
      next
        case (Some tpl)
        then obtain tp pl where sp: "status_payload o1 st = Some (tp, pl)" by (cases tpl) auto
        obtain ev u where ev: "NewEventFromCtx tp ''orders'' pl v = (ev, u)" by fastforce
        then have u: "env.more u = env.more v" "in_tx u = in_tx v" by (auto elim!: NewEventFromCtxE)
        show thesis
        proof (cases ev)
          case (Inl p)
          then show thesis using run g o0 sp ev u by (intro refused [of o0 v]) auto
        next
          case (Inr evt)
          obtain x w3 where x: "recorded s (oUpdate (osRepo s) o1) evt u = (x, w3)" by fastforce
          have "(r, w') = (map_sum update_failed (\<lambda>_. o1) x, w3)"
            using run sp ev Inr x by (auto simp: recorded_def split: sum.splits option.splits prod.splits)
          with g o0 st sp ev Inr x u show thesis
            by (intro announced [of o0 v st tp pl evt u x]) (auto simp: o1_def elim!: NewEventFromCtxE)
        qed
      qed
    qed
  qed
qed

section \<open>The domain rules\<close>

lemma ValidateItems_None:
  "ValidateItems is = None \<longleftrightarrow>
     is \<noteq> [] \<and> (\<forall>i\<in>set is. oiVariantID i \<noteq> [] \<and> 0 < oiQuantity i \<and> 0 \<le> oiPrice i)"
proof -
  have "validate_each is = None \<longleftrightarrow>
      (\<forall>i\<in>set is. oiVariantID i \<noteq> [] \<and> 0 < oiQuantity i \<and> 0 \<le> oiPrice i)"
    by (induction "is" rule: validate_each.induct) (auto simp: go_defs)
  then show ?thesis by (simp add: ValidateItems_def go_defs)
qed

lemma total_fold_nonneg:
  "0 \<le> t \<Longrightarrow> \<forall>i\<in>set is. 0 < oiQuantity i \<and> 0 \<le> oiPrice i \<Longrightarrow>
   0 \<le> foldl (\<lambda>total i. fadd total (fmul (oiPrice i) (f_of_int (oiQuantity i)))) t is"
  by (induction "is" arbitrary: t) (simp_all add: fadd_nonneg fmul_nonneg f_of_int_nonneg)

text \<open>Whole-number prices: no addition or product rounds while the total stays below \<open>2^53\<close>.\<close>

lemma total_fold_exact:
  "0 \<le> t \<Longrightarrow> \<forall>i\<in>set is. 0 < oiQuantity i \<and> 0 \<le> p i \<and> oiPrice i = of_int (p i) \<Longrightarrow>
   t + (\<Sum>i\<leftarrow>is. p i * oiQuantity i) < 2 ^ 53 \<Longrightarrow> \<forall>i\<in>set is. oiQuantity i < 2 ^ 53 \<Longrightarrow>
   foldl (\<lambda>total i. fadd total (fmul (oiPrice i) (f_of_int (oiQuantity i)))) (of_int t) is =
     of_int (t + (\<Sum>i\<leftarrow>is. p i * oiQuantity i))"
proof (induction "is" arbitrary: t)
  case (Cons i "is")
  let ?x = "p i * oiQuantity i"
  have pos: "0 \<le> ?x" "0 \<le> (\<Sum>i\<leftarrow>is. p i * oiQuantity i)"
    using Cons.prems(2) by (auto intro!: sum_list_nonneg mult_nonneg_nonneg simp: less_imp_le)
  have "fmul (oiPrice i) (f_of_int (oiQuantity i)) = of_int ?x"
    using Cons.prems pos fmul_exact_int [of "p i" "oiQuantity i"] by simp
  moreover have "fadd (of_int t) (of_int ?x) = of_int (t + ?x)"
    using Cons.prems pos by (intro fadd_exact_int) simp
  ultimately show ?case
    using Cons.IH [of "t + ?x"] Cons.prems pos by (simp add: add.assoc)
qed simp

text \<open>The life of an order: its rank grows with every transition, so no status comes back.\<close>

fun status_rank :: "OrderStatus \<Rightarrow> nat" where
  "status_rank StatusPending = 0"
| "status_rank StatusPaid = 1"
| "status_rank StatusShipped = 2"
| "status_rank StatusDone = 3"
| "status_rank StatusCanceled = 3"
| "status_rank (OtherStatus _) = 4"

lemma Transition_rank: "Transition s a = Inr t \<Longrightarrow> status_rank s < status_rank t"
  by (auto simp: Transition_def split: OrderStatus.splits if_splits)

inductive status_path :: "OrderStatus \<Rightarrow> OrderStatus \<Rightarrow> bool" where
  stay: "status_path s s"
| go: "status_path s t \<Longrightarrow> Transition t a = Inr u \<Longrightarrow> status_path s u"

inductive_cases status_pathE: "status_path s t"

lemma status_path_rank: "status_path s t \<Longrightarrow> s = t \<or> status_rank s < status_rank t"
  by (induction rule: status_path.induct) (auto dest: Transition_rank)

lemma status_path_known:
  "status_path s t \<Longrightarrow> s = StatusPending \<Longrightarrow>
   t \<in> {StatusPending, StatusPaid, StatusShipped, StatusDone, StatusCanceled}"
  by (induction rule: status_path.induct)
    (auto simp: Transition_def split: OrderStatus.splits if_splits)

end
