(* ===== verification/Payments.thy ===== *)
theory Payments
  imports Orders
begin

text \<open>
  Payments (\<open>internal/core/payments\<close>): the payment record, the service that creates, confirms and
  refunds payments through external providers, its subscription to cancelled orders, and the
  adapter through which it reads orders (\<open>internal/modules/payments/wiring/adapter.go\<close>). Providers
  are parameters; the timeout given to their calls is not modelled.
\<close>

section \<open>Model\<close>

text \<open>\<open>PaymentStatus\<close> is a string type; \<open>OtherPayStatus\<close> is any text that is none of the constants.\<close>

datatype PaymentStatus =
    PayPending | PaySucceeded | PayFailed | PayRefunded | PayRefundFailed | OtherPayStatus string

fun pay_status_text :: "PaymentStatus \<Rightarrow> string" where
  "pay_status_text PayPending = ''pending''"
| "pay_status_text PaySucceeded = ''succeeded''"
| "pay_status_text PayFailed = ''failed''"
| "pay_status_text PayRefunded = ''refunded''"
| "pay_status_text PayRefundFailed = ''refund_failed''"
| "pay_status_text (OtherPayStatus s) = s"

text \<open>\<open>PaymentStatus(intent.Status)\<close>\<close>

definition pay_status :: "string \<Rightarrow> PaymentStatus" where
  "pay_status s = (if s = ''pending'' then PayPending else if s = ''succeeded'' then PaySucceeded
     else if s = ''failed'' then PayFailed else if s = ''refunded'' then PayRefunded
     else if s = ''refund_failed'' then PayRefundFailed else OtherPayStatus s)"

record Payment =
  pmID :: string
  pmOrderID :: string
  pmCustomerID :: string
  pmAmount :: f64
  pmCurrency :: string
  pmProvider :: string
  pmProviderIntentID :: string
  pmStatus :: PaymentStatus
  pmIdempotencyKey :: string
  pmFailureReason :: string
  pmCreatedAt :: int
  pmUpdatedAt :: int
  pmRefundedAt :: "int option"

definition PErrOrderNotFound :: err where
  "PErrOrderNotFound = Sentinel ''payments'' ''order not found''"
definition PErrInvalidOrderStatus :: err where
  "PErrInvalidOrderStatus = Sentinel ''payments'' ''order is not in pending status''"
definition PErrPaymentNotFound :: err where
  "PErrPaymentNotFound = Sentinel ''payments'' ''payment not found''"
definition PErrProviderNotFound :: err where
  "PErrProviderNotFound = Sentinel ''payments'' ''payment provider not found''"
definition PErrInvalidInput :: err where
  "PErrInvalidInput = Sentinel ''payments'' ''invalid input parameters''"
definition PErrDuplicatePaymentService :: err where
  "PErrDuplicatePaymentService =
     Sentinel ''payments'' ''payment already initiated/succeeded for this order''"
definition PErrOrphanedProviderIntent :: err where
  "PErrOrphanedProviderIntent =
     Sentinel ''payments'' ''payment intent created but failed to save in system''"
definition PErrNotFound :: err where
  "PErrNotFound = Sentinel ''payments'' ''repository: record not found''"
definition PErrDuplicatePayment :: err where
  "PErrDuplicatePayment = Sentinel ''payments'' ''repository: duplicate payment''"

lemmas pay_errs = PErrOrderNotFound_def PErrInvalidOrderStatus_def PErrPaymentNotFound_def
  PErrProviderNotFound_def PErrInvalidInput_def PErrDuplicatePaymentService_def
  PErrOrphanedProviderIntent_def PErrNotFound_def PErrDuplicatePayment_def

section \<open>Dependencies\<close>

record 'w PayRepository =
  pCreate :: "Payment \<Rightarrow> ('w, unit) io"
  pGetByID :: "string \<Rightarrow> ('w, Payment) io"
  pGetByOrderID :: "string \<Rightarrow> ('w, Payment) io"
  pGetByProviderIntentID :: "string \<Rightarrow> string \<Rightarrow> ('w, Payment) io"
  pUpdate :: "Payment \<Rightarrow> ('w, unit) io"
  pListAll :: "int \<Rightarrow> int \<Rightarrow> ('w, Payment list) io"
  pListByCustomerID :: "string \<Rightarrow> int \<Rightarrow> int \<Rightarrow> ('w, Payment list) io"

record PaymentIntent =
  piID :: string
  piStatus :: string

record 'w PaymentProvider =
  CreateIntent :: "f64 \<Rightarrow> string \<Rightarrow> ('w, PaymentIntent) io"
  ConfirmIntent :: "string \<Rightarrow> ('w, unit) io"
  RefundIntent :: "string \<Rightarrow> f64 \<Rightarrow> ('w, unit) io"

record 'w paymentService =
  psRepo :: "'w PayRepository"
  psGetOrder :: "string \<Rightarrow> ('w, f64 \<times> OrderStatus) io" \<comment> \<open>\<open>GetOrderAmountAndStatus\<close>\<close>
  psProviders :: "string \<Rightarrow> 'w PaymentProvider option"
  psDefaultProv :: string
  psBus :: "'w bus option"
  psOutbox :: "'w OutboxRepository option"

text \<open>\<open>NewPaymentService\<close>, less its subscription: the default provider has to be registered.\<close>

definition NewPaymentService ::
  "'w PayRepository \<Rightarrow> (string \<Rightarrow> ('w, f64 \<times> OrderStatus) io) \<Rightarrow> (string \<Rightarrow> 'w PaymentProvider option) \<Rightarrow>
   string \<Rightarrow> 'w bus option \<Rightarrow> 'w OutboxRepository option \<Rightarrow> err + 'w paymentService" where
  "NewPaymentService repo fetch providers dflt bus ob =
    (if dflt \<noteq> [] \<and> providers dflt = None
     then Inl (ErrText (''default payment provider '' @ go_quote dflt
            @ '' does not exist in registered providers''))
     else Inr \<lparr>psRepo = repo, psGetOrder = fetch, psProviders = providers, psDefaultProv = dflt,
       psBus = bus, psOutbox = ob\<rparr>)"

text \<open>The order adapter.\<close>

definition GetOrderAmountAndStatus ::
  "('a env_scheme) orderService \<Rightarrow> string \<Rightarrow> ('a env_scheme, f64 \<times> OrderStatus) io" where
  "GetOrderAmountAndStatus s oid w = (case GetOrder s oid w of
       (Inl e, w1) \<Rightarrow> (Inl e, w1)
     | (Inr o1, w1) \<Rightarrow> (Inr (ordTotal o1, ordStatus o1), w1))"

section \<open>Events\<close>

text \<open>Building an event and handing it on; a panic while building it ends the operation.\<close>

definition publish_pay ::
  "('a env_scheme) paymentService \<Rightarrow> string \<Rightarrow> payload \<Rightarrow> ('a env_scheme, unit) io" where
  "publish_pay s topic pl w = (case NewEventFromCtx topic ''payments'' pl w of
       (Inl p, w1) \<Rightarrow> (Inl p, w1)
     | (Inr evt, w1) \<Rightarrow> (Inr (), emit (psOutbox s) (psBus s) [evt] w1))"

definition pay_event_fields :: "Payment \<Rightarrow> PaymentEventPayload" where
  "pay_event_fields p = \<lparr>pe_OrderID = pmOrderID p, pe_PaymentID = pmID p,
     pe_CustomerID = pmCustomerID p, pe_Amount = pmAmount p\<rparr>"

definition publishPaymentSuccess ::
  "('a env_scheme) paymentService \<Rightarrow> Payment \<Rightarrow> ('a env_scheme, unit) io" where
  "publishPaymentSuccess s p = publish_pay s PaymentSucceededTopic (PPayment (pay_event_fields p))"

definition publishPaymentFailure ::
  "('a env_scheme) paymentService \<Rightarrow> Payment \<Rightarrow> string \<Rightarrow> ('a env_scheme, unit) io" where
  "publishPaymentFailure s p errStr = publish_pay s PaymentFailedTopic
     (PPaymentFailed (PaymentEventPayload.extend (pay_event_fields p)
        \<lparr>pf_Error = (if errStr = [] then ''payment failed'' else errStr)\<rparr>))"

definition publishPaymentRefund ::
  "('a env_scheme) paymentService \<Rightarrow> Payment \<Rightarrow> ('a env_scheme, unit) io" where
  "publishPaymentRefund s p = publish_pay s PaymentRefundedTopic
     (PPaymentRefunded (PaymentEventPayload.extend (pay_event_fields p)
        \<lparr>pr_RefundedAt = (case pmRefundedAt p of Some t \<Rightarrow> t | None \<Rightarrow> pmUpdatedAt p)\<rparr>))"

section \<open>Operations\<close>

definition repo_error :: "err \<Rightarrow> err" where "repo_error e = Wrap ''repository error'' e"
definition provider_error :: "err \<Rightarrow> err" where "provider_error e = Wrap ''provider error'' e"

text \<open>The part of \<open>CreatePaymentIntent\<close> after the check for an existing payment.\<close>

definition create_intent ::
  "('a env_scheme) paymentService \<Rightarrow> string \<Rightarrow> string \<Rightarrow> string \<Rightarrow> string \<Rightarrow> string \<Rightarrow>
   ('a env_scheme, Payment) io" where
  "create_intent s orderID customerID provName0 currency idem0 w =
    (case psGetOrder s orderID w of
       (Inl e, w1) \<Rightarrow> (Inl PErrOrderNotFound, w1)
     | (Inr (amt, status), w1) \<Rightarrow>
     if status \<noteq> StatusPending then (Inl PErrInvalidOrderStatus, w1)
     else let provName = (if provName0 = [] then psDefaultProv s else provName0) in
     case psProviders s provName of
       None \<Rightarrow> (Inl PErrProviderNotFound, w1)
     | Some prov \<Rightarrow>
     (case CreateIntent prov amt currency w1 of
       (Inl e, w2) \<Rightarrow> (Inl (provider_error e), w2)
     | (Inr intent, w2) \<Rightarrow>
     (case Generate ''pmt_'' w2 of
       (Inl e, w3) \<Rightarrow> (Inl (Wrap ''failed to generate payment ID'' e), w3)
     | (Inr payID, w3) \<Rightarrow>
     (case time_now w3 of (created, w4) \<Rightarrow>
     (case time_now w4 of (updated, w5) \<Rightarrow>
      let payment = \<lparr>pmID = payID, pmOrderID = orderID, pmCustomerID = customerID, pmAmount = amt,
            pmCurrency = currency, pmProvider = provName, pmProviderIntentID = piID intent,
            pmStatus = pay_status (piStatus intent),
            pmIdempotencyKey = (if idem0 = [] then orderID else idem0), pmFailureReason = [],
            pmCreatedAt = created, pmUpdatedAt = updated, pmRefundedAt = None\<rparr> in
     (case pCreate (psRepo s) payment w5 of
       (Inl e, w6) \<Rightarrow>
         (Inl (if errors_is e PErrDuplicatePayment then PErrDuplicatePaymentService
               else WrapL PErrOrphanedProviderIntent (err_string e)), w6)
     | (Inr _, w6) \<Rightarrow>
         if pmStatus payment = PaySucceeded
         then (case publishPaymentSuccess s payment w6 of
             (Inl p, w7) \<Rightarrow> (Inl p, w7)
           | (Inr _, w7) \<Rightarrow> (Inr payment, w7))
         else (Inr payment, w6)))))))"

definition CreatePaymentIntent ::
  "('a env_scheme) paymentService \<Rightarrow> string \<Rightarrow> string \<Rightarrow> string \<Rightarrow> string \<Rightarrow> string \<Rightarrow>
   ('a env_scheme, Payment) io" where
  "CreatePaymentIntent s orderID customerID provName currency0 idem w =
    (if orderID = [] \<or> customerID = [] then (Inl PErrInvalidInput, w)
     else let currency = (if currency0 = [] then ''USD'' else currency0) in
     case pGetByOrderID (psRepo s) orderID w of
       (Inr existing, w1) \<Rightarrow>
         if pmStatus existing = PaySucceeded \<or> pmStatus existing = PayPending
         then (Inr existing, w1)
         else create_intent s orderID customerID provName currency idem w1
     | (Inl e, w1) \<Rightarrow>
         if \<not> errors_is e PErrNotFound then (Inl (repo_error e), w1)
         else create_intent s orderID customerID provName currency idem w1)"

definition day_ns :: int where "day_ns = 24 * 3600 * 1000000000"

definition ConfirmPayment ::
  "('a env_scheme) paymentService \<Rightarrow> string \<Rightarrow> string \<Rightarrow> ('a env_scheme, Payment) io" where
  "ConfirmPayment s provName intentID w =
    (if provName = [] \<or> intentID = [] then (Inl PErrInvalidInput, w)
     else case pGetByProviderIntentID (psRepo s) provName intentID w of
       (Inl e, w1) \<Rightarrow>
         (Inl (if errors_is e PErrNotFound then PErrPaymentNotFound else repo_error e), w1)
     | (Inr payment, w1) \<Rightarrow>
     if pmStatus payment = PaySucceeded \<or> pmStatus payment = PayRefunded then (Inr payment, w1)
     else if pmStatus payment = PayFailed then (Inl (ErrText ''cannot confirm failed payment''), w1)
     else case time_now w1 of (now, w2) \<Rightarrow>
     if now - pmCreatedAt payment > day_ns then
       (case time_now w2 of (upd, w3) \<Rightarrow>
        let failed = payment\<lparr>pmStatus := PayFailed,
              pmFailureReason := ''payment intent expired (older than 24 hours)'', pmUpdatedAt := upd\<rparr>;
            w4 = snd (pUpdate (psRepo s) failed w3) in
        (case publishPaymentFailure s failed (pmFailureReason failed) w4 of
           (Inl p, w5) \<Rightarrow> (Inl p, w5)
         | (Inr _, w5) \<Rightarrow> (Inl (ErrText ''cannot confirm expired payment intent''), w5)))
     else (case psProviders s provName of
       None \<Rightarrow> (Inl PErrProviderNotFound, w2)
     | Some prov \<Rightarrow>
     (case ConfirmIntent prov intentID w2 of
       (Inl ce, w3) \<Rightarrow>
         (case time_now w3 of (upd, w4) \<Rightarrow>
          let failed = payment\<lparr>pmStatus := PayFailed, pmFailureReason := err_string ce, pmUpdatedAt := upd\<rparr> in
          (case pUpdate (psRepo s) failed w4 of
             (Inl e, w5) \<Rightarrow>
               (Inl (Wrap (''failed to save payment failure (db: '' @ err_string e @ ''; provider'') ce), w5)
           | (Inr _, w5) \<Rightarrow>
             (case publishPaymentFailure s failed (err_string ce) w5 of
                (Inl p, w6) \<Rightarrow> (Inl p, w6)
              | (Inr _, w6) \<Rightarrow> (Inl (provider_error ce), w6))))
     | (Inr _, w3) \<Rightarrow>
         (case time_now w3 of (upd, w4) \<Rightarrow>
          let paid = payment\<lparr>pmStatus := PaySucceeded, pmUpdatedAt := upd\<rparr> in
          (case pUpdate (psRepo s) paid w4 of
             (Inl e, w5) \<Rightarrow> (Inl (repo_error e), w5)
           | (Inr _, w5) \<Rightarrow>
             (case publishPaymentSuccess s paid w5 of
                (Inl p, w6) \<Rightarrow> (Inl p, w6)
              | (Inr _, w6) \<Rightarrow> (Inr paid, w6)))))))"

definition RefundPayment ::
  "('a env_scheme) paymentService \<Rightarrow> string \<Rightarrow> f64 option \<Rightarrow> ('a env_scheme, Payment) io" where
  "RefundPayment s orderID amount w =
    (if orderID = [] then (Inl PErrInvalidInput, w)
     else case pGetByOrderID (psRepo s) orderID w of
       (Inl e, w1) \<Rightarrow>
         (Inl (if errors_is e PErrNotFound then PErrPaymentNotFound else repo_error e), w1)
     | (Inr payment, w1) \<Rightarrow>
     if pmStatus payment = PayRefunded then (Inr payment, w1)
     else if pmStatus payment \<noteq> PaySucceeded \<and> pmStatus payment \<noteq> PayRefundFailed
     then (Inl (ErrText (''cannot refund payment in status '' @ pay_status_text (pmStatus payment))), w1)
     else if (case amount of Some a \<Rightarrow> a \<le> 0 \<or> a > pmAmount payment | None \<Rightarrow> False)
     then (Inl (WrapL PErrInvalidInput ''invalid refund amount''), w1)
     else let refundAmount = (case amount of Some a \<Rightarrow> a | None \<Rightarrow> pmAmount payment) in
     case psProviders s (pmProvider payment) of
       None \<Rightarrow> (Inl PErrProviderNotFound, w1)
     | Some prov \<Rightarrow>
     (case time_now w1 of (now, w2) \<Rightarrow>
      let refunded = payment\<lparr>pmStatus := PayRefunded, pmUpdatedAt := now, pmRefundedAt := Some now\<rparr> in
     (case pUpdate (psRepo s) refunded w2 of
       (Inl e, w3) \<Rightarrow> (Inl (Wrap ''failed to initiate refund'' e), w3)
     | (Inr _, w3) \<Rightarrow>
     (case RefundIntent prov (pmProviderIntentID payment) refundAmount w3 of
       (Inl pe, w4) \<Rightarrow>
         (case time_now w4 of (upd, w5) \<Rightarrow>
          (Inl (provider_error pe),
           snd (pUpdate (psRepo s)
             (refunded\<lparr>pmStatus := PayRefundFailed, pmRefundedAt := None, pmUpdatedAt := upd\<rparr>) w5)))
     | (Inr _, w4) \<Rightarrow>
         (case publishPaymentRefund s refunded w4 of
            (Inl p, w5) \<Rightarrow> (Inl p, w5)
          | (Inr _, w5) \<Rightarrow> (Inr refunded, w5))))))"

definition GetPaymentByID ::
  "('a env_scheme) paymentService \<Rightarrow> string \<Rightarrow> ('a env_scheme, Payment) io" where
  "GetPaymentByID s i w = (if i = [] then (Inl PErrInvalidInput, w)
     else case pGetByID (psRepo s) i w of
       (Inl e, w1) \<Rightarrow>
         (Inl (if errors_is e PErrNotFound then PErrPaymentNotFound else repo_error e), w1)
     | (Inr p, w1) \<Rightarrow> (Inr p, w1))"

definition GetPaymentByOrderID ::
  "('a env_scheme) paymentService \<Rightarrow> string \<Rightarrow> ('a env_scheme, Payment) io" where
  "GetPaymentByOrderID s i w = (if i = [] then (Inl PErrInvalidInput, w)
     else case pGetByOrderID (psRepo s) i w of
       (Inl e, w1) \<Rightarrow>
         (Inl (if errors_is e PErrNotFound then PErrPaymentNotFound else repo_error e), w1)
     | (Inr p, w1) \<Rightarrow> (Inr p, w1))"

definition ListAllPayments ::
  "('a env_scheme) paymentService \<Rightarrow> int \<Rightarrow> int \<Rightarrow> ('a env_scheme, Payment list) io" where
  "ListAllPayments s limit offset = pListAll (psRepo s) (page_limit limit) (page_offset offset)"

definition ListCustomerPayments ::
  "('a env_scheme) paymentService \<Rightarrow> string \<Rightarrow> int \<Rightarrow> int \<Rightarrow> ('a env_scheme, Payment list) io" where
  "ListCustomerPayments s c limit offset =
     pListByCustomerID (psRepo s) c (page_limit limit) (page_offset offset)"

text \<open>
  The subscriber of \<open>order.cancelled\<close>. The code tries three assertions of the payload's type; the
  third, a pointer, never occurs, so a payload is a cancellation value or it is ignored.
\<close>

definition handleOrderCancelled ::
  "('a env_scheme) paymentService \<Rightarrow> event \<Rightarrow> ('a env_scheme, unit) io" where
  "handleOrderCancelled s ev w =
    (let orderID = (case AsOrderCancelled ev of Some p \<Rightarrow> ox_OrderID p | None \<Rightarrow> []) in
     if orderID = [] then (Inr (), w)
     else case RefundPayment s orderID None w of
       (Inl e, w1) \<Rightarrow>
         if \<not> is_panic e \<and> errors_is e PErrPaymentNotFound then (Inr (), w1) else (Inl e, w1)
     | (Inr _, w1) \<Rightarrow> (Inr (), w1))"

section \<open>The service against the contract of its repository\<close>

text \<open>What an update may not change, and the moves of the status.\<close>

definition same_core :: "Payment \<Rightarrow> Payment \<Rightarrow> bool" where
  "same_core p q \<longleftrightarrow> pmID q = pmID p \<and> pmOrderID q = pmOrderID p \<and> pmCustomerID q = pmCustomerID p \<and>
     pmAmount q = pmAmount p \<and> pmCurrency q = pmCurrency p \<and> pmProvider q = pmProvider p \<and>
     pmProviderIntentID q = pmProviderIntentID p \<and> pmIdempotencyKey q = pmIdempotencyKey p \<and>
     pmCreatedAt q = pmCreatedAt p"

definition pay_edge :: "PaymentStatus \<Rightarrow> PaymentStatus \<Rightarrow> bool" where
  "pay_edge s t \<longleftrightarrow> (case s of
       PayFailed \<Rightarrow> False
     | PayRefunded \<Rightarrow> False
     | PaySucceeded \<Rightarrow> t \<in> {PayRefunded, PayRefundFailed}
     | PayRefundFailed \<Rightarrow> t \<in> {PayRefunded, PayRefundFailed, PaySucceeded, PayFailed}
     | _ \<Rightarrow> t \<in> {PaySucceeded, PayFailed})"

text \<open>One operation: nothing, a new payment for an order without one, or one move of one payment.\<close>

definition pay_step :: "(string \<Rightarrow> Payment option) \<Rightarrow> (string \<Rightarrow> Payment option) \<Rightarrow> bool" where
  "pay_step m m' \<longleftrightarrow> m' = m \<or>
     (\<exists>oid p. m oid = None \<and> pmOrderID p = oid \<and> m' = m(oid \<mapsto> p)) \<or>
     (\<exists>oid p q. m oid = Some p \<and> same_core p q \<and> pay_edge (pmStatus p) (pmStatus q) \<and> m' = m(oid \<mapsto> q))"

lemma pay_step_refl [simp]: "pay_step m m"
  by (simp add: pay_step_def)

lemma pay_step_new: "m oid = None \<Longrightarrow> pmOrderID p = oid \<Longrightarrow> pay_step m (m(oid \<mapsto> p))"
  unfolding pay_step_def by blast

lemma pay_step_move:
  "m oid = Some p \<Longrightarrow> same_core p q \<Longrightarrow> pay_edge (pmStatus p) (pmStatus q) \<Longrightarrow> pay_step m (m(oid \<mapsto> q))"
  unfolding pay_step_def by blast

text \<open>
  A table of payments with a flag that says whether it satisfies its unique indexes; a step is
  asked of tables that do, and has to lead to one that does.
\<close>

type_synonym pay_table = "(string \<Rightarrow> Payment option) \<times> bool"

definition table_step :: "pay_table \<Rightarrow> pay_table \<Rightarrow> bool" where
  "table_step v v' \<longleftrightarrow> (snd v \<longrightarrow> snd v' \<and> pay_step (fst v) (fst v'))"

lemma table_step_refl [simp]: "table_step v v"
  by (simp add: table_step_def)

locale pay_store =
  fixes svc :: "('a env_scheme) paymentService"
    and pay_of :: "'a env_scheme \<Rightarrow> pay_table"
  assumes by_order: "pGetByOrderID (psRepo svc) oid w = (x, w1) \<Longrightarrow> pay_of w1 = pay_of w \<and>
        (\<forall>p. x = Inr p \<longrightarrow> snd (pay_of w) \<longrightarrow> fst (pay_of w) oid = Some p \<and> pmOrderID p = oid)"
    and by_intent: "pGetByProviderIntentID (psRepo svc) pn iid w = (x, w1) \<Longrightarrow> pay_of w1 = pay_of w \<and>
        (\<forall>p. x = Inr p \<longrightarrow> snd (pay_of w) \<longrightarrow> fst (pay_of w) (pmOrderID p) = Some p)"
    and create_fx: "pCreate (psRepo svc) p w = (y, w1) \<Longrightarrow>
        (isl y \<longrightarrow> pay_of w1 = pay_of w) \<and>
        (\<not> isl y \<longrightarrow> snd (pay_of w) \<longrightarrow> (\<exists>q. fst (pay_of w) (pmOrderID p) = None \<and>
           pmOrderID q = pmOrderID p \<and> pay_of w1 = ((fst (pay_of w))(pmOrderID p \<mapsto> q), True)))"
    and update_fx: "pUpdate (psRepo svc) q w = (y, w1) \<Longrightarrow> snd (pay_of w) \<Longrightarrow>
        fst (pay_of w) (pmOrderID q) = Some p \<Longrightarrow> same_core p q \<Longrightarrow>
        (isl y \<longrightarrow> pay_of w1 = pay_of w) \<and> (\<not> isl y \<longrightarrow> pay_of w1 = ((fst (pay_of w))(pmOrderID q \<mapsto> q), True))"
    and order_fx: "psGetOrder svc oid w = (v, w1) \<Longrightarrow> pay_of w1 = pay_of w"
    and prov_fx: "psProviders svc pn = Some pr \<Longrightarrow>
        pay_of (snd (CreateIntent pr a c w)) = pay_of w \<and> pay_of (snd (ConfirmIntent pr i w)) = pay_of w \<and>
        pay_of (snd (RefundIntent pr i a w)) = pay_of w"
    and env_stable: "env.more w1 = env.more w \<Longrightarrow> pay_of w1 = pay_of w"
    and emit_stable: "pay_of (emit (psOutbox svc) (psBus svc) es w) = pay_of w"
begin

lemma pay_env [simp]:
  "pay_of (w\<lparr>clock := c\<rparr>) = pay_of w" "pay_of (w\<lparr>delays := d\<rparr>) = pay_of w"
  "pay_of (w\<lparr>uuids := u\<rparr>) = pay_of w"
  by (rule env_stable; simp)+

lemma publish_stable: "publish_pay svc tp pl w = (x, w1) \<Longrightarrow> pay_of w1 = pay_of w"
  by (auto simp: publish_pay_def emit_stable elim!: NewEventFromCtxE split: prod.splits sum.splits)

lemma prov_pair:
  "psProviders svc pn = Some pr \<Longrightarrow> CreateIntent pr a c w = (x, w1) \<Longrightarrow> pay_of w1 = pay_of w"
  "psProviders svc pn = Some pr \<Longrightarrow> ConfirmIntent pr i w = (y, w1) \<Longrightarrow> pay_of w1 = pay_of w"
  "psProviders svc pn = Some pr \<Longrightarrow> RefundIntent pr i a w = (y, w1) \<Longrightarrow> pay_of w1 = pay_of w"
  by (metis prov_fx snd_conv)+

lemma create_step: "pCreate (psRepo svc) p w = (y, w1) \<Longrightarrow> table_step (pay_of w) (pay_of w1)"
  using create_fx [of p w y w1] pay_step_new by (cases "isl y") (auto simp: table_step_def)

lemma update_step:
  assumes "snd (pay_of w) \<longrightarrow> fst (pay_of w) (pmOrderID p) = Some p" "same_core p q"
    "pay_edge (pmStatus p) (pmStatus q)"
  shows "table_step (pay_of w) (pay_of (snd (pUpdate (psRepo svc) q w)))"
proof (cases "pUpdate (psRepo svc) q w")
  case (Pair y w1)
  have "pmOrderID q = pmOrderID p" using assms(2) by (simp add: same_core_def)
  with update_fx [OF Pair, of p] assms pay_step_move [of "fst (pay_of w)" "pmOrderID p" p q] Pair
  show ?thesis by (cases "isl y") (auto simp: table_step_def)
qed

text \<open>Creating either ends before the repository is asked, or is one call of its \<open>Create\<close>.\<close>

lemma create_intent_cases:
  assumes "create_intent svc oid c pn cur idem w = (r, w')"
  shows "(isl r \<and> pay_of w' = pay_of w) \<or>
    (\<exists>amt w1 p y w5 w6. psGetOrder svc oid w = (Inr (amt, StatusPending), w1) \<and>
       pmOrderID p = oid \<and> pmCustomerID p = c \<and> pmAmount p = amt \<and> psProviders svc (pmProvider p) \<noteq> None \<and>
       pay_of w5 = pay_of w \<and> pCreate (psRepo svc) p w5 = (y, w6) \<and> pay_of w' = pay_of w6 \<and>
       (isl y \<longrightarrow> isl r) \<and> (\<forall>q. r = Inr q \<longrightarrow> q = p))"
proof -
  obtain x w1 where o1: "psGetOrder svc oid w = (x, w1)" by fastforce
  note f1 = order_fx [OF o1]
  let ?pn = "if pn = [] then psDefaultProv svc else pn"
  show ?thesis
  proof (cases "\<exists>amt pr y w2 i. x = Inr (amt, StatusPending) \<and> psProviders svc ?pn = Some pr \<and>
      CreateIntent pr amt cur w1 = (Inr y, w2) \<and> fst (Generate ''pmt_'' w2) = Inr i")
    case False
    with assms o1 f1 have "isl r \<and> pay_of w' = pay_of w"
      by (auto simp: create_intent_def Let_def split: sum.splits prod.splits if_splits option.splits
          dest: prov_pair(1) elim!: GenerateE)
    then show ?thesis ..
  next
    case True
    then obtain amt pr y w2 i w3 where t: "x = Inr (amt, StatusPending)" "psProviders svc ?pn = Some pr"
      "CreateIntent pr amt cur w1 = (Inr y, w2)" "Generate ''pmt_'' w2 = (Inr i, w3)"
      by (metis prod.collapse)
    have f3: "pay_of w3 = pay_of w"
      using f1 prov_pair(1) [OF t(2,3)] t(4) by (auto elim!: GenerateE)
    obtain t1 w4 t2 w5 where tm: "time_now w3 = (t1, w4)" "time_now w4 = (t2, w5)" by fastforce
    then have f5: "pay_of w5 = pay_of w" using f3 by (auto elim!: time_nowE)
    define p where "p = \<lparr>pmID = i, pmOrderID = oid, pmCustomerID = c, pmAmount = amt,
            pmCurrency = cur, pmProvider = ?pn, pmProviderIntentID = piID y,
            pmStatus = pay_status (piStatus y),
            pmIdempotencyKey = (if idem = [] then oid else idem), pmFailureReason = [],
            pmCreatedAt = t1, pmUpdatedAt = t2, pmRefundedAt = None\<rparr>"
    obtain z w6 where cr: "pCreate (psRepo svc) p w5 = (z, w6)" by fastforce
    have "pay_of w' = pay_of w6 \<and> (isl z \<longrightarrow> isl r) \<and> (\<forall>q. r = Inr q \<longrightarrow> q = p)"
      using assms o1 t tm cr
      by (auto simp: create_intent_def Let_def p_def publishPaymentSuccess_def
          split: sum.splits prod.splits if_splits dest: publish_stable)
    moreover have "pmOrderID p = oid" "pmCustomerID p = c" "pmAmount p = amt"
      "psProviders svc (pmProvider p) \<noteq> None"
      using t(2) by (simp_all add: p_def)
    ultimately show ?thesis using o1 t(1) f5 cr by blast
  qed
qed

lemma create_intent_step:
  "create_intent svc oid c pn cur idem w = (r, w') \<Longrightarrow> table_step (pay_of w) (pay_of w')"
  by (drule create_intent_cases) (auto dest!: create_step)

lemma create_payment_step:
  assumes "CreatePaymentIntent svc oid c pn cur idem w = (r, w')"
  shows "table_step (pay_of w) (pay_of w')"
proof (cases "pGetByOrderID (psRepo svc) oid w")
  case (Pair x w1)
  with assms by_order [OF Pair] show ?thesis
    by (auto simp: CreatePaymentIntent_def Let_def split: sum.splits if_splits dest: create_intent_step)
qed

lemma confirm_step:
  assumes "ConfirmPayment svc pn iid w = (r, w')"
  shows "table_step (pay_of w) (pay_of w')"
proof (cases "pGetByProviderIntentID (psRepo svc) pn iid w")
  case (Pair x w1)
  note f = by_intent [OF Pair]
  show ?thesis
  proof (cases "\<exists>p. x = Inr p \<and> pmStatus p \<notin> {PaySucceeded, PayRefunded, PayFailed}")
    case False
    with assms Pair f show ?thesis
      by (auto simp: ConfirmPayment_def split: sum.splits if_splits)
  next
    case True
    then obtain p where p: "x = Inr p" "pmStatus p \<noteq> PaySucceeded" "pmStatus p \<noteq> PayRefunded"
      "pmStatus p \<noteq> PayFailed" by blast
    have p0: "snd (pay_of w) \<longrightarrow> fst (pay_of w) (pmOrderID p) = Some p" using f p(1) by blast
    have edge: "pay_edge (pmStatus p) PaySucceeded" "pay_edge (pmStatus p) PayFailed"
      using p by (cases "pmStatus p"; simp add: pay_edge_def)+
    text \<open>Every write of this operation is one move of this payment, from the table it read.\<close>
    have upd: "table_step (pay_of w) (pay_of (snd (pUpdate (psRepo svc) q v)))"
      if "pay_of v = pay_of w" "same_core p q" "pmStatus q = PaySucceeded \<or> pmStatus q = PayFailed" for q v
      using update_step [of v p q] that p0 edge by auto
    have upd': "pUpdate (psRepo svc) q v = (y, v1) \<Longrightarrow> pay_of v = pay_of w \<and> same_core p q \<and>
        (pmStatus q = PaySucceeded \<or> pmStatus q = PayFailed) \<longrightarrow> table_step (pay_of w) (pay_of v1)" for q v y v1
      using upd [of v q] by simp
    obtain now w2 where t: "time_now w1 = (now, w2)" by fastforce
    then have f2: "pay_of w2 = pay_of w" using f by (auto elim!: time_nowE)
    show ?thesis
    proof (cases "now - pmCreatedAt p > day_ns")
      case True
      with assms Pair p t f2 show ?thesis
        by (auto simp: ConfirmPayment_def Let_def publishPaymentFailure_def same_core_def
            split: sum.splits prod.splits if_splits dest!: publish_stable elim!: time_nowE intro!: upd)
    next
      case False
      show ?thesis
      proof (cases "psProviders svc pn")
        case None
        with assms Pair p t f2 False show ?thesis by (auto simp: ConfirmPayment_def split: if_splits)
      next
        case (Some pr)
        obtain z w3 where c: "ConfirmIntent pr iid w2 = (z, w3)" by fastforce
        have f3: "pay_of w3 = pay_of w" using prov_pair(2) [OF Some c] f2 by simp
        obtain tm w4 where t4: "time_now w3 = (tm, w4)" by fastforce
        then have f4: "pay_of w4 = pay_of w" using f3 by (auto elim!: time_nowE)
        from assms Pair p t False Some c t4 f4 show ?thesis
          by (auto simp: ConfirmPayment_def Let_def publishPaymentFailure_def publishPaymentSuccess_def
              split: sum.splits prod.splits if_splits dest!: publish_stable upd'
              simp: same_core_def)
      qed
    qed
  qed
qed

text \<open>The compensation of a refund that the provider refused.\<close>

lemma refund_compensation:
  assumes "pay_of v = ((fst (pay_of w))(pmOrderID p \<mapsto> q), True)"
    "fst (pay_of w) (pmOrderID p) = Some p" "same_core p q"
    "same_core q q'" "pay_edge (pmStatus p) (pmStatus q)" "pay_edge (pmStatus p) (pmStatus q')"
  shows "table_step (pay_of w) (pay_of (snd (pUpdate (psRepo svc) q' v)))"
proof (cases "pUpdate (psRepo svc) q' v")
  case (Pair y v1)
  have id: "pmOrderID q = pmOrderID p" "pmOrderID q' = pmOrderID p" "same_core p q'"
    using assms(3,4) by (simp_all add: same_core_def)
  with update_fx [OF Pair, of q] assms have
    "pay_of v1 = ((fst (pay_of w))(pmOrderID p \<mapsto> q), True) \<or>
     pay_of v1 = ((fst (pay_of w))(pmOrderID p \<mapsto> q'), True)"
    by (cases "isl y") auto
  with pay_step_move [of "fst (pay_of w)" "pmOrderID p" p q]
    pay_step_move [of "fst (pay_of w)" "pmOrderID p" p q'] assms id Pair
  show ?thesis by (auto simp: table_step_def)
qed

lemma refund_step:
  assumes "RefundPayment svc oid amount w = (r, w')"
  shows "table_step (pay_of w) (pay_of w')"
proof (cases "snd (pay_of w)")
  case False
  then show ?thesis by (simp add: table_step_def)
next
  case ok: True
  obtain x w1 where Pair: "pGetByOrderID (psRepo svc) oid w = (x, w1)" by fastforce
  note f = by_order [OF Pair]
  show ?thesis
  proof (cases "\<exists>p pr. x = Inr p \<and> (pmStatus p = PaySucceeded \<or> pmStatus p = PayRefundFailed) \<and>
      psProviders svc (pmProvider p) = Some pr")
    case False
    with assms Pair f show ?thesis
      by (auto simp: RefundPayment_def Let_def split: sum.splits if_splits option.splits)
  next
    case True
    then obtain p pr where p: "x = Inr p" "pmStatus p = PaySucceeded \<or> pmStatus p = PayRefundFailed"
      "psProviders svc (pmProvider p) = Some pr" by blast
    have p0: "fst (pay_of w) (pmOrderID p) = Some p" using f p(1) ok by auto
    obtain now w2 where t: "time_now w1 = (now, w2)" by fastforce
    then have f2: "pay_of w2 = pay_of w" using f by (auto elim!: time_nowE)
    define q where "q = p\<lparr>pmStatus := PayRefunded, pmUpdatedAt := now, pmRefundedAt := Some now\<rparr>"
    obtain y w3 where u: "pUpdate (psRepo svc) q w2 = (y, w3)" by fastforce
    have core: "same_core p q" "pmOrderID q = pmOrderID p" by (simp_all add: q_def same_core_def)
    have e: "pay_edge (pmStatus p) (pmStatus q)" "pay_edge (pmStatus p) PayRefundFailed"
      using p(2) by (auto simp: pay_edge_def q_def)
    have f3: "pay_of w3 = (if isl y then pay_of w else ((fst (pay_of w))(pmOrderID p \<mapsto> q), True))"
      using update_fx [OF u, of p] p0 f2 core ok by simp
    let ?amt = "case amount of Some a \<Rightarrow> a | None \<Rightarrow> pmAmount p"
    obtain z w4 where r: "RefundIntent pr (pmProviderIntentID p) ?amt w3 = (z, w4)" by fastforce
    have f4: "pay_of w4 = pay_of w3" by (rule prov_pair(3) [OF p(3) r])
    obtain tm w5 where t5: "time_now w4 = (tm, w5)" by fastforce
    then have f5: "pay_of w5 = pay_of w3" using f4 by (auto elim!: time_nowE)
    let ?q = "q\<lparr>pmStatus := PayRefundFailed, pmRefundedAt := None, pmUpdatedAt := tm\<rparr>"
    have q': "?q = p\<lparr>pmStatus := PayRefundFailed, pmRefundedAt := None, pmUpdatedAt := tm\<rparr>"
      by (simp add: q_def)
    have "same_core q ?q" by (simp add: same_core_def)
    then have comp: "\<not> isl y \<Longrightarrow> table_step (pay_of w) (pay_of (snd (pUpdate (psRepo svc) ?q w5)))"
      using refund_compensation [of w5 w p q ?q] f5 f3 p0 core e by simp
    have mv: "\<not> isl y \<Longrightarrow> table_step (pay_of w) (pay_of w4)"
      using f4 f3 pay_step_move [of "fst (pay_of w)" "pmOrderID p" p q] p0 core e
      by (simp add: table_step_def)
    show ?thesis
    proof (cases y)
      case (Inl er)
      with assms Pair p t u f f3 q_def show ?thesis
        by (auto simp: RefundPayment_def Let_def split: if_splits option.splits)
    next
      case (Inr un)
      with assms Pair p t u r t5 f comp [unfolded q'] mv show ?thesis
        by (auto simp: RefundPayment_def Let_def publishPaymentRefund_def simp flip: q_def
            split: sum.splits prod.splits if_splits option.splits dest!: publish_stable)
    qed
  qed
qed

end

end
