(* ===== verification/InventoryDomain.thy ===== *)
theory InventoryDomain
  imports Events
begin

text \<open>
  The inventory domain (\<open>internal/core/inventory/domain\<close>): stock items and their reservation
  rule, reservations, history records and alerts, with the repository interfaces the inventory
  services are written against and the outbox-or-bus publication they share.
\<close>

section \<open>Entities\<close>

definition DefaultLowStockThreshold :: int where "DefaultLowStockThreshold = 5"

definition ErrInsufficientStock :: err where
  "ErrInsufficientStock = Sentinel ''inventory/domain'' ''insufficient stock''"
definition ErrInvalidQuantity :: err where
  "ErrInvalidQuantity = Sentinel ''inventory/domain'' ''quantity cannot be negative''"
definition ErrInvalidReservationQuantity :: err where
  "ErrInvalidReservationQuantity =
     Sentinel ''inventory/domain'' ''reservation quantity must be greater than zero''"
definition ErrStockNotFound :: err where
  "ErrStockNotFound = Sentinel ''inventory/domain'' ''stock item not found''"
definition ErrReservationNotFound :: err where
  "ErrReservationNotFound = Sentinel ''inventory/domain'' ''reservation not found''"
definition ErrDuplicateReservation :: err where
  "ErrDuplicateReservation = Sentinel ''inventory/domain'' ''reservation already exists''"
definition ErrInvalidVariantID :: err where
  "ErrInvalidVariantID = Sentinel ''inventory/domain'' ''variant ID is required''"
definition ErrReservationExpired :: err where
  "ErrReservationExpired =
     Sentinel ''inventory/domain'' ''reservation expiration time must be in the future''"

lemmas inv_errs = ErrInsufficientStock_def ErrInvalidQuantity_def ErrInvalidReservationQuantity_def
  ErrStockNotFound_def ErrReservationNotFound_def ErrDuplicateReservation_def
  ErrInvalidVariantID_def ErrReservationExpired_def

record StockItem =
  siVariantID :: string
  siLocationID :: string
  siQuantity :: int
  siLowStockThreshold :: int
  siAllowBackorders :: bool
  siBackorderLimit :: int

definition IsLowStock :: "StockItem \<Rightarrow> bool" where
  "IsLowStock s \<longleftrightarrow> siQuantity s \<le> siLowStockThreshold s"

text \<open>\<open>Reserve\<close>: the error, or the item with the quantity taken off.\<close>

definition Reserve :: "int \<Rightarrow> StockItem \<Rightarrow> err + StockItem" where
  "Reserve qty s = (if qty \<le> 0 then Inl ErrInvalidReservationQuantity
     else if (if siAllowBackorders s
              then wrap64 (siQuantity s - qty) < wrap64 (- siBackorderLimit s)
              else siQuantity s < qty)
     then Inl ErrInsufficientStock
     else Inr (s\<lparr>siQuantity := wrap64 (siQuantity s - qty)\<rparr>))"

definition Update :: "int \<Rightarrow> StockItem \<Rightarrow> err + StockItem" where
  "Update qty s = (if qty < 0 then Inl ErrInvalidQuantity else Inr (s\<lparr>siQuantity := qty\<rparr>))"

text \<open>The record the services start from when the lookup returned an error.\<close>

definition default_stock :: "string \<Rightarrow> string \<Rightarrow> StockItem" where
  "default_stock v l = \<lparr>siVariantID = v, siLocationID = l, siQuantity = 0,
     siLowStockThreshold = DefaultLowStockThreshold, siAllowBackorders = False,
     siBackorderLimit = 0\<rparr>"

text \<open>\<open>if locationID == "" { locationID = "default" }\<close>\<close>

definition default_loc :: "string \<Rightarrow> string" where
  "default_loc l = (if l = [] then ''default'' else l)"

record Reservation =
  rvID :: string
  rvVariantID :: string
  rvLocationID :: string
  rvQuantity :: int
  rvExpiresAt :: int

text \<open>\<open>strings.TrimSpace\<close> on ASCII text.\<close>

definition is_space :: "char \<Rightarrow> bool" where
  "is_space c \<longleftrightarrow> c \<in> set [CHR '' '', CHR 0x09, CHR 0x0A, CHR 0x0B, CHR 0x0C, CHR 0x0D]"

definition TrimSpace :: "string \<Rightarrow> string" where
  "TrimSpace s = rev (dropWhile is_space (rev (dropWhile is_space s)))"

definition ValidateReservation :: "Reservation \<Rightarrow> ('a env_scheme, unit) io" where
  "ValidateReservation r w =
     (if TrimSpace (rvVariantID r) = [] then (Inl ErrInvalidVariantID, w)
      else if rvQuantity r \<le> 0 then (Inl ErrInvalidReservationQuantity, w)
      else case time_now w of (now, w1) \<Rightarrow>
        if rvExpiresAt r < now then (Inl ErrReservationExpired, w1) else (Inr (), w1))"

record StockHistory =
  shID :: string
  shVariantID :: string
  shLocationID :: string
  shOldQuantity :: int
  shNewQuantity :: int
  shChangeReason :: string
  shChangedBy :: string
  shChangedAt :: int

record Alert =
  alID :: string
  alType :: string
  alMessage :: string
  alVariantID :: string
  alCreatedAt :: int
  alIsRead :: bool

section \<open>Interfaces\<close>

record 'w stock_repo =
  GetStock :: "string \<Rightarrow> string \<Rightarrow> ('w, StockItem) io"
  SaveStock :: "StockItem \<Rightarrow> ('w, unit) io"
  AdjustQuantity :: "string \<Rightarrow> string \<Rightarrow> int \<Rightarrow> ('w, unit) io"

record 'w reservation_repo = "'w stock_repo" +
  CreateReservation :: "Reservation \<Rightarrow> ('w, unit) io"
  GetReservation :: "string \<Rightarrow> ('w, Reservation) io"
  DeleteReservation :: "string \<Rightarrow> ('w, unit) io"

section \<open>Facts\<close>

text \<open>The floor below which reservations must not take a stock item.\<close>

definition stock_floor :: "StockItem \<Rightarrow> int" where
  "stock_floor s = (if siAllowBackorders s then - siBackorderLimit s else 0)"

definition stock_stored :: "StockItem \<Rightarrow> bool" where
  "stock_stored s \<longleftrightarrow> i32 (siQuantity s) \<and> i32 (siLowStockThreshold s) \<and> i32 (siBackorderLimit s)"

lemma Reserve_ok:
  assumes "Reserve n s = Inr s1" "stock_stored s" "i64 n"
    "i32 (siQuantity s1)"
  shows "0 < n \<and> s1 = s\<lparr>siQuantity := siQuantity s - n\<rparr> \<and> stock_floor s \<le> siQuantity s1"
proof (cases "siAllowBackorders s")
  case True
  have q: "i32 (siQuantity s)" "i32 (siBackorderLimit s)" "i64 n"
    using assms by (auto simp: stock_stored_def)
  have s1: "s1 = s\<lparr>siQuantity := wrap64 (siQuantity s - n)\<rparr>" "0 < n"
    "wrap64 (- siBackorderLimit s) \<le> wrap64 (siQuantity s - n)"
    using assms(1) True by (auto simp: Reserve_def split: if_splits)
  with assms(4) have "i32 (wrap64 (siQuantity s - n))" by simp
  have "wrap64 (siQuantity s - n) = siQuantity s - n"
  proof (cases "i64 (siQuantity s - n)")
    case False
    with q have b: "siQuantity s - n < - (2 ^ 63)" "- (2 ^ 63) - 2 ^ 31 \<le> siQuantity s - n"
      using s1(2) by (auto simp: i32_def i64_def)
    have "wrap64 (siQuantity s - n) = siQuantity s - n + 2 ^ 64"
      unfolding wrap64_def using b
      by (subst mod_add_self2 [symmetric], subst mod_pos_pos_trivial) auto
    with b \<open>i32 (wrap64 _)\<close> show ?thesis by (simp add: i32_def)
  qed simp
  with s1 True q show ?thesis by (simp add: stock_floor_def i32_minus)
next
  case False
  with assms show ?thesis
    by (auto simp: Reserve_def stock_floor_def stock_stored_def i32_def i64_def split: if_splits)
qed

text \<open>The item a service works on when it treats a missing record as an empty one.\<close>

definition item_at :: "(string \<times> string \<Rightarrow> StockItem option) \<Rightarrow> string \<times> string \<Rightarrow> StockItem" where
  "item_at m k = (case m k of None \<Rightarrow> default_stock (fst k) (snd k) | Some s \<Rightarrow> s)"

definition add_units :: "int \<Rightarrow> StockItem \<Rightarrow> StockItem" where
  "add_units n s = s\<lparr>siQuantity := siQuantity s + n\<rparr>"

lemma add_units_simps [simp]:
  "siQuantity (add_units n s) = siQuantity s + n" "siVariantID (add_units n s) = siVariantID s"
  "siLocationID (add_units n s) = siLocationID s" "stock_floor (add_units n s) = stock_floor s"
  by (simp_all add: add_units_def stock_floor_def)

lemma default_stock_simps [simp]:
  "siQuantity (default_stock v l) = 0" "siVariantID (default_stock v l) = v"
  "siLocationID (default_stock v l) = l" "stock_stored (default_stock v l)"
  by (simp_all add: default_stock_def stock_stored_def i32_def DefaultLowStockThreshold_def)

end
