(* ===== verification/InventoryServices.thy ===== *)
theory InventoryServices
  imports InventoryDomain
begin

text \<open>
  The inventory services that change stock: reservation and release
  (\<open>features/reservation/service.go\<close>), transfer between locations
  (\<open>features/transfer/service.go\<close>) and adjustment (\<open>features/adjustment/service.go\<close>), each a
  function of its dependencies. Their lemmas are proved against the contracts
  \<open>stock_store\<close> and \<open>reservation_store\<close> of the repositories.
\<close>

record 'w inv_service =
  iv_outbox :: "'w OutboxRepository option"
  iv_bus :: "'w bus option"

definition fifteen_minutes :: int where "fifteen_minutes = 15 * 60 * 1000000000"

definition stock_payload :: "string \<Rightarrow> string \<Rightarrow> int \<Rightarrow> int \<Rightarrow> string \<Rightarrow> string \<Rightarrow> payload" where
  "stock_payload v l oldQ newQ reason by = PRefStockChanged
     \<lparr>sc_VariantID = v, sc_LocationID = l, sc_OldQuantity = oldQ, sc_NewQuantity = newQ,
      sc_ChangeReason = reason, sc_ChangedBy = by\<rparr>"

section \<open>Reservation\<close>

definition reserve_error :: "err \<Rightarrow> err" where
  "reserve_error e =
     (if errors_is e ErrInsufficientStock
      then NewConflict ''insufficient stock available'' (Some ErrInsufficientStock)
      else if errors_is e ErrInvalidReservationQuantity
      then NewBadRequest ''invalid reservation quantity'' (Some ErrInvalidReservationQuantity)
      else NewBadRequest ''reservation validation failed'' (Some e))"

definition ReserveStock ::
  "('a env_scheme, 'r) reservation_repo_scheme \<Rightarrow> ('a env_scheme) inv_service \<Rightarrow>
   string \<Rightarrow> string \<Rightarrow> int \<Rightarrow> ('a env_scheme, Reservation) io" where
  "ReserveStock repo svc v l0 qty w = (let l = default_loc l0 in
     case GetStock repo v l w of
       (Inl e, w1) \<Rightarrow> (Inl (NewInternal ''failed to check stock availability'' (Some e)), w1)
     | (Inr stock0, w1) \<Rightarrow>
     (case Reserve qty stock0 of
       Inl e \<Rightarrow> (Inl (reserve_error e), w1)
     | Inr stock \<Rightarrow>
     (case SaveStock repo stock w1 of
       (Inl e, w2) \<Rightarrow> (Inl (NewInternal ''failed to update stock levels'' (Some e)), w2)
     | (Inr _, w2) \<Rightarrow>
     (case Generate ''res_'' w2 of
       (Inl e, w3) \<Rightarrow> (Inl (NewInternal ''failed to generate reservation ID'' (Some e)), w3)
     | (Inr resID, w3) \<Rightarrow>
     (case time_now w3 of (now, w4) \<Rightarrow>
      let res = \<lparr>rvID = resID, rvVariantID = v, rvLocationID = l, rvQuantity = qty,
                 rvExpiresAt = now + fifteen_minutes\<rparr> in
     (case ValidateReservation res w4 of
       (Inl e, w5) \<Rightarrow>
         (Inl (NewBadRequest ''invalid reservation record'' (Some e)),
          snd (SaveStock repo (stock\<lparr>siQuantity := siQuantity stock0\<rparr>) w5))
     | (Inr _, w5) \<Rightarrow>
     (case CreateReservation repo res w5 of
       (Inl e, w6) \<Rightarrow>
         (Inl (NewInternal ''failed to save reservation'' (Some e)),
          snd (SaveStock repo (stock\<lparr>siQuantity := siQuantity stock0\<rparr>) w6))
     | (Inr _, w6) \<Rightarrow>
     (case NewEventFromCtx InventoryStockChangedTopic ''inventory''
             (stock_payload v l (siQuantity stock0) (siQuantity stock)
               (''reservation:'' @ resID) ''system'') w6 of
       (Inl p, w7) \<Rightarrow> (Inl p, w7)
     | (Inr evt, w7) \<Rightarrow> (Inr res, emit (iv_outbox svc) (iv_bus svc) [evt] w7)))))))))"

definition ReleaseReservation ::
  "('a env_scheme, 'r) reservation_repo_scheme \<Rightarrow> ('a env_scheme) inv_service \<Rightarrow>
   string \<Rightarrow> ('a env_scheme, unit) io" where
  "ReleaseReservation repo svc rid w = (case GetReservation repo rid w of
       (Inl e, w1) \<Rightarrow> (Inl (NewNotFound ''reservation not found'' (Some e)), w1)
     | (Inr res, w1) \<Rightarrow>
     (case GetStock repo (rvVariantID res) (rvLocationID res) w1 of
       (Inl e, w2) \<Rightarrow> (Inl (NewInternal ''failed to check stock levels'' (Some e)), w2)
     | (Inr stock0, w2) \<Rightarrow>
     (let stock = stock0\<lparr>siQuantity := wrap64 (siQuantity stock0 + rvQuantity res)\<rparr> in
      case SaveStock repo stock w2 of
       (Inl e, w3) \<Rightarrow> (Inl (NewInternal ''failed to update stock levels'' (Some e)), w3)
     | (Inr _, w3) \<Rightarrow>
     (case DeleteReservation repo rid w3 of
       (Inl e, w4) \<Rightarrow>
         (Inl (NewInternal ''failed to delete reservation'' (Some e)),
          snd (SaveStock repo (stock\<lparr>siQuantity := siQuantity stock0\<rparr>) w4))
     | (Inr _, w4) \<Rightarrow>
     (case NewEventFromCtx InventoryStockChangedTopic ''inventory''
             (stock_payload (rvVariantID res) (rvLocationID res) (siQuantity stock0)
               (siQuantity stock) (''release:'' @ rvID res) ''system'') w4 of
       (Inl p, w5) \<Rightarrow> (Inl p, w5)
     | (Inr evt, w5) \<Rightarrow> (Inr (), emit (iv_outbox svc) (iv_bus svc) [evt] w5))))))"

section \<open>Transfer\<close>

definition TransferStock ::
  "('a env_scheme, 'r) stock_repo_scheme \<Rightarrow> ('a env_scheme) inv_service \<Rightarrow>
   string \<Rightarrow> string \<Rightarrow> string \<Rightarrow> int \<Rightarrow> ('a env_scheme, unit) io" where
  "TransferStock repo svc v from0 to0 qty w =
    (if qty \<le> 0 then (Inl (NewBadRequest ''transfer quantity must be positive'' None), w)
     else let fromLoc = default_loc from0; toLoc = default_loc to0 in
     if fromLoc = toLoc
     then (Inl (NewBadRequest ''source and destination locations must be different'' None), w)
     else case GetStock repo v fromLoc w of
       (Inl e, w1) \<Rightarrow>
         (Inl (NewNotFound (''source stock record not found for variant '' @ v @ '' at location ''
            @ fromLoc) (Some e)), w1)
     | (Inr src0, w1) \<Rightarrow>
     if qty > siQuantity src0
     then (Inl (NewConflict (''insufficient stock for transfer. available: ''
            @ itoa (siQuantity src0) @ '', requested: '' @ itoa qty) None), w1)
     else case GetStock repo v toLoc w1 of (g, w2) \<Rightarrow>
     (let dst0 = (case g of Inl _ \<Rightarrow> default_stock v toLoc | Inr d \<Rightarrow> d);
          src = src0\<lparr>siQuantity := wrap64 (siQuantity src0 - qty)\<rparr>;
          dst = dst0\<lparr>siQuantity := wrap64 (siQuantity dst0 + qty)\<rparr> in
      case SaveStock repo src w2 of
       (Inl e, w3) \<Rightarrow> (Inl (NewInternal ''failed to update source stock level'' (Some e)), w3)
     | (Inr _, w3) \<Rightarrow>
     (case SaveStock repo dst w3 of
       (Inl e, w4) \<Rightarrow>
         (Inl (NewInternal ''failed to update destination stock level'' (Some e)),
          snd (SaveStock repo (src\<lparr>siQuantity := siQuantity src0\<rparr>) w4))
     | (Inr _, w4) \<Rightarrow>
     (case NewEventFromCtx InventoryStockChangedTopic ''inventory''
             (stock_payload v fromLoc (siQuantity src0) (siQuantity src)
               (''transfer:out:to:'' @ toLoc) ''system'') w4 of
       (Inl p, w5) \<Rightarrow> (Inl p, w5)
     | (Inr srcEvt, w5) \<Rightarrow>
     (case NewEventFromCtx InventoryStockChangedTopic ''inventory''
             (stock_payload v toLoc (siQuantity dst0) (siQuantity dst)
               (''transfer:in:from:'' @ fromLoc) ''system'') w5 of
       (Inl p, w6) \<Rightarrow> (Inl p, w6)
     | (Inr destEvt, w6) \<Rightarrow>
         (Inr (), emit (iv_outbox svc) (iv_bus svc) [srcEvt, destEvt] w6))))))"

section \<open>Adjustment\<close>

definition AdjustStock ::
  "('a env_scheme, 'r) stock_repo_scheme \<Rightarrow> ('a env_scheme) inv_service \<Rightarrow>
   string \<Rightarrow> string \<Rightarrow> int \<Rightarrow> string \<Rightarrow> ('a env_scheme, unit) io" where
  "AdjustStock repo svc v l0 qty reason w = (let l = default_loc l0 in
     if reason = [] then (Inl (NewBadRequest ''adjustment reason is required'' None), w)
     else case GetStock repo v l w of (g, w1) \<Rightarrow>
     (let stock0 = (case g of Inl _ \<Rightarrow> default_stock v l | Inr s \<Rightarrow> s) in
      case Update (wrap64 (siQuantity stock0 + qty)) stock0 of
       Inl e \<Rightarrow>
         (Inl (if errors_is e ErrInvalidQuantity
               then NewBadRequest ''adjusted stock quantity cannot be negative''
                      (Some ErrInvalidQuantity)
               else NewBadRequest ''adjustment validation failed'' (Some e)), w1)
     | Inr stock \<Rightarrow>
     (case SaveStock repo stock w1 of
       (Inl e, w2) \<Rightarrow> (Inl (NewInternal ''failed to save adjusted stock'' (Some e)), w2)
     | (Inr _, w2) \<Rightarrow>
     (case NewEventFromCtx InventoryStockChangedTopic ''inventory''
             (stock_payload v l (siQuantity stock0) (siQuantity stock)
               (''adjustment:'' @ reason) ''system'') w2 of
       (Inl p, w3) \<Rightarrow> (Inl p, w3)
     | (Inr evt, w3) \<Rightarrow> (Inr (), emit (iv_outbox svc) (iv_bus svc) [evt] w3)))))"

section \<open>The services against the contract of the repositories\<close>

text \<open>
  \<open>stock_of\<close> is the stock table a repository stands for. A read returns its entry, a
  successful save updates one entry, a failed call leaves it alone; the clock and the other
  parts of the environment, and publishing, do not touch it. \<open>up\<close> holds while the database
  answers; \<open>rest\<close> is any other part of the database, which these calls leave alone.
\<close>

locale stock_store =
  fixes repo :: "('a env_scheme, 'r) stock_repo_scheme"
    and svc :: "('a env_scheme) inv_service"
    and stock_of :: "'a env_scheme \<Rightarrow> string \<times> string \<Rightarrow> StockItem option"
    and up :: "'a env_scheme \<Rightarrow> bool"
    and rest :: "'a env_scheme \<Rightarrow> 'k"
  assumes get_fx: "GetStock repo v l w = (x, w1) \<Longrightarrow> stock_of w1 = stock_of w \<and> uuids w1 = uuids w \<and> (up w \<longrightarrow> up w1) \<and>
        (up w \<longrightarrow> (isl x \<longleftrightarrow> stock_of w (v, l) = None)) \<and>
        (\<forall>s. x = Inr s \<longrightarrow> stock_of w (v, l) = Some s \<and>
           (up w \<longrightarrow> siVariantID s = v \<and> siLocationID s = l \<and> stock_stored s))"
    and save_fx: "SaveStock repo s w = (y, w1) \<Longrightarrow> uuids w1 = uuids w \<and> (up w \<longrightarrow> up w1) \<and>
        (up w \<longrightarrow> (isl y \<longleftrightarrow> \<not> stock_stored s)) \<and>
        (isl y \<longrightarrow> stock_of w1 = stock_of w) \<and>
        (\<not> isl y \<longrightarrow> stock_of w1 = (stock_of w)((siVariantID s, siLocationID s) \<mapsto> s) \<and> stock_stored s)"
    and get_rest: "GetStock repo v l w = (x, w1) \<Longrightarrow> rest w1 = rest w"
    and save_rest: "SaveStock repo s w = (y, w1) \<Longrightarrow> rest w1 = rest w"
    and rest_stable: "env.more w1 = env.more w \<Longrightarrow> rest w1 = rest w"
    and emit_rest: "rest (emit (iv_outbox svc) (iv_bus svc) es w) = rest w"
    and env_stable: "env.more w1 = env.more w \<Longrightarrow> stock_of w1 = stock_of w"
    and up_stable: "faults w1 = faults w \<Longrightarrow> tx_aborted w1 = tx_aborted w \<Longrightarrow> in_tx w1 = in_tx w \<Longrightarrow>
        env.more w1 = env.more w \<Longrightarrow> up w1 = up w"
    and emit_stable: "stock_of (emit (iv_outbox svc) (iv_bus svc) es w) = stock_of w"
    and emit_up: "up w \<Longrightarrow> up (emit (iv_outbox svc) (iv_bus svc) es w)"
begin

lemma stock_env [simp]:
  "stock_of (w\<lparr>clock := c\<rparr>) = stock_of w" "stock_of (w\<lparr>delays := d\<rparr>) = stock_of w"
  "stock_of (w\<lparr>uuids := u\<rparr>) = stock_of w"
  by (rule env_stable; simp)+

lemma rest_env [simp]:
  "rest (w\<lparr>clock := c\<rparr>) = rest w" "rest (w\<lparr>delays := d\<rparr>) = rest w" "rest (w\<lparr>uuids := u\<rparr>) = rest w"
  by (rule rest_stable; simp)+

lemma up_env [simp]:
  "up (w\<lparr>clock := c\<rparr>) = up w" "up (w\<lparr>delays := d\<rparr>) = up w" "up (w\<lparr>uuids := u\<rparr>) = up w"
  by (rule up_stable; simp)+

lemmas stock_fx = get_fx save_fx

text \<open>
  While the database answers, a transfer either moves \<open>n\<close> units from one location to the other
  or leaves the stock as it was.
\<close>

lemma transfer_rest:
  assumes "TransferStock repo svc v a b n w = (r, w')"
  shows "rest w' = rest w"
proof -
  have save: "rest (snd (SaveStock repo s w)) = rest w" for s w
    by (cases "SaveStock repo s w") (simp add: save_rest)
  from assms show ?thesis
    by (auto simp: TransferStock_def Let_def save emit_rest split: if_splits prod.splits sum.splits
        dest!: get_rest save_rest elim!: NewEventFromCtxE)
qed

lemma transfer_effect:
  assumes "TransferStock repo svc v a b n w = (r, w')" "i64 n" "up w"
  shows "up w' \<and> (stock_of w' = stock_of w \<and> isl r \<or>
    (\<exists>s. stock_of w (v, default_loc a) = Some s \<and> 0 < n \<and> n \<le> siQuantity s \<and>
       default_loc a \<noteq> default_loc b \<and>
       stock_of w' = (stock_of w)((v, default_loc a) \<mapsto> add_units (- n) s,
         (v, default_loc b) \<mapsto> add_units n (item_at (stock_of w) (v, default_loc b)))))"
proof (cases "0 < n \<and> default_loc a \<noteq> default_loc b")
  case False
  with assms show ?thesis by (auto simp: TransferStock_def Let_def split: if_splits)
next
  case ok: True
  let ?a = "default_loc a" and ?b = "default_loc b"
  obtain x w1 where g: "GetStock repo v ?a w = (x, w1)" by fastforce
  obtain y w2 where g2: "GetStock repo v ?b w1 = (y, w2)" by fastforce
  note f = get_fx [OF g] and f2 = get_fx [OF g2]
  show ?thesis
  proof (cases "\<exists>s. x = Inr s \<and> n \<le> siQuantity s")
    case False
    with assms ok g f show ?thesis
      by (auto simp: TransferStock_def Let_def split: sum.splits if_splits)
  next
    case True
    then obtain s where s: "x = Inr s" "n \<le> siQuantity s" by blast
    define d where "d = (case y of Inl _ \<Rightarrow> default_stock v ?b | Inr d \<Rightarrow> d)"
    have dall: "d = item_at (stock_of w) (v, ?b) \<and> siVariantID d = v \<and> siLocationID d = ?b \<and> stock_stored d"
    proof (cases y)
      case (Inl e)
      with f f2 assms(3) have "stock_of w (v, ?b) = None" by simp
      with Inl show ?thesis by (simp add: d_def item_at_def)
    next
      case (Inr d1)
      with f f2 assms(3) have "stock_of w (v, ?b) = Some d1" "siVariantID d1 = v" "siLocationID d1 = ?b"
        "stock_stored d1" by simp_all
      with Inr show ?thesis by (simp add: d_def item_at_def)
    qed
    then have d: "siVariantID d = v" "siLocationID d = ?b" "stock_stored d" by blast+
    have ss: "stock_of w (v, ?a) = Some s" "siVariantID s = v" "siLocationID s = ?a" "stock_stored s"
      using f s assms(3) by simp_all
    have up2: "up w2" "stock_of w2 = stock_of w" using f f2 assms(3) by simp_all
    have "wrap64 (siQuantity s - n) = siQuantity s - n"
      using ss(4) s(2) ok by (simp add: stock_stored_def i32_def i64_def)
    then have src: "s\<lparr>siQuantity := wrap64 (siQuantity s - n)\<rparr> = add_units (- n) s"
      by (simp add: add_units_def)
    obtain z w3 where s1: "SaveStock repo (add_units (- n) s) w2 = (z, w3)" by fastforce
    define d1 where "d1 = d\<lparr>siQuantity := wrap64 (siQuantity d + n)\<rparr>"
    obtain q w4 where s2: "SaveStock repo d1 w3 = (q, w4)" by fastforce
    obtain q1 w5 where s3: "SaveStock repo (add_units (- n) s\<lparr>siQuantity := siQuantity s\<rparr>) w4 = (q1, w5)"
      by fastforce
    note fx = save_fx [OF s1] save_fx [OF s2] save_fx [OF s3]
    note run = assms(1) [unfolded TransferStock_def Let_def]
    show ?thesis
    proof (cases "isl z")
      case True
      with run ok g s g2 s1 src fx(1) up2 show ?thesis
        by (auto simp: d_def split: sum.splits)
    next
      case False
      with fx(1) up2 have u3: "up w3" "stock_of w3 = (stock_of w)((v, ?a) \<mapsto> add_units (- n) s)"
        using ss by simp_all
      have "i32 (siQuantity d)" using d unfolding stock_stored_def by blast
      moreover have "i32 n" using ss(4) s(2) ok by (simp add: stock_stored_def i32_def)
      ultimately have dn: "wrap64 (siQuantity d + n) = siQuantity d + n" by (rule i32_add)
      have d1: "d1 = add_units n d" using dn by (simp only: d1_def add_units_def)
      show ?thesis
      proof (cases "isl q")
        case True
        have same: "add_units (- n) s\<lparr>siQuantity := siQuantity s\<rparr> = s" by (simp add: add_units_def)
        have u5: "up w5" "stock_of w5 = stock_of w"
          using fx(2,3) u3 True ss unfolding same by (auto simp: map_upd_triv)
        have "r = Inl (NewInternal ''failed to update destination stock level'' (Some (projl q)))" "w' = w5"
          using run ok g s g2 s1 s2 s3 src False True by (auto simp: d_def d1_def split: sum.splits)
        with u5 show ?thesis by simp
      next
        case q: False
        then have u4: "up w4" "stock_of w4 = (stock_of w)((v, ?a) \<mapsto> add_units (- n) s, (v, ?b) \<mapsto> add_units n d)"
          using fx(2) u3 d d1 by simp_all
        have "up w' \<and> stock_of w' = stock_of w4"
          using run ok g s g2 s1 s2 src False q u4(1) emit_stable emit_up
          by (auto simp: d_def d1_def split: sum.splits prod.splits elim!: NewEventFromCtxE)
        with u4 dall ss s ok show ?thesis by metis
      qed
    qed
  qed
qed

end

text \<open>A repository that also keeps reservations: \<open>res_of\<close> is its table of them.\<close>

locale reservation_store = stock_store repo svc stock_of up res_of
  for repo :: "('a env_scheme, 'r) reservation_repo_scheme"
    and svc :: "('a env_scheme) inv_service"
    and stock_of :: "'a env_scheme \<Rightarrow> string \<times> string \<Rightarrow> StockItem option"
    and up :: "'a env_scheme \<Rightarrow> bool"
    and res_of :: "'a env_scheme \<Rightarrow> string \<Rightarrow> Reservation option" +
  assumes create_fx: "CreateReservation repo rv w = (y, w1) \<Longrightarrow>
        stock_of w1 = stock_of w \<and> (up w \<longrightarrow> up w1) \<and> (isl y \<longrightarrow> res_of w1 = res_of w) \<and>
        (\<not> isl y \<longrightarrow> res_of w (rvID rv) = None \<and> res_of w1 = (res_of w)(rvID rv \<mapsto> rv))"
    and find_fx: "GetReservation repo i w = (z, w1) \<Longrightarrow>
        stock_of w1 = stock_of w \<and> res_of w1 = res_of w \<and> (up w \<longrightarrow> up w1) \<and>
        (\<forall>rv. z = Inr rv \<longrightarrow> res_of w i = Some rv \<and> (up w \<longrightarrow> rvID rv = i \<and> i32 (rvQuantity rv)))"
    and delete_fx: "DeleteReservation repo i w = (y, w1) \<Longrightarrow>
        stock_of w1 = stock_of w \<and> (up w \<longrightarrow> up w1) \<and> (isl y \<longrightarrow> res_of w1 = res_of w) \<and>
        (\<not> isl y \<longrightarrow> res_of w1 = (res_of w)(i := None))"
begin

text \<open>Writing the item back as it was read, after its quantity was changed.\<close>

lemma write_back:
  assumes "SaveStock repo s w = (y, w1)" "up w" "stock_stored s"
    "stock_of w = m((siVariantID s, siLocationID s) \<mapsto> s1)"
    "m (siVariantID s, siLocationID s) = Some s"
  shows "up w1 \<and> stock_of w1 = m \<and> res_of w1 = res_of w"
  using save_fx [OF assms(1)] save_rest [OF assms(1)] assms(2-5) by (simp add: map_upd_triv)

text \<open>
  The last step of both services: the event is built and handed on; an unavailable identifier
  source makes building it panic.
\<close>

lemma finish_fx:
  assumes "(case NewEventFromCtx tp src pl w of (Inl p, w1) \<Rightarrow> (Inl p, w1)
      | (Inr evt, w1) \<Rightarrow> (Inr x, emit (iv_outbox svc) (iv_bus svc) [evt] w1)) = (r, w')" "up w"
  shows "up w' \<and> stock_of w' = stock_of w \<and> res_of w' = res_of w \<and>
    (r = Inr x \<or> (\<exists>p. r = Inl p \<and> is_panic p))"
  using assms emit_stable emit_up emit_rest
  by (auto split: sum.splits prod.splits elim!: NewEventFromCtxE)

text \<open>A reservation that the item rejects, or whose item cannot be stored, changes nothing.\<close>

lemma reserve_rejected:
  assumes "ReserveStock repo svc v l n w = (r, w')" "up w"
    and g: "GetStock repo v (default_loc l) w = (x, w1)"
    and no: "\<not> (\<exists>s s1. x = Inr s \<and> Reserve n s = Inr s1 \<and> stock_stored s1)"
  shows "stock_of w' = stock_of w \<and> res_of w' = res_of w \<and> isl r \<and> up w'"
proof -
  note run = assms(1) [unfolded ReserveStock_def Let_def] and gf = get_fx [OF g] get_rest [OF g]
  show ?thesis
  proof (cases "\<exists>s s1. x = Inr s \<and> Reserve n s = Inr s1")
    case False
    with run g gf assms(2) show ?thesis by (auto split: sum.splits)
  next
    case True
    then obtain s s1 where s: "x = Inr s" "Reserve n s = Inr s1" by blast
    obtain y w2 where sv: "SaveStock repo s1 w1 = (y, w2)" by fastforce
    have "isl y" "stock_of w2 = stock_of w" "res_of w2 = res_of w" "up w2"
      using save_fx [OF sv] save_rest [OF sv] gf assms(2) s no by auto
    with run g s sv show ?thesis by (auto split: sum.splits)
  qed
qed

lemma reserve_effect:
  assumes "ReserveStock repo svc v l n w = (r, w')" "i64 n" "up w" "uuids w = Some u # us"
  shows "up w' \<and>
    (stock_of w' = stock_of w \<and> res_of w' = res_of w \<and> isl r \<or>
     (\<exists>s rv. stock_of w (v, default_loc l) = Some s \<and> 0 < n \<and> stock_floor s \<le> siQuantity s - n \<and>
        stock_of w' = (stock_of w)((v, default_loc l) \<mapsto> add_units (- n) s) \<and>
        res_of w (rvID rv) = None \<and> res_of w' = (res_of w)(rvID rv \<mapsto> rv) \<and>
        rvVariantID rv = v \<and> rvLocationID rv = default_loc l \<and> rvQuantity rv = n \<and>
        (r = Inr rv \<or> (\<exists>p. r = Inl p \<and> is_panic p))))"
proof -
  let ?l = "default_loc l"
  note run = assms(1) [unfolded ReserveStock_def Let_def]
  obtain x w1 where g: "GetStock repo v ?l w = (x, w1)" by fastforce
  note gf = get_fx [OF g] get_rest [OF g]
  show ?thesis
  proof (cases "\<exists>s s1. x = Inr s \<and> Reserve n s = Inr s1 \<and> stock_stored s1")
    case False
    from reserve_rejected [OF assms(1,3) g this] show ?thesis by blast
  next
    case True
    then obtain s s1 where s: "x = Inr s" "Reserve n s = Inr s1" "stock_stored s1" by blast
    have ss: "stock_of w (v, ?l) = Some s" "siVariantID s = v" "siLocationID s = ?l" "stock_stored s"
      using gf s assms(3) by auto
    have "i32 (siQuantity s1)" using s(3) by (simp add: stock_stored_def)
    then have n: "0 < n" "s1 = add_units (- n) s" "stock_floor s \<le> siQuantity s - n"
      using Reserve_ok [OF s(2) ss(4) assms(2)] by (auto simp: add_units_def)
    have undo: "s1\<lparr>siQuantity := siQuantity s\<rparr> = s" by (simp add: n(2) add_units_def)
    obtain y w2 where sv: "SaveStock repo s1 w1 = (y, w2)" by fastforce
    have w2: "\<not> isl y" "stock_of w2 = (stock_of w)((v, ?l) \<mapsto> s1)" "res_of w2 = res_of w" "up w2"
      "uuids w2 = Some u # us"
      using save_fx [OF sv] save_rest [OF sv] gf assms(3,4) s(3) ss n(2) by auto
    define rid where "rid = ''res_'' @ u"
    have gen: "Generate ''res_'' w2 = (Inr rid, w2\<lparr>uuids := us\<rparr>)"
      using w2(5) by (simp add: Generate_def rid_def)
    obtain tm w4 where t: "time_now (w2\<lparr>uuids := us\<rparr>) = (tm, w4)" by fastforce
    have w4: "stock_of w4 = stock_of w2" "res_of w4 = res_of w2" "up w4"
      using t w2(4) by (auto elim!: time_nowE)
    define rv where "rv = \<lparr>rvID = rid, rvVariantID = v, rvLocationID = ?l, rvQuantity = n,
        rvExpiresAt = tm + fifteen_minutes\<rparr>"
    obtain z w5 where vr: "ValidateReservation rv w4 = (z, w5)" by fastforce
    have w5: "stock_of w5 = stock_of w2" "res_of w5 = res_of w2" "up w5"
      using vr w4 by (auto simp: ValidateReservation_def elim!: time_nowE split: if_splits prod.splits)
    obtain z1 w6 where cr: "CreateReservation repo rv w5 = (z1, w6)" by fastforce
    note w6 = create_fx [OF cr]
    obtain b1 v1 where b1: "SaveStock repo s w5 = (b1, v1)" by fastforce
    obtain b2 v2 where b2: "SaveStock repo s w6 = (b2, v2)" by fastforce
    note run' = run [unfolded g prod.case s sum.case sv gen t rv_def [symmetric] vr cr undo]
    consider (bad) "isl z" | (dup) "\<not> isl z" "isl z1" | (ok) "\<not> isl z" "\<not> isl z1" by blast
    then show ?thesis
    proof cases
      case bad
      have "up v1 \<and> stock_of v1 = stock_of w \<and> res_of v1 = res_of w5"
        by (rule write_back [OF b1 w5(3) ss(4)]) (use w5 w2 ss in auto)
      with bad run' w2(1) w5 w2 b1 show ?thesis by (auto simp: isl_def split: sum.splits)
    next
      case dup
      have "up v2 \<and> stock_of v2 = stock_of w \<and> res_of v2 = res_of w6"
        by (rule write_back [OF b2 _ ss(4)]) (use w6 w5 w2 ss in auto)
      with dup run' w2(1) w5 w6 w2 b2 show ?thesis by (auto simp: isl_def split: sum.splits)
    next
      case ok
      have fin: "(case NewEventFromCtx InventoryStockChangedTopic ''inventory''
             (stock_payload v ?l (siQuantity s) (siQuantity s1) (''reservation:'' @ rid) ''system'') w6 of
          (Inl p, w7) \<Rightarrow> (Inl p, w7)
        | (Inr evt, w7) \<Rightarrow> (Inr rv, emit (iv_outbox svc) (iv_bus svc) [evt] w7)) = (r, w')"
        using ok run' w2(1) by (auto simp: isl_def split: sum.splits)
      have rv: "rvID rv = rid" "rvVariantID rv = v" "rvLocationID rv = ?l" "rvQuantity rv = n"
        by (simp_all add: rv_def)
      from finish_fx [OF fin] w6 w5 w2 ok
      have "up w'" "stock_of w' = (stock_of w)((v, ?l) \<mapsto> add_units (- n) s)"
        "res_of w (rvID rv) = None" "res_of w' = (res_of w)(rvID rv \<mapsto> rv)"
        "r = Inr rv \<or> (\<exists>p. r = Inl p \<and> is_panic p)"
        by (simp_all add: n(2))
      with ss(1) n rv show ?thesis by blast
    qed
  qed
qed

lemma release_effect:
  assumes "ReleaseReservation repo svc i w = (r, w')" "up w"
  shows "up w' \<and>
    (stock_of w' = stock_of w \<and> res_of w' = res_of w \<and> isl r \<or>
     (\<exists>s rv. res_of w i = Some rv \<and> rvID rv = i \<and>
        stock_of w (rvVariantID rv, rvLocationID rv) = Some s \<and>
        stock_of w' = (stock_of w)((rvVariantID rv, rvLocationID rv) \<mapsto> add_units (rvQuantity rv) s) \<and>
        res_of w' = (res_of w)(i := None) \<and> (r = Inr () \<or> (\<exists>p. r = Inl p \<and> is_panic p))))"
proof -
  note run = assms(1) [unfolded ReleaseReservation_def Let_def]
  obtain z w1 where f: "GetReservation repo i w = (z, w1)" by fastforce
  note ff = find_fx [OF f]
  show ?thesis
  proof (cases z)
    case (Inl e)
    with run f ff assms(2) show ?thesis by auto
  next
    case (Inr rv)
    obtain x w2 where g: "GetStock repo (rvVariantID rv) (rvLocationID rv) w1 = (x, w2)" by fastforce
    note gf = get_fx [OF g] get_rest [OF g]
    show ?thesis
    proof (cases x)
      case (Inl e)
      with run f ff Inr g gf assms(2) show ?thesis by auto
    next
      case s: (Inr s)
      let ?k = "(rvVariantID rv, rvLocationID rv)"
      have ss: "stock_of w ?k = Some s" "siVariantID s = rvVariantID rv"
        "siLocationID s = rvLocationID rv" "stock_stored s" "i32 (rvQuantity rv)" "up w2"
        using gf ff Inr s assms(2) by auto
      have "wrap64 (siQuantity s + rvQuantity rv) = siQuantity s + rvQuantity rv"
        using ss by (intro i32_add) (auto simp: stock_stored_def)
      then have s1: "s\<lparr>siQuantity := wrap64 (siQuantity s + rvQuantity rv)\<rparr> = add_units (rvQuantity rv) s"
        by (simp add: add_units_def)
      have undo: "add_units (rvQuantity rv) s\<lparr>siQuantity := siQuantity s\<rparr> = s"
        by (simp add: add_units_def)
      obtain y w3 where sv: "SaveStock repo (add_units (rvQuantity rv) s) w2 = (y, w3)" by fastforce
      note svf = save_fx [OF sv] save_rest [OF sv]
      obtain y1 w4 where dl: "DeleteReservation repo i w3 = (y1, w4)" by fastforce
      note dlf = delete_fx [OF dl]
      obtain y2 w5 where bk: "SaveStock repo s w4 = (y2, w5)" by fastforce
      note run' = run [unfolded f prod.case Inr sum.case g s s1 sv dl undo bk]
      consider (save) "isl y" | (del) "\<not> isl y" "isl y1" | (ok) "\<not> isl y" "\<not> isl y1" by blast
      then show ?thesis
      proof cases
        case save
        with run' svf gf ff ss(6) show ?thesis by (auto simp: isl_def)
      next
        case del
        have "up w5 \<and> stock_of w5 = stock_of w \<and> res_of w5 = res_of w4"
          by (rule write_back [OF bk _ ss(4)]) (use del svf dlf gf ff ss in auto)
        moreover have "res_of w4 = res_of w" using del svf dlf gf ff by simp
        moreover have "isl r \<and> w' = w5" using del run' by (cases y; cases y1) auto
        ultimately show ?thesis by simp
      next
        case ok
        then have "(case NewEventFromCtx InventoryStockChangedTopic ''inventory''
             (stock_payload (rvVariantID rv) (rvLocationID rv) (siQuantity s)
               (siQuantity (add_units (rvQuantity rv) s)) (''release:'' @ rvID rv) ''system'') w4 of
            (Inl p, w5) \<Rightarrow> (Inl p, w5)
          | (Inr evt, w5) \<Rightarrow> (Inr (), emit (iv_outbox svc) (iv_bus svc) [evt] w5)) = (r, w')"
          using run' by (auto simp: isl_def split: sum.splits)
        note fin = finish_fx [OF this]
        have "up w4" "stock_of w4 = (stock_of w)(?k \<mapsto> add_units (rvQuantity rv) s)"
          "res_of w4 = (res_of w)(i := None)"
          using ok svf dlf gf ff ss by simp_all
        with fin have "up w'" "stock_of w' = (stock_of w)(?k \<mapsto> add_units (rvQuantity rv) s)"
          "res_of w' = (res_of w)(i := None)" "r = Inr () \<or> (\<exists>p. r = Inl p \<and> is_panic p)"
          by simp_all
        moreover have "res_of w i = Some rv" "rvID rv = i" using ff Inr assms(2) by simp_all
        ultimately show ?thesis using ss(1) by blast
      qed
    qed
  qed
qed

end

end
