(* ===== verification/Shipping.thy ===== *)
theory Shipping
  imports Orders
begin

text \<open>
  Shipping (\<open>internal/core/shipping\<close>, \<open>internal/modules/shipping\<close>): the rate providers, the shipment
  service against the contract \<open>ship_store\<close> of its repository, and the handler that shows a customer
  the shipment of an order.
\<close>

section \<open>Rate providers\<close>

record Package =
  pkWeight :: f64
  pkValue :: f64

record ShippingProvider =
  CalculateRate :: "Package \<Rightarrow> err + f64"
  GetName :: string

definition FlatRateProvider :: "f64 \<Rightarrow> ShippingProvider" where
  "FlatRateProvider rate = \<lparr>CalculateRate = (\<lambda>_. Inr rate), GetName = ''Flat Rate Shipping''\<rparr>"

definition FreeAboveProvider :: "f64 \<Rightarrow> f64 \<Rightarrow> ShippingProvider" where
  "FreeAboveProvider threshold baseRate =
     \<lparr>CalculateRate = (\<lambda>pkg. if pkValue pkg \<ge> threshold then Inr 0 else Inr baseRate),
      GetName = ''Free Above Threshold Shipping''\<rparr>"

definition WeightBasedProvider :: "f64 \<Rightarrow> f64 \<Rightarrow> ShippingProvider" where
  "WeightBasedProvider baseRate ratePerKg =
     \<lparr>CalculateRate = (\<lambda>pkg. Inr (fadd baseRate (fmul (pkWeight pkg) ratePerKg))),
      GetName = ''Weight-Based Shipping''\<rparr>"

record ShippingProviderConfig =
  spType :: string
  spRate :: f64
  spThreshold :: f64
  spBaseRate :: f64
  spPerKg :: f64

fun buildProviders :: "ShippingProviderConfig list \<Rightarrow> err + ShippingProvider list" where
  "buildProviders [] = Inr []"
| "buildProviders (p # ps) =
    (case (if spType p = ''flatrate'' then Inr (FlatRateProvider (spRate p))
           else if spType p = ''freeabove'' then Inr (FreeAboveProvider (spThreshold p) (spBaseRate p))
           else if spType p = ''weightbased'' then Inr (WeightBasedProvider (spBaseRate p) (spPerKg p))
           else Inl (ErrText (''unknown shipping provider type '' @ go_quote (spType p)
                  @ ''; supported: flatrate, freeabove, weightbased''))) of
       Inl e \<Rightarrow> Inl e
     | Inr prov \<Rightarrow> (case buildProviders ps of Inl e \<Rightarrow> Inl e | Inr provs \<Rightarrow> Inr (prov # provs)))"

section \<open>Shipments\<close>

definition ShPending :: string where [go_defs]: "ShPending = ''pending''"
definition ShInTransit :: string where [go_defs]: "ShInTransit = ''in_transit''"
definition ShDelivered :: string where [go_defs]: "ShDelivered = ''delivered''"
definition ShReturned :: string where [go_defs]: "ShReturned = ''returned''"

record StatusHistoryEntry =
  seStatus :: string
  seTimestamp :: int
  seActor :: string

record Shipment =
  shpID :: string
  shpOrderID :: string
  shpCarrier :: string
  shpTrackingNumber :: string
  shpStatus :: string
  shpWeight :: f64
  shpValue :: f64
  shpShippingCost :: f64
  shpEstimatedDeliveryAt :: "int option"
  shpStatusHistory :: "StatusHistoryEntry list"
  shpCreatedAt :: int
  shpUpdatedAt :: int

record 'w ShipRepository =
  shCreate :: "Shipment \<Rightarrow> ('w, unit) io"
  shGetByID :: "string \<Rightarrow> ('w, Shipment) io"
  shGetByOrderID :: "string \<Rightarrow> ('w, Shipment) io"
  shUpdate :: "Shipment \<Rightarrow> ('w, unit) io"
  shListAll :: "int \<Rightarrow> int \<Rightarrow> ('w, Shipment list) io"
  shGetByTrackingNumber :: "string \<Rightarrow> ('w, Shipment) io"
  shDelete :: "string \<Rightarrow> ('w, unit) io"

definition ErrShipmentNotFound :: err where
  [go_defs]: "ErrShipmentNotFound = Sentinel ''shipping'' ''shipment not found''"

definition ErrTrackingNumberNotFound :: err where
  [go_defs]: "ErrTrackingNumberNotFound = Sentinel ''shipping'' ''tracking number not found''"

section \<open>The service\<close>

record 'w shipmentService =
  ssRepo :: "'w ShipRepository"
  ssProviders :: "ShippingProvider list"
  ssBus :: "'w bus"
  ssTx :: "('w, unit) io \<Rightarrow> ('w, unit) io" \<comment> \<open>\<open>CreateShipment\<close> uses it without a check for nil\<close>
  ssOutbox :: "'w OutboxRepository option"

definition NewShipmentService ::
  "'w ShipRepository \<Rightarrow> ShippingProvider list \<Rightarrow> 'w bus \<Rightarrow> (('w, unit) io \<Rightarrow> ('w, unit) io) \<Rightarrow>
   'w OutboxRepository option \<Rightarrow> 'w shipmentService" where
  "NewShipmentService repo provs bus tx ob =
     \<lparr>ssRepo = repo, ssProviders = provs, ssBus = bus, ssTx = tx, ssOutbox = ob\<rparr>"

record RateResponse =
  rrProviderName :: string
  rrRate :: f64

text \<open>The rates that could be calculated; an error only if there are providers and all failed.\<close>

fun rates_of :: "ShippingProvider list \<Rightarrow> Package \<Rightarrow> RateResponse list" where
  "rates_of [] pkg = []"
| "rates_of (p # ps) pkg = (case CalculateRate p pkg of
       Inl e \<Rightarrow> rates_of ps pkg
     | Inr r \<Rightarrow> \<lparr>rrProviderName = GetName p, rrRate = r\<rparr> # rates_of ps pkg)"

fun rate_errors :: "ShippingProvider list \<Rightarrow> Package \<Rightarrow> err list" where
  "rate_errors [] pkg = []"
| "rate_errors (p # ps) pkg = (case CalculateRate p pkg of
       Inl e \<Rightarrow> e # rate_errors ps pkg
     | Inr r \<Rightarrow> rate_errors ps pkg)"

fun join_errors :: "err list \<Rightarrow> string" where
  "join_errors [] = []"
| "join_errors [e] = err_string e"
| "join_errors (e # es) = err_string e @ '' '' @ join_errors es"

definition CalculateRates :: "'w shipmentService \<Rightarrow> Package \<Rightarrow> err + RateResponse list" where
  "CalculateRates s pkg = (let rs = rates_of (ssProviders s) pkg in
     if ssProviders s \<noteq> [] \<and> rs = []
     then Inl (ErrText (''all providers failed to calculate rate: ['' @ join_errors (rate_errors (ssProviders s) pkg) @ '']''))
     else Inr rs)"

text \<open>The cost by the first provider whose name is the carrier, 0 if there is none.\<close>

definition carrier_cost :: "ShippingProvider list \<Rightarrow> string \<Rightarrow> Package \<Rightarrow> err + f64" where
  "carrier_cost ps carrier pkg = (case find (\<lambda>p. GetName p = carrier) ps of
       None \<Rightarrow> Inr 0
     | Some p \<Rightarrow> CalculateRate p pkg)"

definition three_days :: int where "three_days = 3 * 24 * 3600 * 1000000000"

text \<open>The body of the transaction of \<open>CreateShipment\<close>.\<close>

definition create_shipment_tx ::
  "'w shipmentService \<Rightarrow> Shipment \<Rightarrow> event option \<Rightarrow> ('w, unit) io" where
  "create_shipment_tx s sh evt w = (case shGetByOrderID (ssRepo s) (shpOrderID sh) w of
       (Inr _, w1) \<Rightarrow> (Inl (ErrText ''shipment already exists for this order''), w1)
     | (Inl _, w1) \<Rightarrow> (case shCreate (ssRepo s) sh w1 of
           (Inl e, w2) \<Rightarrow> (Inl e, w2)
         | (Inr _, w2) \<Rightarrow> (case (evt, ssOutbox s) of
               (Some e, Some ob) \<Rightarrow> Store ob [e] w2
             | _ \<Rightarrow> (Inr (), w2))))"

definition shipped_payload :: "Shipment \<Rightarrow> payload" where
  "shipped_payload sh = POrderShipped \<lparr>os_OrderID = shpOrderID sh,
     os_TrackingNumber = shpTrackingNumber sh, os_Carrier = shpCarrier sh\<rparr>"

text \<open>The event of a change, if one is due; a panic while building it ends the operation.\<close>

definition shipped_event :: "bool \<Rightarrow> Shipment \<Rightarrow> ('a env_scheme, event option) io" where
  "shipped_event due sh w = (if due then
       (case NewEventFromCtx OrderShippedTopic ''shipping'' (shipped_payload sh) w of
          (Inl p, w1) \<Rightarrow> (Inl p, w1)
        | (Inr e, w1) \<Rightarrow> (Inr (Some e), w1))
     else (Inr None, w))"

definition CreateShipment ::
  "('a env_scheme) shipmentService \<Rightarrow> string \<Rightarrow> string \<Rightarrow> string \<Rightarrow> f64 \<Rightarrow> f64 \<Rightarrow> ('a env_scheme, Shipment) io" where
  "CreateShipment s oid carrier tracking weight value w =
    (case carrier_cost (ssProviders s) carrier \<lparr>pkWeight = weight, pkValue = value\<rparr> of
       Inl e \<Rightarrow> (Inl (Wrap ''failed to calculate shipping rate'' e), w)
     | Inr cost \<Rightarrow>
     (case Generate ''shpm_'' w of
       (Inl e, w1) \<Rightarrow> (Inl (Wrap ''failed to generate shipment ID'' e), w1)
     | (Inr uid, w1) \<Rightarrow>
     (case time_now w1 of (t1, w2) \<Rightarrow> case time_now w2 of (t2, w3) \<Rightarrow>
      case time_now w3 of (t3, w4) \<Rightarrow> case time_now w4 of (t4, w5) \<Rightarrow>
      let status = (if tracking \<noteq> [] then ShInTransit else ShPending);
          sh = \<lparr>shpID = uid, shpOrderID = oid, shpCarrier = carrier, shpTrackingNumber = tracking,
                shpStatus = status, shpWeight = weight, shpValue = value, shpShippingCost = cost,
                shpEstimatedDeliveryAt = Some (t1 + three_days),
                shpStatusHistory = [\<lparr>seStatus = status, seTimestamp = t2, seActor = ''system''\<rparr>],
                shpCreatedAt = t3, shpUpdatedAt = t4\<rparr> in
     (case shipped_event (status = ShInTransit) sh w5 of
       (Inl p, w6) \<Rightarrow> (Inl p, w6)
     | (Inr evt, w6) \<Rightarrow>
     (case ssTx s (create_shipment_tx s sh evt) w6 of
       (Inl e, w7) \<Rightarrow> (Inl e, w7)
     | (Inr _, w7) \<Rightarrow> (Inr sh, (case (evt, ssOutbox s) of
           (Some e, None) \<Rightarrow> ssBus s e w7
         | _ \<Rightarrow> w7)))))))"

text \<open>The status rules of \<open>UpdateShipmentStatus\<close>.\<close>

definition check_status_change :: "string \<Rightarrow> string \<Rightarrow> err option" where
  "check_status_change old new =
    (if old = ShDelivered \<or> old = ShReturned
     then Some (ErrText (''cannot update shipment from terminal status '' @ old))
     else if old = ShInTransit \<and> new = ShPending
     then Some (ErrText (''cannot revert status from '' @ old @ '' to '' @ new))
     else None)"

definition update_shipment_tx ::
  "'w shipmentService \<Rightarrow> Shipment \<Rightarrow> 'w OutboxRepository \<Rightarrow> event \<Rightarrow> ('w, unit) io" where
  "update_shipment_tx s sh ob e w = (case shUpdate (ssRepo s) sh w of
       (Inl er, w1) \<Rightarrow> (Inl er, w1)
     | (Inr _, w1) \<Rightarrow> Store ob [e] w1)"

definition UpdateShipmentStatus ::
  "('a env_scheme) shipmentService \<Rightarrow> string \<Rightarrow> string \<Rightarrow> string \<Rightarrow> ('a env_scheme, Shipment) io" where
  "UpdateShipmentStatus s i status tracking w = (case shGetByID (ssRepo s) i w of
       (Inl e, w1) \<Rightarrow> (Inl ErrShipmentNotFound, w1)
     | (Inr sh0, w1) \<Rightarrow>
     (case check_status_change (shpStatus sh0) status of
       Some e \<Rightarrow> (Inl e, w1)
     | None \<Rightarrow>
     (case time_now w1 of (t1, w2) \<Rightarrow> case time_now w2 of (t2, w3) \<Rightarrow>
      let sh = sh0\<lparr>shpStatus := status,
                 shpTrackingNumber := (if tracking \<noteq> [] then tracking else shpTrackingNumber sh0),
                 shpStatusHistory := shpStatusHistory sh0
                   @ [\<lparr>seStatus = status, seTimestamp = t1, seActor = ''admin''\<rparr>],
                 shpUpdatedAt := t2\<rparr> in
     (case shipped_event (shpStatus sh0 = ShPending \<and> status = ShInTransit) sh w3 of
       (Inl p, w4) \<Rightarrow> (Inl p, w4)
     | (Inr evt, w4) \<Rightarrow>
        (case (evt, ssOutbox s) of
           (Some e, Some ob) \<Rightarrow> (case ssTx s (update_shipment_tx s sh ob e) w4 of
               (Inl er, w5) \<Rightarrow> (Inl er, w5)
             | (Inr _, w5) \<Rightarrow> (Inr sh, w5))
         | _ \<Rightarrow> (case shUpdate (ssRepo s) sh w4 of
               (Inl er, w5) \<Rightarrow> (Inl er, w5)
             | (Inr _, w5) \<Rightarrow> (Inr sh, (case evt of Some e \<Rightarrow> ssBus s e w5 | None \<Rightarrow> w5))))))))"

definition GetShipmentByOrderID :: "'w shipmentService \<Rightarrow> string \<Rightarrow> ('w, Shipment) io" where
  "GetShipmentByOrderID s oid w = (case shGetByOrderID (ssRepo s) oid w of
       (Inl e, w1) \<Rightarrow> (Inl ErrShipmentNotFound, w1)
     | (Inr sh, w1) \<Rightarrow> (Inr sh, w1))"

definition ListAllShipments :: "'w shipmentService \<Rightarrow> int \<Rightarrow> int \<Rightarrow> ('w, Shipment list) io" where
  "ListAllShipments s limit offset = shListAll (ssRepo s) (page_limit limit) (page_offset offset)"

definition GetShipmentByTrackingNumber :: "'w shipmentService \<Rightarrow> string \<Rightarrow> ('w, Shipment) io" where
  "GetShipmentByTrackingNumber s n = shGetByTrackingNumber (ssRepo s) n"

definition TrackShipment :: "'w shipmentService \<Rightarrow> string \<Rightarrow> ('w, Shipment) io" where
  "TrackShipment s n w = (case shGetByTrackingNumber (ssRepo s) n w of
       (Inl e, w1) \<Rightarrow> (Inl ErrTrackingNumberNotFound, w1)
     | (Inr sh, w1) \<Rightarrow> (Inr sh, w1))"

definition DeleteShipment :: "'w shipmentService \<Rightarrow> string \<Rightarrow> ('w, unit) io" where
  "DeleteShipment s i w = (case shGetByID (ssRepo s) i w of
       (Inl e, w1) \<Rightarrow> (Inl ErrShipmentNotFound, w1)
     | (Inr sh, w1) \<Rightarrow>
         if shpStatus sh \<noteq> ShPending
         then (Inl (ErrText (''cannot delete shipment in status '' @ shpStatus sh
                 @ '': only pending shipments can be deleted'')), w1)
         else shDelete (ssRepo s) i w1)"

section \<open>The handlers\<close>

definition ship_statuses :: "string list" where
  "ship_statuses = [ShPending, ShInTransit, ShDelivered, ShReturned]"

text \<open>The admin handlers behind the parsing of the request; the status arrives as any text.\<close>

definition admin_CreateShipment ::
  "('a env_scheme) shipmentService \<Rightarrow> string \<Rightarrow> string \<Rightarrow> string \<Rightarrow> f64 \<Rightarrow> f64 \<Rightarrow> ('a env_scheme, Shipment) io" where
  "admin_CreateShipment s oid carrier tracking weight value w =
    (case CreateShipment s oid carrier tracking weight value w of
       (Inl e, w1) \<Rightarrow> (Inl (if is_panic e then e else NewInternal ''failed to create shipment'' (Some e)), w1)
     | (Inr sh, w1) \<Rightarrow> (Inr sh, w1))"

definition admin_UpdateShipmentStatus ::
  "('a env_scheme) shipmentService \<Rightarrow> string \<Rightarrow> string \<Rightarrow> string \<Rightarrow> ('a env_scheme, Shipment) io" where
  "admin_UpdateShipmentStatus s i status tracking w =
    (if i = [] then (Inl (NewBadRequest ''missing shipment id in path'' None), w)
     else if status \<notin> set ship_statuses
     then (Inl (NewBadRequest (''invalid status value: '' @ status) None), w)
     else (case UpdateShipmentStatus s i status tracking w of
       (Inl e, w1) \<Rightarrow> (Inl (if is_panic e then e
           else if errors_is e ErrShipmentNotFound then NewNotFound ''shipment not found'' (Some e)
           else NewInternal ''failed to update shipment'' (Some e)), w1)
     | (Inr sh, w1) \<Rightarrow> (Inr sh, w1)))"

definition admin_DeleteShipment ::
  "('a env_scheme) shipmentService \<Rightarrow> string \<Rightarrow> ('a env_scheme, unit) io" where
  "admin_DeleteShipment s i w =
    (if i = [] then (Inl (NewBadRequest ''missing shipment id in path'' None), w)
     else (case DeleteShipment s i w of
       (Inl e, w1) \<Rightarrow> (Inl (if errors_is e ErrShipmentNotFound \<or> err_string e = ''shipment not found''
           then NewNotFound ''shipment not found'' (Some e)
           else NewInternal ''failed to delete shipment'' (Some e)), w1)
     | (Inr _, w1) \<Rightarrow> (Inr (), w1)))"

text \<open>
  \<open>GetMyOrderShipment\<close> for the identity the authentication middleware has set (empty if none), with
  the order service behind its adapter. The value is what \<open>GinOK\<close> answers with.
\<close>

definition GetMyOrderShipment ::
  "('a env_scheme) shipmentService \<Rightarrow> ('a env_scheme) orderService \<Rightarrow> string \<Rightarrow> string \<Rightarrow>
   ('a env_scheme, Shipment) io" where
  "GetMyOrderShipment s orders customerID oid w =
    (if customerID = [] then (Inl (NewUnauthorized ''unauthorized'' None), w)
     else if oid = [] then (Inl (NewBadRequest ''missing order_id'' None), w)
     else (case GetShipmentByOrderID s oid w of
       (Inl e, w1) \<Rightarrow> (Inl (NewNotFound ''shipment not found'' (Some e)), w1)
     | (Inr sh, w1) \<Rightarrow> (case GetOrder orders (shpOrderID sh) w1 of
         (Inl e, w2) \<Rightarrow> (Inl (NewNotFound ''associated order not found'' (Some e)), w2)
       | (Inr o1, w2) \<Rightarrow>
           if ordCustomerID o1 \<noteq> customerID
           then (Inl (NewForbidden ''you do not have access to this shipment'' None), w2)
           else (Inr sh, w2))))"

section \<open>What the service does before its transaction\<close>

text \<open>Nothing but the environment changes while identifiers, times and events are made.\<close>

definition env_only :: "'a env_scheme \<Rightarrow> 'a env_scheme \<Rightarrow> bool" where
  "env_only w w1 \<longleftrightarrow> env.more w1 = env.more w \<and> in_tx w1 = in_tx w \<and> bus_log w1 = bus_log w"

lemma env_only_refl [simp]: "env_only w w"
  by (simp add: env_only_def)

lemma env_only_trans: "env_only w w1 \<Longrightarrow> env_only w1 w2 \<Longrightarrow> env_only w w2"
  by (simp add: env_only_def)

lemma env_only_generate: "Generate p w = (x, w1) \<Longrightarrow> env_only w w1"
  by (cases w) (auto simp: env_only_def elim!: GenerateE)

lemma env_only_now: "time_now w = (t, w1) \<Longrightarrow> env_only w w1"
  by (cases w) (auto simp: env_only_def elim!: time_nowE)

lemma shipped_event_fx:
  assumes "shipped_event due sh w = (x, w1)"
  shows "env_only w w1 \<and> (\<forall>e. x = Inl e \<longrightarrow> is_panic e) \<and> (\<forall>y. x = Inr y \<longrightarrow> (if due then \<exists>e. y = Some e \<and>
    evTopic e = OrderShippedTopic \<and> evPayload e = shipped_payload sh else y = None))"
proof (cases due)
  case False
  with assms show ?thesis by (auto simp: shipped_event_def)
next
  case True
  obtain y v where e: "NewEventFromCtx OrderShippedTopic ''shipping'' (shipped_payload sh) w = (y, v)" by fastforce
  then obtain us c ds where v: "v = w\<lparr>uuids := us, clock := c, delays := ds\<rparr>"
    "\<And>e. y = Inr e \<Longrightarrow> evTopic e = OrderShippedTopic \<and> evPayload e = shipped_payload sh"
    "\<And>er. y = Inl er \<Longrightarrow> is_panic er"
    by (rule NewEventFromCtxE) (use that in blast)
  have "env_only w v" unfolding v by (cases w) (simp add: env_only_def)
  with assms True e v(2,3) show ?thesis by (auto simp: shipped_event_def split: sum.splits)
qed

lemma CreateShipment_cases:
  assumes run: "CreateShipment s oid carrier tracking weight val w = (r, w')"
  obtains (early) e where "r = Inl e" "env_only w w'"
  | (tx) sh evt w1 y w2 where "env_only w w1"
      "carrier_cost (ssProviders s) carrier \<lparr>pkWeight = weight, pkValue = val\<rparr> = Inr (shpShippingCost sh)"
      "shpOrderID sh = oid" "shpStatus sh = (if tracking \<noteq> [] then ShInTransit else ShPending)"
      "if tracking \<noteq> [] then \<exists>e. evt = Some e \<and> evTopic e = OrderShippedTopic \<and> evPayload e =
         POrderShipped \<lparr>os_OrderID = oid, os_TrackingNumber = tracking, os_Carrier = carrier\<rparr> else evt = None"
      "ssTx s (create_shipment_tx s sh evt) w1 = (y, w2)"
      "r = (case y of Inl e \<Rightarrow> Inl e | Inr _ \<Rightarrow> Inr sh)"
      "w' = (case (y, evt, ssOutbox s) of (Inr _, Some e, None) \<Rightarrow> ssBus s e w2 | _ \<Rightarrow> w2)"
proof (cases "carrier_cost (ssProviders s) carrier \<lparr>pkWeight = weight, pkValue = val\<rparr>")
  case (Inl e)
  with run show thesis by (intro early) (auto simp: CreateShipment_def)
next
  case cost: (Inr cost)
  obtain g w1 where g: "Generate ''shpm_'' w = (g, w1)" by fastforce
  note w1 = env_only_generate [OF g]
  show thesis
  proof (cases g)
    case (Inl e)
    with run cost g w1 show thesis by (intro early) (auto simp: CreateShipment_def)
  next
    case (Inr uid)
    obtain t1 w2 t2 w3 t3 w4 t4 w5 where t: "time_now w1 = (t1, w2)" "time_now w2 = (t2, w3)"
      "time_now w3 = (t3, w4)" "time_now w4 = (t4, w5)" by (meson surj_pair)
    have w5: "env_only w w5"
      using w1 t [THEN env_only_now] by (blast intro: env_only_trans)
    define st where "st = (if tracking \<noteq> [] then ShInTransit else ShPending)"
    define sh where "sh = \<lparr>shpID = uid, shpOrderID = oid, shpCarrier = carrier, shpTrackingNumber = tracking,
        shpStatus = st, shpWeight = weight, shpValue = val, shpShippingCost = cost,
        shpEstimatedDeliveryAt = Some (t1 + three_days),
        shpStatusHistory = [\<lparr>seStatus = st, seTimestamp = t2, seActor = ''system''\<rparr>],
        shpCreatedAt = t3, shpUpdatedAt = t4\<rparr>"
    have sel: "shpOrderID sh = oid" "shpStatus sh = st" "shpShippingCost sh = cost"
      "shipped_payload sh = POrderShipped \<lparr>os_OrderID = oid, os_TrackingNumber = tracking, os_Carrier = carrier\<rparr>"
      by (simp_all add: sh_def shipped_payload_def)
    have due: "st = ShInTransit \<longleftrightarrow> tracking \<noteq> []" by (simp add: st_def ShPending_def ShInTransit_def)
    obtain x w6 where x: "shipped_event (st = ShInTransit) sh w5 = (x, w6)" by fastforce
    note fx = shipped_event_fx [OF x]
    then have w6: "env_only w w6" using w5 by (blast intro: env_only_trans)
    have run': "(case x of Inl p \<Rightarrow> (Inl p, w6)
      | Inr evt \<Rightarrow> (case ssTx s (create_shipment_tx s sh evt) w6 of
          (Inl e, w7) \<Rightarrow> (Inl e, w7)
        | (Inr _, w7) \<Rightarrow> (Inr sh, (case (evt, ssOutbox s) of (Some e, None) \<Rightarrow> ssBus s e w7 | _ \<Rightarrow> w7)))) = (r, w')"
      using run cost g Inr t x unfolding sh_def st_def by (simp add: CreateShipment_def Let_def)
    show thesis
    proof (cases x)
      case (Inl p)
      with run' w6 show thesis by (intro early) auto
    next
      case evt: (Inr evt)
      obtain y w7 where y: "ssTx s (create_shipment_tx s sh evt) w6 = (y, w7)" by fastforce
      have res: "r = (case y of Inl e \<Rightarrow> Inl e | Inr _ \<Rightarrow> Inr sh)"
        "w' = (case (y, evt, ssOutbox s) of (Inr _, Some e, None) \<Rightarrow> ssBus s e w7 | _ \<Rightarrow> w7)"
        using run' evt y by (auto split: sum.splits)
      have ev: "if tracking \<noteq> [] then \<exists>e. evt = Some e \<and> evTopic e = OrderShippedTopic \<and> evPayload e =
          POrderShipped \<lparr>os_OrderID = oid, os_TrackingNumber = tracking, os_Carrier = carrier\<rparr> else evt = None"
        using fx evt sel(4) due by (auto split: if_splits)
      show thesis
        by (rule tx [OF w6 _ sel(1) _ ev y res]) (simp_all add: cost sel st_def)
    qed
  qed
qed

section \<open>Shipments as a table\<close>

type_synonym ship_table = "string \<Rightarrow> Shipment option"

text \<open>The columns that identify a stored shipment; numbers may be rounded to their columns.\<close>

definition same_shipment :: "Shipment \<Rightarrow> Shipment \<Rightarrow> bool" where
  "same_shipment s t \<longleftrightarrow> shpID t = shpID s \<and> shpOrderID t = shpOrderID s \<and> shpCarrier t = shpCarrier s \<and>
     shpTrackingNumber t = shpTrackingNumber s \<and> shpStatus t = shpStatus s \<and>
     shpStatusHistory t = shpStatusHistory s"

inductive ship_step :: "ship_table \<Rightarrow> ship_table \<Rightarrow> bool" where
  stay: "ship_step m m"
| new: "m (shpID s) = None \<Longrightarrow> \<forall>i t. m i = Some t \<longrightarrow> shpOrderID t \<noteq> shpOrderID s \<Longrightarrow>
    shpStatus s = ShPending \<or> shpStatus s = ShInTransit \<Longrightarrow> ship_step m (m(shpID s \<mapsto> s))"
| move: "m i = Some s \<Longrightarrow> shpID t = i \<Longrightarrow> check_status_change (shpStatus s) (shpStatus t) = None \<Longrightarrow>
    shpStatus t \<in> set ship_statuses \<Longrightarrow> shpOrderID t = shpOrderID s \<Longrightarrow>
    (\<exists>e. seStatus e = shpStatus t \<and> shpStatusHistory t = shpStatusHistory s @ [e]) \<Longrightarrow>
    ship_step m (m(i \<mapsto> t))"
| drop: "m i = Some s \<Longrightarrow> shpStatus s = ShPending \<Longrightarrow> ship_step m (m(i := None))"

text \<open>What the service relies on, whatever calls fail: transactions, and the effect of each call.\<close>

locale ship_store = tx_manager "ssTx svc" for svc :: "('a env_scheme) shipmentService" +
  fixes ships :: "'a env_scheme \<Rightarrow> ship_table"
  assumes get_fx: "shGetByID (ssRepo svc) i w = (x, w1) \<Longrightarrow>
        ships w1 = ships w \<and> in_tx w1 = in_tx w \<and> (\<forall>s. x = Inr s \<longrightarrow> ships w i = Some s \<and> shpID s = i)"
    and by_order_fx: "shGetByOrderID (ssRepo svc) oid w = (x, w1) \<Longrightarrow> ships w1 = ships w \<and>
        (in_tx w \<longrightarrow> isl x \<longrightarrow> tx_aborted w1 \<or> (\<forall>i s. ships w i = Some s \<longrightarrow> shpOrderID s \<noteq> oid))"
    and create_fx: "shCreate (ssRepo svc) s w = (y, w1) \<Longrightarrow>
        (isl y \<longrightarrow> ships w1 = ships w) \<and>
        (\<not> isl y \<longrightarrow> \<not> tx_aborted w \<and> ships w (shpID s) = None \<and>
           (\<exists>t. same_shipment s t \<and> ships w1 = (ships w)(shpID s \<mapsto> t)))"
    and update_fx: "shUpdate (ssRepo svc) s w = (y, w1) \<Longrightarrow>
        (isl y \<longrightarrow> ships w1 = ships w) \<and>
        (\<not> isl y \<longrightarrow> (\<exists>t. same_shipment s t \<and> ships w1 = (ships w)(shpID s \<mapsto> t)))"
    and delete_fx: "shDelete (ssRepo svc) i w = (y, w1) \<Longrightarrow>
        (isl y \<longrightarrow> ships w1 = ships w) \<and> (\<not> isl y \<longrightarrow> ships w1 = (ships w)(i := None))"
    and store_fx: "ssOutbox svc = Some ob \<Longrightarrow> Store ob es w = (y, w1) \<Longrightarrow> ships w1 = ships w"
    and bus_fx: "ships (ssBus svc e w) = ships w"
    and ships_stable: "env.more w1 = env.more w \<Longrightarrow> ships w1 = ships w"
begin

lemma ships_env_only: "env_only w w1 \<Longrightarrow> ships w1 = ships w"
  unfolding env_only_def by (blast intro: ships_stable)

lemma create_tx:
  assumes "ssTx svc (create_shipment_tx svc sh evt) w = (x, w')" "\<not> in_tx w"
  shows "case x of
      Inl e \<Rightarrow> ships w' = ships w
    | Inr _ \<Rightarrow> ships w (shpID sh) = None \<and> (\<forall>i t. ships w i = Some t \<longrightarrow> shpOrderID t \<noteq> shpOrderID sh) \<and>
        (\<exists>t. same_shipment sh t \<and> ships w' = (ships w)(shpID sh \<mapsto> t))"
proof (cases x)
  case (Inl e)
  then have "env.more w' = env.more w" using tx_err [OF assms(2)] assms(1) by blast
  from ships_stable [OF this] Inl show ?thesis by simp
next
  case (Inr u)
  with tx_ok [OF assms(2)] assms(1) obtain w0 w2 where w0: "env.more w0 = env.more w" "in_tx w0"
    "create_shipment_tx svc sh evt w0 = (Inr u, w2)" "env.more w' = env.more w2" by blast
  obtain y v where y: "shGetByOrderID (ssRepo svc) (shpOrderID sh) w0 = (y, v)" by fastforce
  obtain z v2 where z: "shCreate (ssRepo svc) sh v = (z, v2)" by fastforce
  have "isl y" "\<not> isl z" "\<exists>b. (case (evt, ssOutbox svc) of (Some e, Some ob) \<Rightarrow> Store ob [e] v2 | _ \<Rightarrow> (Inr (), v2)) = (b, w2)"
    using w0(3) y z by (auto simp: create_shipment_tx_def split: sum.splits)
  then have "ships w2 = ships v2" using store_fx by (auto split: option.splits)
  moreover have "ships w0 = ships w" "ships w' = ships w2"
    using ships_stable [OF w0(1)] ships_stable [OF w0(4)] by simp_all
  ultimately show ?thesis
    using by_order_fx [OF y] create_fx [OF z] \<open>isl y\<close> \<open>\<not> isl z\<close> w0(2) Inr by auto
qed

lemma create_step:
  assumes "CreateShipment svc oid carrier tracking weight val w = (r, w')" and "\<not> in_tx w"
  shows "case r of
      Inl e \<Rightarrow> ships w' = ships w
    | Inr sh \<Rightarrow> shpOrderID sh = oid \<and> shpStatus sh = (if tracking \<noteq> [] then ShInTransit else ShPending) \<and>
        ships w (shpID sh) = None \<and> (\<forall>i t. ships w i = Some t \<longrightarrow> shpOrderID t \<noteq> oid) \<and>
        (\<exists>t. same_shipment sh t \<and> ships w' = (ships w)(shpID sh \<mapsto> t))"
  using assms(1)
proof (cases rule: CreateShipment_cases)
  case (early e)
  with ships_env_only [OF early(2)] show ?thesis by simp
next
  case (tx sh evt w1 y w2)
  have w1: "ships w1 = ships w" "\<not> in_tx w1"
    using ships_env_only [OF tx(1)] tx(1) assms(2) by (simp_all add: env_only_def)
  have "ships w' = ships w2" using tx(8) bus_fx by (auto split: sum.splits option.splits)
  with create_tx [OF tx(6) w1(2)] w1 tx(3,4,7) show ?thesis by (cases y) auto
qed

lemma update_step:
  assumes run: "UpdateShipmentStatus svc i status tracking w = (r, w')" and "\<not> in_tx w"
  shows "case r of
      Inl e \<Rightarrow> ships w' = ships w
    | Inr _ \<Rightarrow> \<exists>s t e. ships w i = Some s \<and> check_status_change (shpStatus s) status = None \<and>
        shpID t = i \<and> shpStatus t = status \<and> shpOrderID t = shpOrderID s \<and> seStatus e = status \<and>
        shpStatusHistory t = shpStatusHistory s @ [e] \<and> ships w' = (ships w)(i \<mapsto> t)"
proof -
  obtain g w1 where g: "shGetByID (ssRepo svc) i w = (g, w1)" by fastforce
  note gf = get_fx [OF g]
  show ?thesis
  proof (cases "\<exists>s. g = Inr s \<and> check_status_change (shpStatus s) status = None")
    case False
    with run g gf show ?thesis by (auto simp: UpdateShipmentStatus_def split: sum.splits option.splits)
  next
    case True
    then obtain s where s: "g = Inr s" "check_status_change (shpStatus s) status = None" by blast
    obtain t1 w2 t2 w3 where t: "time_now w1 = (t1, w2)" "time_now w2 = (t2, w3)" by (meson surj_pair)
    have w3: "ships w3 = ships w" "in_tx w3 = in_tx w"
      using gf ships_env_only [OF env_only_now [OF t(1)]] ships_env_only [OF env_only_now [OF t(2)]]
        t [THEN env_only_now] by (simp_all add: env_only_def)
    define sh where "sh = s\<lparr>shpStatus := status,
        shpTrackingNumber := (if tracking \<noteq> [] then tracking else shpTrackingNumber s),
        shpStatusHistory := shpStatusHistory s @ [\<lparr>seStatus = status, seTimestamp = t1, seActor = ''admin''\<rparr>],
        shpUpdatedAt := t2\<rparr>"
    have sel: "shpID sh = i" "shpOrderID sh = shpOrderID s" "shpStatus sh = status"
      "shpStatusHistory sh = shpStatusHistory s @ [\<lparr>seStatus = status, seTimestamp = t1, seActor = ''admin''\<rparr>]"
      using gf s(1) by (simp_all add: sh_def)
    obtain x w4 where x: "shipped_event (shpStatus s = ShPending \<and> status = ShInTransit) sh w3 = (x, w4)" by fastforce
    have w4: "ships w4 = ships w3" "in_tx w4 = in_tx w3"
      using shipped_event_fx [OF x] ships_env_only [OF conjunct1 [OF shipped_event_fx [OF x]]]
      by (simp_all add: env_only_def)
    have run': "(case x of Inl p \<Rightarrow> (Inl p, w4)
      | Inr evt \<Rightarrow> (case (evt, ssOutbox svc) of
           (Some e, Some ob) \<Rightarrow> (case ssTx svc (update_shipment_tx svc sh ob e) w4 of
               (Inl er, w5) \<Rightarrow> (Inl er, w5)
             | (Inr _, w5) \<Rightarrow> (Inr sh, w5))
         | _ \<Rightarrow> (case shUpdate (ssRepo svc) sh w4 of
               (Inl er, w5) \<Rightarrow> (Inl er, w5)
             | (Inr _, w5) \<Rightarrow> (Inr sh, (case evt of Some e \<Rightarrow> ssBus svc e w5 | None \<Rightarrow> w5))))) = (r, w')"
      using run g s t x unfolding sh_def by (simp add: UpdateShipmentStatus_def Let_def)
    have upd: "case r of Inl e \<Rightarrow> ships w' = ships w
      | Inr _ \<Rightarrow> \<exists>t. same_shipment sh t \<and> ships w' = (ships w)(shpID sh \<mapsto> t)"
    proof (cases "\<exists>e ob. x = Inr (Some e) \<and> ssOutbox svc = Some ob")
      case True
      then obtain e ob where e: "x = Inr (Some e)" "ssOutbox svc = Some ob" by blast
      obtain y w5 where y: "ssTx svc (update_shipment_tx svc sh ob e) w4 = (y, w5)" by fastforce
      have r: "r = (case y of Inl er \<Rightarrow> Inl er | Inr _ \<Rightarrow> Inr sh)" "w' = w5"
        using run' e y by (auto split: sum.splits)
      have "update_shipment_tx svc sh ob e =
          (\<lambda>w. case shUpdate (ssRepo svc) sh w of (Inl er, w1) \<Rightarrow> (Inl er, w1) | (Inr u, w1) \<Rightarrow> Store ob [e] w1)"
        by (rule ext) (simp add: update_shipment_tx_def)
      note tx = tx_both [OF _ y [unfolded this]]
      show ?thesis
      proof (cases y)
        case (Inl er)
        then have "env.more w5 = env.more w4" using tx assms(2) w3 w4 by simp
        from ships_stable [OF this] r Inl w3 w4 show ?thesis by simp
      next
        case (Inr u)
        with tx assms(2) w3 w4 obtain v0 z v1 v2 where v: "env.more v0 = env.more w4"
          "shUpdate (ssRepo svc) sh v0 = (Inr z, v1)" "Store ob [e] v1 = (Inr u, v2)" "env.more w5 = env.more v2"
          by auto
        from update_fx [OF v(2)] store_fx [OF e(2) v(3)] ships_stable [OF v(1)] ships_stable [OF v(4)] r Inr w3 w4
        show ?thesis by auto
      qed
    next
      case False
      then have alt: "(\<exists>e. x = Inl e) \<or> (\<exists>evt. x = Inr evt \<and> (evt = None \<or> ssOutbox svc = None))"
        by (cases x) auto
      obtain y w5 where y: "shUpdate (ssRepo svc) sh w4 = (y, w5)" by fastforce
      from update_fx [OF y] run' alt y w3 w4 show ?thesis
        by (cases y) (auto simp: bus_fx split: option.splits intro!: exI conjI refl)
    qed
    show ?thesis
    proof (cases r)
      case (Inl e)
      with upd show ?thesis by simp
    next
      case (Inr u)
      with upd obtain t where t: "same_shipment sh t" "ships w' = (ships w)(shpID sh \<mapsto> t)" by auto
      have "ships w i = Some s" using gf s(1) by simp
      with s(2) sel t Inr show ?thesis
        by (simp only: sum.case, intro exI [of _ s] exI [of _ t]
            exI [of _ "\<lparr>seStatus = status, seTimestamp = t1, seActor = ''admin''\<rparr>"])
          (simp add: same_shipment_def)
    qed
  qed
qed

lemma delete_step:
  assumes "DeleteShipment svc i w = (r, w')"
  shows "case r of Inl e \<Rightarrow> ships w' = ships w
    | Inr _ \<Rightarrow> \<exists>s. ships w i = Some s \<and> shpStatus s = ShPending \<and> ships w' = (ships w)(i := None)"
proof -
  obtain g w1 where g: "shGetByID (ssRepo svc) i w = (g, w1)" by fastforce
  obtain y w2 where y: "shDelete (ssRepo svc) i w1 = (y, w2)" by fastforce
  from assms get_fx [OF g] delete_fx [OF y] g y show ?thesis
    by (auto simp: DeleteShipment_def split: sum.splits if_splits)
qed

end

end
