(* ===== verification/Engine.thy ===== *)
theory Engine
  imports DepGraphProps Payments InventoryServices Shipping
begin

text \<open>
  Start-up of \<open>internal/engine\<close>: the container that modules share, the start of the modules in
  dependency order, and the repeated attempts to reach the database. All eight modules of
  \<open>internal/modules\<close> are modelled as far as they use the container; the infrastructure they find in
  it (bus, transactions, repositories, constructors of payment providers) is given from outside.
\<close>

section \<open>The container\<close>

datatype 'w Service =
    SOrders "'w orderService"
  | SPayments "'w paymentService"
  | SShipping "'w shipmentService"
  | SInventory "'w inv_service" \<comment> \<open>reservation, transfer, adjustment and synchronisation\<close>
  | SPlain \<comment> \<open>a service that publishes no events\<close>

record 'w Container =
  cEventBus :: "'w bus"
  cTxManager :: "('w, unit) io \<Rightarrow> ('w, unit) io"
  cOrderRepo :: "'w OrderRepository"
  cPaymentRepo :: "'w PayRepository"
  cShipmentRepo :: "'w ShipRepository"
  cOutbox :: "'w OutboxRepository option"
  cServices :: "string \<rightharpoonup> 'w Service"

definition Provide :: "string \<Rightarrow> 'w Service \<Rightarrow> 'w Container \<Rightarrow> err + 'w Container" where
  "Provide key svc c = (if cServices c key \<noteq> None
     then Inl (Panic (''engine: duplicate service registration for key: '' @ key))
     else Inr (c\<lparr>cServices := (cServices c)(key \<mapsto> svc)\<rparr>))"

definition Resolve :: "string \<Rightarrow> 'w Container \<Rightarrow> 'w Service option" where
  "Resolve key c = cServices c key"

definition MustResolve :: "string \<Rightarrow> 'w Container \<Rightarrow> err + 'w Service" where
  "MustResolve key c = (case cServices c key of
       None \<Rightarrow> Inl (Panic (''engine: required service not registered: '' @ key))
     | Some s \<Rightarrow> Inr s)"

definition ResolveOrders :: "'w Container \<Rightarrow> err + 'w orderService" where
  "ResolveOrders c = (case MustResolve ''orders'' c of
       Inl p \<Rightarrow> Inl p
     | Inr (SOrders s) \<Rightarrow> Inr s
     | Inr _ \<Rightarrow> Inl (Panic ''interface conversion''))"

definition ResolveCatalogQuery :: "'w Container \<Rightarrow> err + unit" where
  "ResolveCatalogQuery c = (case MustResolve ''catalog.query'' c of
       Inl p \<Rightarrow> Inl p
     | Inr SPlain \<Rightarrow> Inr ()
     | Inr _ \<Rightarrow> Inl (Panic ''interface conversion''))"

section \<open>Modules\<close>

definition NewOrderService ::
  "'w OrderRepository \<Rightarrow> 'w bus \<Rightarrow> 'w OutboxRepository option \<Rightarrow>
   (('w, unit) io \<Rightarrow> ('w, unit) io) option \<Rightarrow> 'w orderService" where
  "NewOrderService repo bus ob tx = \<lparr>osRepo = repo, osBus = bus, osOutbox = ob, osTx = tx\<rparr>"

definition orders_Init :: "'w Container \<Rightarrow> err + 'w Container" where
  "orders_Init c =
     Provide ''orders'' (SOrders (NewOrderService (cOrderRepo c) (cEventBus c) (cOutbox c)
       (Some (cTxManager c)))) c"

definition orders_module :: "'w Container Module" where
  "orders_module = \<lparr>mName = ''orders'', mRequires = [''catalog''], mInit = orders_Init\<rparr>"

text \<open>The payment module; \<open>mk\<close> constructs a provider from its name and API key.\<close>

definition buildProvider ::
  "(string \<Rightarrow> string \<Rightarrow> 'w PaymentProvider) \<Rightarrow> string \<Rightarrow> string \<Rightarrow> err + 'w PaymentProvider" where
  "buildProvider mk name apiKey =
    (if name \<in> {''stripe'', ''paypal'', ''payhere''} then Inr (mk name apiKey)
     else Inl (ErrText (''unknown payment provider '' @ go_quote name @ ''; supported: stripe, paypal, payhere'')))"

record PaymentsModuleConfig =
  pcProvider :: string
  pcAPIKey :: string

definition payments_Init ::
  "(string \<Rightarrow> string \<Rightarrow> ('a env_scheme) PaymentProvider) \<Rightarrow> PaymentsModuleConfig \<Rightarrow>
   ('a env_scheme) Container \<Rightarrow> err + ('a env_scheme) Container" where
  "payments_Init mk cfg c = (case ResolveOrders c of
       Inl p \<Rightarrow> Inl p
     | Inr orderSvc \<Rightarrow> (case buildProvider mk (pcProvider cfg) (pcAPIKey cfg) of
         Inl e \<Rightarrow> Inl (Wrap ''payments module'' e)
       | Inr provider \<Rightarrow>
          (case NewPaymentService (cPaymentRepo c) (GetOrderAmountAndStatus orderSvc) [pcProvider cfg \<mapsto> provider]
                  (pcProvider cfg) (Some (cEventBus c)) (cOutbox c) of
             Inl e \<Rightarrow> Inl (Wrap ''payments module'' e)
           | Inr svc \<Rightarrow> Provide ''payments'' (SPayments svc) c)))"

definition payments_module ::
  "(string \<Rightarrow> string \<Rightarrow> ('a env_scheme) PaymentProvider) \<Rightarrow> PaymentsModuleConfig \<Rightarrow>
   ('a env_scheme) Container Module" where
  "payments_module mk cfg =
     \<lparr>mName = ''payments'', mRequires = [''orders''], mInit = payments_Init mk cfg\<rparr>"

definition shipping_Init :: "ShippingProviderConfig list \<Rightarrow> 'w Container \<Rightarrow> err + 'w Container" where
  "shipping_Init cfgs c = (case ResolveOrders c of
       Inl p \<Rightarrow> Inl p
     | Inr orderSvc \<Rightarrow> (case buildProviders cfgs of
         Inl e \<Rightarrow> Inl (Wrap ''shipping module'' e)
       | Inr provs \<Rightarrow> Provide ''shipping'' (SShipping (NewShipmentService (cShipmentRepo c) provs (cEventBus c)
           (cTxManager c) (cOutbox c))) c))"

definition shipping_module :: "ShippingProviderConfig list \<Rightarrow> 'w Container Module" where
  "shipping_module cfgs = \<lparr>mName = ''shipping'', mRequires = [''orders''], mInit = shipping_Init cfgs\<rparr>"

record InventoryFeatures =
  ftBulk :: bool
  ftHistory :: bool
  ftReservation :: bool
  ftReports :: bool
  ftTransfer :: bool
  ftAdjustment :: bool
  ftSync :: bool

text \<open>The services that a module registers one after another, each if its feature is on.\<close>

fun provide_all :: "(bool \<times> string \<times> 'w Service) list \<Rightarrow> 'w Container \<Rightarrow> err + 'w Container" where
  "provide_all [] c = Inr c"
| "provide_all ((b, k, s) # ps) c = (if b then
     (case Provide k s c of Inl p \<Rightarrow> Inl p | Inr c1 \<Rightarrow> provide_all ps c1) else provide_all ps c)"

definition inventory_services :: "InventoryFeatures \<Rightarrow> 'w Container \<Rightarrow> (bool \<times> string \<times> 'w Service) list" where
  "inventory_services ft c = (let svc = SInventory \<lparr>iv_outbox = cOutbox c, iv_bus = Some (cEventBus c)\<rparr> in
     [(True, ''inventory.core'', SPlain), (ftBulk ft, ''inventory.bulk'', SPlain),
      (ftHistory ft, ''inventory.history'', SPlain), (ftReservation ft, ''inventory.reservation'', svc),
      (ftReports ft, ''inventory.reports'', SPlain), (ftTransfer ft, ''inventory.transfer'', svc),
      (ftAdjustment ft, ''inventory.adjustment'', svc), (ftSync ft, ''inventory.sync'', svc)])"

definition inventory_Init :: "InventoryFeatures \<Rightarrow> 'w Container \<Rightarrow> err + 'w Container" where
  "inventory_Init ft c = provide_all (inventory_services ft c) c"

record CatalogFeatures =
  ctImages :: bool
  ctVariants :: bool
  ctDiscounts :: bool
  ctBulk :: bool
  ctReviews :: bool

definition catalog_services :: "CatalogFeatures \<Rightarrow> (bool \<times> string \<times> 'w Service) list" where
  "catalog_services ft = [(True, ''catalog.query'', SPlain), (True, ''catalog.command'', SPlain),
     (ctImages ft, ''catalog.images'', SPlain), (ctVariants ft, ''catalog.variants'', SPlain),
     (ctDiscounts ft, ''catalog.discounts'', SPlain), (ctBulk ft, ''catalog.bulk'', SPlain),
     (ctReviews ft, ''catalog.reviews'', SPlain)]"

definition catalog_Init :: "CatalogFeatures \<Rightarrow> 'w Container \<Rightarrow> err + 'w Container" where
  "catalog_Init ft c = provide_all (catalog_services ft) c"

definition catalog_module :: "CatalogFeatures \<Rightarrow> 'w Container Module" where
  "catalog_module ft = \<lparr>mName = ''catalog'', mRequires = [], mInit = catalog_Init ft\<rparr>"

definition cart_Init :: "'w Container \<Rightarrow> err + 'w Container" where
  "cart_Init c = (case ResolveCatalogQuery c of
       Inl p \<Rightarrow> Inl p
     | Inr _ \<Rightarrow> provide_all [(True, ''cart'', SPlain), (True, ''cart.merge'', SPlain)] c)"

definition cart_module :: "'w Container Module" where
  "cart_module = \<lparr>mName = ''cart'', mRequires = [''catalog''], mInit = cart_Init\<rparr>"

text \<open>These two read the container and register nothing.\<close>

definition notifications_module :: "'w Container Module" where
  "notifications_module = \<lparr>mName = ''notifications'', mRequires = [], mInit = Inr\<rparr>"

definition dashboard_module :: "'w Container Module" where
  "dashboard_module = \<lparr>mName = ''dashboard'', mRequires = [''orders'', ''inventory''], mInit = Inr\<rparr>"

definition inventory_module :: "InventoryFeatures \<Rightarrow> 'w Container Module" where
  "inventory_module ft = \<lparr>mName = ''inventory'', mRequires = [], mInit = inventory_Init ft\<rparr>"

section \<open>The registry\<close>

record ModulesConfig =
  enCatalog :: bool
  cfCatalog :: CatalogFeatures
  enInventory :: bool
  cfInventory :: InventoryFeatures
  enCart :: bool
  enOrders :: bool
  enPayments :: bool
  cfPayments :: PaymentsModuleConfig
  enShipping :: bool
  cfShipping :: "ShippingProviderConfig list"
  enNotifications :: bool
  enDashboard :: bool

definition IsModuleEnabled :: "ModulesConfig \<Rightarrow> string \<Rightarrow> bool" where
  "IsModuleEnabled cfg name =
    (if name = ''catalog'' then enCatalog cfg else if name = ''inventory'' then enInventory cfg
     else if name = ''cart'' then enCart cfg else if name = ''orders'' then enOrders cfg
     else if name = ''payments'' then enPayments cfg else if name = ''shipping'' then enShipping cfg
     else if name = ''notifications'' then enNotifications cfg
     else if name = ''dashboard'' then enDashboard cfg else False)"

definition factories ::
  "(string \<Rightarrow> string \<Rightarrow> ('a env_scheme) PaymentProvider) \<Rightarrow> ModulesConfig \<Rightarrow>
   (string \<times> ('a env_scheme) Container Module) list" where
  "factories mk cfg =
     [(''catalog'', catalog_module (cfCatalog cfg)), (''inventory'', inventory_module (cfInventory cfg)),
      (''cart'', cart_module), (''orders'', orders_module), (''payments'', payments_module mk (cfPayments cfg)),
      (''shipping'', shipping_module (cfShipping cfg)), (''notifications'', notifications_module),
      (''dashboard'', dashboard_module)]"

text \<open>\<open>Collect\<close> for the order \<open>fs\<close> in which Go visits the factories: the enabled modules, the names of the others.\<close>

definition Collect ::
  "(string \<times> 'm) list \<Rightarrow> ModulesConfig \<Rightarrow> 'm list \<times> string list" where
  "Collect fs cfg = (map snd (filter (\<lambda>f. IsModuleEnabled cfg (fst f)) fs),
     map fst (filter (\<lambda>f. \<not> IsModuleEnabled cfg (fst f)) fs))"

section \<open>Start and stop\<close>

text \<open>The loop that starts the modules; a nil module would be dereferenced.\<close>

fun init_modules :: "('c, 'm) Module_scheme option list \<Rightarrow> 'c \<Rightarrow> err + 'c" where
  "init_modules [] c = Inr c"
| "init_modules (None # ms) c = Inl (Panic ''invalid memory address or nil pointer dereference'')"
| "init_modules (Some m # ms) c = (case mInit m c of
       Inl e \<Rightarrow> Inl (if is_panic e then e else Wrap (''module '' @ go_quote (mName m) @ '' init'') e)
     | Inr c1 \<Rightarrow> init_modules ms c1)"

text \<open>
  \<open>NewEngine\<close>, less the construction of the infrastructure \<open>c0\<close>: the container gets the outbox of
  \<open>repos\<close> after the modules have started. The result is the order and the final container.
\<close>

definition NewEngine ::
  "string list \<Rightarrow> string list \<Rightarrow> 'w OutboxRepository \<Rightarrow> bool \<Rightarrow> ('w Container, 'm) Module_scheme list \<Rightarrow>
   'w Container \<Rightarrow> err + ('w Container, 'm) Module_scheme option list \<times> 'w Container" where
  "NewEngine ks ks' ob outbox_enabled active c0 = (case validateAndSort ks ks' active of
       Inl e \<Rightarrow> Inl (Wrap ''module wiring'' e)
     | Inr order \<Rightarrow> (case init_modules order c0 of
         Inl e \<Rightarrow> Inl e
       | Inr c1 \<Rightarrow> Inr (order, if outbox_enabled then c1\<lparr>cOutbox := Some ob\<rparr> else c1)))"

section \<open>Reaching the database\<close>

text \<open>
  \<open>connectWithRetry\<close>: the outcome of each attempt is a success, a failure, or a failure in whose
  pause the context ends. The result lists the pauses and how it ended; \<open>None\<close> if the outcomes ran
  out, so the loop is still running.
\<close>

datatype attempt = Connected | Refused | Refused_cancelled

record DBConfig =
  RetryMaxAttempts :: int
  RetryInitialDelay :: int
  RetryMaxDelay :: int

definition next_delay :: "int \<Rightarrow> int \<Rightarrow> int \<Rightarrow> int \<Rightarrow> int" where
  "next_delay maxAttempts maxDelay attempt delay =
    (if attempt < maxAttempts then (if wrap64 (delay * 2) > maxDelay then maxDelay else wrap64 (delay * 2))
     else maxDelay)"

fun retry_loop :: "int \<Rightarrow> int \<Rightarrow> int \<Rightarrow> int \<Rightarrow> attempt list \<Rightarrow> int list \<times> (err + unit) option" where
  "retry_loop maxAttempts maxDelay attempt delay [] = ([], None)"
| "retry_loop maxAttempts maxDelay attempt delay (Connected # os) = ([], Some (Inr ()))"
| "retry_loop maxAttempts maxDelay attempt delay (Refused_cancelled # os) =
    ([], Some (Inl (Wrap ''connection retry cancelled'' (ErrText ''context canceled''))))"
| "retry_loop maxAttempts maxDelay attempt delay (Refused # os) =
    (case retry_loop maxAttempts maxDelay (wrap64 (attempt + 1))
            (next_delay maxAttempts maxDelay attempt delay) os of
       (ds, r) \<Rightarrow> (delay # ds, r))"

definition connectWithRetry :: "DBConfig \<Rightarrow> attempt list \<Rightarrow> int list \<times> (err + unit) option" where
  "connectWithRetry cfg os = retry_loop
     (if RetryMaxAttempts cfg \<le> 0 then 1 else RetryMaxAttempts cfg)
     (if RetryMaxDelay cfg \<le> 0 then 30 * 1000000000 else RetryMaxDelay cfg) 1
     (if RetryInitialDelay cfg \<le> 0 then 1000000000 else RetryInitialDelay cfg) os"

section \<open>The contract of a module\<close>

fun service_outbox :: "'w Service \<Rightarrow> 'w OutboxRepository option" where
  "service_outbox (SOrders s) = osOutbox s"
| "service_outbox (SPayments s) = psOutbox s"
| "service_outbox (SShipping s) = ssOutbox s"
| "service_outbox (SInventory s) = iv_outbox s"
| "service_outbox SPlain = None"

text \<open>The type assertions of the resolve helpers succeed.\<close>

definition typed_services :: "(string \<rightharpoonup> 'w Service) \<Rightarrow> bool" where
  "typed_services f \<longleftrightarrow> (\<forall>s. f ''orders'' = Some s \<longrightarrow> (\<exists>x. s = SOrders x)) \<and>
     (\<forall>s. f ''catalog.query'' = Some s \<longrightarrow> s = SPlain)"

text \<open>
  What the engine may expect of a module: once the services it needs are there and none of its own
  keys is taken, it starts, adds services under its own keys, the promised ones among them, and
  builds each with the container's outbox at that moment; with a bad configuration it reports an
  ordinary error.
\<close>

locale engine_module =
  fixes m :: "('w Container, 'm) Module_scheme" and keys needs exports :: "string set" and ok :: bool
  assumes started: "ok \<Longrightarrow> typed_services (cServices c) \<Longrightarrow> dom (cServices c) \<inter> keys = {} \<Longrightarrow>
      needs \<subseteq> dom (cServices c) \<Longrightarrow>
      \<exists>new. mInit m c = Inr (c\<lparr>cServices := cServices c ++ new\<rparr>) \<and> dom new \<subseteq> keys \<and> exports \<subseteq> dom new \<and>
        typed_services new \<and> (\<forall>s\<in>ran new. service_outbox s = None \<or> service_outbox s = cOutbox c)"
    and refused: "\<not> ok \<Longrightarrow> typed_services (cServices c) \<Longrightarrow> dom (cServices c) \<inter> keys = {} \<Longrightarrow>
      needs \<subseteq> dom (cServices c) \<Longrightarrow> \<exists>e. mInit m c = Inl e \<and> \<not> is_panic e"
begin

lemma keeps_typed:
  assumes "ok" "typed_services (cServices c)" "dom (cServices c) \<inter> keys = {}" "needs \<subseteq> dom (cServices c)"
    and "mInit m c = Inr c'"
  shows "typed_services (cServices c')"
proof -
  obtain new where "mInit m c = Inr (c\<lparr>cServices := cServices c ++ new\<rparr>)" "typed_services new"
    using started [OF assms(1-4)] by blast
  with assms(2,5) show ?thesis by (auto simp: typed_services_def map_add_def split: option.splits)
qed

end

definition keys_of :: "string \<Rightarrow> string set" where
  "keys_of n =
    (if n = ''catalog'' then {''catalog.query'', ''catalog.command'', ''catalog.images'', ''catalog.variants'',
       ''catalog.discounts'', ''catalog.bulk'', ''catalog.reviews''}
     else if n = ''inventory'' then {''inventory.core'', ''inventory.bulk'', ''inventory.history'',
       ''inventory.reservation'', ''inventory.reports'', ''inventory.transfer'', ''inventory.adjustment'', ''inventory.sync''}
     else if n = ''cart'' then {''cart'', ''cart.merge''}
     else if n \<in> {''orders'', ''payments'', ''shipping''} then {n} else {})"

definition needs_of :: "string \<Rightarrow> string set" where
  "needs_of n = (if n = ''cart'' then {''catalog.query''}
     else if n \<in> {''payments'', ''shipping''} then {''orders''} else {})"

definition exports_of :: "string \<Rightarrow> string set" where
  "exports_of n = (if n = ''catalog'' then {''catalog.query''} else if n = ''orders'' then {''orders''} else {})"

definition provided :: "(bool \<times> string \<times> 'w Service) list \<Rightarrow> (string \<times> 'w Service) list" where
  "provided ps = map snd (filter fst ps)"

lemma provided_simps [simp]:
  "provided [] = []" "provided ((b, k, s) # ps) = (if b then (k, s) # provided ps else provided ps)"
  by (simp_all add: provided_def)

lemma provide_all_ok:
  assumes "distinct (map (fst \<circ> snd) ps)" "dom (cServices c) \<inter> (fst \<circ> snd) ` set ps = {}"
  shows "provide_all ps c = Inr (c\<lparr>cServices := cServices c ++ map_of (provided ps)\<rparr>)"
  using assms
proof (induction ps c rule: provide_all.induct)
  case (1 c)
  then show ?case by simp
next
  case (2 b k s ps c)
  show ?case
  proof (cases b)
    case False
    with 2 show ?thesis by auto
  next
    case True
    let ?c = "c\<lparr>cServices := (cServices c)(k \<mapsto> s)\<rparr>"
    have k: "Provide k s c = Inr ?c" using 2(4) by (auto simp: Provide_def)
    have "k \<notin> fst ` set (provided ps)" using 2(3) by (auto simp: provided_def image_iff)
    then have "map_of (provided ps) k = None" by (simp add: map_of_eq_None_iff)
    then have "(cServices c)(k \<mapsto> s) ++ map_of (provided ps) = cServices c ++ (map_of (provided ps))(k \<mapsto> s)"
      by (auto simp: map_add_def fun_eq_iff split: option.splits)
    moreover have "dom (cServices ?c) \<inter> (fst \<circ> snd) ` set ps = {}" using 2(3,4) by auto
    ultimately show ?thesis using 2(1) [OF True k] 2(3) True k by (simp del: fun_upd_apply)
  qed
qed

text \<open>A module that only registers services meets the contract.\<close>

lemma provided_set: "(k, s) \<in> set (provided ps) \<longleftrightarrow> (True, k, s) \<in> set ps"
  by (force simp: provided_def)

lemma engine_module_provides:
  fixes m :: "('w Container, 'm) Module_scheme" and ps :: "'w Container \<Rightarrow> (bool \<times> string \<times> 'w Service) list"
  assumes run: "\<And>c. typed_services (cServices c) \<Longrightarrow> needs \<subseteq> dom (cServices c) \<Longrightarrow> mInit m c = provide_all (ps c) c"
    and "\<And>c. distinct (map (fst \<circ> snd) (ps c)) \<and> (fst \<circ> snd) ` set (ps c) \<subseteq> keys"
    and "\<And>c k. k \<in> exports \<Longrightarrow> \<exists>s. (True, k, s) \<in> set (ps c)"
    and "\<And>c b k s. (b, k, s) \<in> set (ps c) \<Longrightarrow> (k = ''orders'' \<longrightarrow> (\<exists>x. s = SOrders x)) \<and>
      (k = ''catalog.query'' \<longrightarrow> s = SPlain) \<and> (service_outbox s = None \<or> service_outbox s = cOutbox c)"
  shows "engine_module m keys needs exports True"
proof
  fix c :: "'w Container"
  let ?new = "map_of (provided (ps c))"
  assume c: "typed_services (cServices c)" "dom (cServices c) \<inter> keys = {}" "needs \<subseteq> dom (cServices c)"
  have started: "mInit m c = Inr (c\<lparr>cServices := cServices c ++ ?new\<rparr>)"
    unfolding run [OF c(1,3)] using assms(2) [of c] c(2) by (intro provide_all_ok) blast+
  have member: "(True, k, s) \<in> set (ps c)" if "?new k = Some s" for k s
    using map_of_SomeD [OF that] by (simp add: provided_set)
  have "dom ?new = {k. \<exists>s. (True, k, s) \<in> set (ps c)}"
    by (force simp: dom_map_of_conv_image_fst provided_set [symmetric])
  moreover have "k \<in> keys" if "(True, k, s) \<in> set (ps c)" for k s
    using assms(2) [of c] imageI [OF that, of "fst \<circ> snd"] by auto
  ultimately have "dom ?new \<subseteq> keys" "exports \<subseteq> dom ?new" using assms(3) [where c = c] by blast+
  moreover note good = assms(4) [OF member]
  have "typed_services ?new" unfolding typed_services_def using good by blast
  moreover have "\<forall>s\<in>ran ?new. service_outbox s = None \<or> service_outbox s = cOutbox c"
    unfolding ran_def using good by blast
  ultimately show "\<exists>new. mInit m c = Inr (c\<lparr>cServices := cServices c ++ new\<rparr>) \<and> dom new \<subseteq> keys \<and>
      exports \<subseteq> dom new \<and> typed_services new \<and> (\<forall>s\<in>ran new. service_outbox s = None \<or> service_outbox s = cOutbox c)"
    using started by blast
qed simp

interpretation catalog: engine_module "catalog_module ft" "keys_of ''catalog''" "needs_of ''catalog''"
  "exports_of ''catalog''" True
  by (rule engine_module_provides [where ps = "\<lambda>_. catalog_services ft"])
    (auto simp: catalog_module_def catalog_Init_def catalog_services_def keys_of_def exports_of_def)

interpretation inventory: engine_module "inventory_module ft" "keys_of ''inventory''" "needs_of ''inventory''"
  "exports_of ''inventory''" True
  by (rule engine_module_provides [where ps = "inventory_services ft"])
    (auto simp: inventory_module_def inventory_Init_def inventory_services_def Let_def keys_of_def exports_of_def)

lemma ResolveCatalogQuery_ok:
  "typed_services (cServices c) \<Longrightarrow> {''catalog.query''} \<subseteq> dom (cServices c) \<Longrightarrow> ResolveCatalogQuery c = Inr ()"
  by (auto simp: ResolveCatalogQuery_def MustResolve_def typed_services_def)

lemma ResolveOrders_ok:
  "typed_services (cServices c) \<Longrightarrow> {''orders''} \<subseteq> dom (cServices c) \<Longrightarrow> \<exists>s. ResolveOrders c = Inr s"
  by (auto simp: ResolveOrders_def MustResolve_def typed_services_def)

interpretation cart: engine_module cart_module "keys_of ''cart''" "needs_of ''cart''" "exports_of ''cart''" True
  by (rule engine_module_provides [where ps = "\<lambda>_. [(True, ''cart'', SPlain), (True, ''cart.merge'', SPlain)]"])
    (auto simp: cart_module_def cart_Init_def ResolveCatalogQuery_ok keys_of_def needs_of_def exports_of_def)

interpretation orders: engine_module orders_module "keys_of ''orders''" "needs_of ''orders''" "exports_of ''orders''" True
  by (rule engine_module_provides [where ps = "\<lambda>c. [(True, ''orders'',
        SOrders (NewOrderService (cOrderRepo c) (cEventBus c) (cOutbox c) (Some (cTxManager c))))]"])
    (auto simp: orders_module_def orders_Init_def keys_of_def exports_of_def NewOrderService_def split: sum.splits)

interpretation notifications: engine_module notifications_module "keys_of ''notifications''"
  "needs_of ''notifications''" "exports_of ''notifications''" True
  by (rule engine_module_provides [where ps = "\<lambda>_. []"])
    (auto simp: notifications_module_def exports_of_def)

interpretation dashboard: engine_module dashboard_module "keys_of ''dashboard''"
  "needs_of ''dashboard''" "exports_of ''dashboard''" True
  by (rule engine_module_provides [where ps = "\<lambda>_. []"])
    (auto simp: dashboard_module_def exports_of_def)

text \<open>The two modules whose configuration can be wrong.\<close>

lemma engine_module_one:
  fixes m :: "('w Container, 'm) Module_scheme"
  assumes "\<And>c. typed_services (cServices c) \<Longrightarrow> needs \<subseteq> dom (cServices c) \<Longrightarrow> ok \<Longrightarrow>
      \<exists>svc. service_outbox svc = cOutbox c \<and> mInit m c = Provide key svc c"
    and "\<And>c. typed_services (cServices c) \<Longrightarrow> needs \<subseteq> dom (cServices c) \<Longrightarrow> \<not> ok \<Longrightarrow>
      \<exists>e. mInit m c = Inl e \<and> \<not> is_panic e"
    and "key \<noteq> ''orders''" "key \<noteq> ''catalog.query''"
  shows "engine_module m {key} needs {} ok"
proof
  fix c :: "'w Container"
  assume c: "typed_services (cServices c)" "dom (cServices c) \<inter> {key} = {}" "needs \<subseteq> dom (cServices c)"
  show "\<exists>new. mInit m c = Inr (c\<lparr>cServices := cServices c ++ new\<rparr>) \<and> dom new \<subseteq> {key} \<and> {} \<subseteq> dom new \<and>
      typed_services new \<and> (\<forall>s\<in>ran new. service_outbox s = None \<or> service_outbox s = cOutbox c)" if ok: ok
  proof -
    obtain svc where "service_outbox svc = cOutbox c" "mInit m c = Provide key svc c"
      using assms(1) [OF c(1,3) ok] by blast
    moreover have "Provide key svc c = Inr (c\<lparr>cServices := cServices c ++ [key \<mapsto> svc]\<rparr>)"
      using c(2) by (auto simp: Provide_def)
    ultimately show ?thesis using assms(3,4) by (intro exI [of _ "[key \<mapsto> svc]"]) (simp add: typed_services_def)
  qed
  show "\<exists>e. mInit m c = Inl e \<and> \<not> is_panic e" if "\<not> ok" using assms(2) [OF c(1,3) that] .
qed

interpretation payments: engine_module "payments_module mk cfg" "{''payments''}" "{''orders''}" "{}"
  "pcProvider cfg \<in> {''stripe'', ''paypal'', ''payhere''}"
proof (rule engine_module_one)
  fix c :: "('a env_scheme) Container"
  assume c: "typed_services (cServices c)" "{''orders''} \<subseteq> dom (cServices c)"
  obtain s where s: "ResolveOrders c = Inr s" using ResolveOrders_ok [OF c] by blast
  show "\<exists>svc. service_outbox svc = cOutbox c \<and> mInit (payments_module mk cfg) c = Provide ''payments'' svc c"
    if "pcProvider cfg \<in> {''stripe'', ''paypal'', ''payhere''}"
    using that s by (intro exI [of _ "SPayments \<lparr>psRepo = cPaymentRepo c, psGetOrder = GetOrderAmountAndStatus s,
        psProviders = [pcProvider cfg \<mapsto> mk (pcProvider cfg) (pcAPIKey cfg)], psDefaultProv = pcProvider cfg,
        psBus = Some (cEventBus c), psOutbox = cOutbox c\<rparr>"])
      (auto simp: payments_module_def payments_Init_def buildProvider_def NewPaymentService_def)
  show "\<exists>e. mInit (payments_module mk cfg) c = Inl e \<and> \<not> is_panic e"
    if "pcProvider cfg \<notin> {''stripe'', ''paypal'', ''payhere''}"
    using that s by (auto simp: payments_module_def payments_Init_def buildProvider_def)
qed simp_all

interpretation shipping: engine_module "shipping_module cfgs" "{''shipping''}" "{''orders''}" "{}"
  "\<not> isl (buildProviders cfgs)"
proof (rule engine_module_one)
  fix c :: "'a Container"
  assume c: "typed_services (cServices c)" "{''orders''} \<subseteq> dom (cServices c)"
  obtain s where s: "ResolveOrders c = Inr s" using ResolveOrders_ok [OF c] by blast
  show "\<exists>svc. service_outbox svc = cOutbox c \<and> mInit (shipping_module cfgs) c = Provide ''shipping'' svc c"
    if "\<not> isl (buildProviders cfgs)"
    using that s by (intro exI [of _ "SShipping (NewShipmentService (cShipmentRepo c) (projr (buildProviders cfgs))
        (cEventBus c) (cTxManager c) (cOutbox c))"])
      (auto simp: shipping_module_def shipping_Init_def NewShipmentService_def split: sum.splits)
  show "\<exists>e. mInit (shipping_module cfgs) c = Inl e \<and> \<not> is_panic e" if "\<not> \<not> isl (buildProviders cfgs)"
    using that s by (auto simp: shipping_module_def shipping_Init_def split: sum.splits)
qed simp_all

end
