(* ===== verification/LocalBus.thy ===== *)
theory LocalBus
  imports Events "HOL-Library.Multiset"
begin

text \<open>
  \<open>LocalEventBus\<close> (\<open>internal/events/bus.go\<close>): subscription, asynchronous delivery with retry
  and exponential backoff, the bounded dead letter queue, and shutdown. A goroutine started by
  \<open>Publish\<close> is a task; one step of the system runs one attempt of any pending task, so every
  interleaving of the deliveries is a run of \<open>bus_step\<close>. Handlers are functions on the world;
  a panicking handler returns \<open>Inl (Panic _)\<close>. Logging and metrics are left out, as is the
  error callback, which by default only logs.
\<close>

type_synonym 'w handler = "event \<Rightarrow> ('w, unit) io"

record 'w bus_state =
  subscribers :: "string \<Rightarrow> 'w handler list"
  bclosed :: bool
  dlq :: "event list"
  dlq_cap :: nat
  dlq_closed :: bool
  maxRetries :: int
  initialBackoff :: int
  maxBackoff :: int

definition NewLocalEventBusWithConfig :: "int \<Rightarrow> int \<Rightarrow> int \<Rightarrow> int \<Rightarrow> 'w bus_state" where
  "NewLocalEventBusWithConfig dlqBufferSize retries ib mb =
     \<lparr>subscribers = (\<lambda>_. []), bclosed = False, dlq = [],
      dlq_cap = nat (if dlqBufferSize \<le> 0 then 100 else dlqBufferSize), dlq_closed = False,
      maxRetries = (if retries \<le> 0 then 3 else retries),
      initialBackoff = (if ib \<le> 0 then 50000000 else ib),
      maxBackoff = (if mb \<le> 0 then 2000000000 else mb)\<rparr>"

definition Subscribe :: "string \<Rightarrow> 'w handler \<Rightarrow> 'w bus_state \<Rightarrow> 'w bus_state" where
  "Subscribe topic h b = (if bclosed b then b
     else b\<lparr>subscribers := (subscribers b)(topic := subscribers b topic @ [h])\<rparr>)"

text \<open>A delivery goroutine: its handler, its event, the attempt it makes next and its backoff.\<close>

record 'w task =
  t_handler :: "'w handler"
  t_event :: event
  t_attempt :: int
  t_backoff :: int

text \<open>\<open>Publish\<close>: the goroutines it starts.\<close>

definition Publish :: "event \<Rightarrow> 'w bus_state \<Rightarrow> 'w task list" where
  "Publish e b = (if bclosed b then []
     else map (\<lambda>h. \<lparr>t_handler = h, t_event = e, t_attempt = 1, t_backoff = initialBackoff b\<rparr>)
            (subscribers b (evTopic e)))"

text \<open>\<open>PublishCtx\<close>: a context that is done or a closed bus is an error; \<open>ctx\<close> is the error of the context.\<close>

definition ErrBusClosed :: err where [go_defs]: "ErrBusClosed = Sentinel ''events'' ''event bus is closed''"

definition PublishCtx :: "err option \<Rightarrow> event \<Rightarrow> 'w bus_state \<Rightarrow> err option \<times> 'w task list" where
  "PublishCtx ctx e b = (case ctx of
       Some x \<Rightarrow> (Some x, [])
     | None \<Rightarrow> if bclosed b then (Some ErrBusClosed, []) else (None, Publish e b))"

text \<open>\<open>executeHandler\<close> turns a panic of the handler into an error.\<close>

definition executeHandler :: "'w handler \<Rightarrow> event \<Rightarrow> ('w, unit) io" where
  "executeHandler h e w = (case h e w of
       (Inl (Panic m), w1) \<Rightarrow> (Inl (ErrText (''panic: '' @ m)), w1)
     | r \<Rightarrow> r)"

text \<open>\<open>sendToDLQ\<close>: a non-blocking send, dropped when the buffer is full.\<close>

definition sendToDLQ :: "event \<Rightarrow> 'w bus_state \<Rightarrow> 'w bus_state" where
  "sendToDLQ e b = (if length (dlq b) < dlq_cap b then b\<lparr>dlq := dlq b @ [e]\<rparr> else b)"

definition sleep :: "int \<Rightarrow> 'a env_scheme \<Rightarrow> 'a env_scheme" where
  "sleep d w = w\<lparr>clock := clock w + max 0 d\<rparr>"

definition next_backoff :: "'w bus_state \<Rightarrow> int \<Rightarrow> int" where
  "next_backoff b d = (let d2 = wrap64 (d * 2) in if d2 > maxBackoff b then maxBackoff b else d2)"

text \<open>One turn of the retry loop; \<open>None\<close> when the goroutine is finished.\<close>

definition attempt_task ::
  "'a env_scheme task \<Rightarrow> 'a env_scheme bus_state \<times> 'a env_scheme \<Rightarrow>
   'a env_scheme task option \<times> 'a env_scheme bus_state \<times> 'a env_scheme" where
  "attempt_task t s = (case s of (b, w) \<Rightarrow>
     (case executeHandler (t_handler t) (t_event t) w of
        (Inr _, w1) \<Rightarrow> (None, b, w1)
      | (Inl err, w1) \<Rightarrow>
          if t_attempt t < maxRetries b
          then (Some (t\<lparr>t_attempt := t_attempt t + 1, t_backoff := next_backoff b (t_backoff t)\<rparr>),
                b, sleep (t_backoff t) w1)
          else (None, sendToDLQ (t_event t) b, w1)))"

lemma attempt_task_Some:
  "attempt_task t (b, w) = (Some t1, b1, w1) \<Longrightarrow>
     b1 = b \<and> t_attempt t < maxRetries b \<and> t_attempt t1 = t_attempt t + 1 \<and>
     t_event t1 = t_event t \<and> t_handler t1 = t_handler t"
  by (auto simp: attempt_task_def split: prod.splits sum.splits if_splits)

text \<open>\<open>invokeHandlerWithRetry\<close> on its own, with no other goroutine in between.\<close>

function invokeHandlerWithRetry ::
  "'a env_scheme task \<Rightarrow> 'a env_scheme bus_state \<times> 'a env_scheme \<Rightarrow>
   'a env_scheme bus_state \<times> 'a env_scheme" where
  "invokeHandlerWithRetry t s = (case attempt_task t s of
       (None, s1) \<Rightarrow> s1
     | (Some t1, s1) \<Rightarrow> invokeHandlerWithRetry t1 s1)"
  by pat_completeness auto
termination
  by (relation "measure (\<lambda>(t, b, w). nat (maxRetries b - t_attempt t))")
    (auto dest!: attempt_task_Some [OF sym])

declare invokeHandlerWithRetry.simps [simp del]

section \<open>All interleavings\<close>

record 'w bus_sys =
  s_bus :: "'w bus_state"
  s_pending :: "'w task list"
  s_world :: 'w

datatype bus_lbl =
    LSubscribe
  | LPublish event nat \<comment> \<open>event and number of goroutines started\<close>
  | LDelivered event
  | LRetry event
  | LDead event \<comment> \<open>put in the dead letter queue\<close>
  | LDropped event \<comment> \<open>dead letter queue full\<close>
  | LDrain \<comment> \<open>a reader takes an event from the dead letter queue\<close>
  | LCloseBegin
  | LCloseEnd

definition outcome :: "'w bus_state \<Rightarrow> event \<Rightarrow> (err + unit) \<Rightarrow> bus_lbl" where
  "outcome b e r = (if isl r then (if length (dlq b) < dlq_cap b then LDead e else LDropped e)
     else LDelivered e)"

inductive bus_step ::
  "'a env_scheme bus_sys \<Rightarrow> bus_lbl \<Rightarrow> 'a env_scheme bus_sys \<Rightarrow> bool" where
  subscribe: "bus_step s LSubscribe (s\<lparr>s_bus := Subscribe topic h (s_bus s)\<rparr>)"
| publish: "ts = Publish e (s_bus s) \<Longrightarrow>
    bus_step s (LPublish e (length ts)) (s\<lparr>s_pending := s_pending s @ ts\<rparr>)"
| retry: "s_pending s = xs @ t # ys \<Longrightarrow>
    attempt_task t (s_bus s, s_world s) = (Some t1, b1, w1) \<Longrightarrow>
    bus_step s (LRetry (t_event t)) (s\<lparr>s_bus := b1, s_pending := xs @ t1 # ys, s_world := w1\<rparr>)"
| finish: "s_pending s = xs @ t # ys \<Longrightarrow>
    attempt_task t (s_bus s, s_world s) = (None, b1, w1) \<Longrightarrow>
    l = outcome (s_bus s) (t_event t)
          (fst (executeHandler (t_handler t) (t_event t) (s_world s))) \<Longrightarrow>
    bus_step s l (s\<lparr>s_bus := b1, s_pending := xs @ ys, s_world := w1\<rparr>)"
| drain: "dlq (s_bus s) = e # es \<Longrightarrow>
    bus_step s LDrain (s\<lparr>s_bus := (s_bus s)\<lparr>dlq := es\<rparr>\<rparr>)"
| close_begin: "\<not> bclosed (s_bus s) \<Longrightarrow>
    bus_step s LCloseBegin (s\<lparr>s_bus := (s_bus s)\<lparr>bclosed := True\<rparr>\<rparr>)"
| close_end: "bclosed (s_bus s) \<Longrightarrow> \<not> dlq_closed (s_bus s) \<Longrightarrow> s_pending s = [] \<Longrightarrow>
    bus_step s LCloseEnd (s\<lparr>s_bus := (s_bus s)\<lparr>dlq_closed := True\<rparr>\<rparr>)"

inductive bus_run ::
  "'a env_scheme bus_sys \<Rightarrow> bus_lbl list \<Rightarrow> 'a env_scheme bus_sys \<Rightarrow> bool" where
  start: "bus_run s [] s"
| more: "bus_run s ls s1 \<Longrightarrow> bus_step s1 l s2 \<Longrightarrow> bus_run s (ls @ [l]) s2"

inductive_cases bus_stepE: "bus_step s l s'"

section \<open>Accounting of deliveries\<close>

fun scheduled :: "event \<Rightarrow> bus_lbl list \<Rightarrow> nat" where
  "scheduled e [] = 0"
| "scheduled e (LPublish e1 n # ls) = (if e1 = e then n else 0) + scheduled e ls"
| "scheduled e (_ # ls) = scheduled e ls"

fun settled :: "event \<Rightarrow> bus_lbl list \<Rightarrow> nat" where
  "settled e [] = 0"
| "settled e (LDelivered e1 # ls) = (if e1 = e then 1 else 0) + settled e ls"
| "settled e (LDead e1 # ls) = (if e1 = e then 1 else 0) + settled e ls"
| "settled e (LDropped e1 # ls) = (if e1 = e then 1 else 0) + settled e ls"
| "settled e (_ # ls) = settled e ls"

definition in_flight :: "event \<Rightarrow> 'w bus_sys \<Rightarrow> nat" where
  "in_flight e s = length (filter (\<lambda>t. t_event t = e) (s_pending s))"

lemma scheduled_append: "scheduled e (xs @ ys) = scheduled e xs + scheduled e ys"
  by (induction e xs rule: scheduled.induct) auto

lemma settled_append: "settled e (xs @ ys) = settled e xs + settled e ys"
  by (induction e xs rule: settled.induct) auto

lemma step_accounting:
  "bus_step s l s' \<Longrightarrow> in_flight e s + scheduled e [l] = in_flight e s' + settled e [l]"
proof (induction rule: bus_step.induct)
  case (publish ts ev s)
  then show ?case by (auto simp: in_flight_def Publish_def filter_map o_def)
next
  case (retry s xs t ys t1 b1 w1)
  then show ?case by (auto simp: in_flight_def dest!: attempt_task_Some)
next
  case (finish s xs t ys b1 w1 l)
  then show ?case by (auto simp: in_flight_def outcome_def)
qed (auto simp: in_flight_def)

definition bus_wf :: "'w bus_sys \<Rightarrow> bool" where
  "bus_wf s \<longleftrightarrow> (dlq_closed (s_bus s) \<longrightarrow> bclosed (s_bus s) \<and> s_pending s = []) \<and>
     length (dlq (s_bus s)) \<le> dlq_cap (s_bus s) \<and> 1 \<le> maxRetries (s_bus s) \<and>
     (\<forall>t\<in>set (s_pending s). 1 \<le> t_attempt t \<and> t_attempt t \<le> maxRetries (s_bus s))"

lemma attempt_task_None:
  "attempt_task t (b, w) = (None, b1, w1) \<Longrightarrow> b1 = b \<or> b1 = sendToDLQ (t_event t) b"
  by (auto simp: attempt_task_def split: prod.splits sum.splits if_splits)

lemma sendToDLQ_frame [simp]:
  "subscribers (sendToDLQ e b) = subscribers b" "bclosed (sendToDLQ e b) = bclosed b"
  "dlq_closed (sendToDLQ e b) = dlq_closed b" "dlq_cap (sendToDLQ e b) = dlq_cap b"
  "maxRetries (sendToDLQ e b) = maxRetries b"
  by (simp_all add: sendToDLQ_def)

lemma sendToDLQ_bound: "length (dlq b) \<le> dlq_cap b \<Longrightarrow> length (dlq (sendToDLQ e b)) \<le> dlq_cap b"
  by (simp add: sendToDLQ_def)

lemma bus_wf_step: "bus_step s l s' \<Longrightarrow> bus_wf s \<Longrightarrow> bus_wf s'"
proof (induction rule: bus_step.induct)
  case (subscribe s topic h)
  then show ?case by (auto simp: bus_wf_def Subscribe_def)
next
  case (publish ts e s)
  then show ?case by (auto simp: bus_wf_def Publish_def)
next
  case (retry s xs t ys t1 b1 w1)
  then show ?case by (auto simp: bus_wf_def dest!: attempt_task_Some)
next
  case (finish s xs t ys b1 w1 l)
  from attempt_task_None [OF finish.hyps(2)] finish.prems finish.hyps(1) show ?case
    by (auto simp: bus_wf_def sendToDLQ_bound)
qed (auto simp: bus_wf_def)

lemma bus_run_wf: "bus_run s ls s' \<Longrightarrow> bus_wf s \<Longrightarrow> bus_wf s'"
  by (induction rule: bus_run.induct) (auto intro: bus_wf_step)

lemma bus_run_accounting:
  "bus_run s ls s' \<Longrightarrow> in_flight e s + scheduled e ls = in_flight e s' + settled e ls"
proof (induction rule: bus_run.induct)
  case (more s ls s1 l s2)
  from more.IH step_accounting [OF more.hyps(2), of e] show ?case
    by (simp add: scheduled_append settled_append)
qed simp

definition bus_init :: "int \<Rightarrow> int \<Rightarrow> int \<Rightarrow> int \<Rightarrow> 'w \<Rightarrow> 'w bus_sys" where
  "bus_init n r ib mb w = \<lparr>s_bus = NewLocalEventBusWithConfig n r ib mb, s_pending = [], s_world = w\<rparr>"

lemma bus_wf_init: "bus_wf (bus_init n r ib mb w)"
  by (simp add: bus_wf_def bus_init_def NewLocalEventBusWithConfig_def)

section \<open>The retry loop\<close>

text \<open>
  A handler that fails at every call and does not move the clock: the loop sleeps before each
  retry, doubling up to the cap.
\<close>

fun total_backoff :: "int \<Rightarrow> int \<Rightarrow> nat \<Rightarrow> int" where
  "total_backoff mb d 0 = 0"
| "total_backoff mb d (Suc n) = d + total_backoff mb (min (2 * d) mb) n"

lemma next_backoff_min:
  "0 < d \<Longrightarrow> d \<le> maxBackoff b \<Longrightarrow> maxBackoff b < 2 ^ 62 \<Longrightarrow> next_backoff b d = min (2 * d) (maxBackoff b)"
  by (simp add: next_backoff_def i64_def Let_def min_def mult.commute)

lemma total_backoff_closed:
  "0 < d \<Longrightarrow> d \<le> mb \<Longrightarrow> total_backoff mb d n = (\<Sum>k<n. min (d * 2 ^ k) mb)"
proof (induction n arbitrary: d)
  case (Suc n)
  have "min (min (2 * d) mb * 2 ^ k) mb = min (d * 2 ^ Suc k) mb" for k
  proof (cases "2 * d \<le> mb")
    case False
    have "mb * 1 \<le> mb * 2 ^ k" "2 * d * 1 \<le> 2 * d * 2 ^ k"
      using Suc.prems by (intro mult_left_mono; simp)+
    with False show ?thesis by (simp add: min_def algebra_simps)
  qed (simp add: algebra_simps)
  then have "total_backoff mb d (Suc n) = d + (\<Sum>k<n. min (d * 2 ^ Suc k) mb)"
    using Suc by (simp add: min_def)
  also have "\<dots> = (\<Sum>k<Suc n. min (d * 2 ^ k) mb)"
    using Suc.prems by (simp add: sum.lessThan_Suc_shift del: sum.lessThan_Suc)
  finally show ?case .
qed simp

text \<open>The world after \<open>n + 1\<close> calls of a handler that fails each time, with \<open>n\<close> sleeps.\<close>

fun fail_run :: "int \<Rightarrow> 'a env_scheme handler \<Rightarrow> event \<Rightarrow> int \<Rightarrow> nat \<Rightarrow> 'a env_scheme \<Rightarrow> 'a env_scheme" where
  "fail_run mb h ev d 0 w = snd (h ev w)"
| "fail_run mb h ev d (Suc n) w = fail_run mb h ev (min (2 * d) mb) n (sleep d (snd (h ev w)))"

lemma fail_run_clock:
  "(\<And>w. clock (snd (h ev w)) = clock w) \<Longrightarrow> 0 < d \<Longrightarrow> d \<le> mb \<Longrightarrow>
   clock (fail_run mb h ev d n w) = clock w + total_backoff mb d n"
  by (induction n arbitrary: d w) (simp_all add: sleep_def)

lemma executeHandler_fails:
  "isl (fst (h ev w)) \<Longrightarrow> \<exists>e. executeHandler h ev w = (Inl e, snd (h ev w))"
  by (cases "h ev w") (auto simp: executeHandler_def isl_def split: err.splits)

lemma invoke_failing:
  assumes fails: "\<And>w. isl (fst (h ev w))" and cap: "maxBackoff b < 2 ^ 62"
  shows "0 < d \<Longrightarrow> d \<le> maxBackoff b \<Longrightarrow> maxRetries b - a = int n \<Longrightarrow>
    invokeHandlerWithRetry \<lparr>t_handler = h, t_event = ev, t_attempt = a, t_backoff = d\<rparr> (b, w) =
      (sendToDLQ ev b, fail_run (maxBackoff b) h ev d n w)"
proof (induction n arbitrary: a d w)
  case 0
  obtain e where "executeHandler h ev w = (Inl e, snd (h ev w))"
    using executeHandler_fails [of h ev w] fails by blast
  with 0 show ?case by (subst invokeHandlerWithRetry.simps) (simp add: attempt_task_def)
next
  case (Suc n)
  obtain e where e: "executeHandler h ev w = (Inl e, snd (h ev w))"
    using executeHandler_fails [of h ev w] fails by blast
  let ?d = "min (2 * d) (maxBackoff b)"
  have "attempt_task \<lparr>t_handler = h, t_event = ev, t_attempt = a, t_backoff = d\<rparr> (b, w) =
      (Some \<lparr>t_handler = h, t_event = ev, t_attempt = a + 1, t_backoff = ?d\<rparr>, b, sleep d (snd (h ev w)))"
    using e Suc.prems cap by (simp add: attempt_task_def next_backoff_min)
  then show ?case
    using Suc.IH [of ?d "a + 1"] Suc.prems by (subst invokeHandlerWithRetry.simps) simp
qed

text \<open>Running one goroutine to its end is a run of the interleaved system.\<close>

lemma invoke_is_run:
  "s_pending s = [t] \<Longrightarrow> invokeHandlerWithRetry t (s_bus s, s_world s) = (b1, w1) \<Longrightarrow> bus_run s0 ls0 s \<Longrightarrow>
   \<exists>ls. bus_run s0 (ls0 @ ls) (s\<lparr>s_bus := b1, s_pending := [], s_world := w1\<rparr>)"
proof (induction t "(s_bus s, s_world s)" arbitrary: s ls0 rule: invokeHandlerWithRetry.induct)
  case (1 t)
  obtain o1 b2 w2 where a: "attempt_task t (s_bus s, s_world s) = (o1, b2, w2)"
    by (metis prod_cases3)
  show ?case
  proof (cases o1)
    case None
    then have "b1 = b2" "w1 = w2"
      using "1.prems"(2) a by (auto simp: invokeHandlerWithRetry.simps [of t])
    moreover have "bus_step s (outcome (s_bus s) (t_event t)
        (fst (executeHandler (t_handler t) (t_event t) (s_world s))))
        (s\<lparr>s_bus := b2, s_pending := [] @ [], s_world := w2\<rparr>)"
      using a None "1.prems"(1) by (intro bus_step.finish) auto
    ultimately show ?thesis using "1.prems"(3) bus_run.more by fastforce
  next
    case (Some t1)
    let ?s = "s\<lparr>s_bus := b2, s_pending := [] @ t1 # [], s_world := w2\<rparr>"
    have "bus_step s (LRetry (t_event t)) ?s"
      using a Some "1.prems"(1) by (intro bus_step.retry) auto
    with "1.prems"(3) have "bus_run s0 (ls0 @ [LRetry (t_event t)]) ?s" by (rule bus_run.more)
    moreover have "invokeHandlerWithRetry t1 (b2, w2) = (b1, w1)"
      using "1.prems"(2) a Some by (simp add: invokeHandlerWithRetry.simps [of t])
    ultimately obtain ls where
      "bus_run s0 ((ls0 @ [LRetry (t_event t)]) @ ls) (?s\<lparr>s_bus := b1, s_pending := [], s_world := w1\<rparr>)"
      using "1.hyps" [of "Some t1" ?s t1] a Some by fastforce
    then show ?thesis by fastforce
  qed
qed

end
