(* ===== verification/Config.thy ===== *)
theory Config
  imports Engine Token LocalBus CatalogDomain
begin

text \<open>
  The configuration (\<open>internal/engine/config.go\<close>, \<open>internal/events/config.go\<close>): its defaults, the file, the
  environment variables laid over it and the check \<open>Validate\<close>; the choice of the event bus and of the
  authentication middleware. Durations are in nanoseconds. An unset environment variable reads as
  the empty string. \<open>strconv.ParseFloat\<close> and \<open>time.ParseDuration\<close> are the argument \<open>parsers\<close>, YAML is
  \<open>unmarshal\<close>.
\<close>

section \<open>Data\<close>

record AuthConfig =
  acMode :: string
  acOIDCIssuer :: string
  acOIDCAudience :: string
  acOIDCJwksURL :: string

record RateLimitConfig =
  rcBackend :: string
  rcGlobalRate :: f64
  rcGlobalBurst :: f64

record MetricsConfig =
  mtEnabled :: bool
  mtAddr :: string

record FullDBConfig = DBConfig +
  dbType :: string
  dbConnectionString :: string
  dbDatabase :: string
  dbMaxPoolSize :: int
  dbMinPoolSize :: int
  dbMaxConnIdleTime :: int
  dbMaxConnLifetime :: int
  dbMaxConnLifetimeJitter :: int
  dbConnectTimeout :: int
  dbPoolAcquireTimeout :: int
  dbHealthCheckInterval :: int
  dbQueryTimeout :: int
  dbTransactionTimeout :: int
  dbSSLMode :: string
  dbApplicationName :: string
  dbStatementTimeout :: int
  dbLockTimeout :: int
  dbServerSelectionTimeout :: int
  dbSocketTimeout :: int
  dbRetryWrites :: "bool option"
  dbRetryReads :: "bool option"
  dbWriteConcern :: string
  dbReadPreference :: string

record CacheConfig =
  caType :: string
  caAddr :: string
  caPassword :: string
  caDB :: int
  caPoolSize :: int
  caL1TTL :: int
  caL1MaxItems :: int

record StorageConfig =
  stProvider :: string
  stBucket :: string
  stRegion :: string
  stAccountID :: string
  stAccessKeyID :: string
  stSecretAccessKey :: string

record RetryConfig =
  rtMaxRetries :: int
  rtInitialBackoff :: int
  rtMaxBackoff :: int

record LocalBusConfig =
  lbDLQBufferSize :: int

record KafkaConfig =
  kfBrokers :: "string list"
  kfGroupID :: string
  kfClientID :: string
  kfDLQTopic :: string
  kfAutoOffsetOld :: bool

record RabbitMQConfig =
  rqURL :: string
  rqExchangeName :: string
  rqExchangeType :: string
  rqQueueName :: string
  rqDLQExchange :: string
  rqDLQQueue :: string
  rqRetryDelays :: "int list"
  rqPrefetchCount :: int

record BusConfig =
  bcProvider :: string
  bcRetry :: RetryConfig
  bcLocal :: LocalBusConfig
  bcKafka :: KafkaConfig
  bcRabbitMQ :: RabbitMQConfig

record OutboxConfig =
  oxEnabled :: bool
  oxPollInterval :: int
  oxBatchSize :: int

text \<open>The modules' section, with the settings of the dashboard that the registry does not look at.\<close>

record FullModulesConfig = ModulesConfig +
  dsTier :: string
  dsCacheTTL :: int

record Config =
  cgPort :: string
  cgSecret :: string
  cgServiceName :: string
  cgMaxRequestSize :: int
  cgAuth :: AuthConfig
  cgRateLimit :: RateLimitConfig
  cgMetrics :: MetricsConfig
  cgDB :: FullDBConfig
  cgCache :: CacheConfig
  cgStorage :: StorageConfig
  cgEvents :: BusConfig
  cgOutbox :: OutboxConfig
  cgModules :: FullModulesConfig

section \<open>Defaults\<close>

definition seconds_ns :: "int \<Rightarrow> int" where "seconds_ns n = n * 1000000000"

definition defaultModulesConfig :: FullModulesConfig where
  "defaultModulesConfig = \<lparr>enCatalog = True,
     cfCatalog = \<lparr>ctImages = True, ctVariants = True, ctDiscounts = True, ctBulk = True, ctReviews = True\<rparr>,
     enInventory = True,
     cfInventory = \<lparr>ftBulk = True, ftHistory = True, ftReservation = True, ftReports = True, ftTransfer = True,
       ftAdjustment = True, ftSync = True\<rparr>,
     enCart = True, enOrders = True, enPayments = True, cfPayments = \<lparr>pcProvider = ''stripe'', pcAPIKey = []\<rparr>,
     enShipping = True, cfShipping = [], enNotifications = True, enDashboard = True,
     dsTier = ''small'', dsCacheTTL = seconds_ns 300\<rparr>"

definition default_secret :: string where
  "default_secret = ''default-engine-super-secret-key-that-is-very-long''"

definition default_db :: FullDBConfig where
  "default_db = \<lparr>RetryMaxAttempts = 20, RetryInitialDelay = seconds_ns 1, RetryMaxDelay = seconds_ns 30,
     dbType = ''mongodb'', dbConnectionString = ''mongodb://localhost:27017'', dbDatabase = ''ecom_db'',
     dbMaxPoolSize = 25, dbMinPoolSize = 5, dbMaxConnIdleTime = seconds_ns 900, dbMaxConnLifetime = seconds_ns 3600,
     dbMaxConnLifetimeJitter = seconds_ns 120, dbConnectTimeout = seconds_ns 10, dbPoolAcquireTimeout = seconds_ns 5,
     dbHealthCheckInterval = seconds_ns 30, dbQueryTimeout = seconds_ns 30, dbTransactionTimeout = seconds_ns 60,
     dbSSLMode = ''disable'', dbApplicationName = [], dbStatementTimeout = 0, dbLockTimeout = 0,
     dbServerSelectionTimeout = seconds_ns 10, dbSocketTimeout = seconds_ns 30, dbRetryWrites = Some True,
     dbRetryReads = Some True, dbWriteConcern = ''majority'', dbReadPreference = ''primary''\<rparr>"

definition default_events :: BusConfig where
  "default_events = \<lparr>bcProvider = ''local'',
     bcRetry = \<lparr>rtMaxRetries = 3, rtInitialBackoff = 50000000, rtMaxBackoff = seconds_ns 2\<rparr>,
     bcLocal = \<lparr>lbDLQBufferSize = 100\<rparr>,
     bcKafka = \<lparr>kfBrokers = [''localhost:9092''], kfGroupID = ''ecom-engine-group'', kfClientID = ''ecom-engine-client'',
       kfDLQTopic = ''events.dlq'', kfAutoOffsetOld = True\<rparr>,
     bcRabbitMQ = \<lparr>rqURL = ''amqp://localhost:5672/'', rqExchangeName = ''ecom_events'', rqExchangeType = ''topic'',
       rqQueueName = ''ecom_queue'', rqDLQExchange = ''ecom_events_dlq'', rqDLQQueue = ''ecom_queue_dlq'',
       rqRetryDelays = [], rqPrefetchCount = 0\<rparr>\<rparr>"

definition defaultConfig :: Config where
  "defaultConfig = \<lparr>cgPort = ''8080'', cgSecret = default_secret, cgServiceName = ''ecom-engine'',
     cgMaxRequestSize = 5 * 2 ^ 20,
     cgAuth = \<lparr>acMode = ''local'', acOIDCIssuer = [], acOIDCAudience = [], acOIDCJwksURL = []\<rparr>,
     cgRateLimit = \<lparr>rcBackend = ''memory'', rcGlobalRate = 10000, rcGlobalBurst = 15000\<rparr>,
     cgMetrics = \<lparr>mtEnabled = True, mtAddr = '':9090''\<rparr>,
     cgDB = default_db,
     cgCache = \<lparr>caType = ''memory'', caAddr = ''localhost:6379'', caPassword = [], caDB = 0, caPoolSize = 10,
       caL1TTL = seconds_ns 300, caL1MaxItems = 10000\<rparr>,
     cgStorage = \<lparr>stProvider = ''local'', stBucket = ''products'', stRegion = ''us-east-1'', stAccountID = [],
       stAccessKeyID = [], stSecretAccessKey = []\<rparr>,
     cgEvents = default_events,
     cgOutbox = \<lparr>oxEnabled = False, oxPollInterval = seconds_ns 5, oxBatchSize = 100\<rparr>,
     cgModules = defaultModulesConfig\<rparr>"

section \<open>Environment variables\<close>

type_synonym environ = "string \<Rightarrow> string"

record parsers =
  pzFloat :: "string \<Rightarrow> f64 option"
  pzDuration :: "string \<Rightarrow> int option"

definition set_str :: "environ \<Rightarrow> string \<Rightarrow> string \<Rightarrow> string" where
  "set_str env name old = (if env name \<noteq> [] then env name else old)"

text \<open>\<open>setInt\<close>, \<open>setInt64\<close>, \<open>setFloat64\<close> and \<open>setDuration\<close>: a value that does not parse is ignored.\<close>

definition set_parsed :: "(string \<Rightarrow> 'x option) \<Rightarrow> environ \<Rightarrow> string \<Rightarrow> 'x \<Rightarrow> 'x" where
  "set_parsed parse env name old = (if env name = [] then old
     else (case parse (env name) of None \<Rightarrow> old | Some x \<Rightarrow> x))"

definition millis :: "string \<Rightarrow> int option" where
  "millis s = map_option (\<lambda>n. wrap64 (n * 1000000)) (atoi s)"

definition overlay_db :: "parsers \<Rightarrow> environ \<Rightarrow> FullDBConfig \<Rightarrow> FullDBConfig" where
  "overlay_db pz env c = (let str = set_str env; num = set_parsed atoi env; dur = set_parsed (pzDuration pz) env in \<lparr>
     RetryMaxAttempts = num ''DB_RETRY_MAX_ATTEMPTS'' (RetryMaxAttempts c),
     RetryInitialDelay = dur ''DB_RETRY_INITIAL_DELAY'' (RetryInitialDelay c),
     RetryMaxDelay = dur ''DB_RETRY_MAX_DELAY'' (RetryMaxDelay c),
     dbType = str ''DB_TYPE'' (dbType c),
     dbConnectionString = str ''DB_CONNECTION_STRING'' (dbConnectionString c),
     dbDatabase = str ''DB_DATABASE'' (dbDatabase c),
     dbMaxPoolSize = num ''DB_MAX_POOL_SIZE'' (dbMaxPoolSize c),
     dbMinPoolSize = num ''DB_MIN_POOL_SIZE'' (dbMinPoolSize c),
     dbMaxConnIdleTime = dur ''DB_MAX_CONN_IDLE_TIME'' (dbMaxConnIdleTime c),
     dbMaxConnLifetime = dur ''DB_MAX_CONN_LIFETIME'' (dbMaxConnLifetime c),
     dbMaxConnLifetimeJitter = dur ''DB_MAX_CONN_LIFETIME_JITTER'' (dbMaxConnLifetimeJitter c),
     dbConnectTimeout = dur ''DB_CONNECT_TIMEOUT'' (dbConnectTimeout c),
     dbPoolAcquireTimeout = dur ''DB_POOL_ACQUIRE_TIMEOUT'' (dbPoolAcquireTimeout c),
     dbHealthCheckInterval = dur ''DB_HEALTH_CHECK_INTERVAL'' (dbHealthCheckInterval c),
     dbQueryTimeout = dur ''DB_QUERY_TIMEOUT'' (dbQueryTimeout c),
     dbTransactionTimeout = dur ''DB_TRANSACTION_TIMEOUT'' (dbTransactionTimeout c),
     dbSSLMode = str ''DB_SSL_MODE'' (dbSSLMode c),
     dbApplicationName = str ''DB_APPLICATION_NAME'' (dbApplicationName c),
     dbStatementTimeout = dur ''DB_STATEMENT_TIMEOUT'' (dbStatementTimeout c),
     dbLockTimeout = dur ''DB_LOCK_TIMEOUT'' (dbLockTimeout c),
     dbServerSelectionTimeout = dur ''DB_SERVER_SELECTION_TIMEOUT'' (dbServerSelectionTimeout c),
     dbSocketTimeout = dur ''DB_SOCKET_TIMEOUT'' (dbSocketTimeout c),
     dbRetryWrites = (if env ''DB_RETRY_WRITES'' \<noteq> [] then Some (env ''DB_RETRY_WRITES'' = ''true'') else dbRetryWrites c),
     dbRetryReads = (if env ''DB_RETRY_READS'' \<noteq> [] then Some (env ''DB_RETRY_READS'' = ''true'') else dbRetryReads c),
     dbWriteConcern = str ''DB_WRITE_CONCERN'' (dbWriteConcern c),
     dbReadPreference = str ''DB_READ_PREFERENCE'' (dbReadPreference c)\<rparr>)"

definition overlay_events :: "parsers \<Rightarrow> environ \<Rightarrow> BusConfig \<Rightarrow> BusConfig" where
  "overlay_events pz env c = (let str = set_str env; num = set_parsed atoi env;
       r = bcRetry c; k = bcKafka c; q = bcRabbitMQ c in \<lparr>
     bcProvider = str ''EVENT_PROVIDER'' (bcProvider c),
     bcRetry = \<lparr>rtMaxRetries = num ''EVENT_MAX_RETRIES'' (rtMaxRetries r),
       rtInitialBackoff = set_parsed millis env ''EVENT_INITIAL_BACKOFF_MS''
         (set_parsed (pzDuration pz) env ''EVENT_INITIAL_BACKOFF_MS'' (rtInitialBackoff r)),
       rtMaxBackoff = set_parsed millis env ''EVENT_MAX_BACKOFF_MS'' (rtMaxBackoff r)\<rparr>,
     bcLocal = \<lparr>lbDLQBufferSize = num ''EVENT_LOCAL_DLQ_SIZE'' (lbDLQBufferSize (bcLocal c))\<rparr>,
     bcKafka = \<lparr>
       kfBrokers = (if env ''KAFKA_BROKERS'' \<noteq> [] then map trim_space (go_split (CHR '','') (env ''KAFKA_BROKERS''))
         else kfBrokers k),
       kfGroupID = str ''KAFKA_GROUP_ID'' (kfGroupID k), kfClientID = str ''KAFKA_CLIENT_ID'' (kfClientID k),
       kfDLQTopic = str ''KAFKA_DLQ_TOPIC'' (kfDLQTopic k),
       kfAutoOffsetOld = (if env ''KAFKA_AUTO_OFFSET_RESET_LATEST'' = ''true'' then False else kfAutoOffsetOld k)\<rparr>,
     bcRabbitMQ = q\<lparr>rqURL := str ''RABBITMQ_URL'' (rqURL q),
       rqExchangeName := str ''RABBITMQ_EXCHANGE'' (rqExchangeName q),
       rqExchangeType := str ''RABBITMQ_EXCHANGE_TYPE'' (rqExchangeType q),
       rqQueueName := str ''RABBITMQ_QUEUE'' (rqQueueName q), rqDLQExchange := str ''RABBITMQ_DLQ_EXCHANGE'' (rqDLQExchange q),
       rqDLQQueue := str ''RABBITMQ_DLQ_QUEUE'' (rqDLQQueue q)\<rparr>\<rparr>)"

definition overlay_name :: "environ \<Rightarrow> string \<Rightarrow> string" where
  "overlay_name env old = (let s = set_str env ''SERVICE_NAME'' old in
     if s = ''ecom-engine'' then set_str env ''OTEL_SERVICE_NAME'' s else s)"

definition overlayEnv :: "parsers \<Rightarrow> environ \<Rightarrow> Config \<Rightarrow> Config" where
  "overlayEnv pz env c = (let str = set_str env; num = set_parsed atoi env; dur = set_parsed (pzDuration pz) env;
       a = cgAuth c; l = cgRateLimit c; e = cgCache c; s = cgStorage c; x = cgOutbox c; m = cgModules c in \<lparr>
     cgPort = str ''PORT'' (cgPort c), cgSecret = str ''JWT_SECRET'' (cgSecret c),
     cgServiceName = overlay_name env (cgServiceName c),
     cgMaxRequestSize = num ''MAX_REQUEST_SIZE_BYTES'' (cgMaxRequestSize c),
     cgAuth = \<lparr>acMode = str ''AUTH_MODE'' (acMode a), acOIDCIssuer = str ''OIDC_ISSUER'' (acOIDCIssuer a),
       acOIDCAudience = str ''OIDC_AUDIENCE'' (acOIDCAudience a), acOIDCJwksURL = str ''OIDC_JWKS_URL'' (acOIDCJwksURL a)\<rparr>,
     cgRateLimit = \<lparr>rcBackend = str ''RATE_LIMIT_BACKEND'' (rcBackend l),
       rcGlobalRate = set_parsed (pzFloat pz) env ''RATE_LIMIT_GLOBAL_RATE'' (rcGlobalRate l),
       rcGlobalBurst = set_parsed (pzFloat pz) env ''RATE_LIMIT_GLOBAL_BURST'' (rcGlobalBurst l)\<rparr>,
     cgMetrics = \<lparr>mtEnabled = (if env ''METRICS_ENABLED'' = ''false'' then False else mtEnabled (cgMetrics c)),
       mtAddr = str ''METRICS_ADDR'' (mtAddr (cgMetrics c))\<rparr>,
     cgDB = overlay_db pz env (cgDB c),
     cgCache = \<lparr>caType = str ''CACHE_TYPE'' (caType e), caAddr = str ''CACHE_ADDR'' (caAddr e),
       caPassword = str ''CACHE_PASSWORD'' (caPassword e), caDB = num ''CACHE_DB'' (caDB e),
       caPoolSize = num ''CACHE_POOL_SIZE'' (caPoolSize e), caL1TTL = dur ''CACHE_L1_TTL'' (caL1TTL e),
       caL1MaxItems = num ''CACHE_L1_MAX_ITEMS'' (caL1MaxItems e)\<rparr>,
     cgStorage = \<lparr>stProvider = str ''STORAGE_PROVIDER'' (stProvider s), stBucket = str ''STORAGE_BUCKET'' (stBucket s),
       stRegion = str ''STORAGE_REGION'' (stRegion s), stAccountID = str ''STORAGE_ACCOUNT_ID'' (stAccountID s),
       stAccessKeyID = str ''STORAGE_ACCESS_KEY_ID'' (stAccessKeyID s),
       stSecretAccessKey = str ''STORAGE_SECRET_ACCESS_KEY'' (stSecretAccessKey s)\<rparr>,
     cgEvents = overlay_events pz env (cgEvents c),
     cgOutbox = \<lparr>oxEnabled = (if env ''OUTBOX_ENABLED'' = ''true'' then True else oxEnabled x),
       oxPollInterval = dur ''OUTBOX_POLL_INTERVAL'' (oxPollInterval x),
       oxBatchSize = num ''OUTBOX_BATCH_SIZE'' (oxBatchSize x)\<rparr>,
     cgModules = m\<lparr>cfPayments := \<lparr>pcProvider = str ''PAYMENT_PROVIDER'' (pcProvider (cfPayments m)),
         pcAPIKey = str ''PAYMENT_API_KEY'' (pcAPIKey (cfPayments m))\<rparr>,
       dsTier := str ''DASHBOARD_TIER'' (dsTier m), dsCacheTTL := dur ''DASHBOARD_CACHE_TTL'' (dsCacheTTL m)\<rparr>\<rparr>)"

section \<open>Loading and checking\<close>

text \<open>\<open>read\<close> reads the file at the cleaned path; \<open>unmarshal\<close> fills a configuration from its text.\<close>

definition LoadConfigFromFile :: "(string \<Rightarrow> err + string) \<Rightarrow> (string \<Rightarrow> Config \<Rightarrow> err + Config) \<Rightarrow> string \<Rightarrow> err + Config" where
  "LoadConfigFromFile read unmarshal path = (case read path of
       Inl e \<Rightarrow> Inl (Wrap (''config: cannot read '' @ path) e)
     | Inr data \<Rightarrow> (case unmarshal data defaultConfig of
         Inl e \<Rightarrow> Inl (Wrap (''config: cannot parse '' @ path) e)
       | Inr c \<Rightarrow> Inr c))"

definition LoadConfigFromEnv :: "parsers \<Rightarrow> environ \<Rightarrow> Config" where
  "LoadConfigFromEnv pz env = overlayEnv pz env defaultConfig"

definition config_path :: "(string \<Rightarrow> bool) \<Rightarrow> environ \<Rightarrow> string" where
  "config_path stat env = (if env ''APP_CONFIG'' \<noteq> [] then env ''APP_CONFIG''
     else (case List.find stat [''config.yaml'', ''config.yml''] of None \<Rightarrow> [] | Some p \<Rightarrow> p))"

definition LoadConfig :: "parsers \<Rightarrow> (string \<Rightarrow> bool) \<Rightarrow> (string \<Rightarrow> err + string) \<Rightarrow> (string \<Rightarrow> Config \<Rightarrow> err + Config) \<Rightarrow>
    environ \<Rightarrow> err + Config" where
  "LoadConfig pz stat read unmarshal env = (let path = config_path stat env in
     case (if path \<noteq> [] then LoadConfigFromFile read unmarshal path else Inr defaultConfig) of
       Inl e \<Rightarrow> Inl e
     | Inr c \<Rightarrow> Inr (overlayEnv pz env c))"

definition cache_Validate :: "CacheConfig \<Rightarrow> err option" where
  "cache_Validate c = (if caType c \<noteq> ''redis'' \<and> caType c \<noteq> ''memory''
     then Some (ErrText (''cache.type must be '' @ [CHR 0x27] @ ''redis'' @ [CHR 0x27] @ '' or '' @ [CHR 0x27] @ ''memory'' @ [CHR 0x27]))
     else None)"

definition Validate :: "Config \<Rightarrow> err option" where
  "Validate c = (let q = (\<lambda>s. CHR 0x27 # s @ [CHR 0x27]) in
     if cgSecret c = [] then Some (ErrText ''secret (JWT_SECRET) must not be empty'')
     else if dbType (cgDB c) \<noteq> ''mongodb'' \<and> dbType (cgDB c) \<noteq> ''postgres''
     then Some (ErrText (''db.type must be '' @ q ''mongodb'' @ '' or '' @ q ''postgres'' @ '', got '' @ go_quote (dbType (cgDB c))))
     else if dbConnectionString (cgDB c) = [] then Some (ErrText ''db.connection_string must not be empty'')
     else (case cache_Validate (cgCache c) of
         Some e \<Rightarrow> Some e
       | None \<Rightarrow>
           if acMode (cgAuth c) \<noteq> ''local'' \<and> acMode (cgAuth c) \<noteq> ''oidc''
           then Some (ErrText (''auth.mode must be '' @ q ''local'' @ '' or '' @ q ''oidc'' @ '', got '' @ go_quote (acMode (cgAuth c))))
           else None))"

section \<open>What the configuration chooses\<close>

text \<open>The bus: \<open>rabbit\<close> is the client's constructor.\<close>

definition NewEventBus :: "(RabbitMQConfig \<Rightarrow> RetryConfig \<Rightarrow> err + 'b) \<Rightarrow> BusConfig \<Rightarrow> err + ('b + 'w bus_state)" where
  "NewEventBus rabbit c =
     (if bcProvider c = ''kafka'' then Inl (ErrText ''kafka event bus is not yet implemented'')
      else if bcProvider c = ''rabbitmq'' then map_sum (\<lambda>e. e) Inl (rabbit (bcRabbitMQ c) (bcRetry c))
      else if bcProvider c = ''local'' \<or> bcProvider c = []
      then Inr (Inr (NewLocalEventBusWithConfig (lbDLQBufferSize (bcLocal c)) (rtMaxRetries (bcRetry c))
        (rtInitialBackoff (bcRetry c)) (rtMaxBackoff (bcRetry c))))
      else Inl (ErrText (''unknown event bus provider: '' @ go_quote (bcProvider c))))"

text \<open>\<open>hmac\<close> is HMAC-SHA256 of a key and a text; \<open>marshal\<close> and \<open>unmarshal\<close> are the JSON of the claims.\<close>

definition NewJWTManager :: "(string \<Rightarrow> string \<Rightarrow> string) \<Rightarrow> (Claims \<Rightarrow> string) \<Rightarrow> (string \<Rightarrow> err + Claims) \<Rightarrow> string \<Rightarrow> JWTManager" where
  "NewJWTManager hmac marshal unmarshal secret = \<lparr>jmMac = hmac secret, jmMarshal = marshal, jmUnmarshal = unmarshal\<rparr>"

definition NewAuthMiddleware :: "string \<Rightarrow> JWTManager \<Rightarrow> (string \<Rightarrow> (Claims \<Rightarrow> ('a env_scheme, 'r) io) \<Rightarrow> ('a env_scheme, 'r) io) option \<Rightarrow>
    string \<Rightarrow> (Claims \<Rightarrow> ('a env_scheme, 'r) io) \<Rightarrow> ('a env_scheme, 'r) io" where
  "NewAuthMiddleware mode m oidc = (case oidc of
       Some mw \<Rightarrow> if mode = ''oidc'' then mw else AuthMiddleware m
     | None \<Rightarrow> AuthMiddleware m)"

end
