(* ===== verification/ConfigProps.thy ===== *)
theory ConfigProps
  imports Config
begin

text \<open>
  Properties of the configuration: laying the environment over it twice is laying it once, and what the
  default secret means for the middleware behind it.
\<close>

section \<open>The environment\<close>

lemma set_str_idem [simp]: "set_str env n (set_str env n x) = set_str env n x"
  by (simp add: set_str_def)

lemma set_parsed_idem [simp]: "set_parsed p env n (set_parsed p env n x) = set_parsed p env n x"
  by (simp add: set_parsed_def split: option.splits)

text \<open>The backoff is read twice from one variable, as a duration and as a number; the number wins.\<close>

lemma set_parsed_twice [simp]:
  "set_parsed p env n (set_parsed q env n (set_parsed p env n (set_parsed q env n x))) = set_parsed p env n (set_parsed q env n x)"
  by (simp add: set_parsed_def split: option.splits)

lemma overlay_name_idem [simp]: "overlay_name env (overlay_name env s) = overlay_name env s"
  by (simp add: overlay_name_def set_str_def Let_def)

lemma overlay_db_idem [simp]: "overlay_db pz env (overlay_db pz env c) = overlay_db pz env c"
  by (simp add: overlay_db_def Let_def)

lemma overlay_events_idem [simp]: "overlay_events pz env (overlay_events pz env c) = overlay_events pz env c"
  by (simp add: overlay_events_def Let_def)

text \<open>Laying the environment over a configuration twice is laying it over once: every setting ends as its variable
says, whatever the parsers make of it, although the service name and the first backoff have two sources.\<close>

theorem overlay_idempotent: "overlayEnv pz env (overlayEnv pz env c) = overlayEnv pz env c"
  by (simp add: overlayEnv_def Let_def)

lemma LoadConfig_default_secret:
  assumes "env ''JWT_SECRET'' = []" "config_path stat env = []" "LoadConfig pz stat read unm env = Inr cfg"
  shows "cgSecret cfg = default_secret"
  using assms by (auto simp: LoadConfig_def Let_def overlayEnv_def defaultConfig_def set_str_def)

section \<open>The default secret\<close>

text \<open>A token passes the middleware of the manager that made it.\<close>

lemma AuthMiddleware_own_token:
  assumes "jwtGenerate m uid role d w = (Inr tok, w1)" "clock w1 \<le> clock v" "delays v = []"
    and "unix (clock v) \<le> unix (clock w1 + d)"
    and json: "\<And>c. c = \<lparr>clmUserID = uid, clmRole = role, clmExp = unix (clock w1 + d)\<rparr> \<Longrightarrow> jmUnmarshal m (jmMarshal m c) = Inr c"
  shows "AuthMiddleware m (''Bearer '' @ tok) next v = next \<lparr>clmUserID = uid, clmRole = role, clmExp = unix (clock w1 + d)\<rparr> v"
proof -
  obtain t where t: "time_now w = (t, w1)" "t = clock w1"
    using assms(1) by (auto simp: jwtGenerate_def Let_def split: prod.splits elim!: time_nowE)
  let ?c = "\<lparr>clmUserID = uid, clmRole = role, clmExp = unix (t + d)\<rparr>" and ?p = "b64_encode (jmMarshal m \<lparr>clmUserID = uid, clmRole = role, clmExp = unix (t + d)\<rparr>)"
  have tok: "tok = ?p @ CHR ''.'' # sign m ?p" using assms(1) t by (auto simp: jwtGenerate_def Let_def)
  have parts: "go_split (CHR ''.'') tok = [?p, sign m ?p]"
    by (simp add: tok sign_def go_split_append b64_encode_plain)
  have "CHR '' '' \<notin> set tok" by (simp add: tok sign_def b64_encode_plain)
  then have "bearer (''Bearer '' @ tok) = Some tok"
    using go_split_append(1) [of "CHR '' ''" "''Bearer''" tok] go_split_append(2) [of "CHR '' ''" tok] by (simp add: bearer_def)
  moreover have "jwtValidate m tok v = (Inr ?c, v)"
    using parts assms(3,4) t(2) json [of ?c] by (simp add: jwtValidate_def b64_roundtrip time_now_def not_less)
  ultimately show ?thesis using t(2) by (simp add: AuthMiddleware_def bind_io_def on_error_def)
qed

text \<open>C40. The default secret opens the admin group: a server that is started without a configuration file and without
\<open>JWT_SECRET\<close>, in any authentication mode but \<open>oidc\<close>, signs its tokens with the secret written in the source. So a
token that anybody makes with that secret, for any user and the role \<open>admin\<close>, passes the middleware while it is
unexpired, and the handler runs with its claims. The check of the configuration would have no objection.\<close>
theorem default_secret_opens_admin:
  fixes w :: "'b env_scheme" and v :: "'a env_scheme"
  assumes "env ''JWT_SECRET'' = []" and "config_path stat env = []" and "LoadConfig pz stat read unm env = Inr cfg"
    and "acMode (cgAuth cfg) \<noteq> ''oidc''"
    and forged: "jwtGenerate (NewJWTManager hmac mar unmar default_secret) uid ''admin'' d w = (Inr tok, w1)"
    and "clock w1 \<le> clock v" "delays v = []" "unix (clock v) \<le> unix (clock w1 + d)" 
    and json: "\<And>c. c = \<lparr>clmUserID = uid, clmRole = ''admin'', clmExp = unix (clock w1 + d)\<rparr> \<Longrightarrow> unmar (mar c) = Inr c"
  shows "NewAuthMiddleware (acMode (cgAuth cfg)) (NewJWTManager hmac mar unmar (cgSecret cfg)) oidc (''Bearer '' @ tok)
      (\<lambda>c. AdminOnlyMiddleware (clmRole c) (handler c)) v =
    handler \<lparr>clmUserID = uid, clmRole = ''admin'', clmExp = unix (clock w1 + d)\<rparr> v"
proof -
  let ?next = "\<lambda>c. AdminOnlyMiddleware (clmRole c) (handler c)"
  have "AuthMiddleware (NewJWTManager hmac mar unmar default_secret) (''Bearer '' @ tok) ?next v =
      ?next \<lparr>clmUserID = uid, clmRole = ''admin'', clmExp = unix (clock w1 + d)\<rparr> v"
    by (rule AuthMiddleware_own_token [OF forged assms(6-8)]) (simp add: NewJWTManager_def json)
  with LoadConfig_default_secret [of env stat pz read unm cfg] assms(1-4) show ?thesis
    by (cases oidc) (simp_all add: NewAuthMiddleware_def AdminOnlyMiddleware_def)
qed

text \<open>The check has no objection to the defaults.\<close>

lemma Validate_defaults: "Validate defaultConfig = None"
  by code_simp

theorem default_secret_opens_admin_witness:
  "let cfg = projr (LoadConfig \<lparr>pzFloat = (\<lambda>_. None), pzDuration = (\<lambda>_. None)\<rparr> (\<lambda>_. False) (\<lambda>_. Inl (ErrText ''none'')) (\<lambda>_ c. Inr c)
       (\<lambda>n. if n = ''PORT'' then ''80'' else []));
     m = (\<lambda>k. NewJWTManager (\<lambda>k s. k @ s) (jmMarshal sample_jwt) (jmUnmarshal sample_jwt) k);
     tok = projr (fst (jwtGenerate (m default_secret) ''u1'' ''admin'' 9000000000 (sample_clock 0)))
   in cgPort cfg = ''80'' \<and> fst (NewAuthMiddleware (acMode (cgAuth cfg)) (m (cgSecret cfg)) None (''Bearer '' @ tok)
     (\<lambda>c. AdminOnlyMiddleware (clmRole c) (return_io (clmUserID c))) (sample_clock 5)) = Inr ''u1''"
proof -
  let ?env = "\<lambda>n. if n = ''PORT'' then ''80'' else []" and ?pz = "\<lparr>pzFloat = (\<lambda>_. None), pzDuration = (\<lambda>_. None)\<rparr> :: parsers"
  let ?stat = "\<lambda>_ :: string. False" and ?read = "\<lambda>_ :: string. Inl (ErrText ''none'') :: err + string" and ?unm = "\<lambda>(_ :: string) c. Inr c :: err + Config"
  let ?m = "\<lambda>k. NewJWTManager (\<lambda>k s. k @ s) (jmMarshal sample_jwt) (jmUnmarshal sample_jwt) k"
  have "config_path ?stat ?env = []" by (simp add: config_path_def)
  then obtain cfg where cfg: "LoadConfig ?pz ?stat ?read ?unm ?env = Inr cfg" by (simp add: LoadConfig_def)
  then have c: "cfg = overlayEnv ?pz ?env defaultConfig" by (simp add: LoadConfig_def config_path_def)
  have mode: "acMode (cgAuth cfg) \<noteq> ''oidc''" and port: "cgPort cfg = ''80''" unfolding c by code_simp+
  obtain r w1 where g: "jwtGenerate (?m default_secret) ''u1'' ''admin'' 9000000000 (sample_clock 0) = (r, w1)" by fastforce
  have "\<not> isl (fst (jwtGenerate (?m default_secret) ''u1'' ''admin'' 9000000000 (sample_clock 0)))"
    by (simp add: jwtGenerate_def Let_def split: prod.splits)
  then obtain tok where tok: "r = Inr tok" using g by (cases r) auto
  have w1: "clock w1 = 0" using g by (auto simp: jwtGenerate_def Let_def time_now_def sample_clock_def)
  have json: "jmUnmarshal sample_jwt (jmMarshal sample_jwt \<lparr>clmUserID = ''u1'', clmRole = ''admin'', clmExp = 9\<rparr>) =
      Inr \<lparr>clmUserID = ''u1'', clmRole = ''admin'', clmExp = 9\<rparr>" by code_simp
  have "NewAuthMiddleware (acMode (cgAuth cfg)) (?m (cgSecret cfg)) None (''Bearer '' @ tok)
      (\<lambda>c. AdminOnlyMiddleware (clmRole c) (return_io (clmUserID c))) (sample_clock 5) =
      return_io ''u1'' (sample_clock 5)"
    using default_secret_opens_admin [OF _ _ cfg mode g [unfolded tok], of "sample_clock 5" None "\<lambda>c. return_io (clmUserID c)"] w1 json
    by (simp add: sample_clock_def unix_def config_path_def)
  with cfg port g tok show ?thesis by (simp add: Let_def return_io_def)
qed

end
