(* ===== verification/EngineProps.thy ===== *)
theory EngineProps
  imports Engine
begin

text \<open>
  Start-up as a whole: which configurations start, that a wiring mistake never surfaces as a panic,
  and what the services of a started engine are built with. The contract \<open>engine_module\<close> carries
  the loop over the modules.
\<close>

section \<open>The loop over the modules\<close>



section \<open>The module set of the program\<close>














section \<open>Which configurations start\<close>













end
