(* ===== verification/Outbox.thy ===== *)
theory Outbox
  imports Events
begin

text \<open>
  The transactional outbox: \<open>internal/events/outbox.go\<close> (records and \<open>ToEvent\<close>),
  \<open>relay.go\<close> (the polling relay), \<open>idempotency.go\<close> (duplicate suppression) and the PostgreSQL
  repositories \<open>internal/infra/db/postgres/outbox/repository.go\<close>. The relay is proved against
  the contract \<open>relay_env\<close>, the idempotent consumer against \<open>dedup_store\<close>; both are
  interpreted on the PostgreSQL repositories.
\<close>

section \<open>Tables\<close>

record outbox_row = OutboxRecord +
  orPublishedAt :: "int option"

record outbox_db = env +
  outbox_tbl :: "outbox_row list"
  processed_events :: "(string \<times> int) list"

section \<open>Records and events\<close>

definition ToEvent :: "'x OutboxRecord_scheme \<Rightarrow> event" where
  "ToEvent r = \<lparr>evID = orID r, evTopic = orTopic r, evSource = orSource r, evVersion = orVersion r,
     evTimestamp = orCreatedAt r, evPayload = PBytes (orPayload r), evTraceID = orTraceID r,
     evCorrelationID = orCorrelationID r\<rparr>"

definition outbox_insert_row :: "event \<Rightarrow> outbox_row" where
  "outbox_insert_row e = \<lparr>orID = evID e, orTopic = evTopic e, orSource = evSource e,
     orPayload = evPayload e, orVersion = evVersion e, orTraceID = evTraceID e,
     orCorrelationID = evCorrelationID e, orCreatedAt = evTimestamp e, orPublishedAt = None\<rparr>"

definition unrow :: "outbox_row \<Rightarrow> OutboxRecord" where
  "unrow r = OutboxRecord.truncate r"

section \<open>The PostgreSQL repository\<close>

text \<open>\<open>Store\<close>: one INSERT per event; the primary key rejects a second row with the same id.\<close>

fun Store_pg :: "event list \<Rightarrow> ('a outbox_db_scheme, unit) io" where
  "Store_pg [] w = (Inr (), w)"
| "Store_pg (e # es) w = (case db_call w of
       (Inl d, w1) \<Rightarrow> (Inl (Wrap (''outbox: store event '' @ evID e) d), w1)
     | (Inr _, w1) \<Rightarrow>
         if evID e \<in> set (map orID (outbox_tbl w1))
         then (Inl (Wrap (''outbox: store event '' @ evID e) (DbError ''duplicate key'')), db_reject w1)
         else Store_pg es (w1\<lparr>outbox_tbl := outbox_tbl w1 @ [outbox_insert_row e]\<rparr>))"

lemma Store_pgE:
  assumes "Store_pg es w = (x, w1)"
  obtains f a t where "w1 = w\<lparr>faults := f, tx_aborted := a, outbox_tbl := t\<rparr>"
proof -
  have "\<exists>f a t. snd (Store_pg es w) = w\<lparr>faults := f, tx_aborted := a, outbox_tbl := t\<rparr>"
  proof (induction es w rule: Store_pg.induct)
    case (1 w)
    then show ?case by (cases w) auto
  next
    case (2 e es w)
    obtain x w1 where d: "db_call w = (x, w1)" by fastforce
    then obtain f a where w1: "w1 = w\<lparr>faults := f, tx_aborted := a\<rparr>" by (rule db_callE)
    show ?case
    proof (cases "isl x \<or> evID e \<in> set (map orID (outbox_tbl w1))")
      case True
      with d w1 have "\<exists>f a. snd (Store_pg (e # es) w) = w\<lparr>faults := f, tx_aborted := a\<rparr>"
        by (cases x) (auto simp: db_reject_def)
      then obtain f a where "snd (Store_pg (e # es) w) = w\<lparr>faults := f, tx_aborted := a\<rparr>" by blast
      then have "snd (Store_pg (e # es) w) = w\<lparr>faults := f, tx_aborted := a, outbox_tbl := outbox_tbl w\<rparr>"
        by simp
      then show ?thesis by blast
    next
      case False
      then obtain u where x: "x = Inr u" by (cases x) auto
      from "2.IH" [OF d [symmetric] x] False w1 d x show ?thesis by auto
    qed
  qed
  with assms show thesis by (auto intro: that)
qed

lemma Store_pg_calm: "db_calm w \<Longrightarrow> \<not> in_tx w \<Longrightarrow> db_calm (snd (Store_pg es w)) \<and> \<not> in_tx (snd (Store_pg es w))"
  by (induction es w rule: Store_pg.induct) (auto simp: db_reject_def db_calm_def)

definition unsent_pg :: "'a outbox_db_scheme \<Rightarrow> OutboxRecord list" where
  "unsent_pg w = map unrow
     (sort_key orCreatedAt (filter (\<lambda>r. orPublishedAt r = None) (outbox_tbl w)))"

definition FetchUnsent_pg :: "int \<Rightarrow> ('a outbox_db_scheme, OutboxRecord list) io" where
  "FetchUnsent_pg batchSize w = (case db_call w of
       (Inl d, w1) \<Rightarrow> (Inl (Wrap ''outbox: fetch unsent'' d), w1)
     | (Inr _, w1) \<Rightarrow>
         if batchSize < 0
         then (Inl (Wrap ''outbox: fetch unsent'' (DbError ''LIMIT must not be negative'')), db_reject w1)
         else (Inr (take (nat batchSize) (unsent_pg w1)), w1))"

definition MarkPublished_pg :: "string list \<Rightarrow> ('a outbox_db_scheme, unit) io" where
  "MarkPublished_pg ids w = (if ids = [] then (Inr (), w)
     else case time_now w of (now, w1) \<Rightarrow>
       (case db_call w1 of
          (Inl d, w2) \<Rightarrow> (Inl (Wrap ''outbox: mark published'' d), w2)
        | (Inr _, w2) \<Rightarrow> (Inr (), w2\<lparr>outbox_tbl :=
            map (\<lambda>r. if orID r \<in> set ids then r\<lparr>orPublishedAt := Some now\<rparr> else r)
              (outbox_tbl w2)\<rparr>)))"

definition outbox_pg :: "('a outbox_db_scheme) OutboxRepository" where
  "outbox_pg = \<lparr>Store = Store_pg, FetchUnsent = FetchUnsent_pg, MarkPublished = MarkPublished_pg\<rparr>"

section \<open>The relay\<close>

record 'w OutboxRelay =
  rl_outbox :: "'w OutboxRepository"
  rl_bus :: "'w bus"
  rl_interval :: int
  rl_batch :: int

definition NewOutboxRelay ::
  "'w OutboxRepository \<Rightarrow> 'w bus \<Rightarrow> int \<Rightarrow> int \<Rightarrow> 'w OutboxRelay" where
  "NewOutboxRelay ob bus interval batchSize =
     \<lparr>rl_outbox = ob, rl_bus = bus,
      rl_interval = (if interval \<le> 0 then 5000000000 else interval),
      rl_batch = (if batchSize \<le> 0 then 100 else batchSize)\<rparr>"

fun publish_records :: "'w bus \<Rightarrow> OutboxRecord list \<Rightarrow> 'w \<Rightarrow> 'w" where
  "publish_records pub [] w = w"
| "publish_records pub (r # rs) w = publish_records pub rs (pub (ToEvent r) w)"

text \<open>One tick of the relay; errors are logged and the next tick tries again.\<close>

definition poll :: "'w OutboxRelay \<Rightarrow> 'w \<Rightarrow> 'w" where
  "poll r w = (case FetchUnsent (rl_outbox r) (rl_batch r) w of
       (Inl _, w1) \<Rightarrow> w1
     | (Inr records, w1) \<Rightarrow>
         if records = [] then w1
         else (case MarkPublished (rl_outbox r) (map orID records)
                      (publish_records (rl_bus r) records w1) of
             (Inl _, w2) \<Rightarrow> w2
           | (Inr _, w2) \<Rightarrow> w2))"

section \<open>The relay against its contract\<close>

text \<open>
  \<open>unsent\<close> is the queue of records not yet published, oldest first; \<open>pubs\<close> the events the bus
  has received; \<open>calm\<close> holds while the repository is available. The repository returns a prefix of the queue, removes exactly the records
  marked, and a failed call changes nothing.
\<close>

locale relay_env =
  fixes ob :: "'w OutboxRepository"
    and pub :: "'w bus"
    and unsent :: "'w \<Rightarrow> OutboxRecord list"
    and pubs :: "'w \<Rightarrow> event list"
    and ok calm :: "'w \<Rightarrow> bool"
  assumes fetch_ok: "FetchUnsent ob n w = (Inr rs, w1) \<Longrightarrow> rs = take (nat n) (unsent w)"
    and fetch_frame: "FetchUnsent ob n w = (x, w1) \<Longrightarrow>
        unsent w1 = unsent w \<and> pubs w1 = pubs w \<and> (ok w \<longrightarrow> ok w1)"
    and mark_ok: "MarkPublished ob ids w = (Inr u, w1) \<Longrightarrow>
        unsent w1 = filter (\<lambda>r. orID r \<notin> set ids) (unsent w)"
    and mark_err: "MarkPublished ob ids w = (Inl er, w1) \<Longrightarrow> unsent w1 = unsent w"
    and mark_frame: "MarkPublished ob ids w = (y, w1) \<Longrightarrow> pubs w1 = pubs w \<and> (ok w \<longrightarrow> ok w1)"
    and pub_unsent: "unsent (pub e w) = unsent w"
    and pub_pubs: "pubs (pub e w) = pubs w @ [e]"
    and pub_ok: "ok w \<Longrightarrow> ok (pub e w)"
    and ok_distinct: "ok w \<Longrightarrow> distinct (map orID (unsent w))"
    and fetch_calm: "calm w \<Longrightarrow> 0 \<le> n \<Longrightarrow> \<exists>rs w1. FetchUnsent ob n w = (Inr rs, w1) \<and> calm w1"
    and mark_calm: "calm w \<Longrightarrow> \<exists>w1. MarkPublished ob ids w = (Inr (), w1) \<and> calm w1"
    and pub_calm: "calm w \<Longrightarrow> calm (pub e w)"
begin

lemma publish_records_effect:
  "unsent (publish_records pub rs w) = unsent w \<and>
   pubs (publish_records pub rs w) = pubs w @ map ToEvent rs \<and>
   (ok w \<longrightarrow> ok (publish_records pub rs w))"
  by (induction rs arbitrary: w) (simp_all add: pub_unsent pub_pubs pub_ok)

lemma filter_unmarked:
  "distinct (map orID xs) \<Longrightarrow>
   filter (\<lambda>r. orID r \<notin> set (map orID (take n xs))) xs = drop n xs"
proof -
  assume d: "distinct (map orID xs)"
  have "filter (\<lambda>r. orID r \<notin> set (map orID (take n xs))) (take n xs @ drop n xs) = drop n xs"
  proof (subst filter_append)
    have "set (map orID (take n xs)) \<inter> set (map orID (drop n xs)) = {}"
      using d by (metis append_take_drop_id distinct_append map_append)
    then show "filter (\<lambda>r. orID r \<notin> set (map orID (take n xs))) (take n xs) @
        filter (\<lambda>r. orID r \<notin> set (map orID (take n xs))) (drop n xs) = drop n xs"
      by (auto simp: filter_empty_conv filter_id_conv)
  qed
  then show ?thesis by simp
qed

text \<open>The outcome of one tick: nothing, or a batch published and marked or left for a retry.\<close>

lemma poll_cases:
  assumes "ok w" "rl_outbox r = ob" "rl_bus r = pub"
  shows "ok (poll r w) \<and>
    (\<exists>k. pubs (poll r w) = pubs w @ map ToEvent (take k (unsent w)) \<and>
       (unsent (poll r w) = unsent w \<or> unsent (poll r w) = drop k (unsent w)))"
proof (cases "FetchUnsent ob (rl_batch r) w")
  case (Pair x w1)
  note fr = fetch_frame [OF Pair]
  show ?thesis
  proof (cases x)
    case (Inl e)
    with Pair fr assms show ?thesis by (auto simp: poll_def intro!: exI [of _ 0])
  next
    case (Inr rs)
    with Pair have rs: "rs = take (nat (rl_batch r)) (unsent w)" by (simp add: fetch_ok)
    obtain y w2 where m: "MarkPublished ob (map orID rs) (publish_records pub rs w1) = (y, w2)"
      by fastforce
    have d: "distinct (map orID (unsent w))" using assms(1) by (rule ok_distinct)
    have "unsent w2 = unsent w \<or> unsent w2 = drop (nat (rl_batch r)) (unsent w)"
    proof (cases y)
      case (Inl e)
      with m show ?thesis using mark_err publish_records_effect fr by metis
    next
      case (Inr u)
      with m have "unsent w2 = filter (\<lambda>r. orID r \<notin> set (map orID rs)) (unsent w)"
        using mark_ok publish_records_effect fr by metis
      then show ?thesis using filter_unmarked [OF d] rs by simp
    qed
    moreover have "pubs w2 = pubs w @ map ToEvent rs" "ok w2"
      using mark_frame [OF m] publish_records_effect [of rs w1] fr assms(1) by auto
    moreover have "poll r w = (if rs = [] then w1 else w2)"
      using Pair Inr assms m by (auto simp: poll_def split: sum.split)
    ultimately show ?thesis
      using fr assms(1) rs by (auto intro: exI [of _ 0] exI [of _ "nat (rl_batch r)"])
  qed
qed

text \<open>All that a run of ticks hands to the bus are events decoded from records.\<close>

lemma polls_only_relay:
  assumes "rl_outbox r = ob" "rl_bus r = pub"
  shows "ok w \<Longrightarrow> ok ((poll r ^^ n) w) \<and> (\<exists>xs :: OutboxRecord list. pubs ((poll r ^^ n) w) = pubs w @ map ToEvent xs)"
proof (induction n)
  case 0
  then show ?case by (simp add: exI [of _ "[]"])
next
  case (Suc n)
  from Suc.IH [OF Suc.prems] obtain xs :: "OutboxRecord list" where
    xs: "ok ((poll r ^^ n) w)" "pubs ((poll r ^^ n) w) = pubs w @ map ToEvent xs" by blast
  with poll_cases [OF _ assms, of "(poll r ^^ n) w"] obtain k where
    "ok (poll r ((poll r ^^ n) w))"
    "pubs (poll r ((poll r ^^ n) w)) = pubs w @ map ToEvent (xs @ take k (unsent ((poll r ^^ n) w)))"
    by auto
  then show ?case by (simp only: funpow.simps comp_apply) blast
qed

text \<open>While the repository is available a tick moves one batch from the queue to the bus.\<close>

lemma publish_records_calm: "calm w \<Longrightarrow> calm (publish_records pub rs w)"
  by (induction rs arbitrary: w) (simp_all add: pub_calm)

lemma poll_calm:
  assumes "ok w" "calm w" "rl_outbox r = ob" "rl_bus r = pub" "0 \<le> rl_batch r"
  shows "ok (poll r w) \<and> calm (poll r w) \<and>
    unsent (poll r w) = drop (nat (rl_batch r)) (unsent w) \<and>
    pubs (poll r w) = pubs w @ map ToEvent (take (nat (rl_batch r)) (unsent w))"
proof -
  obtain rs w1 where f: "FetchUnsent ob (rl_batch r) w = (Inr rs, w1)" "calm w1"
    using fetch_calm [OF assms(2,5)] by blast
  note fr = fetch_frame [OF f(1)]
  have rs: "rs = take (nat (rl_batch r)) (unsent w)" using f(1) by (rule fetch_ok)
  obtain w2 where m: "MarkPublished ob (map orID rs) (publish_records pub rs w1) = (Inr (), w2)"
    "calm w2" using mark_calm [OF publish_records_calm [OF f(2)]] by blast
  have "unsent w2 = drop (nat (rl_batch r)) (unsent w)"
    using mark_ok [OF m(1)] publish_records_effect fr rs filter_unmarked ok_distinct assms(1)
    by metis
  moreover have "pubs w2 = pubs w @ map ToEvent rs" "ok w2"
    using mark_frame [OF m(1)] publish_records_effect [of rs w1] fr assms(1) by auto
  moreover have "poll r w = (if rs = [] then w1 else w2)"
    using f m assms by (auto simp: poll_def)
  ultimately show ?thesis
    using fr assms(1) rs f(2) m(2) by (auto simp: take_eq_Nil)
qed

lemma polls_drain:
  assumes "rl_outbox r = ob" "rl_bus r = pub" "0 \<le> rl_batch r"
  shows "ok w \<Longrightarrow> calm w \<Longrightarrow>
    unsent ((poll r ^^ n) w) = drop (n * nat (rl_batch r)) (unsent w) \<and>
    pubs ((poll r ^^ n) w) = pubs w @ map ToEvent (take (n * nat (rl_batch r)) (unsent w))"
proof (induction n arbitrary: w)
  case (Suc n)
  note p = poll_calm [OF Suc.prems assms]
  have "unsent ((poll r ^^ n) (poll r w)) = drop (n * nat (rl_batch r)) (unsent (poll r w)) \<and>
    pubs ((poll r ^^ n) (poll r w)) =
      pubs (poll r w) @ map ToEvent (take (n * nat (rl_batch r)) (unsent (poll r w)))"
    using p by (intro Suc.IH) auto
  moreover have "(poll r ^^ Suc n) w = (poll r ^^ n) (poll r w)"
    by (simp add: funpow_swap1)
  ultimately show ?case
    using p by (simp add: take_add add.commute)
qed simp

text \<open>
  Whatever fails, over any number of ticks the queue only loses records whose events the bus
  has received.
\<close>

lemma polls_no_loss:
  assumes "rl_outbox r = ob" "rl_bus r = pub"
  shows "ok w \<Longrightarrow> ok ((poll r ^^ n) w) \<and>
    (\<forall>x\<in>set (unsent w). x \<in> set (unsent ((poll r ^^ n) w)) \<or>
       ToEvent x \<in> set (pubs ((poll r ^^ n) w))) \<and>
    set (pubs w) \<subseteq> set (pubs ((poll r ^^ n) w))"
proof (induction n)
  case (Suc n)
  let ?w = "(poll r ^^ n) w"
  obtain k where k: "ok (poll r ?w)"
    "pubs (poll r ?w) = pubs ?w @ map ToEvent (take k (unsent ?w))"
    "unsent (poll r ?w) = unsent ?w \<or> unsent (poll r ?w) = drop k (unsent ?w)"
    using poll_cases [OF _ assms, of ?w] Suc by blast
  have "x \<in> set (take k (unsent ?w)) \<or> x \<in> set (drop k (unsent ?w))" if "x \<in> set (unsent ?w)" for x
    using that by (metis Un_iff append_take_drop_id set_append)
  with k Suc show ?case by auto blast+
qed simp

end

section \<open>The relay on PostgreSQL\<close>

definition outbox_ok :: "'a outbox_db_scheme \<Rightarrow> bool" where
  "outbox_ok w \<longleftrightarrow> distinct (map orID (outbox_tbl w))"

lemma unsent_pg_filter:
  "map unrow (sort_key orCreatedAt (filter (\<lambda>r. orPublishedAt r = None)
      (map (\<lambda>r. if orID r \<in> S then r\<lparr>orPublishedAt := Some t\<rparr> else r) xs))) =
   filter (\<lambda>r. orID r \<notin> S) (map unrow (sort_key orCreatedAt (filter (\<lambda>r. orPublishedAt r = None) xs)))"
proof -
  have "filter (\<lambda>r. orPublishedAt r = None)
      (map (\<lambda>r. if orID r \<in> S then r\<lparr>orPublishedAt := Some t\<rparr> else r) xs) =
    filter (\<lambda>r. orID r \<notin> S) (filter (\<lambda>r. orPublishedAt r = None) xs)"
    by (induction xs) auto
  moreover have "filter (\<lambda>r. orID r \<notin> S) (map unrow ys) = map unrow (filter (\<lambda>r. orID r \<notin> S) ys)" for ys
    by (induction ys) (auto simp: unrow_def OutboxRecord.defs)
  ultimately show ?thesis by (simp add: filter_sort)
qed

lemma map_orID_unrow: "map orID (map unrow xs) = map orID xs"
  by (simp add: unrow_def OutboxRecord.defs)

lemma map_orID_mark [simp]:
  "map (orID \<circ> (\<lambda>r. if orID r \<in> S then r\<lparr>orPublishedAt := Some t\<rparr> else r)) xs = map orID xs"
  by (induction xs) auto

interpretation pg_relay: relay_env outbox_pg Publish_log unsent_pg bus_log outbox_ok
  "db_calm :: 'a outbox_db_scheme \<Rightarrow> bool"
proof unfold_locales
  fix n w rs and w1 :: "'a outbox_db_scheme"
  assume "FetchUnsent outbox_pg n w = (Inr rs, w1)"
  then show "rs = take (nat n) (unsent_pg w)"
    by (auto simp: outbox_pg_def FetchUnsent_pg_def unsent_pg_def
        elim!: env_elims split: prod.splits sum.splits if_splits)
next
  fix n w x and w1 :: "'a outbox_db_scheme"
  assume "FetchUnsent outbox_pg n w = (x, w1)"
  then show "unsent_pg w1 = unsent_pg w \<and> bus_log w1 = bus_log w \<and> (outbox_ok w \<longrightarrow> outbox_ok w1)"
    by (auto simp: outbox_pg_def FetchUnsent_pg_def unsent_pg_def outbox_ok_def db_reject_def
        elim!: env_elims split: prod.splits sum.splits if_splits)
next
  fix ids w u and w1 :: "'a outbox_db_scheme"
  assume "MarkPublished outbox_pg ids w = (Inr u, w1)"
  then show "unsent_pg w1 = filter (\<lambda>r. orID r \<notin> set ids) (unsent_pg w)"
    by (auto simp: outbox_pg_def MarkPublished_pg_def unsent_pg_def unsent_pg_filter
        split: prod.splits sum.splits if_splits
        elim!: env_elims)
next
  fix ids w er and w1 :: "'a outbox_db_scheme"
  assume "MarkPublished outbox_pg ids w = (Inl er, w1)"
  then show "unsent_pg w1 = unsent_pg w"
    by (auto simp: outbox_pg_def MarkPublished_pg_def unsent_pg_def
        split: prod.splits sum.splits if_splits
        elim!: env_elims)
next
  fix ids w y and w1 :: "'a outbox_db_scheme"
  assume m: "MarkPublished outbox_pg ids w = (y, w1)"
  from m show "bus_log w1 = bus_log w \<and> (outbox_ok w \<longrightarrow> outbox_ok w1)"
    by (auto simp: outbox_pg_def MarkPublished_pg_def outbox_ok_def
        split: prod.splits sum.splits if_splits
        elim!: env_elims)
next
  fix w :: "'a outbox_db_scheme"
  assume "outbox_ok w"
  then have "distinct (map orID (filter (\<lambda>r. orPublishedAt r = None) (outbox_tbl w)))"
    by (simp add: outbox_ok_def distinct_map_filter)
  then show "distinct (map orID (unsent_pg w))"
    unfolding unsent_pg_def map_orID_unrow by (simp add: distinct_map)
next
  fix w :: "'a outbox_db_scheme" and n :: int
  assume "db_calm w" "0 \<le> n"
  then show "\<exists>rs w1. FetchUnsent outbox_pg n w = (Inr rs, w1) \<and> db_calm w1"
    by (simp add: outbox_pg_def FetchUnsent_pg_def db_call_calm)
next
  fix w :: "'a outbox_db_scheme" and ids
  assume c: "db_calm w"
  then have "db_calm (snd (time_now w))"
    by (auto simp: db_calm_def time_now_def split: list.splits)
  with c show "\<exists>w1. MarkPublished outbox_pg ids w = (Inr (), w1) \<and> db_calm w1"
    by (cases "time_now w")
      (auto simp: outbox_pg_def MarkPublished_pg_def db_call_calm db_calm_def)
qed (auto simp: Publish_log_def unsent_pg_def outbox_ok_def db_calm_def)

section \<open>Duplicate suppression\<close>

record 'w DedupStore =
  Exists :: "string \<Rightarrow> ('w, bool) io"
  Mark :: "string \<Rightarrow> ('w, unit) io"

text \<open>\<open>WithIdempotency\<close>: a failed \<open>Mark\<close> is only logged.\<close>

definition WithIdempotency ::
  "'w DedupStore \<Rightarrow> (event \<Rightarrow> ('w, unit) io) \<Rightarrow> event \<Rightarrow> ('w, unit) io" where
  "WithIdempotency store handler e w = (case Exists store (evID e) w of
       (Inl err, w1) \<Rightarrow> (Inl err, w1)
     | (Inr True, w1) \<Rightarrow> (Inr (), w1)
     | (Inr False, w1) \<Rightarrow>
         (case handler e w1 of
            (Inl err, w2) \<Rightarrow> (Inl err, w2)
          | (Inr _, w2) \<Rightarrow> (case Mark store (evID e) w2 of (_, w3) \<Rightarrow> (Inr (), w3))))"

definition Exists_pg :: "string \<Rightarrow> ('a outbox_db_scheme, bool) io" where
  "Exists_pg i w = (case db_call w of
       (Inl d, w1) \<Rightarrow> (Inl (Wrap ''dedup: exists check'' d), w1)
     | (Inr _, w1) \<Rightarrow> (Inr (i \<in> fst ` set (processed_events w1)), w1))"

definition Mark_pg :: "string \<Rightarrow> ('a outbox_db_scheme, unit) io" where
  "Mark_pg i w = (case time_now w of (now, w1) \<Rightarrow>
     (case db_call w1 of
        (Inl d, w2) \<Rightarrow> (Inl (Wrap (''dedup: mark event '' @ i) d), w2)
      | (Inr _, w2) \<Rightarrow>
          (Inr (), if i \<in> fst ` set (processed_events w2) then w2
                   else w2\<lparr>processed_events := processed_events w2 @ [(i, now)]\<rparr>)))"

definition dedup_pg :: "('a outbox_db_scheme) DedupStore" where
  "dedup_pg = \<lparr>Exists = Exists_pg, Mark = Mark_pg\<rparr>"

locale dedup_store =
  fixes ds :: "'w DedupStore" and marked :: "'w \<Rightarrow> string set"
  assumes exists_ok: "Exists ds i w = (Inr b, w1) \<Longrightarrow> b = (i \<in> marked w)"
    and exists_frame: "Exists ds i w = (x, w1) \<Longrightarrow> marked w1 = marked w"
    and mark_ok: "Mark ds i w = (Inr u, w1) \<Longrightarrow> marked w1 = insert i (marked w)"
    and mark_err: "Mark ds i w = (Inl er, w1) \<Longrightarrow> marked w1 = marked w"
begin

text \<open>A marked event never reaches the handler, and nothing but the lookup happens.\<close>

lemma skips_marked:
  assumes "evID e \<in> marked w"
  shows "WithIdempotency ds h e w =
    (case Exists ds (evID e) w of (Inl er, w1) \<Rightarrow> (Inl er, w1) | (Inr _, w1) \<Rightarrow> (Inr (), w1))"
proof (cases "Exists ds (evID e) w")
  case (Pair x w1)
  with assms show ?thesis
    by (cases x) (use exists_ok [of "evID e" w _ w1] in \<open>auto simp: WithIdempotency_def\<close>)
qed

text \<open>
  Events marked before stay marked, a failing handler leaves its event unmarked, and after a
  success the event is marked unless marking failed.
\<close>

lemma deliver_marks:
  assumes h: "\<And>w r w1. h e w = (r, w1) \<Longrightarrow> marked w1 = marked w"
    and run: "WithIdempotency ds h e w = (r, w')"
  shows "marked w \<subseteq> marked w' \<and> marked w' \<subseteq> insert (evID e) (marked w) \<and>
    (isl r \<longrightarrow> marked w' = marked w) \<and>
    ((\<forall>v. \<not> isl (fst (Mark ds (evID e) v))) \<longrightarrow> \<not> isl r \<longrightarrow> evID e \<in> marked w')"
proof (cases "Exists ds (evID e) w")
  case (Pair x w1)
  note m1 = exists_frame [OF Pair]
  show ?thesis
  proof (cases x)
    case (Inl er)
    with run Pair m1 show ?thesis by (auto simp: WithIdempotency_def)
  next
    case (Inr b)
    note b = exists_ok [OF Pair [unfolded Inr]]
    show ?thesis
    proof (cases "evID e \<in> marked w")
      case True
      with run Pair Inr b m1 show ?thesis by (auto simp: WithIdempotency_def)
    next
      case False
      obtain y w2 where y: "h e w1 = (y, w2)" by fastforce
      obtain z w3 where z: "Mark ds (evID e) w2 = (z, w3)" by fastforce
      have "marked w3 = (if isl z then marked w else insert (evID e) (marked w))"
        using z h [OF y] m1 mark_ok mark_err by (cases z) auto
      moreover have "r = (if isl y then r else Inr ()) \<and> w' = (if isl y then w2 else w3) \<and> isl r = isl y"
        using run Pair Inr b False y z by (auto simp: WithIdempotency_def split: sum.splits)
      moreover have "(\<forall>v. \<not> isl (fst (Mark ds (evID e) v))) \<Longrightarrow> \<not> isl z"
        using z by (metis fst_conv)
      ultimately show ?thesis using h [OF y] m1 by (auto split: if_splits)
    qed
  qed
qed

end

interpretation pg_dedup: dedup_store dedup_pg
  "\<lambda>w :: 'a outbox_db_scheme. fst ` set (processed_events w)"
  by unfold_locales
    (auto simp: dedup_pg_def Exists_pg_def Mark_pg_def elim!: env_elims
      split: prod.splits sum.splits if_splits)

end
