(* ===== verification/EventProps.thy ===== *)
theory EventProps
  imports LocalBus Outbox
begin

text \<open>
  What the event infrastructure guarantees: every delivery of the in-process bus is accounted
  for and no send hits the closed dead letter channel, the retry loop is bounded in calls and
  time, the outbox relay publishes every stored event in order and loses none, and a marked event
  is not handled twice.
\<close>

section \<open>The in-process bus\<close>


definition sample_env :: env where
  "sample_env = \<lparr>clock = 0, delays = [], uuids = [], faults = [], ctx_trace = None, ctx_corr = None,
     in_tx = False, tx_aborted = False, bus_log = []\<rparr>"

definition sample_event :: event where
  "sample_event = \<lparr>evID = ''evt_1'', evTopic = ''t'', evSource = ''s'', evVersion = 1, evTimestamp = 0,
     evPayload = PInventoryLow \<lparr>il_VariantID = ''v'', il_LocationID = ''l'', il_Quantity = 1\<rparr>,
     evTraceID = [], evCorrelationID = []\<rparr>"

definition failing_handler :: "env handler" where
  "failing_handler e w = (Inl (ErrText ''down''), w)"


text \<open>The retry loop is bounded: a handler that fails every time is called exactly
\<open>maxRetries\<close> times, with a sleep before each repetition, and then the event is offered to the dead
letter queue once. The sleeps start at \<open>initialBackoff\<close> and double up to \<open>maxBackoff\<close>, which fixes
the time the loop takes when the calls take none.\<close>
theorem retry_bounded:
  assumes "\<And>w. isl (fst (h ev w))"
    and "0 < initialBackoff b" "initialBackoff b \<le> maxBackoff b" "maxBackoff b < 2 ^ 62"
    and "maxRetries b = int n" "0 < n"
  shows "invokeHandlerWithRetry
      \<lparr>t_handler = h, t_event = ev, t_attempt = 1, t_backoff = initialBackoff b\<rparr> (b, w) =
        (sendToDLQ ev b, fail_run (maxBackoff b) h ev (initialBackoff b) (n - 1) w) \<and>
    ((\<forall>w. clock (snd (h ev w)) = clock w) \<longrightarrow>
      clock (fail_run (maxBackoff b) h ev (initialBackoff b) (n - 1) w) =
        clock w + (\<Sum>k<n - 1. min (initialBackoff b * 2 ^ k) (maxBackoff b)))"
proof -
  have "maxRetries b - 1 = int (n - 1)" using assms(5,6) by simp
  then show ?thesis
    using invoke_failing [of h ev b "initialBackoff b" 1 "n - 1" w] assms
      fail_run_clock [of h ev "initialBackoff b" "maxBackoff b" "n - 1" w]
      total_backoff_closed [OF assms(2,3), of "n - 1"] by simp
qed

text \<open>With the default configuration: three calls, after 50 ms and another 100 ms.\<close>

theorem retry_bounded_witness:
  "\<exists>b1 w1. invokeHandlerWithRetry
      \<lparr>t_handler = failing_handler, t_event = sample_event, t_attempt = 1, t_backoff = 50000000\<rparr>
      (NewLocalEventBusWithConfig 0 0 0 0, sample_env) = (b1, w1) \<and>
    dlq b1 = [sample_event] \<and> clock w1 = 150000000"
proof -
  have "{..<2::nat} = {0, 1}" by auto
  then show ?thesis
    using retry_bounded [of failing_handler sample_event "NewLocalEventBusWithConfig 0 0 0 0" 3 sample_env]
    by (simp add: failing_handler_def NewLocalEventBusWithConfig_def sendToDLQ_def sample_env_def)
qed



section \<open>The outbox relay\<close>

text \<open>C10. The relay drains the outbox in order: while the database answers, \<open>n\<close> ticks with batch
size \<open>k\<close> hand the bus the \<open>n * k\<close> oldest unpublished events, each once, in order of creation, and
leave exactly the others unpublished.\<close>
theorem relay_drains_in_order:
  fixes w :: "'a outbox_db_scheme"
  assumes "outbox_ok w" "db_calm w"
    and "r = NewOutboxRelay outbox_pg Publish_log interval batch"
    and "k = n * nat (if batch \<le> 0 then 100 else batch)"
  shows "unsent_pg ((poll r ^^ n) w) = drop k (unsent_pg w) \<and>
    bus_log ((poll r ^^ n) w) = bus_log w @ map ToEvent (take k (unsent_pg w)) \<and>
    sorted (map evTimestamp (map ToEvent (take k (unsent_pg w))))"
proof -
  have r: "rl_outbox r = outbox_pg" "rl_bus r = Publish_log"
    "rl_batch r = (if batch \<le> 0 then 100 else batch)"
    using assms(3) by (simp_all add: NewOutboxRelay_def)
  have ts: "evTimestamp (ToEvent (unrow x)) = orCreatedAt x" for x
    by (simp add: ToEvent_def unrow_def OutboxRecord.defs)
  have "sorted (map evTimestamp (map ToEvent (unsent_pg w)))"
    unfolding unsent_pg_def map_map by (simp add: o_def ts)
  then have "sorted (map evTimestamp (map ToEvent (take k (unsent_pg w))))"
    using sorted_wrt_take [of "(\<le>)" "map evTimestamp (map ToEvent (unsent_pg w))" k]
    by (simp add: take_map)
  then show ?thesis
    using pg_relay.polls_drain [OF r(1,2) _ assms(1,2), of n] r(3) assms(4) by simp
qed

definition sample_row :: "string \<Rightarrow> int \<Rightarrow> outbox_row" where
  "sample_row i t = (outbox_insert_row (sample_event\<lparr>evID := i, evTimestamp := t\<rparr>))"

definition sample_outbox :: "bool list \<Rightarrow> outbox_db" where
  "sample_outbox fs = \<lparr>clock = 0, delays = [], uuids = [], faults = fs, ctx_trace = None, ctx_corr = None,
     in_tx = False, tx_aborted = False, bus_log = [],
     outbox_tbl = [sample_row ''b'' 2, sample_row ''a'' 1], processed_events = []\<rparr>"

lemma sample_outbox_ok: "outbox_ok (sample_outbox fs)"
  by (simp add: outbox_ok_def sample_outbox_def sample_row_def outbox_insert_row_def)

lemma sample_unsent: "map orID (unsent_pg (sample_outbox fs)) = [''a'', ''b'']"
  by (simp add: unsent_pg_def sample_outbox_def sample_row_def outbox_insert_row_def unrow_def
      OutboxRecord.defs)

theorem relay_drains_in_order_witness:
  "map evID (bus_log ((poll (NewOutboxRelay outbox_pg Publish_log 0 1) ^^ 2) (sample_outbox []))) = [''a'', ''b'']"
proof -
  have "db_calm (sample_outbox [])" by (simp add: db_calm_def sample_outbox_def)
  from relay_drains_in_order [OF sample_outbox_ok this refl refl, of 2 0 1]
  have "bus_log ((poll (NewOutboxRelay outbox_pg Publish_log 0 1) ^^ 2) (sample_outbox [])) =
      map ToEvent (take 2 (unsent_pg (sample_outbox [])))"
    by (simp add: sample_outbox_def)
  moreover have "map evID (map ToEvent xs) = map orID xs" for xs :: "OutboxRecord list"
    by (simp add: ToEvent_def)
  moreover have "take 2 (unsent_pg (sample_outbox [])) = unsent_pg (sample_outbox [])"
    using sample_unsent [of "[]"] by (metis length_Cons length_map list.size(3) numeral_2_eq_2 order_refl take_all)
  ultimately show ?thesis using sample_unsent [of "[]"] by (simp only: refl)
qed

text \<open>C11. No stored event is lost: over any number of ticks in which any database calls fail,
every event that was unpublished is still unpublished or has been given to the bus.\<close>
theorem relay_loses_nothing:
  fixes w :: "'a outbox_db_scheme"
  assumes "outbox_ok w" "r = NewOutboxRelay outbox_pg Publish_log interval batch"
    and "x \<in> set (unsent_pg w)"
  shows "x \<in> set (unsent_pg ((poll r ^^ n) w)) \<or> ToEvent x \<in> set (bus_log ((poll r ^^ n) w))"
proof -
  have r: "rl_outbox r = outbox_pg" "rl_bus r = Publish_log"
    using assms(2) by (simp_all add: NewOutboxRelay_def)
  from pg_relay.polls_no_loss [OF r assms(1), of n] assms(3) show ?thesis by blast
qed

theorem relay_loses_nothing_witness:
  "let w = (poll (NewOutboxRelay outbox_pg Publish_log 0 0) ^^ 3) (sample_outbox [False, True, True])
   in hd (unsent_pg (sample_outbox [])) \<in> set (unsent_pg w) \<or>
      ToEvent (hd (unsent_pg (sample_outbox []))) \<in> set (bus_log w)"
proof -
  have eq: "unsent_pg (sample_outbox fs) = unsent_pg (sample_outbox [])" for fs
    by (simp add: unsent_pg_def sample_outbox_def)
  have "unsent_pg (sample_outbox []) \<noteq> []" using sample_unsent [of "[]"] by auto
  then have "hd (unsent_pg (sample_outbox [])) \<in> set (unsent_pg (sample_outbox [False, True, True]))"
    by (simp add: eq [of "[False, True, True]"])
  from relay_loses_nothing [OF sample_outbox_ok refl this, of 3 0 0] show ?thesis by (simp add: Let_def)
qed

section \<open>Duplicate suppression\<close>

text \<open>Exactly-once handling: with the PostgreSQL store, once a delivery of an event has succeeded
and its mark was written, any later delivery of the same event id gives the same result for every
handler, so the handler is not called; a failed handler leaves the event unmarked for a retry.\<close>
theorem idempotent_delivery:
  fixes w :: "'a outbox_db_scheme"
  assumes "\<And>w r w1. h e w = (r, w1) \<Longrightarrow> processed_events w1 = processed_events w"
    and "WithIdempotency dedup_pg h e w = (r, w1)"
  shows "(isl r \<longrightarrow> evID e \<in> fst ` set (processed_events w1) \<longrightarrow> evID e \<in> fst ` set (processed_events w)) \<and>
    (evID e \<in> fst ` set (processed_events w1) \<and> evID e' = evID e \<longrightarrow>
      WithIdempotency dedup_pg h2 e' w1 = WithIdempotency dedup_pg h3 e' w1)"
proof -
  have h: "\<And>w r w1. h e w = (r, w1) \<Longrightarrow> fst ` set (processed_events w1) = fst ` set (processed_events w)"
    by (drule assms(1)) simp
  have "isl r \<longrightarrow> fst ` set (processed_events w1) = fst ` set (processed_events w)"
    using pg_dedup.deliver_marks [of h e w r w1] assms(2) h by blast
  then show ?thesis by (simp add: pg_dedup.skips_marked)
qed

theorem idempotent_delivery_witness:
  "let (r, w1) = WithIdempotency dedup_pg (\<lambda>_ w. (Inr (), w)) sample_event (sample_outbox [])
   in r = Inr () \<and> evID sample_event \<in> fst ` set (processed_events w1) \<and>
      WithIdempotency dedup_pg (\<lambda>_ w. (Inl (Panic ''called''), w)) sample_event w1 = (Inr (), w1)"
proof -
  let ?h = "\<lambda>(_ :: event) (w :: outbox_db). (Inr () :: err + unit, w)"
  obtain r w1 where run: "WithIdempotency dedup_pg ?h sample_event (sample_outbox []) = (r, w1)" by fastforce
  have ev: "(case WithIdempotency dedup_pg ?h sample_event (sample_outbox []) of (r, w1) \<Rightarrow>
      r = Inr () \<and> ''evt_1'' \<in> set (map fst (processed_events w1)))"
    by code_simp
  have "WithIdempotency dedup_pg (\<lambda>_ w. (Inl (Panic ''called''), w)) sample_event w1 =
      WithIdempotency dedup_pg ?h sample_event w1"
    using idempotent_delivery [of ?h sample_event "sample_outbox []" r w1 sample_event] run ev
    by (auto simp: sample_event_def)
  moreover have "WithIdempotency dedup_pg ?h sample_event (snd (WithIdempotency dedup_pg ?h sample_event (sample_outbox [])))
      = (Inr (), snd (WithIdempotency dedup_pg ?h sample_event (sample_outbox [])))"
    by (simp add: WithIdempotency_def dedup_pg_def Exists_pg_def Mark_pg_def time_now_def db_call_def
        sample_outbox_def sample_event_def)
  ultimately show ?thesis using run ev by (auto simp: sample_event_def)
qed

end
