(* ===== verification/InventoryPg.thy ===== *)
theory InventoryPg
  imports Outbox InventoryServices
begin

text \<open>
  The PostgreSQL inventory repositories (\<open>internal/infra/db/postgres/inventory\<close>) over the tables
  of \<open>migrations/postgres/inventory\<close>, and the contracts of the services interpreted on them. The
  quantity columns are 32-bit: the driver and the server reject any other value. The composite
  primary key of \<open>stock_items\<close> and the key of \<open>reservations\<close> are the keys of the tables.
\<close>

record inv_db = outbox_db +
  stock_items :: "((string \<times> string) \<times> StockItem) list"
  reservations :: "(string \<times> Reservation) list"
  alerts :: "(string \<times> Alert) list"
  stock_history :: "(string \<times> StockHistory) list"

section \<open>Stock\<close>

definition GetStock_pg :: "string \<Rightarrow> string \<Rightarrow> ('a inv_db_scheme, StockItem) io" where
  "GetStock_pg v l w = (case db_call w of
       (Inl e, w1) \<Rightarrow> (Inl e, w1)
     | (Inr _, w1) \<Rightarrow> (case map_of (stock_items w1) (v, l) of
           None \<Rightarrow> (Inl ErrStockNotFound, w1)
         | Some s \<Rightarrow> (Inr s, w1)))"

definition SaveStock_pg :: "StockItem \<Rightarrow> ('a inv_db_scheme, unit) io" where
  "SaveStock_pg s w = (case db_call w of
       (Inl e, w1) \<Rightarrow> (Inl e, w1)
     | (Inr _, w1) \<Rightarrow>
         if \<not> stock_stored s then (Inl (DbError ''integer out of range''), db_reject w1)
         else (Inr (), w1\<lparr>stock_items := tbl_put (siVariantID s, siLocationID s) s (stock_items w1)\<rparr>))"

text \<open>
  \<open>AdjustQuantity\<close>: a conditional UPDATE; when it touches no row a second query tells a missing
  record from insufficient stock.
\<close>

definition AdjustQuantity_pg :: "string \<Rightarrow> string \<Rightarrow> int \<Rightarrow> ('a inv_db_scheme, unit) io" where
  "AdjustQuantity_pg v l delta w = (case db_call w of
       (Inl e, w1) \<Rightarrow> (Inl e, w1)
     | (Inr _, w1) \<Rightarrow>
         (case map_of (stock_items w1) (v, l) of
            Some s \<Rightarrow>
              if \<not> i32 delta \<or> \<not> i32 (siQuantity s + delta)
              then (Inl (DbError ''integer out of range''), db_reject w1)
              else if \<not> siAllowBackorders s \<and> siQuantity s + delta \<ge> 0 \<or>
                 siAllowBackorders s \<and> siQuantity s + delta \<ge> - siBackorderLimit s
              then (Inr (), w1\<lparr>stock_items :=
                tbl_put (v, l) (s\<lparr>siQuantity := siQuantity s + delta\<rparr>) (stock_items w1)\<rparr>)
              else (case GetStock_pg v l w1 of
                  (Inl e, w2) \<Rightarrow> (Inl (if errors_is e ErrStockNotFound then ErrStockNotFound else e), w2)
                | (Inr _, w2) \<Rightarrow> (Inl ErrInsufficientStock, w2))
          | None \<Rightarrow>
              if \<not> i32 delta then (Inl (DbError ''integer out of range''), db_reject w1)
              else (case GetStock_pg v l w1 of
                  (Inl e, w2) \<Rightarrow> (Inl (if errors_is e ErrStockNotFound then ErrStockNotFound else e), w2)
                | (Inr _, w2) \<Rightarrow> (Inl ErrInsufficientStock, w2))))"

section \<open>Reservations\<close>

definition CreateReservation_pg :: "Reservation \<Rightarrow> ('a inv_db_scheme, unit) io" where
  "CreateReservation_pg rv w = (case db_call w of
       (Inl e, w1) \<Rightarrow> (Inl e, w1)
     | (Inr _, w1) \<Rightarrow>
         if \<not> i32 (rvQuantity rv) then (Inl (DbError ''integer out of range''), db_reject w1)
         else if map_of (reservations w1) (rvID rv) \<noteq> None
         then (Inl ErrDuplicateReservation, db_reject w1)
         else (Inr (), w1\<lparr>reservations := tbl_put (rvID rv) rv (reservations w1)\<rparr>))"

definition GetReservation_pg :: "string \<Rightarrow> ('a inv_db_scheme, Reservation) io" where
  "GetReservation_pg i w = (case db_call w of
       (Inl e, w1) \<Rightarrow> (Inl e, w1)
     | (Inr _, w1) \<Rightarrow> (case map_of (reservations w1) i of
           None \<Rightarrow> (Inl ErrReservationNotFound, w1)
         | Some rv \<Rightarrow> (Inr rv, w1)))"

definition DeleteReservation_pg :: "string \<Rightarrow> ('a inv_db_scheme, unit) io" where
  "DeleteReservation_pg i w = (case db_call w of
       (Inl e, w1) \<Rightarrow> (Inl e, w1)
     | (Inr _, w1) \<Rightarrow>
         if map_of (reservations w1) i = None then (Inl ErrReservationNotFound, w1)
         else (Inr (), w1\<lparr>reservations := tbl_del i (reservations w1)\<rparr>))"

definition reservation_repo_pg :: "('a inv_db_scheme) reservation_repo" where
  "reservation_repo_pg = \<lparr>GetStock = GetStock_pg, SaveStock = SaveStock_pg,
     AdjustQuantity = AdjustQuantity_pg, CreateReservation = CreateReservation_pg,
     GetReservation = GetReservation_pg, DeleteReservation = DeleteReservation_pg\<rparr>"

definition transfer_repo_pg :: "('a inv_db_scheme) stock_repo" where
  "transfer_repo_pg = \<lparr>GetStock = GetStock_pg, SaveStock = SaveStock_pg,
     AdjustQuantity = AdjustQuantity_pg\<rparr>"

definition adjustment_repo_pg :: "('a inv_db_scheme) stock_repo" where
  "adjustment_repo_pg = \<lparr>GetStock = GetStock_pg, SaveStock = SaveStock_pg,
     AdjustQuantity = AdjustQuantity_pg\<rparr>"

text \<open>The services as the engine wires them: with the outbox enabled or publishing directly.\<close>

definition inv_service_pg :: "bool \<Rightarrow> ('a inv_db_scheme) inv_service" where
  "inv_service_pg outbox_on = \<lparr>iv_outbox = (if outbox_on then Some outbox_pg else None),
     iv_bus = Some Publish_log\<rparr>"

section \<open>The contracts hold\<close>

definition inv_tables_ok :: "'a inv_db_scheme \<Rightarrow> bool" where
  "inv_tables_ok w \<longleftrightarrow>
     (\<forall>k s. map_of (stock_items w) k = Some s \<longrightarrow> k = (siVariantID s, siLocationID s) \<and> stock_stored s) \<and>
     (\<forall>i rv. map_of (reservations w) i = Some rv \<longrightarrow> rvID rv = i \<and> i32 (rvQuantity rv)) \<and>
     tbl_ok (stock_items w) \<and> tbl_ok (reservations w)"

definition inv_up :: "'a inv_db_scheme \<Rightarrow> bool" where
  "inv_up w \<longleftrightarrow> db_calm w \<and> \<not> in_tx w \<and> inv_tables_ok w"

abbreviation stock_view :: "'a inv_db_scheme \<Rightarrow> string \<times> string \<Rightarrow> StockItem option" where
  "stock_view w \<equiv> map_of (stock_items w)"

abbreviation res_view :: "'a inv_db_scheme \<Rightarrow> string \<Rightarrow> Reservation option" where
  "res_view w \<equiv> map_of (reservations w)"

lemma inv_same_more:
  "env.more w1 = env.more (w :: 'a inv_db_scheme) \<Longrightarrow>
     stock_items w1 = stock_items w \<and> reservations w1 = reservations w"
  by (cases w; cases w1) simp

lemma emit_inv:
  fixes w :: "'a inv_db_scheme"
  shows "stock_items (emit (iv_outbox (inv_service_pg b)) (iv_bus (inv_service_pg b)) es w) = stock_items w"
    and "reservations (emit (iv_outbox (inv_service_pg b)) (iv_bus (inv_service_pg b)) es w) = reservations w"
proof -
  have f: "stock_items (fold Publish_log es w) = stock_items w \<and>
      reservations (fold Publish_log es w) = reservations w" for w :: "'a inv_db_scheme"
    by (induction es arbitrary: w) (auto simp: Publish_log_def)
  obtain x w1 where s: "Store_pg es w = (x, w1)" by fastforce
  then have "stock_items w1 = stock_items w \<and> reservations w1 = reservations w"
    by (auto elim!: Store_pgE)
  with f s show "stock_items (emit (iv_outbox (inv_service_pg b)) (iv_bus (inv_service_pg b)) es w) = stock_items w"
    "reservations (emit (iv_outbox (inv_service_pg b)) (iv_bus (inv_service_pg b)) es w) = reservations w"
    by (simp_all add: emit_def inv_service_pg_def outbox_pg_def)
qed

lemma emit_inv_up:
  fixes w :: "'a inv_db_scheme"
  assumes "inv_up w"
  shows "inv_up (emit (iv_outbox (inv_service_pg b)) (iv_bus (inv_service_pg b)) es w)"
proof -
  have "db_calm (fold Publish_log es w) \<and> \<not> in_tx (fold Publish_log es w)"
    if "db_calm w" "\<not> in_tx w" for w :: "'a inv_db_scheme"
    using that by (induction es arbitrary: w) (auto simp: Publish_log_def db_calm_def)
  with assms have "db_calm (emit (iv_outbox (inv_service_pg b)) (iv_bus (inv_service_pg b)) es w) \<and>
      \<not> in_tx (emit (iv_outbox (inv_service_pg b)) (iv_bus (inv_service_pg b)) es w)"
    using Store_pg_calm [of w es]
    by (auto simp: emit_def inv_service_pg_def outbox_pg_def inv_up_def)
  with assms show ?thesis by (simp add: inv_up_def inv_tables_ok_def emit_inv)
qed

lemma inv_up_stable:
  fixes w w1 :: "'a inv_db_scheme"
  assumes "faults w1 = faults w" "tx_aborted w1 = tx_aborted w" "in_tx w1 = in_tx w"
    "env.more w1 = env.more w"
  shows "inv_up w1 = inv_up w"
  using assms inv_same_more [OF assms(4)] by (simp add: inv_up_def db_calm_def inv_tables_ok_def)

lemma up_db_call [simp]: "inv_up w \<Longrightarrow> db_call w = (Inr (), w)"
  by (simp add: inv_up_def)

lemma inv_up_reject [simp]: "inv_up w \<Longrightarrow> inv_up (db_reject w)"
  by (simp add: inv_up_def db_reject_def db_calm_def inv_tables_ok_def)

lemma up_stock_row:
  "inv_up w \<Longrightarrow> stock_view w k = Some s \<Longrightarrow>
     k = (siVariantID s, siLocationID s) \<and> stock_stored s"
  unfolding inv_up_def inv_tables_ok_def by blast

lemma up_res_row: "inv_up w \<Longrightarrow> res_view w i = Some rv \<Longrightarrow> rvID rv = i \<and> i32 (rvQuantity rv)"
  by (simp add: inv_up_def inv_tables_ok_def)

lemma GetStock_pg_fx:
  assumes "GetStock_pg v l w = (x, w1)"
  shows "stock_view w1 = stock_view w \<and> res_view w1 = res_view w \<and> uuids w1 = uuids w \<and>
    (inv_up w \<longrightarrow> inv_up w1) \<and> (inv_up w \<longrightarrow> (isl x \<longleftrightarrow> stock_view w (v, l) = None)) \<and>
    (\<forall>s. x = Inr s \<longrightarrow> stock_view w (v, l) = Some s \<and>
       (inv_up w \<longrightarrow> siVariantID s = v \<and> siLocationID s = l \<and> stock_stored s))"
proof (cases "inv_up w")
  case True
  with assms show ?thesis
    by (auto simp: GetStock_pg_def dest: up_stock_row split: option.splits)
next
  case False
  with assms show ?thesis
    by (auto simp: GetStock_pg_def elim!: db_callE split: prod.splits sum.splits option.splits)
qed

lemma SaveStock_pg_fx:
  assumes "SaveStock_pg s w = (y, w1)"
  shows "uuids w1 = uuids w \<and> res_view w1 = res_view w \<and> (inv_up w \<longrightarrow> inv_up w1) \<and>
    (inv_up w \<longrightarrow> (isl y \<longleftrightarrow> \<not> stock_stored s)) \<and> (isl y \<longrightarrow> stock_view w1 = stock_view w) \<and>
    (\<not> isl y \<longrightarrow> stock_view w1 = (stock_view w)((siVariantID s, siLocationID s) \<mapsto> s) \<and> stock_stored s)"
proof (cases "inv_up w")
  case True
  have "inv_up (w\<lparr>stock_items := tbl_put (siVariantID s, siLocationID s) s (stock_items w)\<rparr>)"
    if "stock_stored s"
    using True that by (auto simp: inv_up_def inv_tables_ok_def db_calm_def map_of_put tbl)
  moreover have "uuids (db_reject w) = uuids w" "stock_items (db_reject w) = stock_items w"
    "reservations (db_reject w) = reservations w" by (simp_all add: db_reject_def)
  ultimately show ?thesis using True assms
    by (auto simp: SaveStock_pg_def map_of_put split: if_splits)
next
  case False
  with assms show ?thesis
    by (auto simp: SaveStock_pg_def db_reject_def map_of_put elim!: db_callE
        split: prod.splits sum.splits if_splits)
qed

lemma CreateReservation_pg_fx:
  assumes "CreateReservation_pg rv w = (y, w1)"
  shows "stock_view w1 = stock_view w \<and> (inv_up w \<longrightarrow> inv_up w1) \<and> (isl y \<longrightarrow> res_view w1 = res_view w) \<and>
    (\<not> isl y \<longrightarrow> res_view w (rvID rv) = None \<and> res_view w1 = (res_view w)(rvID rv \<mapsto> rv))"
proof (cases "inv_up w")
  case True
  have "inv_up (w\<lparr>reservations := tbl_put (rvID rv) rv (reservations w)\<rparr>)" if "i32 (rvQuantity rv)"
    using True that by (auto simp: inv_up_def inv_tables_ok_def db_calm_def map_of_put tbl)
  moreover have "stock_items (db_reject w) = stock_items w"
    "reservations (db_reject w) = reservations w" by (simp_all add: db_reject_def)
  ultimately show ?thesis using True assms
    by (auto simp: CreateReservation_pg_def map_of_put split: if_splits)
next
  case False
  with assms show ?thesis
    by (auto simp: CreateReservation_pg_def db_reject_def map_of_put elim!: db_callE
        split: prod.splits sum.splits if_splits)
qed

lemma GetReservation_pg_fx:
  assumes "GetReservation_pg i w = (z, w1)"
  shows "stock_view w1 = stock_view w \<and> res_view w1 = res_view w \<and> (inv_up w \<longrightarrow> inv_up w1) \<and>
    (\<forall>rv. z = Inr rv \<longrightarrow> res_view w i = Some rv \<and> (inv_up w \<longrightarrow> rvID rv = i \<and> i32 (rvQuantity rv)))"
proof (cases "inv_up w")
  case True
  with assms show ?thesis
    by (auto simp: GetReservation_pg_def dest: up_res_row split: option.splits)
next
  case False
  with assms show ?thesis
    by (auto simp: GetReservation_pg_def elim!: db_callE split: prod.splits sum.splits option.splits)
qed

lemma DeleteReservation_pg_fx:
  assumes "DeleteReservation_pg i w = (y, w1)"
  shows "stock_view w1 = stock_view w \<and> (inv_up w \<longrightarrow> inv_up w1) \<and> (isl y \<longrightarrow> res_view w1 = res_view w) \<and>
    (\<not> isl y \<longrightarrow> res_view w1 = (res_view w)(i := None))"
proof (cases "inv_up w")
  case True
  have "inv_up (w\<lparr>reservations := tbl_del i (reservations w)\<rparr>)"
    using True by (auto simp: inv_up_def inv_tables_ok_def db_calm_def map_of_del tbl)
  with True assms show ?thesis
    by (auto simp: DeleteReservation_pg_def map_of_del split: if_splits)
next
  case False
  with assms show ?thesis
    by (auto simp: DeleteReservation_pg_def map_of_del elim!: db_callE
        split: prod.splits sum.splits if_splits)
qed

lemma repo_sel:
  "GetStock transfer_repo_pg = GetStock_pg" "SaveStock transfer_repo_pg = SaveStock_pg"
  "GetStock adjustment_repo_pg = GetStock_pg" "SaveStock adjustment_repo_pg = SaveStock_pg"
  "GetStock reservation_repo_pg = GetStock_pg" "SaveStock reservation_repo_pg = SaveStock_pg"
  "CreateReservation reservation_repo_pg = CreateReservation_pg"
  "GetReservation reservation_repo_pg = GetReservation_pg"
  "DeleteReservation reservation_repo_pg = DeleteReservation_pg"
  by (simp_all add: transfer_repo_pg_def adjustment_repo_pg_def reservation_repo_pg_def)

lemma stock_store_pg:
  assumes "GetStock repo = (GetStock_pg :: _ \<Rightarrow> _ \<Rightarrow> ('a inv_db_scheme, _) io)" "SaveStock repo = SaveStock_pg"
  shows "stock_store repo (inv_service_pg b) (stock_view :: 'a inv_db_scheme \<Rightarrow> _) inv_up res_view"
  apply (rule stock_store.intro; (simp only: assms)?)
           apply (drule GetStock_pg_fx, blast)
          apply (drule SaveStock_pg_fx, blast)
         apply (drule GetStock_pg_fx, blast)
        apply (drule SaveStock_pg_fx, blast)
       apply (drule inv_same_more, simp)
      apply (simp only: emit_inv)
     apply (drule inv_same_more, simp)
    apply (rule inv_up_stable; assumption)
   apply (simp only: emit_inv)
  apply (erule emit_inv_up)
  done

interpretation pg_transfer: stock_store transfer_repo_pg "inv_service_pg b"
  "stock_view :: 'a inv_db_scheme \<Rightarrow> _" inv_up res_view
  by (rule stock_store_pg) (simp_all add: repo_sel)

interpretation pg_adjust: stock_store adjustment_repo_pg "inv_service_pg b"
  "stock_view :: 'a inv_db_scheme \<Rightarrow> _" inv_up res_view
  by (rule stock_store_pg) (simp_all add: repo_sel)

interpretation pg_res: reservation_store reservation_repo_pg "inv_service_pg b"
  "stock_view :: 'a inv_db_scheme \<Rightarrow> _" inv_up res_view
  apply (rule reservation_store.intro)
   apply (rule stock_store_pg; simp add: repo_sel)
  apply (rule reservation_store_axioms.intro; (simp only: repo_sel)?)
    apply (drule CreateReservation_pg_fx, blast)
   apply (drule GetReservation_pg_fx, blast)
  apply (drule DeleteReservation_pg_fx, blast)
  done

section \<open>Runs of the inventory\<close>

datatype inv_op =
    OpReserve string string int
  | OpRelease string
  | OpTransfer string string string int
  | OpIdle

text \<open>
  The operations in any order and with any arguments and outcomes, on a database that answers
  and with an identifier available to each reservation; in between, time passes and the
  identifier source, the event log and the outbox move on.
\<close>

inductive inv_step :: "bool \<Rightarrow> 'a inv_db_scheme \<Rightarrow> inv_op \<Rightarrow> 'a inv_db_scheme \<Rightarrow> bool" for b where
  reserve: "uuids w = Some u # us \<Longrightarrow> i64 n \<Longrightarrow>
    ReserveStock reservation_repo_pg (inv_service_pg b) v l n w = (r, w') \<Longrightarrow>
    inv_step b w (OpReserve v l n) w'"
| release: "ReleaseReservation reservation_repo_pg (inv_service_pg b) i w = (r, w') \<Longrightarrow>
    inv_step b w (OpRelease i) w'"
| transfer: "i64 n \<Longrightarrow> TransferStock transfer_repo_pg (inv_service_pg b) v l l' n w = (r, w') \<Longrightarrow>
    inv_step b w (OpTransfer v l l' n) w'"
| idle: "inv_step b w OpIdle (w\<lparr>clock := c, delays := ds, uuids := us, bus_log := bl, outbox_tbl := ob\<rparr>)"

inductive_cases inv_stepE: "inv_step b w p w'"

inductive inv_reach :: "bool \<Rightarrow> 'a inv_db_scheme \<Rightarrow> 'a inv_db_scheme \<Rightarrow> bool" for b where
  start: "inv_reach b w w"
| step: "inv_reach b w w1 \<Longrightarrow> inv_step b w1 p w2 \<Longrightarrow> inv_reach b w w2"

definition total_units :: "'a inv_db_scheme \<Rightarrow> int" where
  "total_units w = msum siQuantity (stock_view w) + msum rvQuantity (res_view w)"

lemma fin_views [simp]: "finite (dom (map_of t))"
  by (rule finite_dom_map_of)

lemma transfer_units:
  assumes "m k1 = Some s" "k1 \<noteq> k2" "finite (dom m)"
  shows "msum siQuantity (m(k1 \<mapsto> add_units (- n) s, k2 \<mapsto> add_units n (item_at m k2))) =
    msum siQuantity m"
  using assms by (simp add: msum_upd item_at_def split: option.split)

lemma step_units: "inv_step b w p w' \<Longrightarrow> inv_up w \<Longrightarrow> inv_up w' \<and> total_units w' = total_units w"
proof (induction rule: inv_step.induct)
  case (reserve w u us n v l r w')
  from pg_res.reserve_effect [OF reserve.hyps(3,2) reserve.prems reserve.hyps(1)]
  show ?case by (auto simp: total_units_def msum_upd)
next
  case (release i w r w')
  from pg_res.release_effect [OF release.hyps release.prems]
  show ?case by (auto simp: total_units_def msum_upd msum_del)
next
  case (transfer n v l l' w r w')
  from pg_transfer.transfer_effect [OF transfer.hyps(2,1) transfer.prems]
    pg_transfer.transfer_rest [OF transfer.hyps(2)]
  show ?case by (auto simp: total_units_def transfer_units)
next
  case (idle w c ds us bl ob)
  then show ?case by (simp add: inv_up_def db_calm_def inv_tables_ok_def total_units_def)
qed

end
