(* ===== verification/Csv.thy ===== *)
theory Csv
  imports Strconv
begin

text \<open>
  The records that \<open>encoding/csv.Writer\<close> writes with its default settings (comma, line feed), as
  the inventory export uses it, and a reader of that format as the specification of what a
  written record means. Text is ASCII, as elsewhere.
\<close>

section \<open>Writing\<close>

definition csv_special :: "char \<Rightarrow> bool" where
  "csv_special c \<longleftrightarrow> c = CHR 0x0A \<or> c = CHR 0x0D \<or> c = CHR 0x22 \<or> c = CHR '',''"

definition fieldNeedsQuotes :: "string \<Rightarrow> bool" where
  "fieldNeedsQuotes f \<longleftrightarrow> f \<noteq> [] \<and>
     (f = [CHR 0x5C, CHR ''.''] \<or> (\<exists>c\<in>set f. csv_special c) \<or>
      hd f \<in> {CHR 0x09, CHR 0x0A, CHR 0x0B, CHR 0x0C, CHR 0x0D, CHR '' ''})"

fun csv_escape :: "string \<Rightarrow> string" where
  "csv_escape [] = []"
| "csv_escape (c # cs) = (if c = CHR 0x22 then CHR 0x22 # CHR 0x22 # csv_escape cs else c # csv_escape cs)"

definition csv_field :: "string \<Rightarrow> string" where
  "csv_field f = (if fieldNeedsQuotes f then CHR 0x22 # csv_escape f @ [CHR 0x22] else f)"

fun csv_record :: "string list \<Rightarrow> string" where
  "csv_record [] = [CHR 0x0A]"
| "csv_record [f] = csv_field f @ [CHR 0x0A]"
| "csv_record (f # g # fs) = csv_field f @ CHR '','' # csv_record (g # fs)"

definition FormatBool :: "bool \<Rightarrow> string" where
  "FormatBool b = (if b then ''true'' else ''false'')"

section \<open>Reading\<close>

text \<open>The rest of a quoted field, up to a quote that is not doubled.\<close>

fun read_quoted :: "string \<Rightarrow> (string \<times> string) option" where
  "read_quoted [] = None"
| "read_quoted (c # cs) = (if c = CHR 0x22
     then (case cs of
         [] \<Rightarrow> Some ([], [])
       | d # ds \<Rightarrow>
           if d = CHR 0x22 then map_option (\<lambda>(f, r). (CHR 0x22 # f, r)) (read_quoted ds)
           else Some ([], d # ds))
     else map_option (\<lambda>(f, r). (c # f, r)) (read_quoted cs))"

definition in_plain :: "char \<Rightarrow> bool" where
  "in_plain c \<longleftrightarrow> c \<noteq> CHR '','' \<and> c \<noteq> CHR 0x0A"

definition read_field :: "string \<Rightarrow> (string \<times> string) option" where
  "read_field cs = (case cs of
       [] \<Rightarrow> Some ([], [])
     | c # ds \<Rightarrow> if c = CHR 0x22 then read_quoted ds else Some (takeWhile in_plain cs, dropWhile in_plain cs))"

lemma read_quoted_length: "read_quoted cs = Some (f, r) \<Longrightarrow> length r \<le> length cs"
proof (induction cs arbitrary: f rule: read_quoted.induct)
  case (2 c cs)
  then show ?case by (fastforce split: if_splits list.splits)
qed simp

lemma read_field_length: "read_field cs = Some (f, r) \<Longrightarrow> length r \<le> length cs"
  by (auto simp: read_field_def length_dropWhile_le split: list.splits if_splits
      dest: read_quoted_length intro: le_SucI order_trans [OF length_dropWhile_le])

function read_record :: "string \<Rightarrow> (string list \<times> string) option" where
  "read_record cs = (case read_field cs of
       None \<Rightarrow> None
     | Some (f, r) \<Rightarrow> (case r of
           [] \<Rightarrow> None
         | c # r1 \<Rightarrow>
             if c = CHR '','' then map_option (\<lambda>(fs, r2). (f # fs, r2)) (read_record r1)
             else if c = CHR 0x0A then Some ([f], r1) else None))"
  by pat_completeness auto
termination
  by (relation "measure length") (auto dest!: read_field_length)

declare read_record.simps [simp del]

lemma read_record_length: "read_record cs = Some (fs, r) \<Longrightarrow> length r < length cs"
proof (induction cs arbitrary: fs rule: read_record.induct)
  case (1 cs)
  from "1.prems" obtain f c r1 where f: "read_field cs = Some (f, c # r1)"
    and alt: "(if c = CHR '','' then map_option (\<lambda>(fs, r2). (f # fs, r2)) (read_record r1)
             else if c = CHR 0x0A then Some ([f], r1) else None) = Some (fs, r)"
    by (auto simp: read_record.simps [of cs] split: option.splits list.splits)
  have l: "length (c # r1) \<le> length cs" using f by (rule read_field_length)
  show ?case
  proof (cases "c = CHR '',''")
    case True
    with alt obtain gs where "read_record r1 = Some (gs, r)" by auto
    with "1.IH" [OF f refl refl True] l show ?thesis by fastforce
  next
    case False
    with alt l show ?thesis by (auto split: if_splits)
  qed
qed

function read_csv :: "string \<Rightarrow> string list list option" where
  "read_csv cs = (if cs = [] then Some [] else case read_record cs of
       None \<Rightarrow> None
     | Some (fs, r) \<Rightarrow> map_option ((#) fs) (read_csv r))"
  by pat_completeness auto
termination
  by (relation "measure length") (auto dest!: read_record_length)

declare read_csv.simps [simp del]

section \<open>What is written is read back\<close>

lemma read_quoted_escape:
  "r = [] \<or> hd r \<noteq> CHR 0x22 \<Longrightarrow> read_quoted (csv_escape f @ CHR 0x22 # r) = Some (f, r)"
  by (induction f rule: csv_escape.induct) (auto split: list.splits)

lemma read_written_field:
  assumes "r \<noteq> []" "hd r = CHR '','' \<or> hd r = CHR 0x0A"
  shows "read_field (csv_field f @ r) = Some (f, r)"
proof (cases "fieldNeedsQuotes f")
  case True
  with assms show ?thesis
    by (auto simp: csv_field_def read_field_def read_quoted_escape)
next
  case False
  then have p: "\<forall>c\<in>set f. in_plain c \<and> c \<noteq> CHR 0x22"
    by (auto simp: fieldNeedsQuotes_def csv_special_def in_plain_def)
  obtain c s where r: "r = c # s" "\<not> in_plain c" using assms by (cases r) (auto simp: in_plain_def)
  from p have "takeWhile in_plain (f @ r) = f \<and> dropWhile in_plain (f @ r) = r"
    using r by (auto simp: takeWhile_append dropWhile_append)
  with False p r assms(2) show ?thesis
    by (cases f) (auto simp: csv_field_def read_field_def)
qed

lemma read_written_record: "fs \<noteq> [] \<Longrightarrow> read_record (csv_record fs @ r) = Some (fs, r)"
proof (induction fs rule: csv_record.induct)
  case (2 f)
  then show ?case by (subst read_record.simps) (simp add: read_written_field)
next
  case (3 f g fs)
  then show ?case by (subst read_record.simps) (simp add: read_written_field)
qed simp

lemma csv_record_not_Nil: "csv_record fs \<noteq> []"
  by (cases fs rule: csv_record.cases) auto

lemma read_written_csv: "(\<forall>fs\<in>set rs. fs \<noteq> []) \<Longrightarrow> read_csv (concat (map csv_record rs)) = Some rs"
proof (induction rs)
  case Nil
  then show ?case by (simp add: read_csv.simps)
next
  case (Cons fs rs)
  then show ?case
    by (subst read_csv.simps) (simp add: read_written_record csv_record_not_Nil)
qed

end
