(* ===== verification/InventoryStock.thy ===== *)
theory InventoryStock
  imports InventoryServices Csv
begin

text \<open>
  The inventory services that read, set and report stock: levels, configuration and alerts
  (\<open>features/core\<close>), bulk updates (\<open>features/bulk\<close>), synchronisation with an external system
  (\<open>features/sync\<close>), the history of changes (\<open>features/history\<close>) and the reports
  (\<open>features/reports\<close>). Each is a function of its repository and, where it publishes, of the
  outbox and bus.
\<close>

section \<open>Dependencies\<close>

record ListStockFilter =
  lfVariantID :: string
  lfLocationID :: string
  lfStatus :: string
  lfLimit :: int
  lfOffset :: int

record 'w core_repo = "'w stock_repo" +
  cDeleteStock :: "string \<Rightarrow> string \<Rightarrow> ('w, unit) io"
  cListStock :: "ListStockFilter \<Rightarrow> ('w, StockItem list) io"
  cSaveAlert :: "Alert \<Rightarrow> ('w, unit) io"
  cListAlerts :: "int \<Rightarrow> int \<Rightarrow> ('w, Alert list) io"

record 'w history_repo =
  hCreateHistory :: "StockHistory \<Rightarrow> ('w, unit) io"
  hGetHistory :: "string \<Rightarrow> int \<Rightarrow> int \<Rightarrow> ('w, StockHistory list) io"

record 'w reports_repo =
  rGetLowStockItems :: "('w, StockItem list) io"
  rGetAllStockItems :: "('w, StockItem list) io"

type_synonym 'w alert_dispatcher = "Alert \<Rightarrow> ('w, unit) io" \<comment> \<open>\<open>AlertDispatcher.Dispatch\<close>\<close>

section \<open>Levels, configuration and alerts\<close>

text \<open>The lookup that treats every error as a missing record.\<close>

definition stock_or_default ::
  "('w, 'r) stock_repo_scheme \<Rightarrow> string \<Rightarrow> string \<Rightarrow> 'w \<Rightarrow> StockItem \<times> 'w" where
  "stock_or_default repo v l w = (case GetStock repo v l w of
       (Inl _, w1) \<Rightarrow> (default_stock v l, w1)
     | (Inr s, w1) \<Rightarrow> (s, w1))"

definition DashboardDispatch :: "('w, 'r) core_repo_scheme \<Rightarrow> 'w alert_dispatcher" where
  "DashboardDispatch repo alert w = (case cSaveAlert repo alert w of
       (Inl e, w1) \<Rightarrow> (Inl e, w1)
     | (Inr _, w1) \<Rightarrow> (Inr (), w1))"

definition low_stock_message :: "StockItem \<Rightarrow> string" where
  "low_stock_message s = ''Stock for variant '' @ siVariantID s
     @ '' has fallen below threshold. Current stock: '' @ itoa (siQuantity s)"

text \<open>The threshold is replaced in memory only: the record is already saved. Errors are logged.\<close>

definition effective_threshold :: "StockItem \<Rightarrow> StockItem" where
  "effective_threshold s =
     (if siLowStockThreshold s \<le> 0 then s\<lparr>siLowStockThreshold := DefaultLowStockThreshold\<rparr> else s)"

definition checkAndDispatchAlert ::
  "('a env_scheme) alert_dispatcher \<Rightarrow> StockItem \<Rightarrow> 'a env_scheme \<Rightarrow> 'a env_scheme" where
  "checkAndDispatchAlert dispatch s0 w = (let s = effective_threshold s0 in
     if IsLowStock s then
       (case Generate ''alt_'' w of
          (Inl e, w1) \<Rightarrow> w1
        | (Inr i, w1) \<Rightarrow> (case time_now w1 of (now, w2) \<Rightarrow>
            snd (dispatch \<lparr>alID = i, alType = ''LOW_STOCK'', alMessage = low_stock_message s,
              alVariantID = siVariantID s, alCreatedAt = now, alIsRead = False\<rparr> w2)))
     else w)"

definition UpdateStock ::
  "('a env_scheme, 'r) core_repo_scheme \<Rightarrow> ('a env_scheme) alert_dispatcher \<Rightarrow>
   string \<Rightarrow> string \<Rightarrow> int \<Rightarrow> ('a env_scheme, unit) io" where
  "UpdateStock repo dispatch v l0 qty w =
    (case stock_or_default repo v (default_loc l0) w of (stock0, w1) \<Rightarrow>
     (case Update qty stock0 of
        Inl e \<Rightarrow> (Inl (if errors_is e ErrInvalidQuantity
                       then NewBadRequest ''stock quantity cannot be negative'' (Some ErrInvalidQuantity)
                       else NewBadRequest ''stock update failed validation'' (Some e)), w1)
      | Inr stock \<Rightarrow>
        (case SaveStock repo stock w1 of
           (Inl e, w2) \<Rightarrow> (Inl (NewInternal ''failed to save stock levels'' (Some e)), w2)
         | (Inr _, w2) \<Rightarrow> (Inr (), checkAndDispatchAlert dispatch stock w2))))"

definition CheckStock ::
  "('a env_scheme, 'r) core_repo_scheme \<Rightarrow> string \<Rightarrow> string \<Rightarrow> ('a env_scheme, int) io" where
  "CheckStock repo v l0 w = (case GetStock repo v (default_loc l0) w of
       (Inl e, w1) \<Rightarrow> (Inr 0, w1)
     | (Inr s, w1) \<Rightarrow> (Inr (siQuantity s), w1))"

definition DeleteStock ::
  "('a env_scheme, 'r) core_repo_scheme \<Rightarrow> string \<Rightarrow> string \<Rightarrow> ('a env_scheme, unit) io" where
  "DeleteStock repo v l0 w = (case cDeleteStock repo v (default_loc l0) w of
       (Inl e, w1) \<Rightarrow> (Inl (NewInternal ''failed to delete stock'' (Some e)), w1)
     | (Inr _, w1) \<Rightarrow> (Inr (), w1))"

definition ListStock ::
  "('a env_scheme, 'r) core_repo_scheme \<Rightarrow> ListStockFilter \<Rightarrow> ('a env_scheme, StockItem list) io" where
  "ListStock repo flt w = (case cListStock repo flt w of
       (Inl e, w1) \<Rightarrow> (Inl (NewInternal ''failed to retrieve stock list'' (Some e)), w1)
     | (Inr ss, w1) \<Rightarrow> (Inr ss, w1))"

definition ListAlerts ::
  "('a env_scheme, 'r) core_repo_scheme \<Rightarrow> int \<Rightarrow> int \<Rightarrow> ('a env_scheme, Alert list) io" where
  "ListAlerts repo limit offset w = (case cListAlerts repo limit offset w of
       (Inl e, w1) \<Rightarrow> (Inl (NewInternal ''failed to retrieve alerts'' (Some e)), w1)
     | (Inr as, w1) \<Rightarrow> (Inr as, w1))"

record ConfigureStockSettings =
  cfVariantID :: string
  cfLocationID :: string
  cfQuantity :: "int option"
  cfLowStockThreshold :: "int option"
  cfAllowBackorders :: "bool option"
  cfBackorderLimit :: "int option"

text \<open>The settings that are present, applied to the item; the quantity is validated first.\<close>

definition apply_settings :: "ConfigureStockSettings \<Rightarrow> StockItem \<Rightarrow> err + StockItem" where
  "apply_settings cf s0 =
    (case (case cfQuantity cf of None \<Rightarrow> Inr s0 | Some q \<Rightarrow> Update q s0) of
       Inl e \<Rightarrow> Inl e
     | Inr s1 \<Rightarrow>
        let s2 = (case cfLowStockThreshold cf of None \<Rightarrow> s1 | Some t \<Rightarrow> s1\<lparr>siLowStockThreshold := t\<rparr>);
            s3 = (case cfAllowBackorders cf of None \<Rightarrow> s2 | Some b \<Rightarrow> s2\<lparr>siAllowBackorders := b\<rparr>);
            s4 = (case cfBackorderLimit cf of None \<Rightarrow> s3 | Some n \<Rightarrow> s3\<lparr>siBackorderLimit := n\<rparr>)
        in Inr s4)"

definition ConfigureStock ::
  "('a env_scheme, 'r) core_repo_scheme \<Rightarrow> ('a env_scheme) alert_dispatcher \<Rightarrow>
   ConfigureStockSettings \<Rightarrow> ('a env_scheme, unit) io" where
  "ConfigureStock repo dispatch cf w =
    (case stock_or_default repo (cfVariantID cf) (default_loc (cfLocationID cf)) w of (stock0, w1) \<Rightarrow>
     (case apply_settings cf stock0 of
        Inl e \<Rightarrow> (Inl e, w1)
      | Inr stock \<Rightarrow>
        (case SaveStock repo stock w1 of
           (Inl e, w2) \<Rightarrow> (Inl (NewInternal ''failed to save stock settings'' (Some e)), w2)
         | (Inr _, w2) \<Rightarrow> (Inr (), checkAndDispatchAlert dispatch stock w2))))"

section \<open>Bulk updates\<close>

record UpdateItem =
  uiVariantID :: string
  uiLocationID :: string
  uiQuantity :: int

fun BulkUpdate ::
  "('a env_scheme, 'r) stock_repo_scheme \<Rightarrow> UpdateItem list \<Rightarrow> ('a env_scheme, unit) io" where
  "BulkUpdate repo [] w = (Inr (), w)"
| "BulkUpdate repo (it # its) w =
    (case stock_or_default repo (uiVariantID it) (default_loc (uiLocationID it)) w of (stock0, w1) \<Rightarrow>
     (case Update (uiQuantity it) stock0 of
        Inl e \<Rightarrow> (Inl (NewBadRequest ''bulk update item validation failed'' (Some e)), w1)
      | Inr stock \<Rightarrow>
        (case SaveStock repo stock w1 of
           (Inl e, w2) \<Rightarrow> (Inl (NewInternal ''bulk update database error'' (Some e)), w2)
         | (Inr _, w2) \<Rightarrow> BulkUpdate repo its w2)))"

section \<open>Synchronisation\<close>

text \<open>The code recognises a missing record by the text of the error.\<close>

definition isNotFoundError :: "err \<Rightarrow> bool" where
  "isNotFoundError e \<longleftrightarrow> err_string e = ''mongo: no documents in result'' \<or>
     err_string e = ''not found'' \<or> err_string e = ''sql: no rows in result set'' \<or>
     err_string e = ''stock item not found''"

definition SyncStock ::
  "('a env_scheme, 'r) stock_repo_scheme \<Rightarrow> ('a env_scheme) inv_service \<Rightarrow>
   string \<Rightarrow> string \<Rightarrow> int \<Rightarrow> ('a env_scheme, unit) io" where
  "SyncStock repo svc v l0 qty w = (let l = default_loc l0 in
     case GetStock repo v l w of (g, w1) \<Rightarrow>
     (case (case g of Inr s \<Rightarrow> Inr s | Inl e \<Rightarrow> if isNotFoundError e then Inr (default_stock v l) else Inl e) of
        Inl e \<Rightarrow> (Inl (NewInternal ''failed to retrieve stock level during sync'' (Some e)), w1)
      | Inr stock0 \<Rightarrow>
     (case Update qty stock0 of
        Inl e \<Rightarrow> (Inl (NewBadRequest ''invalid sync quantity'' (Some e)), w1)
      | Inr stock \<Rightarrow>
     (case SaveStock repo stock w1 of
        (Inl e, w2) \<Rightarrow> (Inl (NewInternal ''failed to save stock sync level'' (Some e)), w2)
      | (Inr _, w2) \<Rightarrow>
     (case NewEventFromCtx InventoryStockChangedTopic ''inventory''
             (stock_payload v l (siQuantity stock0) qty ''sync:external'' ''sync_service'') w2 of
        (Inl p, w3) \<Rightarrow> (Inl p, w3)
      | (Inr evt, w3) \<Rightarrow> (Inr (), emit (iv_outbox svc) (iv_bus svc) [evt] w3))))))"

section \<open>History\<close>

text \<open>The zero value of \<open>time.Time\<close> in nanoseconds of the clock.\<close>

definition zero_time :: int where "zero_time = - 62135596800 * 1000000000"

definition RecordHistory ::
  "('a env_scheme) history_repo \<Rightarrow> StockHistory \<Rightarrow> ('a env_scheme, unit) io" where
  "RecordHistory repo h0 w =
    (case (if shID h0 \<noteq> [] then (Inr (shID h0), w) else Generate ''hist_'' w) of
       (Inl e, w1) \<Rightarrow> (Inl e, w1)
     | (Inr i, w1) \<Rightarrow>
       (case (if shChangedAt h0 \<noteq> zero_time then (shChangedAt h0, w1) else time_now w1) of (t, w2) \<Rightarrow>
        hCreateHistory repo (h0\<lparr>shID := i, shChangedAt := t\<rparr>) w2))"

definition handleStockChanged ::
  "('a env_scheme) history_repo \<Rightarrow> event \<Rightarrow> ('a env_scheme, unit) io" where
  "handleStockChanged repo ev w = (case AsStockChangedRef ev of
       None \<Rightarrow> (Inr (), w)
     | Some p \<Rightarrow> (case Generate ''hist_'' w of
           (Inl e, w1) \<Rightarrow> (Inl e, w1)
         | (Inr i, w1) \<Rightarrow> RecordHistory repo
             \<lparr>shID = i, shVariantID = sc_VariantID p, shLocationID = sc_LocationID p,
              shOldQuantity = sc_OldQuantity p, shNewQuantity = sc_NewQuantity p,
              shChangeReason = sc_ChangeReason p, shChangedBy = sc_ChangedBy p,
              shChangedAt = evTimestamp ev\<rparr> w1))"

definition GetHistory ::
  "('a env_scheme) history_repo \<Rightarrow> string \<Rightarrow> int \<Rightarrow> int \<Rightarrow> ('a env_scheme, StockHistory list) io" where
  "GetHistory repo v limit offset = hGetHistory repo v limit offset"

section \<open>Reports\<close>

definition GetLowStockReport :: "('a env_scheme) reports_repo \<Rightarrow> ('a env_scheme, StockItem list) io" where
  "GetLowStockReport repo w = (case rGetLowStockItems repo w of
       (Inl e, w1) \<Rightarrow> (Inl (NewInternal ''failed to generate low stock report'' (Some e)), w1)
     | (Inr ss, w1) \<Rightarrow> (Inr ss, w1))"

definition csv_header :: "string list" where
  "csv_header = [''Variant ID'', ''Location ID'', ''Quantity'', ''Low Stock Threshold'',
     ''Allow Backorders'', ''Backorder Limit'']"

definition csv_row :: "StockItem \<Rightarrow> string list" where
  "csv_row s = [siVariantID s, siLocationID s, itoa (siQuantity s), itoa (siLowStockThreshold s),
     FormatBool (siAllowBackorders s), itoa (siBackorderLimit s)]"

text \<open>Writing to a \<open>bytes.Buffer\<close> does not fail.\<close>

definition ExportInventoryCSV :: "('a env_scheme) reports_repo \<Rightarrow> ('a env_scheme, string) io" where
  "ExportInventoryCSV repo w = (case rGetAllStockItems repo w of
       (Inl e, w1) \<Rightarrow> (Inl (NewInternal ''failed to retrieve stock items for CSV export'' (Some e)), w1)
     | (Inr ss, w1) \<Rightarrow> (Inr (concat (map csv_record (csv_header # map csv_row ss))), w1))"

section \<open>The services against the contract of their repositories\<close>

text \<open>What one accepted bulk item does to the stock, and which items are accepted.\<close>

definition bulk_valid :: "UpdateItem \<Rightarrow> bool" where
  "bulk_valid it \<longleftrightarrow> 0 \<le> uiQuantity it \<and> i32 (uiQuantity it)"

definition set_level ::
  "string \<times> string \<Rightarrow> int \<Rightarrow> (string \<times> string \<Rightarrow> StockItem option) \<Rightarrow> string \<times> string \<Rightarrow> StockItem option" where
  "set_level k q m = m(k \<mapsto> (item_at m k)\<lparr>siQuantity := q\<rparr>)"

definition bulk_apply ::
  "UpdateItem \<Rightarrow> (string \<times> string \<Rightarrow> StockItem option) \<Rightarrow> string \<times> string \<Rightarrow> StockItem option" where
  "bulk_apply it = set_level (uiVariantID it, default_loc (uiLocationID it)) (uiQuantity it)"

lemma stock_stored_level: "stock_stored s \<Longrightarrow> stock_stored (s\<lparr>siQuantity := q\<rparr>) \<longleftrightarrow> i32 q"
  by (auto simp: stock_stored_def)

context stock_store begin

lemma stock_or_default_fx:
  assumes "stock_or_default repo v l w = (s, w1)"
  shows "uuids w1 = uuids w \<and> stock_of w1 = stock_of w \<and> rest w1 = rest w \<and> (up w \<longrightarrow> up w1 \<and>
    s = item_at (stock_of w) (v, l) \<and> siVariantID s = v \<and> siLocationID s = l \<and> stock_stored s)"
proof (cases "GetStock repo v l w")
  case (Pair x w2)
  with assms get_fx [OF Pair] get_rest [OF Pair] show ?thesis
    by (auto simp: stock_or_default_def item_at_def split: sum.splits)
qed

text \<open>Saving a new level of the item that was read.\<close>

lemma save_level:
  assumes "stock_or_default repo v l w = (s, w1)" "SaveStock repo (s\<lparr>siQuantity := q\<rparr>) w1 = (y, w2)" "up w"
  shows "up w2 \<and> uuids w2 = uuids w \<and> rest w2 = rest w \<and>
    (if i32 q then \<not> isl y \<and> stock_of w2 = set_level (v, l) q (stock_of w)
     else isl y \<and> stock_of w2 = stock_of w)"
  using stock_or_default_fx [OF assms(1)] save_fx [OF assms(2)] save_rest [OF assms(2)] assms(3)
  by (auto simp: set_level_def stock_stored_level)

lemma bulk_effect:
  assumes "BulkUpdate repo its w = (r, w')" "up w"
  shows "up w' \<and> rest w' = rest w \<and> stock_of w' = fold bulk_apply (takeWhile bulk_valid its) (stock_of w) \<and>
    (isl r \<longleftrightarrow> \<not> list_all bulk_valid its)"
  using assms
proof (induction its arbitrary: w)
  case Nil
  then show ?case by auto
next
  case (Cons it its)
  let ?l = "default_loc (uiLocationID it)"
  obtain s w1 where g: "stock_or_default repo (uiVariantID it) ?l w = (s, w1)" by fastforce
  note fx = stock_or_default_fx [OF g]
  show ?case
  proof (cases "uiQuantity it < 0")
    case True
    with Cons.prems g fx show ?thesis by (auto simp: Update_def bulk_valid_def)
  next
    case False
    obtain y w2 where sv: "SaveStock repo (s\<lparr>siQuantity := uiQuantity it\<rparr>) w1 = (y, w2)" by fastforce
    note lv = save_level [OF g sv Cons.prems(2)]
    show ?thesis
    proof (cases "i32 (uiQuantity it)")
      case i: True
      with lv obtain u where y: "y = Inr u" by (cases y) auto
      have "BulkUpdate repo its w2 = (r, w')" using Cons.prems(1) g sv y False by (simp add: Update_def)
      with Cons.IH [OF this] lv i False show ?thesis by (simp add: bulk_valid_def bulk_apply_def)
    next
      case i: False
      with lv obtain e where y: "y = Inl e" by (cases y) auto
      with Cons.prems(1) g sv i False lv show ?thesis by (auto simp: Update_def bulk_valid_def)
    qed
  qed
qed

end

text \<open>
  The repository of the core service also stores alerts: \<open>alerts_of\<close> is its alert table, which
  the calls on stock leave alone, and a new alert becomes its entry.
\<close>

locale core_store = stock_store repo svc stock_of up rest
  for repo :: "('a env_scheme, 'r) core_repo_scheme" and svc stock_of up and rest :: "'a env_scheme \<Rightarrow> 'k" +
  fixes alerts_of :: "'a env_scheme \<Rightarrow> string \<Rightarrow> Alert option"
  assumes alert_fx: "cSaveAlert repo al w = (y, w1) \<Longrightarrow> up w \<Longrightarrow> alerts_of w (alID al) = None \<Longrightarrow>
        up w1 \<and> stock_of w1 = stock_of w \<and> alerts_of w1 = (alerts_of w)(alID al \<mapsto> al)"
    and get_alerts: "GetStock repo v l w = (x, w1) \<Longrightarrow> alerts_of w1 = alerts_of w"
    and save_alerts: "SaveStock repo s w = (y, w1) \<Longrightarrow> alerts_of w1 = alerts_of w"
    and alerts_stable: "env.more w1 = env.more w \<Longrightarrow> alerts_of w1 = alerts_of w"
begin

lemma alerts_env [simp]:
  "alerts_of (w\<lparr>clock := c\<rparr>) = alerts_of w" "alerts_of (w\<lparr>delays := d\<rparr>) = alerts_of w"
  "alerts_of (w\<lparr>uuids := u\<rparr>) = alerts_of w"
  by (rule alerts_stable; simp)+

lemma check_alert:
  assumes "up w" "uuids w = Some u # us" "alerts_of w (''alt_'' @ u) = None"
  shows "stock_of (checkAndDispatchAlert (DashboardDispatch repo) s w) = stock_of w \<and>
    (if siQuantity s \<le> siLowStockThreshold (effective_threshold s)
     then \<exists>t. alerts_of (checkAndDispatchAlert (DashboardDispatch repo) s w) = (alerts_of w)(''alt_'' @ u \<mapsto>
       \<lparr>alID = ''alt_'' @ u, alType = ''LOW_STOCK'', alMessage = low_stock_message s,
        alVariantID = siVariantID s, alCreatedAt = t, alIsRead = False\<rparr>)
     else alerts_of (checkAndDispatchAlert (DashboardDispatch repo) s w) = alerts_of w)"
proof -
  have q: "siQuantity (effective_threshold s) = siQuantity s"
    "low_stock_message (effective_threshold s) = low_stock_message s"
    "siVariantID (effective_threshold s) = siVariantID s"
    by (simp_all add: effective_threshold_def low_stock_message_def)
  show ?thesis
  proof (cases "siQuantity s \<le> siLowStockThreshold (effective_threshold s)")
    case False
    then show ?thesis by (simp add: checkAndDispatchAlert_def Let_def IsLowStock_def q)
  next
    case True
    obtain t w2 where tm: "time_now (w\<lparr>uuids := us\<rparr>) = (t, w2)" by fastforce
    then have w2: "up w2" "stock_of w2 = stock_of w" "alerts_of w2 = alerts_of w"
      using assms(1) by (auto elim!: time_nowE)
    let ?al = "\<lparr>alID = ''alt_'' @ u, alType = ''LOW_STOCK'', alMessage = low_stock_message s,
        alVariantID = siVariantID s, alCreatedAt = t, alIsRead = False\<rparr>"
    obtain y w3 where sa: "cSaveAlert repo ?al w2 = (y, w3)" by fastforce
    have "snd (DashboardDispatch repo ?al w2) = w3"
      using sa by (simp add: DashboardDispatch_def split: sum.split)
    then have "checkAndDispatchAlert (DashboardDispatch repo) s w = w3"
      using True tm assms(2) by (simp add: checkAndDispatchAlert_def Let_def IsLowStock_def q Generate_def)
    with alert_fx [OF sa] w2 assms(3) True show ?thesis by auto
  qed
qed

lemma update_effect:
  assumes run: "UpdateStock repo (DashboardDispatch repo) v l0 q w = (r, w')" and up: "up w"
    and u: "uuids w = Some u # us" "alerts_of w (''alt_'' @ u) = None"
  defines "k \<equiv> (v, default_loc l0)"
  shows "if 0 \<le> q \<and> i32 q
    then r = Inr () \<and> stock_of w' = set_level k q (stock_of w) \<and>
      (if q \<le> siLowStockThreshold (effective_threshold (item_at (stock_of w) k))
       then \<exists>t. alerts_of w' = (alerts_of w)(''alt_'' @ u \<mapsto>
         \<lparr>alID = ''alt_'' @ u, alType = ''LOW_STOCK'',
          alMessage = low_stock_message ((item_at (stock_of w) k)\<lparr>siQuantity := q\<rparr>),
          alVariantID = v, alCreatedAt = t, alIsRead = False\<rparr>)
       else alerts_of w' = alerts_of w)
    else isl r \<and> stock_of w' = stock_of w \<and> alerts_of w' = alerts_of w"
proof -
  obtain s w1 where g: "stock_or_default repo v (default_loc l0) w = (s, w1)" by fastforce
  note fx = stock_or_default_fx [OF g]
  have a1: "alerts_of w1 = alerts_of w"
    using g by (auto simp: stock_or_default_def split: prod.splits sum.splits dest: get_alerts)
  show ?thesis
  proof (cases "q < 0")
    case True
    with run g fx a1 show ?thesis by (auto simp: UpdateStock_def Update_def)
  next
    case False
    obtain y w2 where sv: "SaveStock repo (s\<lparr>siQuantity := q\<rparr>) w1 = (y, w2)" by fastforce
    note lv = save_level [OF g sv up] and a2 = save_alerts [OF sv]
    show ?thesis
    proof (cases "i32 q")
      case i: False
      with lv obtain e where "y = Inl e" by (cases y) auto
      with run g sv i False lv a1 a2 show ?thesis by (auto simp: UpdateStock_def Update_def)
    next
      case i: True
      with lv obtain x where "y = Inr x" by (cases y) auto
      with run g sv False have r: "r = Inr ()"
        "w' = checkAndDispatchAlert (DashboardDispatch repo) (s\<lparr>siQuantity := q\<rparr>) w2"
        by (auto simp: UpdateStock_def Update_def)
      have "siLowStockThreshold (effective_threshold (s\<lparr>siQuantity := q\<rparr>)) =
          siLowStockThreshold (effective_threshold s)" by (simp add: effective_threshold_def)
      moreover have s: "item_at (stock_of w) (v, default_loc l0) = s" "siVariantID s = v" using fx up by auto
      moreover have "up w2" "uuids w2 = Some u # us" "alerts_of w2 (''alt_'' @ u) = None"
        "alerts_of w2 = alerts_of w" "stock_of w2 = set_level (v, default_loc l0) q (stock_of w)"
        using lv i u a1 a2 by simp_all
      ultimately show ?thesis
        using check_alert [of w2 u us "s\<lparr>siQuantity := q\<rparr>"] i False unfolding k_def s(1) r by auto
    qed
  qed
qed

end

end
