(* ===== verification/InventoryStockPg.thy ===== *)
theory InventoryStockPg
  imports InventoryPg InventoryStock
begin

text \<open>
  The PostgreSQL repositories of the stock, bulk, sync, history and report services
  (\<open>internal/infra/db/postgres/inventory\<close>), and the contract of the stock service interpreted on
  them. The reads of stock and the writes of one record are, word for word, those of
  \<open>InventoryPg\<close>. A query without ORDER BY returns the rows in an order that is not specified;
  here it is the order of the table, and no property depends on it.
\<close>

section \<open>Stock and alerts\<close>

definition DeleteStock_pg :: "string \<Rightarrow> string \<Rightarrow> ('a inv_db_scheme, unit) io" where
  "DeleteStock_pg v l w = (case db_call w of
       (Inl e, w1) \<Rightarrow> (Inl e, w1)
     | (Inr _, w1) \<Rightarrow>
         if map_of (stock_items w1) (v, l) = None then (Inl ErrStockNotFound, w1)
         else (Inr (), w1\<lparr>stock_items := tbl_del (v, l) (stock_items w1)\<rparr>))"

text \<open>The WHERE clause that \<open>ListStock\<close> assembles from the filter.\<close>

definition stock_matches :: "ListStockFilter \<Rightarrow> StockItem \<Rightarrow> bool" where
  "stock_matches f s \<longleftrightarrow> (lfVariantID f \<noteq> [] \<longrightarrow> siVariantID s = lfVariantID f) \<and>
     (lfLocationID f \<noteq> [] \<longrightarrow> siLocationID s = lfLocationID f) \<and>
     (lfStatus f = ''LOW_STOCK'' \<longrightarrow> siQuantity s \<le> siLowStockThreshold s)"

definition ListStock_pg :: "ListStockFilter \<Rightarrow> ('a inv_db_scheme, StockItem list) io" where
  "ListStock_pg f w = (case db_call w of
       (Inl e, w1) \<Rightarrow> (Inl e, w1)
     | (Inr _, w1) \<Rightarrow>
         let rows = filter (stock_matches f) (map snd (stock_items w1));
             skipped = (if lfOffset f > 0 then drop (nat (lfOffset f)) rows else rows)
         in (Inr (if lfLimit f > 0 then take (nat (lfLimit f)) skipped else skipped), w1))"

text \<open>On a conflict the upsert keeps the stored \<open>is_read\<close>.\<close>

definition SaveAlert_pg :: "Alert \<Rightarrow> ('a inv_db_scheme, unit) io" where
  "SaveAlert_pg al w = (case db_call w of
       (Inl e, w1) \<Rightarrow> (Inl e, w1)
     | (Inr _, w1) \<Rightarrow>
         (Inr (), w1\<lparr>alerts := tbl_put (alID al)
            (case map_of (alerts w1) (alID al) of None \<Rightarrow> al | Some old \<Rightarrow> al\<lparr>alIsRead := alIsRead old\<rparr>)
            (alerts w1)\<rparr>))"

definition ListAlerts_pg :: "int \<Rightarrow> int \<Rightarrow> ('a inv_db_scheme, Alert list) io" where
  "ListAlerts_pg limit offset w = (case db_call w of
       (Inl e, w1) \<Rightarrow> (Inl e, w1)
     | (Inr _, w1) \<Rightarrow>
         if limit < 0 \<or> offset < 0 then (Inl (DbError ''LIMIT must not be negative''), db_reject w1)
         else (Inr (sql_page limit offset (sort_key (\<lambda>a. - alCreatedAt a) (map snd (alerts w1)))), w1))"

definition core_repo_pg :: "('a inv_db_scheme) core_repo" where
  "core_repo_pg = \<lparr>GetStock = GetStock_pg, SaveStock = SaveStock_pg, AdjustQuantity = AdjustQuantity_pg,
     cDeleteStock = DeleteStock_pg, cListStock = ListStock_pg, cSaveAlert = SaveAlert_pg,
     cListAlerts = ListAlerts_pg\<rparr>"

definition bulk_repo_pg :: "('a inv_db_scheme) stock_repo" where
  "bulk_repo_pg = \<lparr>GetStock = GetStock_pg, SaveStock = SaveStock_pg, AdjustQuantity = AdjustQuantity_pg\<rparr>"

definition sync_repo_pg :: "('a inv_db_scheme) stock_repo" where
  "sync_repo_pg = \<lparr>GetStock = GetStock_pg, SaveStock = SaveStock_pg, AdjustQuantity = AdjustQuantity_pg\<rparr>"

section \<open>History and reports\<close>

definition CreateHistory_pg :: "StockHistory \<Rightarrow> ('a inv_db_scheme, unit) io" where
  "CreateHistory_pg h w = (case db_call w of
       (Inl e, w1) \<Rightarrow> (Inl e, w1)
     | (Inr _, w1) \<Rightarrow>
         if \<not> i32 (shOldQuantity h) \<or> \<not> i32 (shNewQuantity h)
         then (Inl (DbError ''integer out of range''), db_reject w1)
         else if map_of (stock_history w1) (shID h) \<noteq> None
         then (Inl (DbError ''duplicate key''), db_reject w1)
         else (Inr (), w1\<lparr>stock_history := stock_history w1 @ [(shID h, h)]\<rparr>))"

definition GetHistory_pg :: "string \<Rightarrow> int \<Rightarrow> int \<Rightarrow> ('a inv_db_scheme, StockHistory list) io" where
  "GetHistory_pg v limit offset w = (case db_call w of
       (Inl e, w1) \<Rightarrow> (Inl e, w1)
     | (Inr _, w1) \<Rightarrow>
         if limit < 0 \<or> offset < 0 then (Inl (DbError ''LIMIT must not be negative''), db_reject w1)
         else (Inr (sql_page limit offset (sort_key (\<lambda>h. - shChangedAt h)
           (filter (\<lambda>h. shVariantID h = v) (map snd (stock_history w1))))), w1))"

definition history_repo_pg :: "('a inv_db_scheme) history_repo" where
  "history_repo_pg = \<lparr>hCreateHistory = CreateHistory_pg, hGetHistory = GetHistory_pg\<rparr>"

definition GetLowStockItems_pg :: "('a inv_db_scheme, StockItem list) io" where
  "GetLowStockItems_pg w = (case db_call w of
       (Inl e, w1) \<Rightarrow> (Inl e, w1)
     | (Inr _, w1) \<Rightarrow>
         (Inr (filter (\<lambda>s. siQuantity s \<le> siLowStockThreshold s) (map snd (stock_items w1))), w1))"

definition GetAllStockItems_pg :: "('a inv_db_scheme, StockItem list) io" where
  "GetAllStockItems_pg w = (case db_call w of
       (Inl e, w1) \<Rightarrow> (Inl e, w1)
     | (Inr _, w1) \<Rightarrow> (Inr (map snd (stock_items w1)), w1))"

definition reports_repo_pg :: "('a inv_db_scheme) reports_repo" where
  "reports_repo_pg = \<lparr>rGetLowStockItems = GetLowStockItems_pg, rGetAllStockItems = GetAllStockItems_pg\<rparr>"

section \<open>The contracts hold\<close>

lemma stock_repo_sel [simp]:
  "GetStock core_repo_pg = GetStock_pg" "SaveStock core_repo_pg = SaveStock_pg"
  "GetStock bulk_repo_pg = GetStock_pg" "SaveStock bulk_repo_pg = SaveStock_pg"
  "GetStock sync_repo_pg = GetStock_pg" "SaveStock sync_repo_pg = SaveStock_pg"
  "cSaveAlert core_repo_pg = SaveAlert_pg" "cListStock core_repo_pg = ListStock_pg"
  "cListAlerts core_repo_pg = ListAlerts_pg" "cDeleteStock core_repo_pg = DeleteStock_pg"
  by (simp_all add: core_repo_pg_def bulk_repo_pg_def sync_repo_pg_def)

interpretation pg_bulk: stock_store bulk_repo_pg "inv_service_pg b"
  "stock_view :: 'a inv_db_scheme \<Rightarrow> _" inv_up res_view
  by (rule stock_store_pg) simp_all

interpretation pg_sync: stock_store sync_repo_pg "inv_service_pg b"
  "stock_view :: 'a inv_db_scheme \<Rightarrow> _" inv_up res_view
  by (rule stock_store_pg) simp_all

abbreviation alert_view :: "'a inv_db_scheme \<Rightarrow> string \<Rightarrow> Alert option" where
  "alert_view w \<equiv> map_of (alerts w)"

lemma SaveAlert_pg_fx:
  assumes "SaveAlert_pg al w = (y, w1)" "inv_up w" "alert_view w (alID al) = None"
  shows "inv_up w1 \<and> stock_view w1 = stock_view w \<and> alert_view w1 = (alert_view w)(alID al \<mapsto> al)"
  using assms by (auto simp: SaveAlert_pg_def map_of_put inv_up_def inv_tables_ok_def db_calm_def)

lemma stock_calls_alerts:
  "GetStock_pg v l w = (x, w1) \<Longrightarrow> alert_view w1 = alert_view w"
  "SaveStock_pg s w = (y, w1) \<Longrightarrow> alert_view w1 = alert_view w"
  by (auto simp: GetStock_pg_def SaveStock_pg_def db_reject_def elim!: db_callE
      split: prod.splits sum.splits option.splits if_splits)

lemma alerts_same_more: "env.more w1 = env.more (w :: 'a inv_db_scheme) \<Longrightarrow> alerts w1 = alerts w"
  by (cases w; cases w1) simp

interpretation pg_core: core_store core_repo_pg "inv_service_pg b"
  "stock_view :: 'a inv_db_scheme \<Rightarrow> _" inv_up res_view alert_view
  apply (rule core_store.intro)
   apply (rule stock_store_pg; simp)
  apply (rule core_store_axioms.intro; (simp only: stock_repo_sel)?)
     apply (rule SaveAlert_pg_fx; assumption)
    apply (rule stock_calls_alerts; assumption)
   apply (rule stock_calls_alerts; assumption)
  apply (drule alerts_same_more, simp)
  done

section \<open>Single calls under any failures\<close>

lemma GetStock_pg_any:
  assumes "GetStock_pg v l w = (x, w1)"
  shows "env.more w1 = env.more w \<and> (\<forall>s. x = Inr s \<longrightarrow> stock_view w (v, l) = Some s) \<and>
    (\<forall>e. x = Inl e \<longrightarrow> isNotFoundError e \<longrightarrow> stock_view w (v, l) = None)"
proof -
  have db: "\<not> isNotFoundError (DbError ''driver error'')"
    "\<not> isNotFoundError (DbError ''current transaction is aborted'')"
    by (simp_all add: isNotFoundError_def)
  show ?thesis
  proof (cases "db_call w")
    case (Pair y w2)
    then have y: "y = Inl e \<Longrightarrow> \<not> isNotFoundError e" for e
      using db by (auto simp: db_call_def split: if_splits list.splits)
    from Pair obtain f a where "w2 = w\<lparr>faults := f, tx_aborted := a\<rparr>" by (rule db_callE)
    with assms Pair y show ?thesis by (auto simp: GetStock_pg_def split: sum.splits option.splits)
  qed
qed

lemma SaveStock_pg_any:
  assumes "SaveStock_pg s w = (y, w1)"
  shows "(isl y \<longrightarrow> env.more w1 = env.more w) \<and>
    (\<not> isl y \<longrightarrow> stock_view w1 = (stock_view w)((siVariantID s, siLocationID s) \<mapsto> s) \<and> stock_stored s)"
  using assms by (auto simp: SaveStock_pg_def db_reject_def map_of_put elim!: db_callE
      split: prod.splits sum.splits if_splits)

lemma CreateHistory_pg_any:
  assumes "CreateHistory_pg h w = (y, w1)"
  shows "(isl y \<longrightarrow> env.more w1 = env.more w) \<and>
    (\<not> isl y \<longrightarrow> map_of (stock_history w) (shID h) = None \<and> stock_history w1 = stock_history w @ [(shID h, h)])"
  using assms by (auto simp: CreateHistory_pg_def db_reject_def elim!: db_callE
      split: prod.splits sum.splits if_splits)

end
