(* ===== verification/InventoryProps.thy ===== *)
theory InventoryProps
  imports InventoryPg
begin

text \<open>
  What the inventory guarantees on PostgreSQL: units are conserved and never oversold over any
  run of reservations, releases and transfers; releasing undoes reserving; the conditional UPDATE
  of \<open>AdjustQuantity\<close> keeps the floor; and the two places where a failure changes stock that
  the operation reports as untouched.
\<close>

section \<open>Invariants of runs\<close>

definition stock_safe :: "'a inv_db_scheme \<Rightarrow> bool" where
  "stock_safe w \<longleftrightarrow>
     (\<forall>k s. stock_view w k = Some s \<longrightarrow> 0 \<le> siBackorderLimit s \<and> stock_floor s \<le> siQuantity s) \<and>
     (\<forall>i rv. res_view w i = Some rv \<longrightarrow> 0 < rvQuantity rv)"


lemma limit_add_units [simp]: "siBackorderLimit (add_units n s) = siBackorderLimit s"
  by (simp add: add_units_def)


lemma stock_safe_upd:
  "stock_safe w \<Longrightarrow> stock_view w' = (stock_view w)(k \<mapsto> s) \<Longrightarrow> res_view w' = res_view w \<Longrightarrow>
   0 \<le> siBackorderLimit s \<Longrightarrow> stock_floor s \<le> siQuantity s \<Longrightarrow> stock_safe w'"
  by (simp add: stock_safe_def)



section \<open>Properties\<close>

text \<open>A small database for the concrete runs below.\<close>

definition sample_item :: StockItem where
  "sample_item = \<lparr>siVariantID = ''v1'', siLocationID = ''default'', siQuantity = 10,
     siLowStockThreshold = 5, siAllowBackorders = False, siBackorderLimit = 0\<rparr>"

definition sample_inv :: "string option list \<Rightarrow> bool list \<Rightarrow> inv_db" where
  "sample_inv us fs = \<lparr>clock = 0, delays = [], uuids = us, faults = fs, ctx_trace = None,
     ctx_corr = None, in_tx = False, tx_aborted = False, bus_log = [], outbox_tbl = [],
     processed_events = [], stock_items = [((''v1'', ''default''), sample_item)],
     reservations = [], alerts = [], stock_history = []\<rparr>"

lemma sample_inv_up: "inv_up (sample_inv us [])"
  by (simp add: inv_up_def db_calm_def inv_tables_ok_def sample_inv_def sample_item_def
      stock_stored_def i32_def tbl_ok_def)






text \<open>Releasing undoes reserving: after a successful reservation, releasing it brings back
exactly the stock table and the reservations of before, up to an error that leaves it reserved.\<close>
theorem release_undoes_reserve:
  assumes "ReserveStock reservation_repo_pg (inv_service_pg b) v l n w = (Inr rv, w1)"
    and "ReleaseReservation reservation_repo_pg (inv_service_pg b) (rvID rv) w1 = (Inr u, w2)"
    and "i64 n" "inv_up w" "uuids w = Some i # us"
  shows "stock_view w2 = stock_view w \<and> res_view w2 = res_view w"
proof -
  obtain s where s: "stock_view w (v, default_loc l) = Some s"
    "stock_view w1 = (stock_view w)((v, default_loc l) \<mapsto> add_units (- n) s)"
    "res_view w (rvID rv) = None" "res_view w1 = (res_view w)(rvID rv \<mapsto> rv)" "inv_up w1"
    "rvVariantID rv = v" "rvLocationID rv = default_loc l" "rvQuantity rv = n"
    using pg_res.reserve_effect [OF assms(1,3,4,5)] by auto
  from pg_res.release_effect [OF assms(2) s(5)] s
  have "stock_view w2 = (stock_view w)((v, default_loc l) \<mapsto> add_units n (add_units (- n) s))"
    "res_view w2 = (res_view w)(rvID rv := None)" by auto
  moreover have "add_units n (add_units (- n) s) = s" by (simp add: add_units_def)
  ultimately show ?thesis using s(1,3) by (auto simp: map_upd_triv)
qed

theorem release_undoes_reserve_witness:
  "\<exists>rv w1 w2. ReserveStock reservation_repo_pg (inv_service_pg False) ''v1'' [] 10
       (sample_inv [Some ''a'', Some ''b'', Some ''c''] []) = (Inr rv, w1) \<and>
     ReleaseReservation reservation_repo_pg (inv_service_pg False) (rvID rv) w1 = (Inr (), w2) \<and>
     stock_view w2 (''v1'', ''default'') = Some sample_item \<and> res_view w2 = Map.empty"
proof -
  let ?w = "sample_inv [Some ''a'', Some ''b'', Some ''c''] []"
  obtain r w1 where run: "ReserveStock reservation_repo_pg (inv_service_pg False) ''v1'' [] 10 ?w = (r, w1)"
    by fastforce
  obtain r2 w2 where run2: "ReleaseReservation reservation_repo_pg (inv_service_pg False) ''res_a'' w1 = (r2, w2)"
    by fastforce
  have "(case ReserveStock reservation_repo_pg (inv_service_pg False) ''v1'' [] 10 ?w of
      (Inr rv, w1) \<Rightarrow> rvID rv = ''res_a'' \<and>
        \<not> isl (fst (ReleaseReservation reservation_repo_pg (inv_service_pg False) ''res_a'' w1))
    | _ \<Rightarrow> False)" by code_simp
  with run run2 obtain rv where ok: "r = Inr rv" "rvID rv = ''res_a''" "r2 = Inr ()"
    by (cases r; cases r2) auto
  have "stock_view w2 = stock_view ?w \<and> res_view w2 = res_view ?w"
    by (rule release_undoes_reserve [of False "''v1''" "[]" 10 ?w rv w1 "()" w2 "''a''"])
      (use run run2 ok sample_inv_up in \<open>auto simp: i64_def sample_inv_def\<close>)
  then show ?thesis using run run2 ok by (auto simp: sample_inv_def)
qed

text \<open>Units leak when the identifier source fails: the stock is already decremented and saved
when \<open>ReserveStock\<close> asks for the reservation id, and this error path, unlike the next two, writes
nothing back. The caller gets a 500, no reservation exists, and the units are gone.\<close>
theorem reserve_leaks_without_id:
  assumes "inv_up w" "uuids w = []" "stock_view w (v, default_loc l) = Some s"
    and "0 < n" "n \<le> siQuantity s" "\<not> siAllowBackorders s"
  shows "\<exists>e w'. ReserveStock reservation_repo_pg (inv_service_pg b) v l n w = (Inl e, w') \<and>
     http_status e = 500 \<and> res_view w' = res_view w \<and> total_units w' = total_units w - n"
proof -
  let ?k = "(v, default_loc l)"
  have k: "?k = (siVariantID s, siLocationID s)" "stock_stored s"
    using up_stock_row [OF assms(1,3)] by auto
  have wr: "wrap64 (siQuantity s - n) = siQuantity s - n" and st: "stock_stored (add_units (- n) s)"
    using k(2) assms(4,5) by (simp_all add: stock_stored_def i32_def i64_def add_units_def)
  let ?w1 = "w\<lparr>stock_items := tbl_put ?k (add_units (- n) s) (stock_items w)\<rparr>"
  have res: "Reserve n s = Inr (add_units (- n) s)"
    using assms(4-6) wr by (simp add: Reserve_def add_units_def)
  have get: "GetStock_pg v (default_loc l) w = (Inr s, w)"
    using assms(1,3) by (simp add: GetStock_pg_def)
  have save: "SaveStock_pg (add_units (- n) s) w = (Inr (), ?w1)"
    using assms(1) st k by (simp add: SaveStock_pg_def)
  have "ReserveStock reservation_repo_pg (inv_service_pg b) v l n w =
      (Inl (NewInternal ''failed to generate reservation ID''
        (Some (Wrap ''idgen: failed to generate UUIDv7'' (DbError ''uuid'')))), ?w1)"
    using assms(2) by (simp add: ReserveStock_def Let_def repo_sel get save res Generate_def)
  moreover have "total_units ?w1 = total_units w - n"
    using assms(3) by (simp add: total_units_def map_of_put msum_upd)
  ultimately show ?thesis by (simp add: NewInternal_def)
qed

theorem reserve_leaks_without_id_witness:
  "\<exists>e w'. ReserveStock reservation_repo_pg (inv_service_pg False) ''v1'' [] 4 (sample_inv [] []) = (Inl e, w') \<and>
     http_status e = 500 \<and> total_units w' = 6"
proof -
  have "total_units (sample_inv [] []) = 10"
    by (simp add: total_units_def msum_def sample_inv_def sample_item_def)
  then show ?thesis
    using reserve_leaks_without_id [of "sample_inv [] []" "''v1''" "[]" sample_item 4 False, OF sample_inv_up]
    by (auto simp: sample_inv_def sample_item_def default_loc_def)
qed

text \<open>The atomic update: on a database that answers, \<open>AdjustQuantity\<close> succeeds exactly when
the row exists and the new quantity stays at or above the row's floor (within the 32-bit column);
then it changes that quantity and nothing else, and otherwise it changes nothing and tells a
missing row from insufficient stock.\<close>
theorem AdjustQuantity_spec:
  assumes "inv_up w" "i32 d"
  shows "(case stock_view w (v, l) of
      None \<Rightarrow> AdjustQuantity_pg v l d w = (Inl ErrStockNotFound, w)
    | Some s \<Rightarrow>
        if \<not> i32 (siQuantity s + d) then
          (\<exists>m. AdjustQuantity_pg v l d w = (Inl (DbError m), db_reject w))
        else if stock_floor s \<le> siQuantity s + d then
          (\<exists>w'. AdjustQuantity_pg v l d w = (Inr (), w') \<and>
             stock_view w' = (stock_view w)((v, l) \<mapsto> add_units d s) \<and> res_view w' = res_view w)
        else AdjustQuantity_pg v l d w = (Inl ErrInsufficientStock, w))"
  using assms
  by (auto simp: AdjustQuantity_pg_def GetStock_pg_def stock_floor_def map_of_put add_units_def
      split: option.splits)

theorem AdjustQuantity_spec_witness:
  "AdjustQuantity_pg ''v1'' ''default'' (- 11) (sample_inv [] []) =
     (Inl ErrInsufficientStock, sample_inv [] [])"
  using AdjustQuantity_spec [OF sample_inv_up, of "- 11" "''v1''" "''default''" "[]"]
  by (simp add: sample_inv_def sample_item_def i32_def stock_floor_def)

text \<open>A failed read is taken for a missing record: when the lookup of \<open>AdjustStock\<close> fails and
the write succeeds, an adjustment by \<open>n\<close> replaces the stored record, settings included, by a fresh
one with quantity \<open>n\<close>.\<close>
theorem adjust_overwrites_on_failed_read:
  assumes "faults w = [True]" "\<not> tx_aborted w" "\<not> in_tx w" "0 \<le> n" "i32 n" "reason \<noteq> []"
    and "AdjustStock adjustment_repo_pg (inv_service_pg b) v l n reason w = (r, w')"
  shows "stock_view w' (v, default_loc l) = Some ((default_stock v (default_loc l))\<lparr>siQuantity := n\<rparr>)"
proof -
  let ?w1 = "w\<lparr>faults := [], tx_aborted := False\<rparr>" and ?s = "(default_stock v (default_loc l))\<lparr>siQuantity := n\<rparr>"
  let ?w2 = "?w1\<lparr>stock_items := tbl_put (v, default_loc l) ?s (stock_items w)\<rparr>"
  have get: "GetStock_pg v (default_loc l) w = (Inl (DbError ''driver error''), ?w1)"
    using assms(1-3) by (simp add: GetStock_pg_def db_call_def)
  have st: "stock_stored ?s"
    using assms(5) by (simp add: stock_stored_def default_stock_def DefaultLowStockThreshold_def i32_def)
  have upd: "Update n (default_stock v (default_loc l)) = Inr ?s"
    using assms(4) by (simp add: Update_def)
  have save: "SaveStock_pg ?s ?w1 = (Inr (), ?w2)"
    using st by (simp add: SaveStock_pg_def db_call_def default_stock_def)
  have "stock_items w' = stock_items ?w2"
    using assms(5-7) upd
    by (auto simp: AdjustStock_def Let_def repo_sel get save i32_i64 emit_inv
        split: prod.splits sum.splits elim!: NewEventFromCtxE)
  then show ?thesis by (simp add: map_of_put)
qed

theorem adjust_overwrites_on_failed_read_witness:
  "\<exists>w'. AdjustStock adjustment_repo_pg (inv_service_pg False) ''v1'' [] 1 ''recount'' (sample_inv [Some ''a''] [True])
      = (Inr (), w') \<and> map_option siQuantity (stock_view w' (''v1'', ''default'')) = Some 1"
proof -
  let ?w = "sample_inv [Some ''a''] [True]"
  obtain r w' where run: "AdjustStock adjustment_repo_pg (inv_service_pg False) ''v1'' [] 1 ''recount'' ?w = (r, w')"
    by fastforce
  have "\<not> isl (fst (AdjustStock adjustment_repo_pg (inv_service_pg False) ''v1'' [] 1 ''recount'' ?w))"
    by code_simp
  moreover have "stock_view w' (''v1'', default_loc []) = Some ((default_stock ''v1'' (default_loc []))\<lparr>siQuantity := 1\<rparr>)"
    by (rule adjust_overwrites_on_failed_read [OF _ _ _ _ _ _ run]) (simp_all add: sample_inv_def i32_def)
  ultimately show ?thesis using run by (cases r) (auto simp: default_loc_def)
qed

end
