(* ===== verification/InventoryStockProps.thy ===== *)
theory InventoryStockProps
  imports InventoryStockPg InventoryProps
begin

text \<open>
  What the stock, bulk, sync, history and report services guarantee on PostgreSQL: the level that
  is set and the alert that follows, how far a bulk update gets, that synchronisation never loses
  settings, that the history records what changed, and that the reports tell the truth.
\<close>

section \<open>Setting levels\<close>

text \<open>Setting a stock level, while the database answers: an acceptable quantity becomes the level of
that one record, keeping its settings (a missing record starts from the defaults), and an unread
low-stock alert with the new level is stored exactly when the level is at or below the threshold,
where a threshold that is not positive counts as five. A quantity that is negative or does not fit
the column changes nothing.\<close>
theorem stock_level_and_alert:
  fixes w :: "'a inv_db_scheme"
  assumes "UpdateStock core_repo_pg (DashboardDispatch core_repo_pg) v l0 q w = (r, w')" "inv_up w"
    and "uuids w = Some u # us" "alert_view w (''alt_'' @ u) = None"
    and "k = (v, default_loc l0)" "item = item_at (stock_view w) k"
  shows "if 0 \<le> q \<and> i32 q
    then r = Inr () \<and> stock_view w' = (stock_view w)(k \<mapsto> item\<lparr>siQuantity := q\<rparr>) \<and>
      (if q \<le> (if siLowStockThreshold item \<le> 0 then 5 else siLowStockThreshold item)
       then \<exists>t. alert_view w' = (alert_view w)(''alt_'' @ u \<mapsto>
         \<lparr>alID = ''alt_'' @ u, alType = ''LOW_STOCK'', alMessage = low_stock_message (item\<lparr>siQuantity := q\<rparr>),
          alVariantID = v, alCreatedAt = t, alIsRead = False\<rparr>)
       else alert_view w' = alert_view w)
    else isl r \<and> stock_view w' = stock_view w \<and> alert_view w' = alert_view w"
proof -
  have "siLowStockThreshold (effective_threshold item) =
      (if siLowStockThreshold item \<le> 0 then 5 else siLowStockThreshold item)"
    by (simp add: effective_threshold_def DefaultLowStockThreshold_def)
  with pg_core.update_effect [OF assms(1-4)] show ?thesis
    by (simp only: assms(5,6) set_level_def)
qed

theorem stock_level_and_alert_witness:
  "let w' = snd (UpdateStock core_repo_pg (DashboardDispatch core_repo_pg) ''v1'' [] 2 (sample_inv [Some ''a''] []))
   in (\<exists>s. stock_view w' (''v1'', ''default'') = Some s \<and> siQuantity s = 2) \<and>
      (\<exists>al. alert_view w' ''alt_a'' = Some al \<and> alVariantID al = ''v1'')"
proof -
  let ?w = "sample_inv [Some ''a''] []"
  obtain r w' where run: "UpdateStock core_repo_pg (DashboardDispatch core_repo_pg) ''v1'' [] 2 ?w = (r, w')"
    by fastforce
  have "uuids ?w = Some ''a'' # []" "alert_view ?w (''alt_'' @ ''a'') = None"
    by (simp_all add: sample_inv_def)
  from stock_level_and_alert [OF run sample_inv_up this refl refl] run show ?thesis
    by (auto simp: item_at_def sample_inv_def sample_item_def default_loc_def i32_def)
qed

section \<open>Bulk updates\<close>

text \<open>A bulk update is not atomic: while the database answers it applies, in order, exactly the items
before the first one whose quantity is negative or does not fit the column, keeps them, and reports
an error exactly if there is such an item.\<close>
theorem bulk_update_applies_prefix:
  fixes w :: "'a inv_db_scheme"
  assumes "BulkUpdate bulk_repo_pg its w = (r, w')" "inv_up w"
  shows "stock_view w' = fold bulk_apply (takeWhile bulk_valid its) (stock_view w) \<and>
    res_view w' = res_view w \<and> (isl r \<longleftrightarrow> (\<exists>it\<in>set its. \<not> bulk_valid it))"
  using pg_bulk.bulk_effect [OF assms] by (auto simp: list_all_iff)

theorem bulk_update_applies_prefix_witness:
  "let u = (\<lambda>v q. \<lparr>uiVariantID = v, uiLocationID = [], uiQuantity = q\<rparr>);
       (r, w') = BulkUpdate bulk_repo_pg [u ''v1'' 7, u ''v2'' (- 1), u ''v3'' 9] (sample_inv [] [])
   in isl r \<and> map_option siQuantity (stock_view w' (''v1'', ''default'')) = Some 7 \<and>
      stock_view w' (''v3'', ''default'') = None"
proof -
  let ?u = "\<lambda>v q. \<lparr>uiVariantID = v, uiLocationID = [], uiQuantity = q\<rparr>"
  let ?its = "[?u ''v1'' 7, ?u ''v2'' (- 1), ?u ''v3'' 9]"
  obtain r w' where run: "BulkUpdate bulk_repo_pg ?its (sample_inv [] []) = (r, w')" by fastforce
  from bulk_update_applies_prefix [OF run sample_inv_up] run show ?thesis
    by (simp add: bulk_valid_def bulk_apply_def set_level_def item_at_def sample_inv_def sample_item_def
        default_loc_def i32_def)
qed

section \<open>Synchronisation\<close>

text \<open>Synchronising a level never loses a record's settings, whatever calls fail: a stored record
either stays as it is or gets the new, non-negative quantity and nothing else; no other record
changes, and an error that is not a panic means that nothing changed.\<close>
theorem sync_keeps_settings:
  fixes w :: "'a inv_db_scheme"
  assumes run: "SyncStock sync_repo_pg (inv_service_pg b) v l0 q w = (r, w')" and "inv_tables_ok w"
    and "k = (v, default_loc l0)"
  shows "(stock_view w' = stock_view w \<and> isl r \<or>
     0 \<le> q \<and> stock_view w' = (stock_view w)(k \<mapsto> (item_at (stock_view w) k)\<lparr>siQuantity := q\<rparr>)) \<and>
    (\<forall>e. r = Inl e \<longrightarrow> \<not> is_panic e \<longrightarrow> stock_view w' = stock_view w)"
proof -
  let ?l = "default_loc l0"
  obtain g w1 where g: "GetStock_pg v ?l w = (g, w1)" by fastforce
  note gf = GetStock_pg_any [OF g]
  have v1: "stock_view w1 = stock_view w" using gf inv_same_more by metis
  define g' where "g' = (case g of Inr s \<Rightarrow> Inr s | Inl e \<Rightarrow> if isNotFoundError e then Inr (default_stock v ?l) else Inl e)"
  have s0: "s = item_at (stock_view w) (v, ?l)" if "g' = Inr s" for s
    using that gf by (auto simp: g'_def item_at_def split: sum.splits if_splits)
  show ?thesis
  proof (cases "\<exists>s. g' = Inr s \<and> 0 \<le> q")
    case False
    with run g v1 show ?thesis
      by (auto simp: SyncStock_def Let_def Update_def g'_def [symmetric] split: sum.splits if_splits)
  next
    case True
    then obtain s where s: "g' = Inr s" "0 \<le> q" by blast
    obtain y w2 where sv: "SaveStock_pg (s\<lparr>siQuantity := q\<rparr>) w1 = (y, w2)" by fastforce
    note sf = SaveStock_pg_any [OF sv]
    have key: "siVariantID s = v \<and> siLocationID s = ?l"
      using s0 [OF s(1)] assms(2) by (auto simp: item_at_def inv_tables_ok_def split: option.splits)
    show ?thesis
    proof (cases y)
      case (Inl e)
      with sf have "stock_view w2 = stock_view w" using v1 inv_same_more [of w2 w1] by simp
      with run g s sv Inl show ?thesis
        by (auto simp: SyncStock_def Let_def Update_def g'_def [symmetric])
    next
      case (Inr u)
      have "stock_view w2 = (stock_view w)(k \<mapsto> (item_at (stock_view w) k)\<lparr>siQuantity := q\<rparr>)"
        using sf Inr v1 key s0 [OF s(1)] assms(3) by simp
      with run g s sv Inr show ?thesis
        by (auto simp: SyncStock_def Let_def Update_def g'_def [symmetric] emit_inv
            split: prod.splits sum.splits elim!: NewEventFromCtxE)
    qed
  qed
qed

theorem sync_keeps_settings_witness:
  "stock_view (snd (SyncStock sync_repo_pg (inv_service_pg False) ''v1'' [] 3 (sample_inv [Some ''e''] [True])))
     = stock_view (sample_inv [] [])"
proof -
  let ?w = "sample_inv [Some ''e''] [True]"
  obtain r w' where run: "SyncStock sync_repo_pg (inv_service_pg False) ''v1'' [] 3 ?w = (r, w')" by fastforce
  have ok: "inv_tables_ok ?w"
    by (simp add: inv_tables_ok_def sample_inv_def sample_item_def stock_stored_def i32_def tbl_ok_def)
  have "\<exists>e. fst (SyncStock sync_repo_pg (inv_service_pg False) ''v1'' [] 3 ?w) = Inl e \<and> \<not> is_panic e"
    by (simp add: SyncStock_def sync_repo_pg_def GetStock_pg_def db_call_def sample_inv_def Let_def
        isNotFoundError_def default_loc_def NewInternal_def)
  then obtain e where "r = Inl e" "\<not> is_panic e" unfolding run fst_conv by blast
  with sync_keeps_settings [OF run ok refl] have "stock_view w' = stock_view ?w" by blast
  then show ?thesis unfolding run snd_conv by (simp add: sample_inv_def)
qed

section \<open>History\<close>

text \<open>The history records what changed, whatever calls fail: a stock-changed event adds exactly one
new row with the event's values, dated with the event's own time, or, on an error, nothing; an
event with any other payload is accepted and ignored.\<close>
theorem history_records_change:
  fixes w :: "'a inv_db_scheme"
  assumes run: "handleStockChanged history_repo_pg ev w = (r, w')"
  shows "case AsStockChangedRef ev of
      None \<Rightarrow> r = Inr () \<and> w' = w
    | Some p \<Rightarrow> (case r of
        Inl _ \<Rightarrow> stock_history w' = stock_history w
      | Inr _ \<Rightarrow> \<exists>i t. map_of (stock_history w) i = None \<and> (evTimestamp ev \<noteq> zero_time \<longrightarrow> t = evTimestamp ev) \<and>
          stock_history w' = stock_history w @ [(i, \<lparr>shID = i, shVariantID = sc_VariantID p,
            shLocationID = sc_LocationID p, shOldQuantity = sc_OldQuantity p, shNewQuantity = sc_NewQuantity p,
            shChangeReason = sc_ChangeReason p, shChangedBy = sc_ChangedBy p, shChangedAt = t\<rparr>)])"
proof (cases "AsStockChangedRef ev")
  case None
  with run show ?thesis by (simp add: handleStockChanged_def)
next
  case (Some p)
  obtain x w1 where g: "Generate ''hist_'' w = (x, w1)" by fastforce
  have h1: "stock_history w1 = stock_history w" using g by (auto elim!: GenerateE)
  show ?thesis
  proof (cases x)
    case (Inl e)
    with run Some g h1 show ?thesis by (auto simp: handleStockChanged_def)
  next
    case (Inr i)
    with g have i: "i \<noteq> []" by (auto simp: Generate_def split: list.splits option.splits)
    define tw where "tw = (if evTimestamp ev \<noteq> zero_time then (evTimestamp ev, w1) else time_now w1)"
    obtain t w2 where tw: "tw = (t, w2)" by fastforce
    then have h2: "stock_history w2 = stock_history w" "evTimestamp ev \<noteq> zero_time \<longrightarrow> t = evTimestamp ev"
      using h1 by (auto simp: tw_def split: if_splits elim!: time_nowE)
    let ?h = "\<lparr>shID = i, shVariantID = sc_VariantID p, shLocationID = sc_LocationID p,
        shOldQuantity = sc_OldQuantity p, shNewQuantity = sc_NewQuantity p,
        shChangeReason = sc_ChangeReason p, shChangedBy = sc_ChangedBy p, shChangedAt = t\<rparr>"
    have c: "CreateHistory_pg ?h w2 = (r, w')"
      using run Some g Inr i tw
      by (simp add: handleStockChanged_def RecordHistory_def history_repo_pg_def tw_def split: if_splits)
    have "env.more w' = env.more w2 \<Longrightarrow> stock_history w' = stock_history w2" by (cases w'; cases w2) simp
    with CreateHistory_pg_any [OF c] h2 Some show ?thesis by (auto split: sum.splits)
  qed
qed

theorem history_records_change_witness:
  "let ev = \<lparr>evID = ''e1'', evTopic = InventoryStockChangedTopic, evSource = ''inventory'', evVersion = 1,
         evTimestamp = 7, evPayload = stock_payload ''v1'' ''default'' 10 3 ''sync:external'' ''sync_service'',
         evTraceID = [], evCorrelationID = []\<rparr>;
       w' = snd (handleStockChanged history_repo_pg ev (sample_inv [Some ''h''] []))
   in \<exists>h. map snd (stock_history w') = [h] \<and> shNewQuantity h = 3 \<and> shChangedAt h = 7"
proof -
  let ?ev = "\<lparr>evID = ''e1'', evTopic = InventoryStockChangedTopic, evSource = ''inventory'', evVersion = 1,
         evTimestamp = 7, evPayload = stock_payload ''v1'' ''default'' 10 3 ''sync:external'' ''sync_service'',
         evTraceID = [], evCorrelationID = []\<rparr>"
  let ?w = "sample_inv [Some ''h''] []"
  obtain r w' where run: "handleStockChanged history_repo_pg ?ev ?w = (r, w')" by fastforce
  have "\<not> isl (fst (handleStockChanged history_repo_pg ?ev ?w))" by code_simp
  with run have "r = Inr ()" by (cases r) auto
  with history_records_change [OF run] run show ?thesis
    by (auto simp: stock_payload_def zero_time_def sample_inv_def)
qed

section \<open>Reports\<close>

text \<open>The inventory export loses nothing: a reader of the CSV format gets back the header and, in
order, every stored record with its identifiers character by character, whatever they contain, and
numbers that parse to the stored ones.\<close>
theorem inventory_csv_roundtrip:
  fixes w :: "'a inv_db_scheme"
  assumes "ExportInventoryCSV reports_repo_pg w = (Inr out, w1)" "inv_tables_ok w"
  shows "\<exists>rows. read_csv out = Some (csv_header # rows) \<and>
    map (\<lambda>r. (length r, r ! 0, r ! 1, atoi (r ! 2), atoi (r ! 3), r ! 4, atoi (r ! 5))) rows =
    map (\<lambda>s. (6, siVariantID s, siLocationID s, Some (siQuantity s), Some (siLowStockThreshold s),
      FormatBool (siAllowBackorders s), Some (siBackorderLimit s))) (map snd (stock_items w))"
proof -
  let ?ss = "map snd (stock_items w)"
  have out: "out = concat (map csv_record (csv_header # map csv_row ?ss))"
    using assms(1) by (auto simp: ExportInventoryCSV_def reports_repo_pg_def GetAllStockItems_pg_def
        comp_def elim!: db_callE split: prod.splits sum.splits)
  have "\<forall>fs\<in>set (csv_header # map csv_row ?ss). fs \<noteq> []" by (simp add: csv_header_def csv_row_def)
  then have "read_csv out = Some (csv_header # map csv_row ?ss)" unfolding out by (rule read_written_csv)
  moreover have "stock_stored s" if "s \<in> set ?ss" for s
    using that assms(2) by (force simp: inv_tables_ok_def tbl_ok_row)
  then have "map (\<lambda>r. (length r, r ! 0, r ! 1, atoi (r ! 2), atoi (r ! 3), r ! 4, atoi (r ! 5))) (map csv_row ?ss) =
      map (\<lambda>s. (6, siVariantID s, siLocationID s, Some (siQuantity s), Some (siLowStockThreshold s),
        FormatBool (siAllowBackorders s), Some (siBackorderLimit s))) ?ss"
    by (auto simp: csv_row_def stock_stored_def i32_i64)
  ultimately show ?thesis by blast
qed

theorem inventory_csv_roundtrip_witness:
  "\<exists>out w1. ExportInventoryCSV reports_repo_pg (sample_inv [] []) = (Inr out, w1) \<and>
     (\<exists>row. read_csv out = Some [csv_header, row] \<and> row ! 0 = ''v1'' \<and> atoi (row ! 2) = Some 10)"
proof -
  have "\<not> isl (fst (ExportInventoryCSV reports_repo_pg (sample_inv [] [])))" by code_simp
  then obtain out w1 where run: "ExportInventoryCSV reports_repo_pg (sample_inv [] []) = (Inr out, w1)"
    by (cases "fst (ExportInventoryCSV reports_repo_pg (sample_inv [] []))";
        cases "ExportInventoryCSV reports_repo_pg (sample_inv [] [])") auto
  have "inv_tables_ok (sample_inv [] [])" using sample_inv_up by (simp add: inv_up_def)
  from inventory_csv_roundtrip [OF run this] run show ?thesis
    by (auto simp: sample_inv_def sample_item_def)
qed

text \<open>The low-stock report, the list filter and the domain rule agree: without paging, the report and
the listing with status \<open>LOW_STOCK\<close> contain exactly the stored records that are low by the domain's
rule, and for each of them setting its own level would raise an alert. The converse fails for a
threshold that is not positive: such a record can raise alerts and be in no report.\<close>
theorem low_stock_report_exact:
  fixes w :: "'a inv_db_scheme"
  assumes "inv_tables_ok w"
    and "GetLowStockReport reports_repo_pg w = (Inr rep, w1)"
    and "ListStock core_repo_pg \<lparr>lfVariantID = [], lfLocationID = [], lfStatus = ''LOW_STOCK'',
      lfLimit = 0, lfOffset = 0\<rparr> w = (Inr lst, w2)"
  shows "set rep = {s. \<exists>k. stock_view w k = Some s \<and> IsLowStock s} \<and> lst = rep \<and>
    (\<forall>s\<in>set rep. IsLowStock (effective_threshold s))"
proof -
  have rep: "rep = filter IsLowStock (map snd (stock_items w))"
    using assms(2) by (auto simp: GetLowStockReport_def reports_repo_pg_def GetLowStockItems_pg_def
        IsLowStock_def [abs_def] elim!: db_callE split: prod.splits sum.splits)
  have "stock_matches \<lparr>lfVariantID = [], lfLocationID = [], lfStatus = ''LOW_STOCK'', lfLimit = 0, lfOffset = 0\<rparr>
      = IsLowStock"
    by (rule ext) (simp add: stock_matches_def IsLowStock_def)
  then have lst: "lst = filter IsLowStock (map snd (stock_items w))"
    using assms(3) by (auto simp: ListStock_def ListStock_pg_def
        elim!: db_callE split: prod.splits sum.splits)
  have "s \<in> set (map snd (stock_items w)) \<longleftrightarrow> (\<exists>k. stock_view w k = Some s)" for s
    using assms(1) by (force simp: inv_tables_ok_def tbl_ok_row [symmetric] image_iff)
  moreover have "IsLowStock s \<Longrightarrow> IsLowStock (effective_threshold s)" for s
    by (auto simp: IsLowStock_def effective_threshold_def DefaultLowStockThreshold_def)
  ultimately show ?thesis unfolding rep lst by auto
qed

theorem low_stock_report_exact_witness:
  "\<exists>rep w1. GetLowStockReport reports_repo_pg
     ((sample_inv [] [])\<lparr>stock_items := [((''v1'', ''default''), sample_item\<lparr>siQuantity := 1\<rparr>)]\<rparr>) = (Inr rep, w1) \<and>
     set rep = {sample_item\<lparr>siQuantity := 1\<rparr>}"
proof -
  let ?w = "(sample_inv [] [])\<lparr>stock_items := [((''v1'', ''default''), sample_item\<lparr>siQuantity := 1\<rparr>)]\<rparr>"
  let ?f = "\<lparr>lfVariantID = [], lfLocationID = [], lfStatus = ''LOW_STOCK'', lfLimit = 0, lfOffset = 0\<rparr>"
  have ok: "inv_tables_ok ?w"
    by (auto simp: inv_tables_ok_def sample_inv_def sample_item_def stock_stored_def i32_def tbl_ok_def)
  have "\<not> isl (fst (GetLowStockReport reports_repo_pg ?w)) \<and> \<not> isl (fst (ListStock core_repo_pg ?f ?w))"
    by code_simp
  then obtain rep w1 lst w2 where r: "GetLowStockReport reports_repo_pg ?w = (Inr rep, w1)"
    "ListStock core_repo_pg ?f ?w = (Inr lst, w2)"
    by (cases "fst (GetLowStockReport reports_repo_pg ?w)"; cases "GetLowStockReport reports_repo_pg ?w";
        cases "fst (ListStock core_repo_pg ?f ?w)"; cases "ListStock core_repo_pg ?f ?w") auto
  from low_stock_report_exact [OF ok r] r show ?thesis
    by (auto simp: IsLowStock_def sample_item_def)
qed

end
