(* ===== verification/OrderHandlers.thy ===== *)
theory OrderHandlers
  imports Orders Gin
begin

text \<open>
  The HTTP handlers of orders (\<open>internal/core/orders/user\<close>, \<open>guest\<close>, \<open>admin\<close>): what a request becomes
  before it reaches the service, who is let through, and what the answer shows. \<open>mail.ParseAddress\<close> is a
  parameter.
\<close>

section \<open>Customers\<close>

record OrderItemRequest =
  oqVariantID :: string
  oqQuantity :: int
  oqPrice :: f64

record OrderItemResponse =
  oaVariantID :: string
  oaQuantity :: int
  oaPrice :: f64

record OrderResponse =
  oaID :: string
  oaTotal :: f64
  oaStatus :: string
  oaCreatedAt :: int
  oaItems :: "OrderItemResponse list"

definition ErrOrderForbidden :: err where
  [go_defs]: "ErrOrderForbidden = Sentinel ''orders/domain'' ''you do not have access to this order''"

fun order_status_text :: "OrderStatus \<Rightarrow> string" where
  "order_status_text StatusPending = ''pending''"
| "order_status_text StatusPaid = ''paid''"
| "order_status_text StatusShipped = ''shipped''"
| "order_status_text StatusDone = ''done''"
| "order_status_text StatusCanceled = ''canceled''"
| "order_status_text (OtherStatus s) = s"

text \<open>The price of an item is the one the request names.\<close>

definition item_of_request :: "OrderItemRequest \<Rightarrow> OrderItem" where
  "item_of_request i = \<lparr>oiVariantID = oqVariantID i, oiQuantity = oqQuantity i, oiPrice = oqPrice i\<rparr>"

definition item_response :: "OrderItem \<Rightarrow> OrderItemResponse" where
  "item_response i = \<lparr>oaVariantID = oiVariantID i, oaQuantity = oiQuantity i, oaPrice = oiPrice i\<rparr>"

definition mapToOrderResponse :: "Order \<Rightarrow> OrderResponse" where
  "mapToOrderResponse o1 = \<lparr>oaID = ordID o1, oaTotal = ordTotal o1, oaStatus = order_status_text (ordStatus o1),
     oaCreatedAt = ordCreatedAt o1, oaItems = map item_response (ordItems o1)\<rparr>"

definition no_snapshot :: OrderCustomerSnapshot where
  "no_snapshot = \<lparr>csName = [], csEmail = [], csContactNumber = []\<rparr>"

definition user_Create ::
  "('a env_scheme) orderService \<Rightarrow> string \<Rightarrow> err + OrderItemRequest list \<Rightarrow> ('a env_scheme, OrderResponse) io" where
  "user_Create s uid body = authenticated uid (bind_body ''invalid request payload'' body (\<lambda>items.
     bind_io (CreateOrder s uid no_snapshot (map item_of_request items)) (\<lambda>o1. return_io (mapToOrderResponse o1))))"

text \<open>Reading an order for a customer: the owner is checked after the order was read.\<close>

definition own_order :: "('a env_scheme) orderService \<Rightarrow> string \<Rightarrow> string \<Rightarrow> ('a env_scheme, Order) io" where
  "own_order s uid oid = bind_io (GetOrder s oid) (\<lambda>o1.
     if ordCustomerID o1 \<noteq> uid
     then fail_io (NewForbidden ''you do not have access to this order'' (Some ErrOrderForbidden))
     else return_io o1)"

definition user_GetMyOrder ::
  "('a env_scheme) orderService \<Rightarrow> string \<Rightarrow> string \<Rightarrow> ('a env_scheme, OrderResponse) io" where
  "user_GetMyOrder s uid oid = authenticated uid (need_param ''missing order id'' oid
     (bind_io (own_order s uid oid) (\<lambda>o1. return_io (mapToOrderResponse o1))))"

definition user_ListMyOrders ::
  "('a env_scheme) orderService \<Rightarrow> string \<Rightarrow> string option \<Rightarrow> string option \<Rightarrow>
   ('a env_scheme, OrderResponse list \<times> int) io" where
  "user_ListMyOrders s uid limit offset = authenticated uid
     (bind_io (GetCustomerOrders s uid (limit_query limit) (offset_query offset)) (\<lambda>os.
        return_io (map mapToOrderResponse os, int (length os))))"

definition user_CancelMyOrder ::
  "('a env_scheme) orderService \<Rightarrow> string \<Rightarrow> string \<Rightarrow> ('a env_scheme, OrderResponse) io" where
  "user_CancelMyOrder s uid oid = authenticated uid (need_param ''missing order id'' oid
     (bind_io (own_order s uid oid) (\<lambda>_.
      bind_io (TransitionOrder s oid ''cancel'') (\<lambda>o1. return_io (mapToOrderResponse o1)))))"

section \<open>Guests\<close>

record GuestCustomerInfo =
  gciName :: string
  gciEmail :: string
  gciContactNumber :: string

definition ErrGuestInfoRequired :: err where
  "ErrGuestInfoRequired = Sentinel ''guest'' ''guest info is required for guest checkout''"
definition ErrGuestNameRequired :: err where
  "ErrGuestNameRequired = Sentinel ''guest'' ''guest name is required''"
definition ErrGuestEmailRequired :: err where
  "ErrGuestEmailRequired = Sentinel ''guest'' ''guest email is required''"
definition ErrGuestEmailInvalid :: err where
  "ErrGuestEmailInvalid = Sentinel ''guest'' ''guest email is invalid''"
definition ErrGuestContactRequired :: err where
  "ErrGuestContactRequired = Sentinel ''guest'' ''guest contact number is required''"
definition ErrGuestContactInvalid :: err where
  "ErrGuestContactInvalid = Sentinel ''guest'' ''guest contact number is invalid''"

text \<open>\<open>^\+?[0-9\s\-]{7,15}$\<close>; the class \<open>\s\<close> is tab, newline, form feed, carriage return and space.\<close>

definition phone_char :: "char \<Rightarrow> bool" where
  "phone_char c \<longleftrightarrow> digit_val c \<noteq> None \<or> c = CHR ''-'' \<or>
     c \<in> {CHR 0x09, CHR 0x0A, CHR 0x0C, CHR 0x0D, CHR '' ''}"

definition phone_matches :: "string \<Rightarrow> bool" where
  "phone_matches s = (let t = (case s of c # cs \<Rightarrow> if c = CHR ''+'' then cs else s | [] \<Rightarrow> []) in
     7 \<le> length t \<and> length t \<le> 15 \<and> list_all phone_char t)"

definition ValidateGuestInfo :: "(string \<Rightarrow> bool) \<Rightarrow> GuestCustomerInfo option \<Rightarrow> err option" where
  "ValidateGuestInfo parses g = (case g of None \<Rightarrow> Some ErrGuestInfoRequired
     | Some i \<Rightarrow>
         if gciName i = [] then Some ErrGuestNameRequired
         else if gciEmail i = [] then Some ErrGuestEmailRequired
         else if \<not> parses (gciEmail i) then Some ErrGuestEmailInvalid
         else if gciContactNumber i = [] then Some ErrGuestContactRequired
         else if \<not> phone_matches (gciContactNumber i) then Some ErrGuestContactInvalid
         else None)"

record GuestOrderResponse =
  goOrderID :: string
  goStatus :: string
  goTotal :: f64
  goCreatedAt :: int
  goGuestInfo :: OrderCustomerSnapshot

definition CreateGuestOrder ::
  "(string \<Rightarrow> bool) \<Rightarrow> ('a env_scheme) orderService \<Rightarrow> err + (GuestCustomerInfo \<times> OrderItemRequest list) \<Rightarrow>
   ('a env_scheme, GuestOrderResponse) io" where
  "CreateGuestOrder parses s body = bind_body ''invalid request payload'' body (\<lambda>(info, items).
     case ValidateGuestInfo parses (Some info) of
       Some e \<Rightarrow> fail_io (NewBadRequest (err_string e) (Some e))
     | None \<Rightarrow> bind_io (CreateOrder s [] \<lparr>csName = gciName info, csEmail = gciEmail info,
           csContactNumber = gciContactNumber info\<rparr> (map item_of_request items)) (\<lambda>o1.
         return_io \<lparr>goOrderID = ordID o1, goStatus = order_status_text (ordStatus o1), goTotal = ordTotal o1,
           goCreatedAt = ordCreatedAt o1, goGuestInfo = ordCustomerSnapshot o1\<rparr>))"

section \<open>Administrators\<close>

record AdminOrderResponse = OrderResponse +
  oaCustomerID :: string
  oaGuestInfo :: "OrderCustomerSnapshot option"

definition admin_order_response :: "Order \<Rightarrow> AdminOrderResponse" where
  "admin_order_response o1 = OrderResponse.extend (mapToOrderResponse o1)
     \<lparr>oaCustomerID = ordCustomerID o1,
      oaGuestInfo = (let g = ordCustomerSnapshot o1 in
        if ordCustomerID o1 = [] \<and> (csName g \<noteq> [] \<or> csEmail g \<noteq> [] \<or> csContactNumber g \<noteq> [])
        then Some g else None)\<rparr>"

definition admin_ListAllOrders ::
  "('a env_scheme) orderService \<Rightarrow> string option \<Rightarrow> string option \<Rightarrow>
   ('a env_scheme, AdminOrderResponse list \<times> int) io" where
  "admin_ListAllOrders s limit offset =
     bind_io (GetAllOrders s (limit_query limit) (offset_query offset)) (\<lambda>os.
        return_io (map admin_order_response os, int (length os)))"

definition admin_GetOrder ::
  "('a env_scheme) orderService \<Rightarrow> string \<Rightarrow> ('a env_scheme, AdminOrderResponse) io" where
  "admin_GetOrder s oid = need_param ''missing order id'' oid
     (bind_io (GetOrder s oid) (\<lambda>o1. return_io (admin_order_response o1)))"

definition admin_TransitionOrder ::
  "('a env_scheme) orderService \<Rightarrow> string \<Rightarrow> err + string \<Rightarrow> ('a env_scheme, AdminOrderResponse) io" where
  "admin_TransitionOrder s oid body = need_param ''missing order id'' oid
     (bind_body ''invalid request payload'' body (\<lambda>action.
      bind_io (TransitionOrder s oid action) (\<lambda>o1. return_io (admin_order_response o1))))"

section \<open>Requests of customers\<close>

datatype order_request =
    PlaceOrder "err + OrderItemRequest list"
  | ShowOrder string
  | ShowOrders "string option" "string option"
  | CancelOrder string

text \<open>One request and the orders its answer shows (\<open>RegisterUserRoutes\<close>), and requests one after another.\<close>

definition serve_order ::
  "('a env_scheme) orderService \<Rightarrow> string \<Rightarrow> order_request \<Rightarrow> ('a env_scheme, OrderResponse list) io" where
  "serve_order s uid req = (case req of
       PlaceOrder body \<Rightarrow> bind_io (user_Create s uid body) (\<lambda>r. return_io [r])
     | ShowOrder oid \<Rightarrow> bind_io (user_GetMyOrder s uid oid) (\<lambda>r. return_io [r])
     | ShowOrders limit offset \<Rightarrow> bind_io (user_ListMyOrders s uid limit offset) (\<lambda>r. return_io (fst r))
     | CancelOrder oid \<Rightarrow> bind_io (user_CancelMyOrder s uid oid) (\<lambda>r. return_io [r]))"

fun serve_orders ::
  "('a env_scheme) orderService \<Rightarrow> (string \<times> order_request) list \<Rightarrow> 'a env_scheme \<Rightarrow>
   (string \<times> (err + OrderResponse list)) list \<times> 'a env_scheme" where
  "serve_orders s [] w = ([], w)"
| "serve_orders s ((uid, req) # reqs) w = (case serve_order s uid req w of (a, w1) \<Rightarrow>
     case serve_orders s reqs w1 of (as, w2) \<Rightarrow> ((uid, a) # as, w2))"

section \<open>Whose orders a request can change\<close>

text \<open>A table of orders by id, with a flag that says whether the rows satisfy the primary key.\<close>

type_synonym order_table = "(string \<Rightarrow> Order option) \<times> bool"

definition order_owner :: "order_table \<Rightarrow> string \<Rightarrow> string option" where
  "order_owner t oid = map_option ordCustomerID (fst t oid)"

text \<open>What requests of the customers \<open>U\<close> may do: an order that differs afterwards is new or was theirs, and is
theirs; the owner of an order stays.\<close>

definition only_own :: "string set \<Rightarrow> order_table \<Rightarrow> order_table \<Rightarrow> bool" where
  "only_own U t t' \<longleftrightarrow> (snd t \<longrightarrow> snd t' \<and> (\<forall>oid.
     (fst t' oid \<noteq> fst t oid \<longrightarrow> (\<exists>u\<in>U. order_owner t' oid = Some u)) \<and>
     (\<forall>c. order_owner t oid = Some c \<longrightarrow> order_owner t' oid = Some c)))"

lemma only_own_refl [simp]: "only_own U t t"
  by (simp add: only_own_def)

lemma only_own_trans: "only_own U t t1 \<Longrightarrow> only_own U t1 t2 \<Longrightarrow> only_own U t t2"
  unfolding only_own_def by metis

lemma only_own_mono: "only_own U t t' \<Longrightarrow> U \<subseteq> V \<Longrightarrow> only_own V t t'"
  unfolding only_own_def by blast

text \<open>What the handlers rely on: an order read is the stored one, a write touches the order it names,
a transaction keeps a successful body or nothing.\<close>

locale order_shop =
  fixes svc :: "('a env_scheme) orderService"
    and orders_of :: "'a env_scheme \<Rightarrow> order_table"
  assumes get_fx: "oGetByID (osRepo svc) oid w = (x, w1) \<Longrightarrow> orders_of w1 = orders_of w \<and>
        (\<forall>o1. x = Inr o1 \<longrightarrow> snd (orders_of w) \<longrightarrow> fst (orders_of w) oid = Some o1 \<and> ordID o1 = oid)"
    and list_fx: "oListByCustomerID (osRepo svc) c l k w = (y, w1) \<Longrightarrow> orders_of w1 = orders_of w \<and>
        (\<forall>os. y = Inr os \<longrightarrow> snd (orders_of w) \<longrightarrow> (\<forall>o1\<in>set os. order_owner (orders_of w) (ordID o1) = Some c))"
    and create_fx: "oCreate (osRepo svc) o1 w = (z, w1) \<Longrightarrow>
        only_own {ordCustomerID o1} (orders_of w) (orders_of w1) \<and>
        (\<not> isl z \<longrightarrow> order_owner (orders_of w1) (ordID o1) = Some (ordCustomerID o1))"
    and update_fx: "oUpdate (osRepo svc) o1 w = (z, w1) \<Longrightarrow>
        order_owner (orders_of w) (ordID o1) = Some (ordCustomerID o1) \<Longrightarrow>
        only_own {ordCustomerID o1} (orders_of w) (orders_of w1)"
    and tx_fx: "osOutbox svc = Some ob \<Longrightarrow> osTx svc = Some runTx \<Longrightarrow>
        runTx (write_with_event write ob evt) w = (z, w1) \<Longrightarrow>
        isl z \<and> orders_of w1 = orders_of w \<or>
        (\<exists>w0 q w2. orders_of w0 = orders_of w \<and> write w0 = (q, w2) \<and> orders_of w1 = orders_of w2 \<and> (isl q \<longrightarrow> isl z))"
    and bus_stable: "orders_of (osBus svc e w) = orders_of w"
    and env_stable: "env.more w1 = env.more w \<Longrightarrow> orders_of w1 = orders_of w"
begin

lemma recorded_fx:
  assumes "recorded svc write evt w = (z, w1)"
  obtains (dropped) "isl z" "orders_of w1 = orders_of w"
  | (kept) w0 q w2 where "orders_of w0 = orders_of w" "write w0 = (q, w2)" "orders_of w1 = orders_of w2"
      "isl q \<longrightarrow> isl z"
proof (cases "\<exists>ob runTx. osOutbox svc = Some ob \<and> osTx svc = Some runTx")
  case True
  then obtain ob runTx where t: "osOutbox svc = Some ob" "osTx svc = Some runTx" by blast
  from tx_fx [OF t assms [unfolded recorded_outbox [OF t]]] show thesis using that by blast
next
  case False
  obtain q w2 where q: "write w = (q, w2)" by fastforce
  from False have "recorded svc write evt w =
      (case write w of (Inl e, w1) \<Rightarrow> (Inl e, w1) | (Inr u, w1) \<Rightarrow> (Inr (), osBus svc evt w1))"
    by (auto simp: recorded_def split: option.splits)
  then show thesis using assms q bus_stable by (cases q) (auto intro: kept [OF refl q])
qed

lemma create_order:
  assumes "CreateOrder svc c snap is w = (r, w')"
  shows "only_own {c} (orders_of w) (orders_of w') \<and>
    (\<forall>o1. r = Inr o1 \<longrightarrow> order_owner (orders_of w') (ordID o1) = Some c)"
  using assms
proof (cases rule: CreateOrder_cases)
  case refused
  then show ?thesis using env_stable [of w' w] by auto
next
  case (written o1 evt v x)
  have v: "orders_of v = orders_of w" using written(8) by (rule env_stable)
  have r: "o2 = o1 \<and> \<not> isl x" if "r = Inr o2" for o2 using that written(11) by (cases x) auto
  from written(10) show ?thesis
  proof (cases rule: recorded_fx)
    case dropped
    with v r show ?thesis by auto
  next
    case (kept w0 q w2)
    note fx = create_fx [OF kept(2)]
    have "only_own {c} (orders_of w) (orders_of w')" using fx kept(1,3) v written(5) by simp
    moreover have "order_owner (orders_of w') (ordID o1) = Some c" if "\<not> isl x"
      using fx kept(3,4) that written(5) by simp
    ultimately show ?thesis using r by blast
  qed
qed

lemma read_order:
  assumes "GetOrder svc oid w = (x, w1)"
  shows "orders_of w1 = orders_of w \<and>
    (\<forall>o1. x = Inr o1 \<longrightarrow> snd (orders_of w) \<longrightarrow> fst (orders_of w) oid = Some o1 \<and> ordID o1 = oid)"
proof -
  obtain y v where y: "oGetByID (osRepo svc) oid w = (y, v)" by fastforce
  with assms get_fx [OF y] show ?thesis by (cases y) (auto simp: GetOrder_def)
qed

lemma transition_order:
  assumes "TransitionOrder svc oid a w = (r, w')" "order_owner (orders_of w) oid = Some u"
  shows "only_own {u} (orders_of w) (orders_of w') \<and>
    (\<forall>o1. r = Inr o1 \<longrightarrow> snd (orders_of w) \<longrightarrow> order_owner (orders_of w') (ordID o1) = Some u)"
proof (cases "snd (orders_of w)")
  case False
  then show ?thesis by (simp add: only_own_def)
next
  case True
  have read: "orders_of v = orders_of w \<and> ordID o0 = oid \<and> ordCustomerID o0 = u"
    if "oGetByID (osRepo svc) oid w = (Inr o0, v)" for o0 v
    using get_fx [OF that] True assms(2) by (auto simp: order_owner_def)
  have upd: "only_own {u} (orders_of w) (orders_of w2)"
    if "oGetByID (osRepo svc) oid w = (Inr o0, v)" "orders_of w0 = orders_of w"
      "oUpdate (osRepo svc) (o0\<lparr>ordStatus := st\<rparr>) w0 = (q, w2)" for o0 v st q w0 w2
    using update_fx [OF that(3)] read [OF that(1)] that(2) assms(2) by simp
  have own: "only_own {u} (orders_of w) (orders_of w') \<Longrightarrow> order_owner (orders_of w') oid = Some u"
    using True assms(2) by (auto simp: only_own_def)
  from assms(1) show ?thesis
  proof (cases rule: TransitionOrder_cases)
    case (unread e)
    with get_fx [OF unread(1)] show ?thesis by (cases r) auto
  next
    case (refused o0 v)
    with read [OF refused(1)] env_stable [of w' v] show ?thesis by (cases r) auto
  next
    case (plain o0 v st x)
    from upd [OF plain(1) _ plain(4)] read [OF plain(1)] own plain(5) show ?thesis by (cases x) auto
  next
    case (announced o0 v st tp pl evt z x)
    have z: "orders_of z = orders_of w" using read [OF announced(1)] env_stable [OF announced(6)] by simp
    from announced(8) have "only_own {u} (orders_of w) (orders_of w')"
    proof (cases rule: recorded_fx)
      case dropped
      with z show ?thesis by simp
    next
      case (kept w0 q w2)
      from upd [OF announced(1) _ kept(2)] kept(1,3) z show ?thesis by simp
    qed
    with own read [OF announced(1)] announced(9) show ?thesis by (cases x) auto
  qed
qed

lemma own_order_fx:
  assumes "own_order svc uid oid w = (x, w1)"
  shows "orders_of w1 = orders_of w \<and> (\<forall>o1. x = Inr o1 \<longrightarrow> snd (orders_of w) \<longrightarrow>
    ordID o1 = oid \<and> order_owner (orders_of w1) oid = Some uid)"
proof -
  obtain y v where y: "GetOrder svc oid w = (y, v)" by fastforce
  show ?thesis
    using assms read_order [OF y] y
    by (cases y) (auto simp: own_order_def bind_io_def order_owner_def split: if_splits)
qed

lemma list_orders:
  assumes "GetCustomerOrders svc c l k w = (x, w1)"
  shows "orders_of w1 = orders_of w \<and> (\<forall>os. x = Inr os \<longrightarrow> snd (orders_of w) \<longrightarrow>
    (\<forall>o1\<in>set os. order_owner (orders_of w1) (ordID o1) = Some c))"
proof -
  obtain y v where y: "oListByCustomerID (osRepo svc) c (page_limit l) (page_offset k) w = (y, v)" by fastforce
  from list_fx [OF y] assms y show ?thesis by (cases y) (auto simp: GetCustomerOrders_def)
qed

definition served :: "string \<Rightarrow> 'a env_scheme \<Rightarrow> (err + OrderResponse list) \<times> 'a env_scheme \<Rightarrow> bool" where
  "served u w res \<longleftrightarrow> only_own {u} (orders_of w) (orders_of (snd res)) \<and>
     (u = [] \<longrightarrow> orders_of (snd res) = orders_of w) \<and>
     (\<forall>rs. fst res = Inr rs \<longrightarrow> snd (orders_of w) \<longrightarrow>
        (\<forall>r\<in>set rs. order_owner (orders_of (snd res)) (oaID r) = Some u))"

lemma served_same: "orders_of v = orders_of w \<Longrightarrow> served u w (Inl e, v)"
  by (simp add: served_def)

lemma oaID_response [simp]: "oaID (mapToOrderResponse o1) = ordID o1"
  by (simp add: mapToOrderResponse_def)

text \<open>A request without an identity is refused before anything else.\<close>

lemma served_guarded:
  assumes "u \<noteq> [] \<Longrightarrow> served u w (h w)"
  shows "served u w (authenticated u h w)"
  using assms by (cases "u = []") (auto simp: authenticated_def fail_io_def served_same)

lemma served_cancel:
  "u \<noteq> [] \<Longrightarrow> served u w (bind_io (own_order svc u oid) (\<lambda>_. bind_io (TransitionOrder svc oid ''cancel'')
     (\<lambda>o1. return_io [mapToOrderResponse o1])) w)"
proof -
  assume u: "u \<noteq> []"
  obtain x w1 where x: "own_order svc u oid w = (x, w1)" by fastforce
  obtain y w2 where y: "TransitionOrder svc oid ''cancel'' w1 = (y, w2)" by fastforce
  note ox = own_order_fx [OF x]
  show ?thesis
  proof (cases "isl x \<or> \<not> snd (orders_of w)")
    case True
    with x ox u show ?thesis
      by (cases x) (auto simp: bind_io_def served_def only_own_def)
  next
    case False
    with ox have "order_owner (orders_of w1) oid = Some u" by (cases x) auto
    from transition_order [OF y this] ox False x y u show ?thesis
      by (cases x; cases y) (auto simp: bind_io_def served_def return_io_def)
  qed
qed

lemma serve_order_fx: "served u w (serve_order svc u req w)"
proof (cases req)
  case (PlaceOrder body)
  show ?thesis
  proof (cases body)
    case (Inl e)
    then show ?thesis
      by (simp add: PlaceOrder serve_order_def user_Create_def handler_seq)
        (rule served_guarded, simp add: bind_body_def fail_io_def served_same)
  next
    case (Inr its)
    obtain x v where x: "CreateOrder svc u no_snapshot (map item_of_request its) w = (x, v)" by fastforce
    have "served u w (bind_io (CreateOrder svc u no_snapshot (map item_of_request its))
        (\<lambda>o1. return_io [mapToOrderResponse o1]) w)" if "u \<noteq> []"
      using create_order [OF x] x that by (cases x) (auto simp: bind_io_def served_def return_io_def)
    then show ?thesis
      by (simp add: PlaceOrder Inr serve_order_def user_Create_def handler_seq bind_body_def served_guarded)
  qed
next
  case (ShowOrder oid)
  obtain x v where x: "own_order svc u oid w = (x, v)" by fastforce
  have "served u w (need_param msg oid (bind_io (own_order svc u oid) (\<lambda>o1. return_io [mapToOrderResponse o1])) w)"
    if "u \<noteq> []" for msg
    using own_order_fx [OF x] x that
    by (cases x) (auto simp: need_param_def bind_io_def fail_io_def served_def return_io_def)
  then show ?thesis by (simp add: ShowOrder serve_order_def user_GetMyOrder_def handler_seq served_guarded)
next
  case (ShowOrders limit offset)
  obtain x v where x: "GetCustomerOrders svc u (limit_query limit) (offset_query offset) w = (x, v)" by fastforce
  have "served u w (bind_io (GetCustomerOrders svc u (limit_query limit) (offset_query offset))
      (\<lambda>os. return_io (map mapToOrderResponse os)) w)" if "u \<noteq> []"
    using list_orders [OF x] x that by (cases x) (auto simp: bind_io_def served_def return_io_def)
  then show ?thesis
    by (simp add: ShowOrders serve_order_def user_ListMyOrders_def handler_seq served_guarded)
next
  case (CancelOrder oid)
  have "served u w (need_param msg oid (bind_io (own_order svc u oid) (\<lambda>_. bind_io (TransitionOrder svc oid ''cancel'')
     (\<lambda>o1. return_io [mapToOrderResponse o1]))) w)" if "u \<noteq> []" for msg
  proof (cases "oid = []")
    case True
    then show ?thesis by (simp add: need_param_def fail_io_def served_same)
  next
    case False
    then show ?thesis by (simp only: need_param_def if_False served_cancel [OF that])
  qed
  then show ?thesis
    unfolding CancelOrder serve_order_def user_CancelMyOrder_def handler_seq order_request.case
    by (rule served_guarded)
qed

text \<open>A run: only orders of those who asked change, and everybody is shown only their own.\<close>

lemma serve_orders_fx:
  assumes "serve_orders svc reqs w = (as, w')"
  shows "only_own (fst ` set reqs - {[]}) (orders_of w) (orders_of w') \<and>
    (snd (orders_of w) \<longrightarrow> (\<forall>u rs. (u, Inr rs) \<in> set as \<longrightarrow>
       (\<forall>r\<in>set rs. order_owner (orders_of w') (oaID r) = Some u)))"
  using assms
proof (induction reqs arbitrary: w as)
  case Nil
  then show ?case by simp
next
  case (Cons q reqs)
  obtain u req where q: "q = (u, req)" by fastforce
  obtain a w1 where a: "serve_order svc u req w = (a, w1)" by fastforce
  obtain bs w2 where b: "serve_orders svc reqs w1 = (bs, w2)" by fastforce
  have out: "as = (u, a) # bs" "w' = w2" using Cons.prems q a b by auto
  note IH = Cons.IH [OF b [folded out(2)]]
  have step: "served u w (a, w1)" using serve_order_fx [of u w req] a by simp
  let ?U = "fst ` set (q # reqs) - {[]}"
  have "only_own ?U (orders_of w) (orders_of w1)"
  proof (cases "u = []")
    case True
    with step show ?thesis by (simp add: served_def)
  next
    case False
    have "only_own {u} (orders_of w) (orders_of w1)" using step by (simp add: served_def)
    then show ?thesis by (rule only_own_mono) (simp add: q False)
  qed
  moreover have "only_own ?U (orders_of w1) (orders_of w')"
    by (rule only_own_mono [OF IH [THEN conjunct1]]) auto
  ultimately have own: "only_own ?U (orders_of w) (orders_of w')" by (rule only_own_trans)
  have "order_owner (orders_of w') (oaID r) = Some v"
    if "snd (orders_of w)" "(v, Inr rs) \<in> set as" "r \<in> set rs" for v rs r
  proof -
    have ok1: "snd (orders_of w1)" using step that(1) by (simp add: served_def only_own_def)
    from that(2) out(1) consider "v = u" "a = Inr rs" | "(v, Inr rs) \<in> set bs" by auto
    then show ?thesis
    proof cases
      case 1
      with step that(1,3) have "order_owner (orders_of w1) (oaID r) = Some v" by (simp add: served_def)
      with IH ok1 show ?thesis by (auto simp: only_own_def)
    next
      case 2
      with IH ok1 that(3) show ?thesis by blast
    qed
  qed
  with own show ?case by blast
qed

end

end
