(* ===== verification/OrdersPg.thy ===== *)
theory OrdersPg
  imports Orders InventoryPg
begin

text \<open>
  The PostgreSQL order repository (\<open>internal/infra/db/postgres/orders/order_repo.go\<close>) over the
  tables of \<open>migrations/postgres/orders\<close>: a header row per order and one row per item. Each
  statement is a database call of its own; outside a transaction a failed statement leaves the
  earlier ones in place. \<open>dec\<close> stands for what the driver and a \<open>DECIMAL(12, 2)\<close> column make of
  a \<open>float64\<close>: the value read back, or \<open>None\<close> when the column rejects it.
\<close>

record order_db = inv_db +
  orders_tbl :: "(string \<times> Order) list" \<comment> \<open>header rows; their items are in the other table\<close>
  order_items :: "(string \<times> OrderItem) list"

type_synonym decimal = "f64 \<Rightarrow> f64 option"

text \<open>\<open>INSERT INTO order_items\<close> for each item, stopping at the first failure.\<close>

fun insert_items :: "decimal \<Rightarrow> string \<Rightarrow> OrderItem list \<Rightarrow> ('a order_db_scheme, unit) io" where
  "insert_items dec oid [] w = (Inr (), w)"
| "insert_items dec oid (i # is) w = (case db_call w of
       (Inl e, w1) \<Rightarrow> (Inl e, w1)
     | (Inr _, w1) \<Rightarrow> (case dec (oiPrice i) of
           None \<Rightarrow> (Inl (DbError ''numeric field overflow''), db_reject w1)
         | Some p \<Rightarrow>
             if \<not> i32 (oiQuantity i) then (Inl (DbError ''integer out of range''), db_reject w1)
             else insert_items dec oid is
               (w1\<lparr>order_items := order_items w1 @ [(oid, i\<lparr>oiPrice := p\<rparr>)]\<rparr>)))"

definition Create_pg :: "decimal \<Rightarrow> Order \<Rightarrow> ('a order_db_scheme, unit) io" where
  "Create_pg dec o1 w = (case db_call w of
       (Inl e, w1) \<Rightarrow> (Inl e, w1)
     | (Inr _, w1) \<Rightarrow> (case dec (ordTotal o1) of
           None \<Rightarrow> (Inl (DbError ''numeric field overflow''), db_reject w1)
         | Some t \<Rightarrow>
             if map_of (orders_tbl w1) (ordID o1) \<noteq> None
             then (Inl (DbError ''duplicate key''), db_reject w1)
             else insert_items dec (ordID o1) (ordItems o1)
               (w1\<lparr>orders_tbl := orders_tbl w1 @ [(ordID o1, o1\<lparr>ordTotal := t, ordItems := []\<rparr>)]\<rparr>)))"

definition fetchOrderItems :: "string \<Rightarrow> ('a order_db_scheme, OrderItem list) io" where
  "fetchOrderItems oid w = (case db_call w of
       (Inl e, w1) \<Rightarrow> (Inl e, w1)
     | (Inr _, w1) \<Rightarrow> (Inr (map snd (filter (\<lambda>r. fst r = oid) (order_items w1))), w1))"

definition GetByID_pg :: "string \<Rightarrow> ('a order_db_scheme, Order) io" where
  "GetByID_pg oid w = (case db_call w of
       (Inl e, w1) \<Rightarrow> (Inl e, w1)
     | (Inr _, w1) \<Rightarrow> (case map_of (orders_tbl w1) oid of
           None \<Rightarrow> (Inl (ErrText ''order not found''), w1)
         | Some h \<Rightarrow> (case fetchOrderItems (ordID h) w1 of
               (Inl e, w2) \<Rightarrow> (Inl e, w2)
             | (Inr items, w2) \<Rightarrow> (Inr (h\<lparr>ordItems := items\<rparr>), w2))))"

text \<open>
  \<open>Update\<close>: the mutable columns, then all items deleted and inserted again. \<open>created_at\<close> is not
  among the columns written; an UPDATE of a missing row affects none and is no error, but the
  items that follow then violate their foreign key.
\<close>

definition update_header :: "Order \<Rightarrow> f64 \<Rightarrow> Order \<Rightarrow> Order" where
  "update_header o1 t h = h\<lparr>ordCustomerID := ordCustomerID o1,
     ordCustomerSnapshot := ordCustomerSnapshot o1, ordTotal := t, ordStatus := ordStatus o1\<rparr>"

definition Update_pg :: "decimal \<Rightarrow> Order \<Rightarrow> ('a order_db_scheme, unit) io" where
  "Update_pg dec o1 w = (case db_call w of
       (Inl e, w1) \<Rightarrow> (Inl e, w1)
     | (Inr _, w1) \<Rightarrow> (case dec (ordTotal o1) of
           None \<Rightarrow> (Inl (DbError ''numeric field overflow''), db_reject w1)
         | Some t \<Rightarrow>
           (let w2 = w1\<lparr>orders_tbl := snd (tbl_upd (ordID o1) (update_header o1 t) (orders_tbl w1))\<rparr> in
            case db_call w2 of
              (Inl e, w3) \<Rightarrow> (Inl e, w3)
            | (Inr _, w3) \<Rightarrow>
              (let w4 = w3\<lparr>order_items := filter (\<lambda>r. fst r \<noteq> ordID o1) (order_items w3)\<rparr> in
               if map_of (orders_tbl w4) (ordID o1) = None \<and> ordItems o1 \<noteq> []
               then (case db_call w4 of
                   (Inl e, w5) \<Rightarrow> (Inl e, w5)
                 | (Inr _, w5) \<Rightarrow> (Inl (DbError ''foreign key violation''), db_reject w5))
               else insert_items dec (ordID o1) (ordItems o1) w4))))"

text \<open>Listing: a page of headers (in table order), then the items of each.\<close>

fun attach_items :: "Order list \<Rightarrow> ('a order_db_scheme, Order list) io" where
  "attach_items [] w = (Inr [], w)"
| "attach_items (h # hs) w = (case fetchOrderItems (ordID h) w of
       (Inl e, w1) \<Rightarrow> (Inl e, w1)
     | (Inr items, w1) \<Rightarrow> (case attach_items hs w1 of
           (Inl e, w2) \<Rightarrow> (Inl e, w2)
         | (Inr rest, w2) \<Rightarrow> (Inr (h\<lparr>ordItems := items\<rparr> # rest), w2)))"

definition ListByCustomerID_pg :: "string \<Rightarrow> int \<Rightarrow> int \<Rightarrow> ('a order_db_scheme, Order list) io" where
  "ListByCustomerID_pg c limit offset w = (case db_call w of
       (Inl e, w1) \<Rightarrow> (Inl e, w1)
     | (Inr _, w1) \<Rightarrow>
         if limit < 0 \<or> offset < 0 then (Inl (DbError ''LIMIT must not be negative''), db_reject w1)
         else attach_items (sql_page limit offset
           (filter (\<lambda>h. ordCustomerID h = c) (map snd (orders_tbl w1)))) w1)"

definition ListAll_pg :: "int \<Rightarrow> int \<Rightarrow> ('a order_db_scheme, Order list) io" where
  "ListAll_pg limit offset w = (case db_call w of
       (Inl e, w1) \<Rightarrow> (Inl e, w1)
     | (Inr _, w1) \<Rightarrow>
         if limit < 0 \<or> offset < 0 then (Inl (DbError ''LIMIT must not be negative''), db_reject w1)
         else attach_items (sql_page limit offset (map snd (orders_tbl w1))) w1)"

definition order_repo_pg :: "decimal \<Rightarrow> ('a order_db_scheme) OrderRepository" where
  "order_repo_pg dec = \<lparr>oCreate = Create_pg dec, oGetByID = GetByID_pg, oUpdate = Update_pg dec,
     oListByCustomerID = ListByCustomerID_pg, oListAll = ListAll_pg\<rparr>"

definition order_service_pg :: "decimal \<Rightarrow> bool \<Rightarrow> ('a order_db_scheme) orderService" where
  "order_service_pg dec outbox_on = \<lparr>osRepo = order_repo_pg dec, osBus = Publish_log,
     osOutbox = (if outbox_on then Some outbox_pg else None),
     osTx = (if outbox_on then Some RunInTx_pg else None)\<rparr>"

section \<open>The table of orders\<close>

definition items_of :: "'a order_db_scheme \<Rightarrow> string \<Rightarrow> OrderItem list" where
  "items_of w oid = map snd (filter (\<lambda>r. fst r = oid) (order_items w))"

definition order_view :: "'a order_db_scheme \<Rightarrow> string \<Rightarrow> Order option" where
  "order_view w oid = map_option (\<lambda>h. h\<lparr>ordItems := items_of w oid\<rparr>) (map_of (orders_tbl w) oid)"

definition stored_item :: "decimal \<Rightarrow> OrderItem \<Rightarrow> OrderItem" where
  "stored_item dec i = i\<lparr>oiPrice := the (dec (oiPrice i))\<rparr>"

definition stored_order :: "decimal \<Rightarrow> Order \<Rightarrow> Order" where
  "stored_order dec o1 = o1\<lparr>ordTotal := the (dec (ordTotal o1)),
     ordItems := map (stored_item dec) (ordItems o1)\<rparr>"

text \<open>
  What the schema guarantees: header rows are stored under their id, item rows refer to a header
  (foreign key), and the numbers are values of their columns.
\<close>

definition order_ok :: "decimal \<Rightarrow> 'a order_db_scheme \<Rightarrow> bool" where
  "order_ok dec w \<longleftrightarrow>
     (\<forall>oid h. map_of (orders_tbl w) oid = Some h \<longrightarrow> ordID h = oid \<and> dec (ordTotal h) = Some (ordTotal h)) \<and>
     (\<forall>r\<in>set (order_items w). map_of (orders_tbl w) (fst r) \<noteq> None \<and>
        dec (oiPrice (snd r)) = Some (oiPrice (snd r)) \<and> i32 (oiQuantity (snd r)))"

definition decimal_idem :: "decimal \<Rightarrow> bool" where
  "decimal_idem dec \<longleftrightarrow> (\<forall>x y. dec x = Some y \<longrightarrow> dec y = Some y)"

text \<open>The parts of the world an order statement leaves alone.\<close>

definition order_frame :: "'a order_db_scheme \<Rightarrow> 'a order_db_scheme \<Rightarrow> bool" where
  "order_frame w w1 \<longleftrightarrow> outbox_tbl w1 = outbox_tbl w \<and> in_tx w1 = in_tx w \<and> bus_log w1 = bus_log w \<and>
     uuids w1 = uuids w \<and> clock w1 = clock w \<and> stock_items w1 = stock_items w \<and>
     processed_events w1 = processed_events w"

lemma order_frame_trans: "order_frame w w1 \<Longrightarrow> order_frame w1 w2 \<Longrightarrow> order_frame w w2"
  by (simp add: order_frame_def)

lemma order_call:
  assumes "db_call w = (x, w1)"
  shows "order_frame w w1 \<and> orders_tbl w1 = orders_tbl w \<and> order_items w1 = order_items w"
  using assms by (auto simp: order_frame_def elim!: db_callE)

lemma insert_items_ok:
  "insert_items dec oid is w = (Inr u, w1) \<Longrightarrow>
   order_frame w w1 \<and> orders_tbl w1 = orders_tbl w \<and>
   order_items w1 = order_items w @ map (\<lambda>i. (oid, stored_item dec i)) is \<and>
   (\<forall>i\<in>set is. dec (oiPrice i) \<noteq> None \<and> i32 (oiQuantity i))"
proof (induction "is" arbitrary: w)
  case Nil
  then show ?case by (auto simp: order_frame_def)
next
  case (Cons i "is")
  from Cons.prems obtain x p v where
    d: "db_call w = (Inr x, v)" "dec (oiPrice i) = Some p" "i32 (oiQuantity i)"
    and rec: "insert_items dec oid is (v\<lparr>order_items := order_items v @ [(oid, i\<lparr>oiPrice := p\<rparr>)]\<rparr>) = (Inr u, w1)"
    by (auto split: prod.splits sum.splits option.splits if_splits)
  from Cons.IH [OF rec] order_call [OF d(1)] d(2,3) show ?case
    by (auto simp: stored_item_def order_frame_def)
qed

lemma Create_pg_ok:
  assumes "Create_pg dec o1 w = (Inr u, w1)"
  shows "order_frame w w1 \<and>
    orders_tbl w1 = orders_tbl w @ [(ordID o1, o1\<lparr>ordTotal := the (dec (ordTotal o1)), ordItems := []\<rparr>)] \<and>
    order_items w1 = order_items w @ map (\<lambda>i. (ordID o1, stored_item dec i)) (ordItems o1) \<and>
    dec (ordTotal o1) \<noteq> None \<and> map_of (orders_tbl w) (ordID o1) = None \<and>
    (\<forall>i\<in>set (ordItems o1). dec (oiPrice i) \<noteq> None \<and> i32 (oiQuantity i))"
proof -
  from assms obtain x t v where
    d: "db_call w = (Inr x, v)" "dec (ordTotal o1) = Some t" "map_of (orders_tbl v) (ordID o1) = None"
    and rec: "insert_items dec (ordID o1) (ordItems o1)
        (v\<lparr>orders_tbl := orders_tbl v @ [(ordID o1, o1\<lparr>ordTotal := t, ordItems := []\<rparr>)]\<rparr>) = (Inr u, w1)"
    by (auto simp: Create_pg_def split: prod.splits sum.splits option.splits if_splits)
  from insert_items_ok [OF rec] order_call [OF d(1)] d(2,3) show ?thesis
    by (auto simp: order_frame_def)
qed

lemma filter_key_map: "map snd (filter (\<lambda>r. fst r = k) (map (\<lambda>x. (j, f x)) xs)) = (if j = k then map f xs else [])"
  by (induction xs) auto

lemma no_items: "order_ok dec w \<Longrightarrow> map_of (orders_tbl w) oid = None \<Longrightarrow> items_of w oid = []"
  unfolding order_ok_def items_of_def by (auto simp: filter_empty_conv)

lemma decimal_idemD: "decimal_idem dec \<Longrightarrow> dec x \<noteq> None \<Longrightarrow> dec (the (dec x)) = Some (the (dec x))"
  by (auto simp: decimal_idem_def)

lemma Create_pg_view:
  assumes "Create_pg dec o1 w = (Inr u, w1)" "order_ok dec w" "decimal_idem dec"
  shows "order_view w1 = (order_view w)(ordID o1 \<mapsto> stored_order dec o1)"
    and "order_ok dec w1" and "order_view w (ordID o1) = None" and "order_frame w w1"
proof -
  note ok = Create_pg_ok [OF assms(1)]
  have new: "map_of (orders_tbl w) (ordID o1) = None" using ok by blast
  have it: "items_of w1 x = items_of w x @ (if ordID o1 = x then map (stored_item dec) (ordItems o1) else [])" for x
    using ok by (simp add: items_of_def filter_key_map)
  have tb: "map_of (orders_tbl w1) x = (if x = ordID o1
      then Some (o1\<lparr>ordTotal := the (dec (ordTotal o1)), ordItems := []\<rparr>) else map_of (orders_tbl w) x)" for x
    using ok new by (auto simp: map_add_def split: option.splits)
  show "order_view w1 = (order_view w)(ordID o1 \<mapsto> stored_order dec o1)"
    using no_items [OF assms(2) new]
    by (auto simp: order_view_def it tb stored_order_def)
  show "order_view w (ordID o1) = None" by (simp add: order_view_def new)
  show "order_frame w w1" using ok by blast
  show "order_ok dec w1"
    unfolding order_ok_def
  proof (intro conjI allI impI ballI)
    fix r assume "r \<in> set (order_items w1)"
    with ok consider "r \<in> set (order_items w)" | i where "i \<in> set (ordItems o1)" "r = (ordID o1, stored_item dec i)"
      by auto
    then show "map_of (orders_tbl w1) (fst r) \<noteq> None" "dec (oiPrice (snd r)) = Some (oiPrice (snd r))"
      "i32 (oiQuantity (snd r))"
      using assms(2) ok decimal_idemD [OF assms(3)]
      by (cases; auto simp: tb order_ok_def stored_item_def)+
  next
    fix x h assume h: "map_of (orders_tbl w1) x = Some h"
    then show "ordID h = x" "dec (ordTotal h) = Some (ordTotal h)"
      using assms(2) ok decimal_idemD [OF assms(3), of "ordTotal o1"]
      by (auto simp: tb order_ok_def split: if_splits)
  qed
qed

lemma GetByID_pg_fx:
  assumes "GetByID_pg oid w = (x, w1)"
  shows "env.more w1 = env.more w \<and> in_tx w1 = in_tx w \<and> bus_log w1 = bus_log w \<and> uuids w1 = uuids w \<and>
    (order_ok dec w \<longrightarrow> (\<forall>o1. x = Inr o1 \<longrightarrow> order_view w oid = Some o1 \<and> ordID o1 = oid))"
proof (intro conjI impI allI)
  show "env.more w1 = env.more w" "in_tx w1 = in_tx w" "bus_log w1 = bus_log w" "uuids w1 = uuids w"
    using assms
    by (auto simp: GetByID_pg_def fetchOrderItems_def elim!: db_callE
        split: prod.splits sum.splits option.splits)
  fix o1 assume ok: "order_ok dec w" and x: "x = Inr o1"
  with assms obtain a v h b v1 where d: "db_call w = (Inr a, v)" "map_of (orders_tbl v) oid = Some h"
    "db_call v = (Inr b, v1)" "o1 = h\<lparr>ordItems := map snd (filter (\<lambda>r. fst r = ordID h) (order_items v1))\<rparr>"
    by (auto simp: GetByID_pg_def fetchOrderItems_def split: prod.splits sum.splits option.splits)
  note f = order_call [OF d(1)] order_call [OF d(3)]
  with d(2) ok have "ordID h = oid" by (auto simp: order_ok_def)
  with d f show "order_view w oid = Some o1" "ordID o1 = oid"
    by (auto simp: order_view_def items_of_def)
qed

lemma Update_pg_ok:
  assumes "Update_pg dec o1 w = (Inr u, w1)" "map_of (orders_tbl w) (ordID o1) = Some h"
  shows "order_frame w w1 \<and>
    orders_tbl w1 = tbl_put (ordID o1) (update_header o1 (the (dec (ordTotal o1))) h) (orders_tbl w) \<and>
    order_items w1 = filter (\<lambda>r. fst r \<noteq> ordID o1) (order_items w) @
      map (\<lambda>i. (ordID o1, stored_item dec i)) (ordItems o1)"
proof -
  let ?t = "\<lambda>t. tbl_put (ordID o1) (update_header o1 t h) (orders_tbl w)"
  from assms(1) obtain x t v y v1 where d: "db_call w = (Inr x, v)" "dec (ordTotal o1) = Some t"
    and d1: "db_call (v\<lparr>orders_tbl := snd (tbl_upd (ordID o1) (update_header o1 t) (orders_tbl v))\<rparr>) = (Inr y, v1)"
    and rec: "insert_items dec (ordID o1) (ordItems o1)
        (v1\<lparr>order_items := filter (\<lambda>r. fst r \<noteq> ordID o1) (order_items v1)\<rparr>) = (Inr u, w1)"
    by (auto simp: Update_pg_def Let_def split: prod.splits sum.splits option.splits if_splits)
  from insert_items_ok [OF rec] order_call [OF d(1)] order_call [OF d1] d(2) assms(2)
  show ?thesis by (auto simp: order_frame_def tbl_upd_def)
qed

text \<open>Writing back an order that was read, with another status.\<close>

lemma Update_pg_view:
  assumes "Update_pg dec (o0\<lparr>ordStatus := st\<rparr>) w = (Inr u, w1)" "order_ok dec w"
    and o0: "order_view w oid = Some o0" "ordID o0 = oid"
  shows "order_view w1 = (order_view w)(oid \<mapsto> o0\<lparr>ordStatus := st\<rparr>)" and "order_frame w w1"
    and "order_ok dec w1"
proof -
  obtain h where h: "map_of (orders_tbl w) oid = Some h" "o0 = h\<lparr>ordItems := items_of w oid\<rparr>"
    using o0(1) by (auto simp: order_view_def)
  have dec: "dec (ordTotal h) = Some (ordTotal h)" "ordID h = oid"
    using assms(2) h(1) by (auto simp: order_ok_def)
  note up = Update_pg_ok [OF assms(1), of h]
  have "stored_item dec i = i" if "i \<in> set (items_of w oid)" for i
    using that assms(2) by (auto simp: items_of_def order_ok_def stored_item_def)
  then have st: "map (stored_item dec) (ordItems o0) = items_of w oid"
    by (simp add: h(2) map_idI)
  have it: "items_of w1 x = items_of w x" for x
    using up h o0(2) st filter_key_map [of x oid "stored_item dec" "ordItems o0"]
    by (auto simp: items_of_def intro!: arg_cong [of _ _ "map snd"] filter_cong)
  have hd: "update_header (o0\<lparr>ordStatus := st\<rparr>) (the (dec (ordTotal o0))) h = h\<lparr>ordStatus := st\<rparr>"
    using dec by (simp add: update_header_def h(2))
  show "order_view w1 = (order_view w)(oid \<mapsto> o0\<lparr>ordStatus := st\<rparr>)"
    using up h o0(2) hd by (auto simp: order_view_def it map_of_put)
  show "order_frame w w1" using up h o0(2) by simp
  show "order_ok dec w1"
    unfolding order_ok_def
  proof (intro conjI allI impI ballI)
    fix r assume "r \<in> set (order_items w1)"
    moreover have "r \<in> set (order_items w) \<longleftrightarrow> snd r \<in> set (items_of w (fst r))" for w :: "'a order_db_scheme" and r
      by (auto simp: items_of_def image_iff)
    ultimately have "r \<in> set (order_items w)" by (simp only: it)
    then show "map_of (orders_tbl w1) (fst r) \<noteq> None" "dec (oiPrice (snd r)) = Some (oiPrice (snd r))"
      "i32 (oiQuantity (snd r))"
      using assms(2) up h o0(2) by (auto simp: order_ok_def map_of_put)
  next
    fix x g assume "map_of (orders_tbl w1) x = Some g"
    then show "ordID g = x" "dec (ordTotal g) = Some (ordTotal g)"
      using assms(2) up h o0(2) dec
      by (auto simp: order_ok_def map_of_put update_header_def split: if_splits)
  qed
qed

end
