(* ===== verification/OrderProps.thy ===== *)
theory OrderProps
  imports OrdersPg InventoryProps
begin

text \<open>
  What the order service guarantees: the status state machine, the total, the round trip through
  the tables, the atomicity of a write and its outbox event under any failures, and what the
  mode without a transaction does not guarantee.
\<close>

section \<open>One write and its event\<close>

lemma order_pg_sel [simp]:
  "osRepo (order_service_pg dec b) = order_repo_pg dec" "osBus (order_service_pg dec b) = Publish_log"
  "osOutbox (order_service_pg dec b) = (if b then Some outbox_pg else None)"
  "osTx (order_service_pg dec b) = (if b then Some RunInTx_pg else None)"
  "oCreate (order_repo_pg dec) = Create_pg dec" "oGetByID (order_repo_pg dec) = GetByID_pg"
  "oUpdate (order_repo_pg dec) = Update_pg dec" "Store outbox_pg = Store_pg"
  by (simp_all add: order_service_pg_def order_repo_pg_def outbox_pg_def)

lemma recorded_pg:
  "recorded (order_service_pg dec True) write evt w = RunInTx_pg (write_with_event write outbox_pg evt) w"
  by (simp add: recorded_def)

lemma order_same_more:
  "env.more w1 = env.more (w :: 'a order_db_scheme) \<Longrightarrow>
     orders_tbl w1 = orders_tbl w \<and> order_items w1 = order_items w \<and> outbox_tbl w1 = outbox_tbl w \<and>
     stock_items w1 = stock_items w"
  by (cases w; cases w1) simp

lemma order_same_view:
  "env.more w1 = env.more (w :: 'a order_db_scheme) \<Longrightarrow>
     order_view w1 = order_view w \<and> (order_ok dec w1 \<longleftrightarrow> order_ok dec w) \<and> outbox_tbl w1 = outbox_tbl w"
  by (drule order_same_more) (auto simp: order_view_def items_of_def order_ok_def fun_eq_iff)

lemma Store_one:
  assumes "Store_pg [e] w = (Inr u, w1)"
  shows "outbox_tbl w1 = outbox_tbl w @ [outbox_insert_row e]"
proof (cases "db_call w")
  case (Pair x v)
  then have "outbox_tbl v = outbox_tbl w" by (auto elim!: db_callE)
  with assms Pair show ?thesis by (auto split: sum.splits if_splits)
qed

lemma Store_orders:
  assumes "Store_pg es (w :: 'a order_db_scheme) = (x, w1)"
  shows "order_view w1 = order_view w \<and> (order_ok dec w1 \<longleftrightarrow> order_ok dec w)"
proof -
  obtain f a t where "w1 = w\<lparr>faults := f, tx_aborted := a, outbox_tbl := t\<rparr>"
    using assms by (rule Store_pgE)
  then show ?thesis by (simp add: order_view_def items_of_def order_ok_def fun_eq_iff)
qed

text \<open>
  A transaction around a write and its event, on PostgreSQL: an error leaves all tables as they
  were; a success is one of the write, followed by one new row in the outbox.
\<close>

lemma tx_write_with_event:
  fixes w :: "'a order_db_scheme"
  assumes "RunInTx_pg (write_with_event write outbox_pg evt) w = (r, w')" "\<not> in_tx w"
  shows "(case r of
      Inl e \<Rightarrow> env.more w' = env.more w
    | Inr _ \<Rightarrow> \<exists>w0 u w1. env.more w0 = env.more w \<and> write w0 = (Inr u, w1) \<and>
        order_view w' = order_view w1 \<and> (\<forall>dec. order_ok dec w' \<longleftrightarrow> order_ok dec w1) \<and>
        outbox_tbl w' = outbox_tbl w1 @ [outbox_insert_row evt])"
proof -
  have eq: "write_with_event write outbox_pg evt =
      (\<lambda>w. case write w of (Inl e, w1) \<Rightarrow> (Inl e, w1) | (Inr u, w1) \<Rightarrow> Store_pg [evt] w1)"
    by (rule ext) (auto simp: write_with_event_def split: prod.splits sum.splits)
  note tx = pg_tx.tx_both [OF assms(2) assms(1) [unfolded eq]]
  show ?thesis
  proof (cases r)
    case (Inl e)
    with tx show ?thesis by simp
  next
    case (Inr x)
    with tx obtain w0 u w1 w2 where w0: "env.more w0 = env.more w" "write w0 = (Inr u, w1)"
      and st: "Store_pg [evt] w1 = (Inr x, w2)" and w': "env.more w' = env.more w2" by auto
    have "order_view w' = order_view w1" "\<forall>dec. order_ok dec w' \<longleftrightarrow> order_ok dec w1"
      "outbox_tbl w' = outbox_tbl w1 @ [outbox_insert_row evt]"
      using order_same_view [OF w'] Store_orders [OF st] Store_one [OF st] by simp_all
    with w0 Inr show ?thesis by auto
  qed
qed

lemma outbox_insert_sel:
  "orTopic (outbox_insert_row e) = evTopic e" "orPayload (outbox_insert_row e) = evPayload e"
  "orPublishedAt (outbox_insert_row e) = None"
  by (simp_all add: outbox_insert_row_def)

section \<open>Properties\<close>

text \<open>The life of an order: from \<open>pending\<close> only the five named statuses are ever reached, a
status that was left is never entered again, and \<open>done\<close> and \<open>canceled\<close> are final.\<close>
theorem order_lifecycle:
  assumes "status_path StatusPending s" "status_path s t"
  shows "s \<in> {StatusPending, StatusPaid, StatusShipped, StatusDone, StatusCanceled} \<and>
    (s \<noteq> t \<longrightarrow> \<not> status_path t s) \<and> (s \<in> {StatusDone, StatusCanceled} \<longrightarrow> t = s)"
proof -
  have "t = s" if "s \<in> {StatusDone, StatusCanceled}"
    using assms(2) that
    by (induction rule: status_path.induct)
      (auto simp: Transition_def split: OrderStatus.splits if_splits)
  moreover have "\<not> status_path t s" if "s \<noteq> t"
    using status_path_rank [OF assms(2)] status_path_rank [of t s] that by auto
  ultimately show ?thesis using status_path_known [OF assms(1)] by blast
qed

theorem order_lifecycle_witness:
  "status_path StatusPending StatusPaid \<and> \<not> status_path StatusCanceled StatusPaid"
proof -
  have p: "status_path StatusPending StatusPaid"
    by (rule status_path.go [OF status_path.stay, of _ "''pay''"]) (simp add: Transition_def)
  have c: "status_path StatusPaid StatusCanceled"
    by (rule status_path.go [OF status_path.stay, of _ "''cancel''"]) (simp add: Transition_def)
  from order_lifecycle [OF p c] p show ?thesis by simp
qed

text \<open>The total of an order that passes validation is not negative, and for whole-number
prices it is exactly the sum of price times quantity: no floating-point operation rounds while the
sum stays below \<open>2^53\<close>.\<close>
theorem order_total:
  assumes "ValidateItems is = None"
  shows "0 \<le> CalculateTotal is \<and>
    (\<forall>p. (\<forall>i\<in>set is. 0 \<le> p i \<and> oiPrice i = of_int (p i) \<and> oiQuantity i < 2 ^ 53) \<and>
         (\<Sum>i\<leftarrow>is. p i * oiQuantity i) < 2 ^ 53 \<longrightarrow>
         CalculateTotal is = of_int (\<Sum>i\<leftarrow>is. p i * oiQuantity i))"
  using assms total_fold_nonneg [of 0 "is"] total_fold_exact [of 0 "is"]
  by (auto simp: ValidateItems_None CalculateTotal_def)

theorem order_total_witness:
  "CalculateTotal [\<lparr>oiVariantID = ''v1'', oiQuantity = 2, oiPrice = 30\<rparr>,
     \<lparr>oiVariantID = ''v2'', oiQuantity = 1, oiPrice = 5\<rparr>] = 65"
proof -
  let ?is = "[\<lparr>oiVariantID = ''v1'', oiQuantity = 2, oiPrice = 30\<rparr>,
     \<lparr>oiVariantID = ''v2'', oiQuantity = 1, oiPrice = 5\<rparr>]"
  have "ValidateItems ?is = None" by (simp add: ValidateItems_def)
  from order_total [OF this, THEN conjunct2, rule_format, of "\<lambda>i. floor (oiPrice i)"]
  show ?thesis by simp
qed

lemma env_ops_more:
  "Generate p w = (x, w1) \<Longrightarrow> env.more w1 = env.more w \<and> in_tx w1 = in_tx w"
  "time_now w = (t, w1) \<Longrightarrow> env.more w1 = env.more w \<and> in_tx w1 = in_tx w"
  "NewEventFromCtx tp s pl w = (y, w1) \<Longrightarrow> env.more w1 = env.more w \<and> in_tx w1 = in_tx w"
  by (auto elim!: GenerateE time_nowE NewEventFromCtxE)

text \<open>C3. Creating an order with the outbox is all or nothing, whatever database calls fail: an
error leaves every table as it was; a success stores exactly the order, with its items as the
columns hold them, under a fresh id, and exactly one unpublished \<open>order.created\<close> record.\<close>
theorem create_order_atomic:
  fixes w :: "'a order_db_scheme"
  assumes run: "CreateOrder (order_service_pg dec True) c snap is w = (r, w')"
    and "\<not> in_tx w" "order_ok dec w" "decimal_idem dec"
  shows "(case r of
      Inl e \<Rightarrow> env.more w' = env.more w
    | Inr o1 \<Rightarrow>
        ValidateItems is = None \<and> ordItems o1 = is \<and> ordTotal o1 = CalculateTotal is \<and>
        ordStatus o1 = StatusPending \<and> ordCustomerID o1 = c \<and> order_view w (ordID o1) = None \<and>
        order_view w' = (order_view w)(ordID o1 \<mapsto> stored_order dec o1) \<and> order_ok dec w' \<and>
        (\<exists>evt. evTopic evt = OrderCreatedTopic \<and>
           evPayload evt = POrderCreated \<lparr>oc_OrderID = ordID o1, oc_CustomerID = c,
             oc_Total = ordTotal o1, oc_CreatedAt = ordCreatedAt o1\<rparr> \<and>
           outbox_tbl w' = outbox_tbl w @ [outbox_insert_row evt]))"
  using run
proof (cases rule: CreateOrder_cases)
  case refused
  then show ?thesis by (cases r) auto
next
  case (written o1 evt v x)
  note tx = tx_write_with_event [OF written(10) [unfolded recorded_pg order_pg_sel]]
  show ?thesis
  proof (cases x)
    case (Inl e)
    with tx written assms(2) show ?thesis by simp
  next
    case (Inr u)
    with tx written(8,9) assms(2) obtain v0 u1 v1 where v: "env.more v0 = env.more w" "Create_pg dec o1 v0 = (Inr u1, v1)"
      "order_view w' = order_view v1" "order_ok dec w' = order_ok dec v1"
      "outbox_tbl w' = outbox_tbl v1 @ [outbox_insert_row evt]" by auto
    have vv: "order_view v0 = order_view w" "order_ok dec v0" "outbox_tbl v0 = outbox_tbl w"
      using order_same_view [of v0 w] v(1) assms(3) by auto
    note cr = Create_pg_view [OF v(2) vv(2) assms(4)]
    have "outbox_tbl v1 = outbox_tbl w" using cr(4) vv(3) by (simp add: order_frame_def)
    with cr v vv written Inr show ?thesis by (auto intro!: exI [of _ evt])
  qed
qed

text \<open>An empty shop for the concrete runs.\<close>

definition sample_orders :: "string option list \<Rightarrow> bool list \<Rightarrow> order_db" where
  "sample_orders us fs = \<lparr>clock = 0, delays = [], uuids = us, faults = fs, ctx_trace = None,
     ctx_corr = None, in_tx = False, tx_aborted = False, bus_log = [], outbox_tbl = [],
     processed_events = [], stock_items = [], reservations = [], alerts = [], stock_history = [],
     orders_tbl = [], order_items = []\<rparr>"

definition sample_cart_items :: "OrderItem list" where
  "sample_cart_items = [\<lparr>oiVariantID = ''v1'', oiQuantity = 2, oiPrice = 30\<rparr>]"

definition sample_snapshot :: OrderCustomerSnapshot where
  "sample_snapshot = \<lparr>csName = ''N'', csEmail = ''E'', csContactNumber = []\<rparr>"

lemma sample_orders_ok: "order_ok dec (sample_orders us fs)"
  by (simp add: order_ok_def sample_orders_def)

lemma decimal_idem_Some: "decimal_idem Some"
  by (simp add: decimal_idem_def)

theorem create_order_atomic_witness:
  "\<exists>o1 w'. CreateOrder (order_service_pg Some True) ''c1'' sample_snapshot sample_cart_items
       (sample_orders [Some ''a'', Some ''b''] []) = (Inr o1, w') \<and>
     order_view w' (ordID o1) = Some o1 \<and> length (outbox_tbl w') = 1"
proof -
  let ?w = "sample_orders [Some ''a'', Some ''b''] []"
  obtain r w' where run: "CreateOrder (order_service_pg Some True) ''c1'' sample_snapshot
      sample_cart_items ?w = (r, w')" by fastforce
  have "\<not> isl (fst (CreateOrder (order_service_pg Some True) ''c1'' sample_snapshot sample_cart_items ?w))"
    by code_simp
  then obtain o1 where r: "r = Inr o1" using run by (cases r) auto
  have "stored_item Some = id" by (simp add: fun_eq_iff stored_item_def)
  then have "stored_order Some o1 = o1" by (simp add: stored_order_def)
  moreover have "outbox_tbl ?w = []" by (simp add: sample_orders_def)
  moreover have "order_view w' = (order_view ?w)(ordID o1 \<mapsto> stored_order Some o1) \<and>
      (\<exists>evt. outbox_tbl w' = outbox_tbl ?w @ [outbox_insert_row evt])"
    using create_order_atomic [OF run, OF _ sample_orders_ok decimal_idem_Some] r
    by (auto simp: sample_orders_def)
  ultimately show ?thesis using run r by auto
qed



text \<open>The shop with one stored order.\<close>

definition sample_order :: "OrderStatus \<Rightarrow> Order" where
  "sample_order st = \<lparr>ordID = ''o1'', ordCustomerID = ''c1'', ordCustomerSnapshot = sample_snapshot,
     ordItems = sample_cart_items, ordTotal = 60, ordStatus = st, ordCreatedAt = 0\<rparr>"

definition sample_shop :: "OrderStatus \<Rightarrow> string option list \<Rightarrow> bool list \<Rightarrow> order_db" where
  "sample_shop st us fs = (sample_orders us fs)
     \<lparr>orders_tbl := [(''o1'', (sample_order st)\<lparr>ordItems := []\<rparr>)],
      order_items := map (\<lambda>i. (''o1'', i)) sample_cart_items\<rparr>"

lemma sample_shop_ok: "order_ok Some (sample_shop st us fs)"
  by (simp add: order_ok_def sample_shop_def sample_order_def sample_cart_items_def i32_def)

lemma sample_shop_view: "order_view (sample_shop st us fs) ''o1'' = Some (sample_order st)"
  by (simp add: order_view_def items_of_def sample_shop_def sample_order_def sample_cart_items_def)


text \<open>Shipping or completing an order is not atomic, with or without the outbox: no
transaction is used for them, and \<open>Update\<close> deletes the items before it inserts them again. If
the first insert fails the caller gets a 500, but the new status is stored and every item is gone.\<close>
theorem ship_failure_loses_items:
  fixes w :: "'a order_db_scheme"
  assumes "faults w = [False, False, False, False, True]" "\<not> in_tx w" "\<not> tx_aborted w" "order_ok dec w"
    and "order_view w oid = Some o0" "ordItems o0 \<noteq> []" "Transition (ordStatus o0) a = Inr st"
    and "a = ''ship'' \<or> a = ''complete''"
  shows "\<exists>e w'. TransitionOrder (order_service_pg dec b) oid a w = (Inl e, w') \<and> http_status e = 500 \<and>
    order_view w' oid = Some (o0\<lparr>ordStatus := st, ordItems := []\<rparr>)"
proof -
  obtain h where h: "map_of (orders_tbl w) oid = Some h" "o0 = h\<lparr>ordItems := items_of w oid\<rparr>"
    using assms(5) by (auto simp: order_view_def)
  have hd: "ordID h = oid" "dec (ordTotal h) = Some (ordTotal h)"
    using assms(4) h(1) by (auto simp: order_ok_def)
  let ?w1 = "w\<lparr>faults := [False, False, True], tx_aborted := False\<rparr>"
  have get: "GetByID_pg oid w = (Inr o0, w\<lparr>faults := [False, False, True]\<rparr>)"
    using assms(1,3) h hd by (simp add: GetByID_pg_def fetchOrderItems_def db_call_def items_of_def)
  have sp: "status_payload x st = None" for x
    using assms(7,8) by (auto simp: Transition_def status_payload_def split: OrderStatus.splits if_splits)
  obtain i "is" where items: "ordItems o0 = i # is" using assms(6) by (cases "ordItems o0") auto
  let ?w2 = "w\<lparr>faults := [], tx_aborted := False,
      orders_tbl := tbl_put oid (update_header (o0\<lparr>ordStatus := st\<rparr>) (ordTotal h) h) (orders_tbl w),
      order_items := filter (\<lambda>r. fst r \<noteq> oid) (order_items w)\<rparr>"
  have "Update_pg dec (o0\<lparr>ordStatus := st\<rparr>) (w\<lparr>faults := [False, False, True]\<rparr>) =
      (Inl (DbError ''driver error''), ?w2)"
    using assms(1-3) h hd items
    by (simp add: Update_pg_def db_call_def tbl_upd_def map_of_put Let_def)
  then have "TransitionOrder (order_service_pg dec b) oid a w = (Inl (update_failed (DbError ''driver error'')), ?w2)"
    using get assms(7) sp by (simp add: TransitionOrder_def Let_def)
  moreover have "update_header (o0\<lparr>ordStatus := st\<rparr>) (ordTotal h) h = h\<lparr>ordStatus := st\<rparr>"
    by (simp add: update_header_def h(2))
  then have "order_view ?w2 oid = Some (o0\<lparr>ordStatus := st, ordItems := []\<rparr>)"
    by (simp add: order_view_def items_of_def map_of_put h(2))
  ultimately show ?thesis by (simp add: update_failed_def NewInternal_def)
qed

theorem ship_failure_loses_items_witness:
  "\<exists>e w'. TransitionOrder (order_service_pg Some True) ''o1'' ''ship''
       (sample_shop StatusPaid [] [False, False, False, False, True]) = (Inl e, w') \<and>
     order_view w' ''o1'' = Some ((sample_order StatusShipped)\<lparr>ordItems := []\<rparr>)"
  using ship_failure_loses_items [of "sample_shop StatusPaid [] [False, False, False, False, True]" Some
      "''o1''" "sample_order StatusPaid" "''ship''" StatusShipped True, OF _ _ _ sample_shop_ok sample_shop_view]
  by (auto simp: sample_shop_def sample_orders_def sample_order_def sample_cart_items_def Transition_def)

end
