(* ===== verification/OrderHandlerProps.thy ===== *)
theory OrderHandlerProps
  imports OrderHandlers OrderProps
begin

text \<open>
  The order handlers on PostgreSQL: the repository, with or without the outbox and whatever statements
  fail, satisfies the contract \<open>order_shop\<close>, so customers are kept apart.
\<close>

section \<open>The tables after any run of a statement\<close>

definition orders_pg :: "'a order_db_scheme \<Rightarrow> order_table" where
  "orders_pg w = (order_view w, tbl_ok (orders_tbl w) \<and> (\<forall>k h. map_of (orders_tbl w) k = Some h \<longrightarrow> ordID h = k))"

lemma orders_pg_eq:
  "orders_tbl w1 = orders_tbl w \<Longrightarrow> order_items w1 = order_items w \<Longrightarrow> orders_pg w1 = orders_pg w"
  by (simp add: orders_pg_def order_view_def items_of_def fun_eq_iff)

lemma orders_pg_more: "env.more w1 = env.more (w :: 'a order_db_scheme) \<Longrightarrow> orders_pg w1 = orders_pg w"
  using order_same_more [of w1 w] by (blast intro: orders_pg_eq)

lemma orders_pg_row: "snd (orders_pg w) \<Longrightarrow> map_of (orders_tbl w) oid = Some h \<Longrightarrow> ordID h = oid"
  by (simp add: orders_pg_def)

lemma orders_call: "db_call (w :: 'a order_db_scheme) = (x, w1) \<Longrightarrow> orders_tbl w1 = orders_tbl w \<and> order_items w1 = order_items w"
  using order_call by blast

lemma insert_items_any:
  "insert_items dec oid is w = (x, w1) \<Longrightarrow> orders_tbl w1 = orders_tbl w \<and>
   (\<exists>its. order_items w1 = order_items w @ map (Pair oid) its)"
proof (induction "is" arbitrary: w)
  case (Cons i "is")
  obtain y v where y: "db_call w = (y, v)" by fastforce
  note v = orders_call [OF y]
  show ?case
  proof (cases "isl y \<or> dec (oiPrice i) = None \<or> \<not> i32 (oiQuantity i)")
    case True
    with Cons.prems y v show ?thesis
      by (cases y) (auto simp: db_reject_def intro!: exI [of _ "[]"] split: option.splits)
  next
    case False
    then obtain u p where "y = Inr u" "dec (oiPrice i) = Some p" "i32 (oiQuantity i)" by (cases y) auto
    with Cons.prems y Cons.IH [of "v\<lparr>order_items := order_items v @ [(oid, i\<lparr>oiPrice := p\<rparr>)]\<rparr>"] v
    obtain its where "orders_tbl w1 = orders_tbl w"
      "order_items w1 = order_items w @ map (Pair oid) (i\<lparr>oiPrice := p\<rparr> # its)" by auto
    then show ?thesis by blast
  qed
qed (auto intro!: exI [of _ "[]"])

lemma view_other:
  assumes "map_of (orders_tbl w1) oid = map_of (orders_tbl w) oid"
    "filter (\<lambda>r. fst r = oid) (order_items w1) = filter (\<lambda>r. fst r = oid) (order_items w)"
  shows "order_view w1 oid = order_view w oid"
  using assms by (simp add: order_view_def items_of_def)

lemma owner_pg: "order_owner (orders_pg w) oid = map_option ordCustomerID (map_of (orders_tbl w) oid)"
  by (simp add: order_owner_def orders_pg_def order_view_def option.map_comp o_def)

text \<open>A write that names the order \<open>oid\<close> and leaves it to \<open>u\<close>.\<close>

lemma only_own_pg:
  assumes "snd (orders_pg w) \<Longrightarrow> snd (orders_pg w1)"
    and "\<And>k. k \<noteq> oid \<Longrightarrow> map_of (orders_tbl w1) k = map_of (orders_tbl w) k \<and>
      filter (\<lambda>r. fst r = k) (order_items w1) = filter (\<lambda>r. fst r = k) (order_items w)"
    and "order_owner (orders_pg w1) oid = Some u" "order_owner (orders_pg w) oid \<in> {None, Some u}"
  shows "only_own {u} (orders_pg w) (orders_pg w1)"
proof -
  have other: "fst (orders_pg w1) k = fst (orders_pg w) k" if "k \<noteq> oid" for k
    using assms(2) [OF that] view_other [of w1 k w] by (simp add: orders_pg_def)
  then have "order_owner (orders_pg w1) k = order_owner (orders_pg w) k" if "k \<noteq> oid" for k
    using that by (simp add: order_owner_def)
  with assms(1,3,4) other show ?thesis unfolding only_own_def by (metis insert_iff option.distinct(1) singletonD)
qed

lemma Create_pg_any:
  fixes w :: "'a order_db_scheme"
  assumes "Create_pg dec o1 w = (z, w1)"
  shows "only_own {ordCustomerID o1} (orders_pg w) (orders_pg w1) \<and>
    (\<not> isl z \<longrightarrow> order_owner (orders_pg w1) (ordID o1) = Some (ordCustomerID o1))"
proof -
  obtain y v where y: "db_call w = (y, v)" by fastforce
  note v = orders_call [OF y]
  show ?thesis
  proof (cases "isl y \<or> dec (ordTotal o1) = None \<or> map_of (orders_tbl w) (ordID o1) \<noteq> None")
    case True
    with assms y v have "orders_pg w1 = orders_pg w \<and> isl z"
      by (cases y) (auto simp: Create_pg_def db_reject_def intro!: orders_pg_eq split: option.splits)
    then show ?thesis by auto
  next
    case False
    then obtain u t where d: "y = Inr u" "dec (ordTotal o1) = Some t" "map_of (orders_tbl w) (ordID o1) = None"
      by (cases y) auto
    let ?h = "o1\<lparr>ordTotal := t, ordItems := []\<rparr>"
    have run: "insert_items dec (ordID o1) (ordItems o1) (v\<lparr>orders_tbl := orders_tbl v @ [(ordID o1, ?h)]\<rparr>) = (z, w1)"
      using assms y v d by (simp add: Create_pg_def)
    from insert_items_any [OF run] v obtain its where
      t: "orders_tbl w1 = orders_tbl w @ [(ordID o1, ?h)]" "order_items w1 = order_items w @ map (Pair (ordID o1)) its"
      by auto
    have own: "order_owner (orders_pg w1) (ordID o1) = Some (ordCustomerID o1)"
      using t(1) d(3) by (simp add: owner_pg map_add_def)
    moreover have "only_own {ordCustomerID o1} (orders_pg w) (orders_pg w1)"
    proof (rule only_own_pg [OF _ _ own])
      show "snd (orders_pg w) \<Longrightarrow> snd (orders_pg w1)"
        using t(1) d(3) by (auto simp: orders_pg_def tbl_ok_def map_of_eq_None_iff map_add_Some_iff split: if_splits)
      show "order_owner (orders_pg w) (ordID o1) \<in> {None, Some (ordCustomerID o1)}" by (simp add: owner_pg d(3))
    qed (auto simp: t map_add_def split: option.splits)
    ultimately show ?thesis by blast
  qed
qed

lemma Update_pg_any:
  fixes w :: "'a order_db_scheme"
  assumes "Update_pg dec o1 w = (z, w1)" "order_owner (orders_pg w) (ordID o1) = Some (ordCustomerID o1)"
  shows "only_own {ordCustomerID o1} (orders_pg w) (orders_pg w1)"
proof -
  obtain h where h: "map_of (orders_tbl w) (ordID o1) = Some h" "ordCustomerID h = ordCustomerID o1"
    using assms(2) by (auto simp: owner_pg)
  obtain y v where y: "db_call w = (y, v)" by fastforce
  note v = orders_call [OF y]
  show ?thesis
  proof (cases "isl y \<or> dec (ordTotal o1) = None")
    case True
    with assms y v have "orders_pg w1 = orders_pg w"
      by (cases y) (auto simp: Update_pg_def db_reject_def intro!: orders_pg_eq split: option.splits)
    then show ?thesis by simp
  next
    case False
    then obtain u t where d: "y = Inr u" "dec (ordTotal o1) = Some t" by (cases y) auto
    let ?v = "v\<lparr>orders_tbl := tbl_put (ordID o1) (update_header o1 t h) (orders_tbl w)\<rparr>"
    obtain q v2 where q: "db_call ?v = (q, v2)" by fastforce
    note v2 = orders_call [OF q]
    have run: "(z, w1) = (case q of Inl e \<Rightarrow> (Inl e, v2) | Inr _ \<Rightarrow> insert_items dec (ordID o1) (ordItems o1)
        (v2\<lparr>order_items := filter (\<lambda>r. fst r \<noteq> ordID o1) (order_items v2)\<rparr>))"
      using assms(1) y v d h q v2
      by (auto simp: Update_pg_def Let_def tbl_upd_def map_of_put split: sum.splits)
    have t: "orders_tbl w1 = tbl_put (ordID o1) (update_header o1 t h) (orders_tbl w) \<and>
        (\<forall>k. k \<noteq> ordID o1 \<longrightarrow> filter (\<lambda>r. fst r = k) (order_items w1) = filter (\<lambda>r. fst r = k) (order_items w))"
    proof (cases q)
      case (Inl e)
      with run v2 v show ?thesis by auto
    next
      case (Inr b)
      from insert_items_any [OF run [unfolded Inr sum.case, symmetric]] v2 v obtain its where
        "orders_tbl w1 = tbl_put (ordID o1) (update_header o1 t h) (orders_tbl w)"
        "order_items w1 = filter (\<lambda>r. fst r \<noteq> ordID o1) (order_items w) @ map (Pair (ordID o1)) its" by auto
      then show ?thesis by (auto intro!: filter_cong)
    qed
    have own: "order_owner (orders_pg w1) (ordID o1) = Some (ordCustomerID o1)"
      using t by (simp add: owner_pg map_of_put update_header_def)
    show ?thesis
    proof (rule only_own_pg [OF _ _ own])
      assume ok: "snd (orders_pg w)"
      then have "ordID h = ordID o1" using orders_pg_row h(1) by blast
      with ok t show "snd (orders_pg w1)"
        by (auto simp: orders_pg_def tbl_ok_put map_of_put update_header_def)
    qed (use t assms(2) in \<open>auto simp: map_of_put\<close>)
  qed
qed

text \<open>Reading.\<close>

lemma fetch_any:
  "fetchOrderItems oid w = (x, w1) \<Longrightarrow> orders_tbl w1 = orders_tbl w \<and> order_items w1 = order_items w \<and>
    (\<forall>its. x = Inr its \<longrightarrow> its = items_of w oid)"
  by (auto simp: fetchOrderItems_def items_of_def split: prod.splits sum.splits dest!: orders_call)

lemma GetByID_pg_any:
  fixes w :: "'a order_db_scheme"
  assumes "GetByID_pg oid w = (x, w1)"
  shows "orders_pg w1 = orders_pg w \<and>
    (\<forall>o1. x = Inr o1 \<longrightarrow> snd (orders_pg w) \<longrightarrow> fst (orders_pg w) oid = Some o1 \<and> ordID o1 = oid)"
proof (intro conjI allI impI)
  show "orders_pg w1 = orders_pg w" using GetByID_pg_fx [OF assms] orders_pg_more by blast
  fix o1 assume x: "x = Inr o1" and ok: "snd (orders_pg w)"
  with assms obtain a v h its where d: "db_call w = (Inr a, v)" "map_of (orders_tbl v) oid = Some h"
    "fetchOrderItems (ordID h) v = (Inr its, w1)" "o1 = h\<lparr>ordItems := its\<rparr>"
    by (auto simp: GetByID_pg_def split: prod.splits sum.splits option.splits)
  note c = orders_call [OF d(1)] fetch_any [OF d(3)]
  have "ordID h = oid" using orders_pg_row [OF ok] c(1) d(2) by simp
  with c d show "fst (orders_pg w) oid = Some o1" "ordID o1 = oid"
    by (auto simp: orders_pg_def order_view_def items_of_def)
qed

lemma attach_items_any:
  "attach_items hs w = (x, w1) \<Longrightarrow> orders_tbl w1 = orders_tbl w \<and> order_items w1 = order_items w \<and>
    (\<forall>os. x = Inr os \<longrightarrow> (\<forall>o1\<in>set os. \<exists>h\<in>set hs. ordID o1 = ordID h))"
proof (induction hs arbitrary: w x w1)
  case (Cons h hs)
  obtain y v where y: "fetchOrderItems (ordID h) w = (y, v)" by fastforce
  obtain z u where z: "attach_items hs v = (z, u)" by fastforce
  from Cons.IH [OF z] fetch_any [OF y] Cons.prems y z show ?case by (cases y; cases z) auto
qed simp

lemma list_pg_any:
  fixes w :: "'a order_db_scheme"
  assumes "ListByCustomerID_pg c l k w = (x, w1)"
  shows "orders_pg w1 = orders_pg w \<and> (\<forall>os. x = Inr os \<longrightarrow> snd (orders_pg w) \<longrightarrow>
    (\<forall>o1\<in>set os. order_owner (orders_pg w) (ordID o1) = Some c))"
proof -
  obtain y v where y: "db_call w = (y, v)" by fastforce
  note v = orders_call [OF y]
  let ?hs = "sql_page l k (filter (\<lambda>h. ordCustomerID h = c) (map snd (orders_tbl v)))"
  show ?thesis
  proof (cases "isl y \<or> l < 0 \<or> k < 0")
    case True
    with assms y v show ?thesis
      by (cases y) (auto simp: ListByCustomerID_pg_def db_reject_def intro!: orders_pg_eq)
  next
    case False
    then have run: "attach_items ?hs v = (x, w1)"
      using assms y by (cases y) (auto simp: ListByCustomerID_pg_def)
    note at = attach_items_any [OF run]
    have "order_owner (orders_pg w) (ordID h) = Some c" if "h \<in> set ?hs" "snd (orders_pg w)" for h
    proof -
      from set_sql_page [OF that(1)] v obtain oid where oid: "(oid, h) \<in> set (orders_tbl w)" "ordCustomerID h = c"
        by auto
      then have "map_of (orders_tbl w) oid = Some h" using that(2) tbl_ok_row by (fastforce simp: orders_pg_def)
      with orders_pg_row [OF that(2)] oid(2) show ?thesis by (auto simp: owner_pg)
    qed
    with at v show ?thesis by (metis orders_pg_eq)
  qed
qed

lemma tx_pg_any:
  fixes w :: "'a order_db_scheme"
  assumes "RunInTx_pg (write_with_event write outbox_pg evt) w = (z, w1)"
  shows "isl z \<and> orders_pg w1 = orders_pg w \<or>
    (\<exists>w0 q w2. orders_pg w0 = orders_pg w \<and> write w0 = (q, w2) \<and> orders_pg w1 = orders_pg w2 \<and> (isl q \<longrightarrow> isl z))"
proof -
  have body: "\<exists>q w2. write w0 = (q, w2) \<and> orders_pg v = orders_pg w2 \<and> (isl q \<longrightarrow> isl y)"
    if "write_with_event write outbox_pg evt w0 = (y, v)" for w0 y and v :: "'a order_db_scheme"
  proof -
    obtain q w2 where q: "write w0 = (q, w2)" by fastforce
    show ?thesis
    proof (cases q)
      case (Inl e)
      with that q show ?thesis by (auto simp: write_with_event_def)
    next
      case (Inr u)
      with that q have "Store_pg [evt] w2 = (y, v)" by (simp add: write_with_event_def del: Store_pg.simps)
      then obtain f a t where "v = w2\<lparr>faults := f, tx_aborted := a, outbox_tbl := t\<rparr>" by (rule Store_pgE)
      then have "orders_pg v = orders_pg w2" by (intro orders_pg_eq) simp_all
      with q Inr show ?thesis by auto
    qed
  qed
  show ?thesis
  proof (cases "in_tx w")
    case True
    then have "write_with_event write outbox_pg evt w = (z, w1)" using assms by (simp add: RunInTx_pg_def)
    from body [OF this] obtain q w2 where "write w = (q, w2)" "orders_pg w1 = orders_pg w2" "isl q \<longrightarrow> isl z"
      by (elim exE conjE)
    then show ?thesis by (intro disjI2 exI conjI) (rule refl)
  next
    case False
    show ?thesis
    proof (cases z)
      case (Inl e)
      have "orders_pg w1 = orders_pg w"
        by (rule orders_pg_more, rule pg_tx.tx_err [OF False assms [unfolded Inl]])
      with Inl show ?thesis by simp
    next
      case (Inr u)
      from pg_tx.tx_ok [OF False assms [unfolded Inr]] obtain w0 w2 where w0: "env.more w0 = env.more w"
        "write_with_event write outbox_pg evt w0 = (Inr u, w2)" "env.more w1 = env.more w2" by blast
      from body [OF w0(2)] obtain q w3 where q: "write w0 = (q, w3)" "orders_pg w2 = orders_pg w3"
          "isl q \<longrightarrow> isl (Inr u :: err + unit)" by (elim exE conjE)
      from orders_pg_more [OF w0(3)] q(2) have "orders_pg w1 = orders_pg w3" by simp
      with orders_pg_more [OF w0(1)] q(1,3) Inr show ?thesis by (intro disjI2 exI conjI) simp_all
    qed
  qed
qed

interpretation pg_orders: order_shop "order_service_pg dec b" "orders_pg :: 'a order_db_scheme \<Rightarrow> order_table"
proof unfold_locales
  fix c l k y and w w1 :: "'a order_db_scheme"
  assume "oListByCustomerID (osRepo (order_service_pg dec b)) c l k w = (y, w1)"
  then have "ListByCustomerID_pg c l k w = (y, w1)" by (simp add: order_repo_pg_def)
  then show "orders_pg w1 = orders_pg w \<and> (\<forall>os. y = Inr os \<longrightarrow> snd (orders_pg w) \<longrightarrow>
      (\<forall>o1\<in>set os. order_owner (orders_pg w) (ordID o1) = Some c))" by (rule list_pg_any)
next
  fix ob runTx wr evt z and w w1 :: "'a order_db_scheme"
  assume "osOutbox (order_service_pg dec b) = Some ob" "osTx (order_service_pg dec b) = Some runTx"
    "runTx (write_with_event wr ob evt) w = (z, w1)"
  then have "RunInTx_pg (write_with_event wr outbox_pg evt) w = (z, w1)" by (auto split: if_splits)
  then show "isl z \<and> orders_pg w1 = orders_pg w \<or> (\<exists>w0 q w2. orders_pg w0 = orders_pg w \<and>
      wr w0 = (q, w2) \<and> orders_pg w1 = orders_pg w2 \<and> (isl q \<longrightarrow> isl z))" by (rule tx_pg_any)
next
  fix e and w :: "'a order_db_scheme"
  show "orders_pg (osBus (order_service_pg dec b) e w) = orders_pg w"
    by (rule orders_pg_eq) (simp_all add: Publish_log_def)
qed (unfold order_pg_sel, (fact GetByID_pg_any Create_pg_any Update_pg_any orders_pg_more)+)

section \<open>Customers are kept apart\<close>

text \<open>The orders of a customer.\<close>

definition orders_of_customer :: "string \<Rightarrow> 'a order_db_scheme \<Rightarrow> string \<Rightarrow> Order option" where
  "orders_of_customer c w oid = (case order_view w oid of
     Some o1 \<Rightarrow> if ordCustomerID o1 = c then Some o1 else None | None \<Rightarrow> None)"

text \<open>C7. Customers are kept apart: whatever requests to the order handlers of customers come in, in any
order, with or without the outbox and whatever database calls fail half-way, the orders of a customer
who sends none of them, and the orders of guests, are exactly what they were, and every order shown to
a customer is theirs.\<close>
theorem customers_apart:
  fixes w :: "'a order_db_scheme"
  assumes "serve_orders (order_service_pg dec b) reqs w = (as, w')" "snd (orders_pg w)"
  shows "(\<forall>c. c = [] \<or> c \<notin> fst ` set reqs \<longrightarrow> orders_of_customer c w' = orders_of_customer c w) \<and>
    (\<forall>u rs. (u, Inr rs) \<in> set as \<longrightarrow>
       (\<forall>r\<in>set rs. \<exists>o1. order_view w' (oaID r) = Some o1 \<and> ordCustomerID o1 = u))"
proof -
  note run = pg_orders.serve_orders_fx [OF assms(1)]
  have own: "only_own (fst ` set reqs - {[]}) (orders_pg w) (orders_pg w')" using run by blast
  have "orders_of_customer c w' oid = orders_of_customer c w oid" if c: "c = [] \<or> c \<notin> fst ` set reqs" for c oid
  proof (cases "order_view w' oid = order_view w oid")
    case True
    then show ?thesis by (simp add: orders_of_customer_def)
  next
    case False
    then have "fst (orders_pg w') oid \<noteq> fst (orders_pg w) oid" by (simp add: orders_pg_def)
    with own assms(2) obtain u where u: "u \<in> fst ` set reqs - {[]}" "order_owner (orders_pg w') oid = Some u"
      unfolding only_own_def by blast
    then have "u \<noteq> c" using c by auto
    moreover have "order_owner (orders_pg w) oid = None \<or> order_owner (orders_pg w) oid = Some u"
    proof (cases "order_owner (orders_pg w) oid")
      case (Some d)
      with own assms(2) have "order_owner (orders_pg w') oid = Some d" unfolding only_own_def by blast
      with Some u(2) show ?thesis by simp
    qed simp
    ultimately show ?thesis using u(2)
      by (auto simp: orders_of_customer_def order_owner_def orders_pg_def split: option.splits)
  qed
  moreover have "\<forall>u rs. (u, Inr rs) \<in> set as \<longrightarrow>
      (\<forall>r\<in>set rs. \<exists>o1. order_view w' (oaID r) = Some o1 \<and> ordCustomerID o1 = u)"
    using run assms(2) by (simp add: orders_pg_def order_owner_def)
  ultimately show ?thesis by blast
qed

theorem customers_apart_witness:
  "let (as, w') = serve_orders (order_service_pg Some True) [(''c2'', CancelOrder ''o1''), ([], CancelOrder ''o1''),
       (''c3'', ShowOrder ''o1'')] (sample_shop StatusPaid [Some ''e''] [False, True]) in
   orders_of_customer ''c1'' w' = orders_of_customer ''c1'' (sample_shop StatusPaid [Some ''e''] [False, True])"
proof -
  let ?w = "sample_shop StatusPaid [Some ''e''] [False, True]"
  let ?rs = "[(''c2'', CancelOrder ''o1''), ([], CancelOrder ''o1''), (''c3'', ShowOrder ''o1'')]"
  obtain as w' where run: "serve_orders (order_service_pg Some True) ?rs ?w = (as, w')" by fastforce
  have "snd (orders_pg ?w)" by (simp add: orders_pg_def sample_shop_def sample_order_def tbl_ok_def)
  from customers_apart [OF run this] run show ?thesis by simp
qed

end
