(* ===== verification/PaymentsPg.thy ===== *)
theory PaymentsPg
  imports Payments OrdersPg
begin

text \<open>
  The PostgreSQL payment repository (\<open>internal/infra/db/postgres/payments/payment_repo.go\<close>) over
  the \<open>payments\<close> table: primary key, one payment per order, and one per provider intent. The
  contract of the payment service is interpreted on it. \<open>dec\<close> is the \<open>DECIMAL(12, 2)\<close> column as
  in the order tables; the microsecond precision of the stored times is not modelled.
\<close>

record pay_db = order_db +
  payments_tbl :: "Payment list"

text \<open>A row that violates a unique index against another row.\<close>

definition pay_conflict :: "Payment \<Rightarrow> Payment \<Rightarrow> bool" where
  "pay_conflict p r \<longleftrightarrow> pmOrderID r = pmOrderID p \<or>
     pmProvider r = pmProvider p \<and> pmProviderIntentID r = pmProviderIntentID p"

definition pCreate_pg :: "decimal \<Rightarrow> Payment \<Rightarrow> ('a pay_db_scheme, unit) io" where
  "pCreate_pg dec p w = (case db_call w of
       (Inl e, w1) \<Rightarrow> (Inl e, w1)
     | (Inr _, w1) \<Rightarrow> (case dec (pmAmount p) of
           None \<Rightarrow> (Inl (DbError ''numeric field overflow''), db_reject w1)
         | Some a \<Rightarrow>
             if \<exists>r\<in>set (payments_tbl w1). pmID r = pmID p \<or> pay_conflict p r
             then (Inl PErrDuplicatePayment, db_reject w1)
             else (Inr (), w1\<lparr>payments_tbl := payments_tbl w1 @ [p\<lparr>pmAmount := a\<rparr>]\<rparr>)))"

definition pay_query :: "(Payment \<Rightarrow> bool) \<Rightarrow> ('a pay_db_scheme, Payment) io" where
  "pay_query P w = (case db_call w of
       (Inl e, w1) \<Rightarrow> (Inl e, w1)
     | (Inr _, w1) \<Rightarrow> (case List.find P (payments_tbl w1) of
           None \<Rightarrow> (Inl PErrNotFound, w1)
         | Some p \<Rightarrow> (Inr p, w1)))"

definition pGetByID_pg :: "string \<Rightarrow> ('a pay_db_scheme, Payment) io" where
  "pGetByID_pg i = pay_query (\<lambda>p. pmID p = i)"

definition pGetByOrderID_pg :: "string \<Rightarrow> ('a pay_db_scheme, Payment) io" where
  "pGetByOrderID_pg oid = pay_query (\<lambda>p. pmOrderID p = oid)"

definition pGetByProviderIntentID_pg :: "string \<Rightarrow> string \<Rightarrow> ('a pay_db_scheme, Payment) io" where
  "pGetByProviderIntentID_pg pn iid =
     pay_query (\<lambda>p. pmProvider p = pn \<and> pmProviderIntentID p = iid)"

text \<open>\<open>Update\<close> writes every column but \<open>id\<close> and \<open>created_at\<close>, and reports a missing row.\<close>

definition pUpdate_pg :: "decimal \<Rightarrow> Payment \<Rightarrow> ('a pay_db_scheme, unit) io" where
  "pUpdate_pg dec p w = (case db_call w of
       (Inl e, w1) \<Rightarrow> (Inl e, w1)
     | (Inr _, w1) \<Rightarrow> (case dec (pmAmount p) of
           None \<Rightarrow> (Inl (DbError ''numeric field overflow''), db_reject w1)
         | Some a \<Rightarrow>
             if \<not> (\<exists>r\<in>set (payments_tbl w1). pmID r = pmID p) then (Inl PErrNotFound, w1)
             else if \<exists>r\<in>set (payments_tbl w1). pmID r \<noteq> pmID p \<and> pay_conflict p r
             then (Inl (DbError ''duplicate key''), db_reject w1)
             else (Inr (), w1\<lparr>payments_tbl :=
               map (\<lambda>r. if pmID r = pmID p then p\<lparr>pmAmount := a, pmCreatedAt := pmCreatedAt r\<rparr> else r)
                 (payments_tbl w1)\<rparr>)))"

definition pay_list :: "(Payment \<Rightarrow> bool) \<Rightarrow> int \<Rightarrow> int \<Rightarrow> ('a pay_db_scheme, Payment list) io" where
  "pay_list P limit offset w = (case db_call w of
       (Inl e, w1) \<Rightarrow> (Inl e, w1)
     | (Inr _, w1) \<Rightarrow>
         if limit < 0 \<or> offset < 0 then (Inl (DbError ''LIMIT must not be negative''), db_reject w1)
         else (Inr (sql_page limit offset
           (sort_key (\<lambda>p. - pmCreatedAt p) (filter P (payments_tbl w1)))), w1))"

definition pListAll_pg :: "int \<Rightarrow> int \<Rightarrow> ('a pay_db_scheme, Payment list) io" where
  "pListAll_pg = pay_list (\<lambda>_. True)"

definition pListByCustomerID_pg :: "string \<Rightarrow> int \<Rightarrow> int \<Rightarrow> ('a pay_db_scheme, Payment list) io" where
  "pListByCustomerID_pg c = pay_list (\<lambda>p. pmCustomerID p = c)"

definition pay_repo_pg :: "decimal \<Rightarrow> ('a pay_db_scheme) PayRepository" where
  "pay_repo_pg dec = \<lparr>pCreate = pCreate_pg dec, pGetByID = pGetByID_pg, pGetByOrderID = pGetByOrderID_pg,
     pGetByProviderIntentID = pGetByProviderIntentID_pg, pUpdate = pUpdate_pg dec,
     pListAll = pListAll_pg, pListByCustomerID = pListByCustomerID_pg\<rparr>"

text \<open>
  A payment provider is outside the process: it takes time and randomness, and sees neither the
  tables nor the database link. \<open>lift_env\<close> runs such a function in a world with tables.
\<close>

definition lift_env :: "(env, 'r) io \<Rightarrow> ('a env_scheme, 'r) io" where
  "lift_env f w = (case f (env.truncate w) of (r, e) \<Rightarrow>
     (r, w\<lparr>clock := clock e, delays := delays e, uuids := uuids e\<rparr>))"

definition lift_provider :: "env PaymentProvider \<Rightarrow> ('a env_scheme) PaymentProvider" where
  "lift_provider p = \<lparr>CreateIntent = (\<lambda>a c. lift_env (CreateIntent p a c)),
     ConfirmIntent = (\<lambda>i. lift_env (ConfirmIntent p i)),
     RefundIntent = (\<lambda>i a. lift_env (RefundIntent p i a))\<rparr>"

text \<open>The service as the module wires it, for any table of providers.\<close>

definition pay_service_pg ::
  "decimal \<Rightarrow> bool \<Rightarrow> (string \<Rightarrow> env PaymentProvider option) \<Rightarrow> string \<Rightarrow>
   ('a pay_db_scheme) paymentService" where
  "pay_service_pg dec outbox_on providers dflt = \<lparr>psRepo = pay_repo_pg dec,
     psGetOrder = GetOrderAmountAndStatus (order_service_pg dec outbox_on),
     psProviders = (\<lambda>n. map_option lift_provider (providers n)),
     psDefaultProv = dflt, psBus = Some Publish_log,
     psOutbox = (if outbox_on then Some outbox_pg else None)\<rparr>"

section \<open>The payments by order\<close>

definition pay_view :: "'a pay_db_scheme \<Rightarrow> string \<Rightarrow> Payment option" where
  "pay_view w oid = List.find (\<lambda>p. pmOrderID p = oid) (payments_tbl w)"

text \<open>What the unique indexes and the column guarantee.\<close>

definition pay_ok :: "decimal \<Rightarrow> 'a pay_db_scheme \<Rightarrow> bool" where
  "pay_ok dec w \<longleftrightarrow> distinct (map pmID (payments_tbl w)) \<and> distinct (map pmOrderID (payments_tbl w)) \<and>
     distinct (map (\<lambda>p. (pmProvider p, pmProviderIntentID p)) (payments_tbl w)) \<and>
     (\<forall>p\<in>set (payments_tbl w). dec (pmAmount p) = Some (pmAmount p))"

definition pay_flag :: "decimal \<Rightarrow> 'a pay_db_scheme \<Rightarrow> bool" where
  "pay_flag dec w \<longleftrightarrow> decimal_idem dec \<and> pay_ok dec w"

lemma lift_env_more [simp]: "env.more (snd (lift_env f w)) = env.more w"
  by (cases w) (simp add: lift_env_def split: prod.splits)

lemma pay_same_more:
  "env.more w1 = env.more (w :: 'a pay_db_scheme) \<Longrightarrow>
     (pay_view w1, pay_flag dec w1) = (pay_view w, pay_flag dec w)"
proof -
  assume "env.more w1 = env.more w"
  then have "payments_tbl w1 = payments_tbl w" by (cases w; cases w1) simp
  then show ?thesis by (simp add: pay_view_def pay_flag_def pay_ok_def fun_eq_iff)
qed

lemma pay_reject: "(pay_view (db_reject w), pay_flag dec (db_reject w)) = (pay_view w, pay_flag dec w)"
  by (rule pay_same_more) (simp add: db_reject_def)

lemma find_Some_in: "List.find P xs = Some x \<Longrightarrow> P x \<and> x \<in> set xs"
  by (auto simp: find_Some_iff)

lemma find_key:
  "distinct (map f xs) \<Longrightarrow> x \<in> set xs \<Longrightarrow> List.find (\<lambda>y. f y = f x) xs = Some x"
  by (induction xs) auto

lemma pay_view_in:
  "pay_flag dec w \<Longrightarrow> p \<in> set (payments_tbl w) \<longleftrightarrow> pay_view w (pmOrderID p) = Some p"
  unfolding pay_view_def using find_key [of pmOrderID "payments_tbl w" p]
  by (auto simp: pay_flag_def pay_ok_def dest: find_Some_in)

lemma pay_query_fx:
  assumes "pay_query P w = (x, w1)"
  shows "env.more w1 = env.more w \<and> (\<forall>p. x = Inr p \<longrightarrow> List.find P (payments_tbl w) = Some p)"
  using assms
  by (auto simp: pay_query_def elim!: db_callE split: prod.splits sum.splits option.splits)

lemma pCreate_pg_fx:
  assumes "pCreate_pg dec p w = (y, w1)"
  shows "(isl y \<longrightarrow> env.more w1 = env.more w) \<and>
    (\<not> isl y \<longrightarrow> (\<exists>a. dec (pmAmount p) = Some a \<and>
       payments_tbl w1 = payments_tbl w @ [p\<lparr>pmAmount := a\<rparr>] \<and>
       (\<forall>r\<in>set (payments_tbl w). pmID r \<noteq> pmID p \<and> \<not> pay_conflict p r)))"
  using assms
  by (auto simp: pCreate_pg_def db_reject_def elim!: db_callE split: prod.splits sum.splits option.splits if_splits)

lemma pUpdate_pg_fx:
  assumes "pUpdate_pg dec p w = (y, w1)"
  shows "(isl y \<longrightarrow> env.more w1 = env.more w) \<and>
    (\<not> isl y \<longrightarrow> (\<exists>a. dec (pmAmount p) = Some a \<and> payments_tbl w1 =
       map (\<lambda>r. if pmID r = pmID p then p\<lparr>pmAmount := a, pmCreatedAt := pmCreatedAt r\<rparr> else r) (payments_tbl w)))"
  using assms
  by (auto simp: pUpdate_pg_def db_reject_def elim!: db_callE split: prod.splits sum.splits option.splits if_splits)

lemma pay_create_view:
  assumes "pCreate_pg dec p w = (Inr u, w1)" "pay_flag dec w"
  shows "\<exists>a. dec (pmAmount p) = Some a \<and> pay_view w (pmOrderID p) = None \<and>
    pay_view w1 = (pay_view w)(pmOrderID p \<mapsto> p\<lparr>pmAmount := a\<rparr>) \<and> pay_flag dec w1"
proof -
  obtain a where a: "dec (pmAmount p) = Some a" "payments_tbl w1 = payments_tbl w @ [p\<lparr>pmAmount := a\<rparr>]"
    and new: "\<forall>r\<in>set (payments_tbl w). pmID r \<noteq> pmID p \<and> \<not> pay_conflict p r"
    using pCreate_pg_fx [OF assms(1)] by auto
  have none: "pay_view w (pmOrderID p) = None"
    using new by (auto simp: pay_view_def find_None_iff pay_conflict_def)
  have "List.find P (xs @ [z]) = (case List.find P xs of None \<Rightarrow> if P z then Some z else None | Some v \<Rightarrow> Some v)"
    for P xs and z :: Payment by (induction xs) auto
  then have "pay_view w1 = (pay_view w)(pmOrderID p \<mapsto> p\<lparr>pmAmount := a\<rparr>)"
    using a(2) none by (auto simp: pay_view_def fun_eq_iff split: option.splits)
  moreover have "dec a = Some a" using assms(2) a(1) by (auto simp: pay_flag_def decimal_idem_def)
  then have "pay_flag dec w1"
    using assms(2) a(2) new by (auto simp: pay_flag_def pay_ok_def pay_conflict_def image_iff)
  ultimately show ?thesis using none a(1) by blast
qed

text \<open>An update that keeps the core of the row it hits replaces exactly that row.\<close>

lemma pUpdate_pg_row:
  assumes "pUpdate_pg dec q w = (Inr u, w1)" "pay_flag dec w"
    "pay_view w (pmOrderID q) = Some p" "same_core p q"
  shows "payments_tbl w1 = map (\<lambda>r. if r = p then q else r) (payments_tbl w) \<and> p \<in> set (payments_tbl w)"
proof -
  have c: "pmID q = pmID p" "pmOrderID q = pmOrderID p" "pmAmount q = pmAmount p" "pmCreatedAt q = pmCreatedAt p"
    using assms(4) by (auto simp: same_core_def)
  have p: "p \<in> set (payments_tbl w)" using assms(2,3) c by (simp add: pay_view_in)
  then have "dec (pmAmount q) = Some (pmAmount q)"
    using assms(2) c by (simp add: pay_flag_def pay_ok_def)
  then have t: "payments_tbl w1 =
      map (\<lambda>r. if pmID r = pmID p then q\<lparr>pmCreatedAt := pmCreatedAt r\<rparr> else r) (payments_tbl w)"
    using pUpdate_pg_fx [OF assms(1)] c by auto
  have "inj_on pmID (set (payments_tbl w))"
    using assms(2) by (simp add: pay_flag_def pay_ok_def distinct_map)
  then have "(pmID r = pmID p) = (r = p)" if "r \<in> set (payments_tbl w)" for r
    using that p by (auto dest: inj_onD)
  moreover have "q\<lparr>pmCreatedAt := pmCreatedAt p\<rparr> = q" using c(4) by (cases q) simp
  ultimately show ?thesis using t p by auto
qed

lemma map_replace_key: "f q = f p \<Longrightarrow> map f (map (\<lambda>r. if r = p then q else r) xs) = map f xs"
  by (induction xs) auto

lemma find_replace_key:
  assumes "distinct (map f xs)" "p \<in> set xs" "f q = f p"
  shows "List.find (\<lambda>y. f y = k) (map (\<lambda>r. if r = p then q else r) xs) =
    (if k = f p then Some q else List.find (\<lambda>y. f y = k) xs)"
proof -
  have "k \<noteq> f p \<Longrightarrow> List.find (\<lambda>y. f y = k) (map (\<lambda>r. if r = p then q else r) ys) =
      List.find (\<lambda>y. f y = k) ys" for ys
    using assms(3) by (induction ys) auto
  moreover have "List.find (\<lambda>y. f y = f p) (map (\<lambda>r. if r = p then q else r) xs) = Some q"
    using assms by (induction xs) (auto simp: image_iff)
  ultimately show ?thesis by auto
qed

lemma pay_update_view:
  assumes "pUpdate_pg dec q w = (Inr u, w1)" "pay_flag dec w"
    "pay_view w (pmOrderID q) = Some p" "same_core p q"
  shows "pay_view w1 = (pay_view w)(pmOrderID q \<mapsto> q) \<and> pay_flag dec w1"
proof -
  note t = pUpdate_pg_row [OF assms]
  have c: "pmID q = pmID p" "pmOrderID q = pmOrderID p" "pmAmount q = pmAmount p"
    "pmProvider q = pmProvider p" "pmProviderIntentID q = pmProviderIntentID p"
    using assms(4) by (auto simp: same_core_def)
  have ok: "pay_ok dec w" using assms(2) by (simp add: pay_flag_def)
  have "pay_view w1 = (pay_view w)(pmOrderID q \<mapsto> q)"
    using ok t c find_replace_key [of pmOrderID "payments_tbl w" p q]
    by (auto simp: pay_view_def pay_ok_def fun_eq_iff)
  moreover have "pay_ok dec w1"
    using ok t c map_replace_key [of pmID q p "payments_tbl w"]
      map_replace_key [of pmOrderID q p "payments_tbl w"]
      map_replace_key [of "\<lambda>p. (pmProvider p, pmProviderIntentID p)" q p "payments_tbl w"]
    by (auto simp: pay_ok_def simp del: map_map)
  ultimately show ?thesis using assms(2) by (simp add: pay_flag_def)
qed

section \<open>The contract of the payment service on these tables\<close>

lemma pay_service_simps [simp]:
  "psRepo (pay_service_pg dec b provs d) = pay_repo_pg dec"
  "psBus (pay_service_pg dec b provs d) = Some Publish_log"
  "psOutbox (pay_service_pg dec b provs d) = (if b then Some outbox_pg else None)"
  "psGetOrder (pay_service_pg dec b provs d) = GetOrderAmountAndStatus (order_service_pg dec b)"
  "psProviders (pay_service_pg dec b provs d) n = map_option lift_provider (provs n)"
  "psDefaultProv (pay_service_pg dec b provs d) = d"
  by (simp_all add: pay_service_pg_def)

lemma pay_repo_simps [simp]:
  "pCreate (pay_repo_pg dec) = pCreate_pg dec" "pGetByID (pay_repo_pg dec) = pGetByID_pg"
  "pGetByOrderID (pay_repo_pg dec) = pGetByOrderID_pg"
  "pGetByProviderIntentID (pay_repo_pg dec) = pGetByProviderIntentID_pg"
  "pUpdate (pay_repo_pg dec) = pUpdate_pg dec"
  by (simp_all add: pay_repo_pg_def)

lemma emit_pay:
  "payments_tbl (emit (if b then Some outbox_pg else None) (Some Publish_log) es w) = payments_tbl w"
proof -
  have "payments_tbl (fold Publish_log es v) = payments_tbl v" for v :: "'a pay_db_scheme"
    by (induction es arbitrary: v) (simp_all add: Publish_log_def)
  moreover obtain x w1 where "Store_pg es w = (x, w1)" by fastforce
  ultimately show ?thesis
    by (auto simp: emit_def outbox_pg_def elim!: Store_pgE)
qed

lemma pay_tbl_same:
  "payments_tbl w1 = payments_tbl w \<Longrightarrow> (pay_view w1, pay_flag dec w1) = (pay_view w, pay_flag dec w)"
  by (simp add: pay_view_def pay_flag_def pay_ok_def fun_eq_iff)

interpretation pg_pay: pay_store "pay_service_pg dec b provs dflt" "\<lambda>w. (pay_view w, pay_flag dec w)"
proof (unfold_locales, goal_cases)
  case (1 oid w x w1)
  then have q: "pay_query (\<lambda>p. pmOrderID p = oid) w = (x, w1)" by (simp add: pGetByOrderID_pg_def)
  from pay_query_fx [OF q] pay_same_more [of w1 w dec] show ?case
    by (auto simp: pay_view_def dest: find_Some_in)
next
  case (2 pn iid w x w1)
  then have q: "pay_query (\<lambda>p. pmProvider p = pn \<and> pmProviderIntentID p = iid) w = (x, w1)"
    by (simp add: pGetByProviderIntentID_pg_def)
  from pay_query_fx [OF q] pay_same_more [of w1 w dec] show ?case
    by (auto simp: pay_view_in dest!: find_Some_in)
next
  case (3 p w y w1)
  then have c: "pCreate_pg dec p w = (y, w1)" by simp
  show ?case
  proof (cases y)
    case (Inl e)
    with pCreate_pg_fx [OF c] pay_same_more [of w1 w dec] show ?thesis by simp
  next
    case (Inr u)
    with c have "\<exists>a. pay_view w (pmOrderID p) = None \<and>
        pay_view w1 = (pay_view w)(pmOrderID p \<mapsto> p\<lparr>pmAmount := a\<rparr>) \<and> pay_flag dec w1"
      if "pay_flag dec w" using that pay_create_view by blast
    then obtain a where "pay_flag dec w \<longrightarrow> pay_view w (pmOrderID p) = None \<and>
        pay_view w1 = (pay_view w)(pmOrderID p \<mapsto> p\<lparr>pmAmount := a\<rparr>) \<and> pay_flag dec w1" by blast
    with Inr show ?thesis by (auto intro!: exI [of _ "p\<lparr>pmAmount := a\<rparr>"])
  qed
next
  case (4 q w y w1 p)
  then have c: "pUpdate_pg dec q w = (y, w1)" by simp
  with 4 pUpdate_pg_fx [OF c] pay_same_more [of w1 w dec] show ?case
    by (cases y) (auto dest: pay_update_view)
next
  case (5 oid w v w1)
  then have "env.more w1 = env.more w"
    by (auto simp: GetOrderAmountAndStatus_def GetOrder_def order_service_pg_def order_repo_pg_def
        split: prod.splits sum.splits if_splits dest: GetByID_pg_fx)
  then show ?case by (rule pay_same_more)
next
  case (6 pn pr a c w i)
  then show ?case
    by (auto simp: lift_provider_def simp del: prod.inject intro!: pay_same_more)
next
  case (7 w1 w)
  then show ?case by (rule pay_same_more)
next
  case (8 es w)
  show ?case by (rule pay_tbl_same) (simp add: emit_pay)
qed

end
