(* ===== verification/PaymentProps.thy ===== *)
theory PaymentProps
  imports PaymentsPg OrderProps
begin

text \<open>
  What the payment service guarantees on PostgreSQL: the life of a payment over any run of
  operations and failures, at most one refund, the outcome of a confirmation and of a refund by
  the provider's answer, and the places where the outcome is not the intended one.
\<close>

section \<open>Runs\<close>

text \<open>
  One step of a run: an operation of the service, with whatever failures the world holds, or any
  change elsewhere (other services, other connections) that leaves the payments table alone.
\<close>

inductive pay_trans :: "('a pay_db_scheme) paymentService \<Rightarrow> 'a pay_db_scheme \<Rightarrow> 'a pay_db_scheme \<Rightarrow> bool"
  for svc where
  create: "CreatePaymentIntent svc oid c pn cur idem w = (r, w') \<Longrightarrow> pay_trans svc w w'"
| confirm: "ConfirmPayment svc pn iid w = (r', w') \<Longrightarrow> pay_trans svc w w'"
| refund: "RefundPayment svc oid amt w = (r'', w') \<Longrightarrow> pay_trans svc w w'"
| cancelled: "handleOrderCancelled svc ev w = (r3, w') \<Longrightarrow> pay_trans svc w w'"
| other: "payments_tbl w' = payments_tbl w \<Longrightarrow> pay_trans svc w w'"

inductive pay_run :: "('a pay_db_scheme) paymentService \<Rightarrow> 'a pay_db_scheme \<Rightarrow> 'a pay_db_scheme \<Rightarrow> bool"
  for svc where
  stay: "pay_run svc w w"
| step: "pay_run svc w w1 \<Longrightarrow> pay_trans svc w1 w2 \<Longrightarrow> pay_run svc w w2"

lemma pay_trans_step:
  assumes "pay_trans (pay_service_pg dec b provs d) w w'"
  shows "table_step (pay_view w, pay_flag dec w) (pay_view w', pay_flag dec w')"
  using assms
proof (cases rule: pay_trans.cases)
  case (cancelled ev r3)
  then show ?thesis
    by (auto simp: handleOrderCancelled_def Let_def split: if_splits prod.splits sum.splits
        dest!: pg_pay.refund_step)
next
  case other
  then have "(pay_view w', pay_flag dec w') = (pay_view w, pay_flag dec w)" by (rule pay_tbl_same)
  then show ?thesis by simp
qed (auto dest: pg_pay.create_payment_step pg_pay.confirm_step pg_pay.refund_step)

text \<open>What a run may do to a payment.\<close>

definition pay_follows :: "Payment \<Rightarrow> Payment \<Rightarrow> bool" where
  "pay_follows p q \<longleftrightarrow> same_core p q \<and> pay_edge\<^sup>*\<^sup>* (pmStatus p) (pmStatus q) \<and>
     (pmStatus p \<in> {PayFailed, PayRefunded} \<longrightarrow> q = p)"

lemma pay_follows_refl: "pay_follows p p"
  by (simp add: pay_follows_def same_core_def)

lemma pay_step_follows:
  assumes "pay_step m m'" "m oid = Some p"
  shows "\<exists>q. m' oid = Some q \<and> pay_follows p q"
proof -
  have "m' oid = Some p \<or>
      (\<exists>q. m' oid = Some q \<and> same_core p q \<and> pay_edge (pmStatus p) (pmStatus q))"
    using assms unfolding pay_step_def by auto
  then show ?thesis
  proof (elim disjE exE conjE)
    fix q assume q: "m' oid = Some q" "same_core p q" "pay_edge (pmStatus p) (pmStatus q)"
    then have "pmStatus p \<notin> {PayFailed, PayRefunded}" by (auto simp: pay_edge_def)
    with q show ?thesis by (auto simp: pay_follows_def)
  qed (use pay_follows_refl in blast)
qed

lemma pay_follows_trans: "pay_follows p q \<Longrightarrow> pay_follows q r \<Longrightarrow> pay_follows p r"
  by (auto simp: pay_follows_def same_core_def)

lemma pay_run_follows:
  assumes "pay_run (pay_service_pg dec b provs d) w w'" "pay_flag dec w"
  shows "pay_flag dec w' \<and> (\<forall>oid p. pay_view w oid = Some p \<longrightarrow>
    (\<exists>q. pay_view w' oid = Some q \<and> pay_follows p q))"
  using assms
proof (induction rule: pay_run.induct)
  case (stay w)
  then show ?case using pay_follows_refl by blast
next
  case (step w w1 w2)
  from pay_trans_step [OF step.hyps(2)] step.IH step.prems
  have t: "pay_flag dec w2" "pay_step (pay_view w1) (pay_view w2)"
    by (auto simp: table_step_def)
  with step.IH [OF step.prems] show ?case
    by (meson pay_follows_trans pay_step_follows)
qed

section \<open>One operation on a database that answers\<close>

lemma db_calm_upd [simp]:
  "db_calm (w\<lparr>clock := c\<rparr>) = db_calm w" "db_calm (w\<lparr>delays := ds\<rparr>) = db_calm w"
  "db_calm (w\<lparr>uuids := u\<rparr>) = db_calm w"
  by (simp_all add: db_calm_def)

lemma pay_env_upd [simp]:
  "pay_view (w\<lparr>clock := c\<rparr>) = pay_view w" "pay_flag dec (w\<lparr>clock := c\<rparr>) = pay_flag dec w"
  "pay_view (w\<lparr>delays := ds\<rparr>) = pay_view w" "pay_flag dec (w\<lparr>delays := ds\<rparr>) = pay_flag dec w"
  "pay_view (w\<lparr>uuids := u\<rparr>) = pay_view w" "pay_flag dec (w\<lparr>uuids := u\<rparr>) = pay_flag dec w"
  "pay_view (w\<lparr>bus_log := l\<rparr>) = pay_view w" "pay_flag dec (w\<lparr>bus_log := l\<rparr>) = pay_flag dec w"
  by (simp_all add: pay_view_def pay_flag_def pay_ok_def fun_eq_iff)

lemma lift_envE:
  assumes "lift_env f w = (x, w1)"
  obtains c ds us e0 where "w1 = w\<lparr>clock := c, delays := ds, uuids := us\<rparr>" "x = fst (f e0)"
proof (cases "f (env.truncate w)")
  case (Pair r v)
  with assms show thesis
    by (intro that [where c = "clock v" and ds = "delays v" and us = "uuids v" and ?e0.0 = "env.truncate w"]) (simp_all add: lift_env_def)
qed

lemma pay_query_calm:
  "db_calm w \<Longrightarrow> pay_query P w = (case List.find P (payments_tbl w) of None \<Rightarrow> (Inl PErrNotFound, w) | Some p \<Rightarrow> (Inr p, w))"
  by (simp add: pay_query_def)

lemma pay_view_intent:
  assumes "pay_flag dec w" "pay_view w oid = Some p"
  shows "List.find (\<lambda>r. pmProvider r = pmProvider p \<and> pmProviderIntentID r = pmProviderIntentID p)
    (payments_tbl w) = Some p" "pmOrderID p = oid" "p \<in> set (payments_tbl w)"
proof -
  show "pmOrderID p = oid" "p \<in> set (payments_tbl w)"
    using assms(2) by (auto simp: pay_view_def dest!: find_Some_in)
  with find_key [of "\<lambda>r. (pmProvider r, pmProviderIntentID r)" "payments_tbl w" p] assms(1)
  show "List.find (\<lambda>r. pmProvider r = pmProvider p \<and> pmProviderIntentID r = pmProviderIntentID p)
    (payments_tbl w) = Some p" by (simp add: pay_flag_def pay_ok_def)
qed

lemma pUpdate_calm:
  assumes "db_calm w" "pay_flag dec w" "pay_view w (pmOrderID q) = Some p" "same_core p q"
  obtains t where "pUpdate_pg dec q w = (Inr (), w\<lparr>payments_tbl := t\<rparr>)"
    "pay_view (w\<lparr>payments_tbl := t\<rparr>) = (pay_view w)(pmOrderID q \<mapsto> q)"
    "pay_flag dec (w\<lparr>payments_tbl := t\<rparr>)"
proof -
  note v = pay_view_intent [OF assms(2,3)]
  have c: "pmID q = pmID p" "pmOrderID q = pmOrderID p" "pmAmount q = pmAmount p"
    "pmProvider q = pmProvider p" "pmProviderIntentID q = pmProviderIntentID p"
    using assms(4) by (auto simp: same_core_def)
  have d: "dec (pmAmount q) = Some (pmAmount q)"
    using assms(2) v(3) c by (auto simp: pay_flag_def pay_ok_def)
  have "\<not> (\<exists>r\<in>set (payments_tbl w). pmID r \<noteq> pmID q \<and> pay_conflict q r)"
    using assms(2) v(3) c by (auto simp: pay_flag_def pay_ok_def pay_conflict_def distinct_map dest: inj_onD)
  moreover have "\<exists>r\<in>set (payments_tbl w). pmID r = pmID q" using v(3) c by (intro bexI [of _ p]) simp
  ultimately have t: "pUpdate_pg dec q w = (Inr (), w\<lparr>payments_tbl := map (\<lambda>r. if pmID r = pmID q
      then q\<lparr>pmAmount := pmAmount q, pmCreatedAt := pmCreatedAt r\<rparr> else r) (payments_tbl w)\<rparr>)"
    using assms(1) d by (simp add: pUpdate_pg_def)
  from that [OF t] pay_update_view [OF t assms(2-4)] show thesis by blast
qed

text \<open>
  The end of an operation: one event of the given topic and payload was handed to the bus and the
  result is \<open>k\<close>, or building the event panicked.
\<close>

definition told ::
  "'a env_scheme \<Rightarrow> 'a env_scheme \<Rightarrow> string \<Rightarrow> payload \<Rightarrow> err + 'r \<Rightarrow> err + 'r \<Rightarrow> bool" where
  "told w w' tp pl k r \<longleftrightarrow> (\<exists>pn. r = Inl pn \<and> is_panic pn) \<or>
     r = k \<and> (\<exists>evt. evTopic evt = tp \<and> evPayload evt = pl \<and> bus_log w' = bus_log w @ [evt])"

lemma publish_told:
  assumes "publish_pay (pay_service_pg dec False provs d) tp pl w = (x, w1)"
    "(case x of Inl p \<Rightarrow> (Inl p, w1) | Inr _ \<Rightarrow> (k, w1)) = (r, w')"
  shows "pay_view w' = pay_view w \<and> told w w' tp pl k r"
proof (cases "NewEventFromCtx tp ''payments'' pl w")
  case (Pair y v)
  from Pair show ?thesis
  proof (rule NewEventFromCtxE)
    fix us c ds
    assume v: "v = w\<lparr>uuids := us, clock := c, delays := ds\<rparr>"
      "\<And>e. y = Inr e \<Longrightarrow> evTopic e = tp \<and> evSource e = ''payments'' \<and> evPayload e = pl"
      "\<And>er. y = Inl er \<Longrightarrow> is_panic er"
    with assms Pair show ?thesis
      by (cases y) (auto simp: publish_pay_def emit_def Publish_log_def told_def)
  qed
qed

text \<open>The first half of a refund on a database that answers: the record is marked before the provider
is asked.\<close>

lemma refund_marked:
  assumes "db_calm w" "pay_flag dec w" "pay_view w oid = Some p"
    and "pmStatus p \<in> {PaySucceeded, PayRefundFailed}" "oid \<noteq> []" "provs (pmProvider p) = Some pr"
    and ok: "case amt of Some a \<Rightarrow> 0 < a \<and> a \<le> pmAmount p | None \<Rightarrow> True"
    and run: "RefundPayment (pay_service_pg dec False provs d) oid amt w = (r, w')"
  defines "a \<equiv> (case amt of Some a \<Rightarrow> a | None \<Rightarrow> pmAmount p)"
  obtains t z w4 e0 q where "q = p\<lparr>pmStatus := PayRefunded, pmUpdatedAt := t, pmRefundedAt := Some t\<rparr>"
    "z = fst (RefundIntent pr (pmProviderIntentID p) a e0)"
    "db_calm w4" "pay_flag dec w4" "pay_view w4 = (pay_view w)(oid \<mapsto> q)" "bus_log w4 = bus_log w"
    "(r, w') = (case z of
      Inl pe \<Rightarrow> (case time_now w4 of (upd, w5) \<Rightarrow> (Inl (provider_error pe),
         snd (pUpdate_pg dec (q\<lparr>pmStatus := PayRefundFailed, pmRefundedAt := None, pmUpdatedAt := upd\<rparr>) w5)))
    | Inr _ \<Rightarrow> (case publishPaymentRefund (pay_service_pg dec False provs d) q w4 of
            (Inl p, w5) \<Rightarrow> (Inl p, w5)
          | (Inr _, w5) \<Rightarrow> (Inr q, w5)))"
proof -
  note v = pay_view_intent [OF assms(2,3)]
  have ok': "\<not> (case amt of Some a \<Rightarrow> a \<le> 0 \<or> a > pmAmount p | None \<Rightarrow> False)"
    using ok by (auto split: option.splits)
  obtain now w2 where t: "time_now w = (now, w2)" by fastforce
  then obtain c2 d2 where w2: "w2 = w\<lparr>clock := c2, delays := d2\<rparr>" by (auto elim!: time_nowE)
  define q where "q = p\<lparr>pmStatus := PayRefunded, pmUpdatedAt := now, pmRefundedAt := Some now\<rparr>"
  have q: "same_core p q" "pmOrderID q = oid" using v(2) by (simp_all add: q_def same_core_def)
  have f2: "pay_flag dec w2" "pay_view w2 = pay_view w" "db_calm w2"
    using assms(1,2) by (simp_all add: w2)
  obtain tb where u: "pUpdate_pg dec q w2 = (Inr (), w2\<lparr>payments_tbl := tb\<rparr>)"
    "pay_view (w2\<lparr>payments_tbl := tb\<rparr>) = (pay_view w)(oid \<mapsto> q)" "pay_flag dec (w2\<lparr>payments_tbl := tb\<rparr>)"
    using pUpdate_calm [OF f2(3,1), of q p] f2(2) q assms(3) by auto
  obtain z w4 where z: "lift_env (RefundIntent pr (pmProviderIntentID p) a) (w2\<lparr>payments_tbl := tb\<rparr>) = (z, w4)"
    by fastforce
  then obtain c4 d4 u4 e0 where w4: "w4 = w2\<lparr>payments_tbl := tb, clock := c4, delays := d4, uuids := u4\<rparr>"
    and z0: "z = fst (RefundIntent pr (pmProviderIntentID p) a e0)" by (rule lift_envE) auto
  show thesis
  proof (rule that [OF q_def z0])
    show "pay_flag dec w4" "pay_view w4 = (pay_view w)(oid \<mapsto> q)" using u by (simp_all add: w4)
    show "bus_log w4 = bus_log w" by (simp add: w4 w2)
    show "db_calm w4" using f2(3) by (simp add: w4 db_calm_def)
  qed (use run [symmetric] assms(1,4-6) v(1,2) ok' t u(1) z in
      \<open>auto simp: RefundPayment_def pGetByOrderID_pg_def pay_query_calm pay_view_def [symmetric]
        assms(3) lift_provider_def Let_def a_def [symmetric] q_def split: sum.splits prod.splits\<close>)
qed

section \<open>A shop with one payment\<close>

definition sample_payment :: "PaymentStatus \<Rightarrow> Payment" where
  "sample_payment st = \<lparr>pmID = ''p1'', pmOrderID = ''o1'', pmCustomerID = ''c1'', pmAmount = 60,
     pmCurrency = ''USD'', pmProvider = ''stub'', pmProviderIntentID = ''i1'', pmStatus = st,
     pmIdempotencyKey = ''o1'', pmFailureReason = [], pmCreatedAt = 0, pmUpdatedAt = 0, pmRefundedAt = None\<rparr>"

definition sample_till :: "OrderStatus \<Rightarrow> Payment list \<Rightarrow> string option list \<Rightarrow> pay_db" where
  "sample_till st ps us = order_db.extend (sample_shop st us []) \<lparr>payments_tbl = ps\<rparr>"

text \<open>A provider that grants everything, or refuses everything with one error.\<close>

definition sample_provider :: "err option \<Rightarrow> env PaymentProvider" where
  "sample_provider x = (let answer = \<lambda>y w. (case x of None \<Rightarrow> (Inr y, w) | Some e \<Rightarrow> (Inl e, w)) in
     \<lparr>CreateIntent = (\<lambda>a c w. (case x of None \<Rightarrow> (Inr \<lparr>piID = ''i2'', piStatus = ''pending''\<rparr>, w)
        | Some e \<Rightarrow> (Inl e, w))),
      ConfirmIntent = (\<lambda>i. answer ()), RefundIntent = (\<lambda>i a. answer ())\<rparr>)"

definition sample_provs :: "err option \<Rightarrow> string \<Rightarrow> env PaymentProvider option" where
  "sample_provs x n = (if n = ''stub'' then Some (sample_provider x) else None)"

abbreviation sample_pay_service :: "err option \<Rightarrow> pay_db paymentService" where
  "sample_pay_service x \<equiv> pay_service_pg Some False (sample_provs x) ''stub''"

lemma sample_till_sel:
  "payments_tbl (sample_till st ps us) = ps" "db_calm (sample_till st ps us)"
  "order_ok Some (sample_till st ps us)" "clock (sample_till st ps us) = 0"
  "bus_log (sample_till st ps us) = []"
  by (auto simp: sample_till_def sample_shop_def sample_orders_def order_db.defs db_calm_def order_ok_def
      sample_order_def sample_cart_items_def i32_def)

lemma sample_till_one:
  "pay_ok Some (sample_till st [sample_payment ps] us)"
  "pay_view (sample_till st [sample_payment ps] us) ''o1'' = Some (sample_payment ps)"
  by (simp_all add: pay_ok_def pay_view_def sample_till_sel sample_payment_def)

section \<open>Properties\<close>

text \<open>C4. The life of a payment, over any run of payment operations, order cancellations and
failures: the unique indexes stay satisfied, a payment never disappears, its identity, amount,
provider and creation time never change, its status moves only along the legal edges, and a failed
or refunded payment is final: not even its timestamps change again.\<close>
theorem payment_lifecycle:
  assumes "pay_run (pay_service_pg dec b provs d) w w'" "decimal_idem dec" "pay_ok dec w"
    and "pay_view w oid = Some p"
  shows "pay_ok dec w' \<and> (\<exists>q. pay_view w' oid = Some q \<and> same_core p q \<and>
    pay_edge\<^sup>*\<^sup>* (pmStatus p) (pmStatus q) \<and> (pmStatus p \<in> {PayFailed, PayRefunded} \<longrightarrow> q = p))"
  using pay_run_follows [OF assms(1)] assms(2-4) by (simp add: pay_flag_def pay_follows_def)

theorem payment_lifecycle_witness:
  "\<exists>q. pay_view (snd (RefundPayment (sample_pay_service None) ''o1'' None
       (sample_till StatusPaid [sample_payment PaySucceeded] [Some ''e'']))) ''o1'' = Some q \<and>
     pmAmount q = 60 \<and> pmProviderIntentID q = ''i1''"
proof -
  let ?w = "sample_till StatusPaid [sample_payment PaySucceeded] [Some ''e'']"
  obtain r w' where r: "RefundPayment (sample_pay_service None) ''o1'' None ?w = (r, w')" by fastforce
  have "pay_run (sample_pay_service None) ?w w'"
    by (rule pay_run.step [OF pay_run.stay pay_trans.refund [OF r]])
  from payment_lifecycle [OF this decimal_idem_Some sample_till_one] r show ?thesis
    by (auto simp: same_core_def sample_payment_def)
qed



text \<open>The outcome of a refund on a database that answers follows the provider's answer: accepted,
the payment is refunded and the refund event is published; refused, the payment is marked
\<open>refund_failed\<close> with its refund time cleared, and the caller gets the provider's error. In both
cases no other payment changes. A partial refund is not told apart: the record and the event are
those of a refund of the whole amount.\<close>
theorem refund_outcome:
  assumes "db_calm w" "decimal_idem dec" "pay_ok dec w" "pay_view w oid = Some p"
    and "pmStatus p \<in> {PaySucceeded, PayRefundFailed}" "oid \<noteq> []" "provs (pmProvider p) = Some pr"
    and "case amt of Some a \<Rightarrow> 0 < a \<and> a \<le> pmAmount p | None \<Rightarrow> True"
    and run: "RefundPayment (pay_service_pg dec False provs d) oid amt w = (r, w')"
  shows "\<exists>e0 t q. pay_view w' = (pay_view w)(oid \<mapsto> q) \<and>
    (case fst (RefundIntent pr (pmProviderIntentID p) (case amt of Some a \<Rightarrow> a | None \<Rightarrow> pmAmount p) e0) of
      Inl pe \<Rightarrow> q = p\<lparr>pmStatus := PayRefundFailed, pmRefundedAt := None, pmUpdatedAt := t\<rparr> \<and>
        r = Inl (provider_error pe) \<and> bus_log w' = bus_log w
    | Inr _ \<Rightarrow> q = p\<lparr>pmStatus := PayRefunded, pmUpdatedAt := t, pmRefundedAt := Some t\<rparr> \<and>
        told w w' PaymentRefundedTopic (PPaymentRefunded
          (PaymentEventPayload.extend (pay_event_fields p) \<lparr>pr_RefundedAt = t\<rparr>)) (Inr q) r)"
proof -
  have f: "pay_flag dec w" using assms(2,3) by (simp add: pay_flag_def)
  have oid: "pmOrderID p = oid" by (rule pay_view_intent(2) [OF f assms(4)])
  from assms(1) f assms(4-9) obtain t z w4 e0 q where
    q: "q = p\<lparr>pmStatus := PayRefunded, pmUpdatedAt := t, pmRefundedAt := Some t\<rparr>"
    and z: "z = fst (RefundIntent pr (pmProviderIntentID p) (case amt of Some a \<Rightarrow> a | None \<Rightarrow> pmAmount p) e0)"
    and f4: "db_calm w4" "pay_flag dec w4" "pay_view w4 = (pay_view w)(oid \<mapsto> q)" "bus_log w4 = bus_log w"
    and run': "(r, w') = (case z of
      Inl pe \<Rightarrow> (case time_now w4 of (upd, w5) \<Rightarrow> (Inl (provider_error pe),
         snd (pUpdate_pg dec (q\<lparr>pmStatus := PayRefundFailed, pmRefundedAt := None, pmUpdatedAt := upd\<rparr>) w5)))
    | Inr _ \<Rightarrow> (case publishPaymentRefund (pay_service_pg dec False provs d) q w4 of
            (Inl p, w5) \<Rightarrow> (Inl p, w5)
          | (Inr _, w5) \<Rightarrow> (Inr q, w5)))" by (rule refund_marked)
  show ?thesis
  proof (cases z)
    case (Inl pe)
    obtain tm w5 where t5: "time_now w4 = (tm, w5)" by fastforce
    then obtain c5 d5 where w5: "w5 = w4\<lparr>clock := c5, delays := d5\<rparr>" by (auto elim!: time_nowE)
    let ?q = "q\<lparr>pmStatus := PayRefundFailed, pmRefundedAt := None, pmUpdatedAt := tm\<rparr>"
    have "same_core q ?q" "pmOrderID ?q = oid" using oid by (simp_all add: q same_core_def)
    then obtain t6 where "pUpdate_pg dec ?q w5 = (Inr (), w5\<lparr>payments_tbl := t6\<rparr>)"
      "pay_view (w5\<lparr>payments_tbl := t6\<rparr>) = (pay_view w)(oid \<mapsto> ?q)"
      using pUpdate_calm [of w5 dec ?q q] f4 by (auto simp: w5)
    with run' Inl z t5 f4(4) show ?thesis
      by (intro exI [of _ e0] exI [of _ tm] exI [of _ ?q]) (simp add: q w5)
  next
    case (Inr un)
    obtain x w5 where pub: "publishPaymentRefund (pay_service_pg dec False provs d) q w4 = (x, w5)" by fastforce
    with run' Inr z f4 publish_told [OF pub [unfolded publishPaymentRefund_def], of "Inr q" r w'] show ?thesis
      by (intro exI [of _ e0] exI [of _ t] exI [of _ q])
        (auto simp: told_def q pay_event_fields_def split: sum.splits)
  qed
qed

theorem refund_outcome_witness:
  "let w' = snd (RefundPayment (sample_pay_service None) ''o1'' (Some 10)
       (sample_till StatusCanceled [sample_payment PaySucceeded] [Some ''e'']))
   in \<exists>q evt f. pay_view w' ''o1'' = Some q \<and> pmStatus q = PayRefunded \<and> bus_log w' = [evt] \<and>
     evPayload evt = PPaymentRefunded f \<and> pe_Amount f = 60"
proof -
  let ?w = "sample_till StatusCanceled [sample_payment PaySucceeded] [Some ''e'']"
  obtain r w' where run: "RefundPayment (sample_pay_service None) ''o1'' (Some 10) ?w = (r, w')" by fastforce
  have "\<not> isl (fst (RefundPayment (sample_pay_service None) ''o1'' (Some 10) ?w))" by code_simp
  then have "\<not> isl r" using run by simp
  moreover have "sample_provs None (pmProvider (sample_payment PaySucceeded)) = Some (sample_provider None)"
    by (simp add: sample_provs_def sample_payment_def)
  ultimately show ?thesis
    using refund_outcome [OF sample_till_sel(2) decimal_idem_Some sample_till_one _ _ _ _ run] run
    by (auto simp: sample_payment_def told_def sample_provider_def sample_till_sel pay_event_fields_def
        PaymentEventPayload.defs)
qed

text \<open>
  A confirmation on a database that answers: it asks for the time, and then writes one record from
  a world that differs from the first only in the environment, by the age of the payment and the
  answer of the provider.
\<close>

lemma pUpdate_confirm:
  assumes "db_calm w" "pay_flag dec w" "pay_view w oid = Some p" "same_core p q"
    and w3: "w3 = w\<lparr>clock := c, delays := ds, uuids := us\<rparr>"
  obtains w4 where "pUpdate_pg dec q w3 = (Inr (), w4)" "pay_view w4 = (pay_view w)(oid \<mapsto> q)"
    "pay_flag dec w4" "bus_log w4 = bus_log w"
proof -
  have "pmOrderID q = oid" using assms(4) pay_view_intent(2) [OF assms(2,3)] by (simp add: same_core_def)
  moreover have f3: "db_calm w3" "pay_flag dec w3" "pay_view w3 = pay_view w"
    using assms(1,2) by (simp_all add: w3)
  ultimately obtain tb where "pUpdate_pg dec q w3 = (Inr (), w3\<lparr>payments_tbl := tb\<rparr>)"
    "pay_view (w3\<lparr>payments_tbl := tb\<rparr>) = (pay_view w)(oid \<mapsto> q)" "pay_flag dec (w3\<lparr>payments_tbl := tb\<rparr>)"
    using pUpdate_calm [OF f3(1,2), of q p] assms(3,4) by auto
  with that [of "w3\<lparr>payments_tbl := tb\<rparr>"] show thesis by (simp add: w3)
qed

lemma confirm_read:
  assumes "db_calm w" "pay_flag dec w" "pay_view w oid = Some p"
  shows "pay_query (\<lambda>r. pmProvider r = pmProvider p \<and> pmProviderIntentID r = pmProviderIntentID p) w = (Inr p, w)"
  using pay_view_intent(1) [OF assms(2,3)] assms(1) by (simp add: pay_query_calm)

lemma confirm_expired:
  assumes "db_calm w" "pay_flag dec w" "pay_view w oid = Some p"
    and "pmStatus p \<notin> {PaySucceeded, PayRefunded, PayFailed}"
    and "pmProvider p \<noteq> []" "pmProviderIntentID p \<noteq> []"
    and run: "ConfirmPayment (pay_service_pg dec False provs d) (pmProvider p) (pmProviderIntentID p) w = (r, w')"
    and t: "time_now w = (now, w2)" "now - pmCreatedAt p > day_ns"
  shows "\<exists>u q. q = p\<lparr>pmStatus := PayFailed,
        pmFailureReason := ''payment intent expired (older than 24 hours)'', pmUpdatedAt := u\<rparr> \<and>
      pay_view w' = (pay_view w)(oid \<mapsto> q) \<and>
      told w w' PaymentFailedTopic (PPaymentFailed (PaymentEventPayload.extend (pay_event_fields p)
         \<lparr>pf_Error = pmFailureReason q\<rparr>)) (Inl (ErrText ''cannot confirm expired payment intent'')) r"
proof -
  obtain u w3 where t3: "time_now w2 = (u, w3)" by fastforce
  with t(1) obtain c ds where w3: "w3 = w\<lparr>clock := c, delays := ds, uuids := uuids w\<rparr>"
    by (auto elim!: time_nowE)
  define q where "q = p\<lparr>pmStatus := PayFailed,
        pmFailureReason := ''payment intent expired (older than 24 hours)'', pmUpdatedAt := u\<rparr>"
  have "same_core p q" by (simp add: q_def same_core_def)
  from pUpdate_confirm [OF assms(1-3) this w3] obtain w4 where
    w4: "pUpdate_pg dec q w3 = (Inr (), w4)" "pay_view w4 = (pay_view w)(oid \<mapsto> q)" "bus_log w4 = bus_log w"
    by blast
  obtain x w5 where pub: "publishPaymentFailure (pay_service_pg dec False provs d) q (pmFailureReason q) w4 = (x, w5)"
    by fastforce
  have "(case x of Inl p \<Rightarrow> (Inl p, w5) | Inr _ \<Rightarrow> (Inl (ErrText ''cannot confirm expired payment intent''), w5)) = (r, w')"
    using run confirm_read [OF assms(1-3)] assms(4-6) t t3 w4(1) pub
    by (auto simp: ConfirmPayment_def pGetByProviderIntentID_pg_def Let_def q_def split: sum.splits)
  from publish_told [OF pub [unfolded publishPaymentFailure_def] this] w4 show ?thesis
    by (intro exI [of _ u] exI [of _ q]) (auto simp: told_def q_def pay_event_fields_def)
qed

lemma confirm_answered:
  assumes "db_calm w" "pay_flag dec w" "pay_view w oid = Some p"
    and st: "pmStatus p \<notin> {PaySucceeded, PayRefunded, PayFailed}"
    and id: "pmProvider p \<noteq> []" "pmProviderIntentID p \<noteq> []" "provs (pmProvider p) = Some pr"
    and run: "ConfirmPayment (pay_service_pg dec False provs d) (pmProvider p) (pmProviderIntentID p) w = (r, w')"
    and t: "time_now w = (now, w2)" "\<not> now - pmCreatedAt p > day_ns"
  shows "\<exists>u q e0. pay_view w' = (pay_view w)(oid \<mapsto> q) \<and>
    (case fst (ConfirmIntent pr (pmProviderIntentID p) e0) of
       Inl ce \<Rightarrow> q = p\<lparr>pmStatus := PayFailed, pmFailureReason := err_string ce, pmUpdatedAt := u\<rparr> \<and>
         told w w' PaymentFailedTopic (PPaymentFailed (PaymentEventPayload.extend (pay_event_fields p)
           \<lparr>pf_Error = (if err_string ce = [] then ''payment failed'' else err_string ce)\<rparr>))
           (Inl (provider_error ce)) r
     | Inr _ \<Rightarrow> q = p\<lparr>pmStatus := PaySucceeded, pmUpdatedAt := u\<rparr> \<and>
         told w w' PaymentSucceededTopic (PPayment (pay_event_fields p)) (Inr q) r)"
proof -
  obtain z w3 where z: "lift_env (ConfirmIntent pr (pmProviderIntentID p)) w2 = (z, w3)" by fastforce
  then obtain c3 d3 u3 e0 where w3: "w3 = w2\<lparr>clock := c3, delays := d3, uuids := u3\<rparr>"
    and z0: "z = fst (ConfirmIntent pr (pmProviderIntentID p) e0)" by (rule lift_envE)
  obtain u w4 where t4: "time_now w3 = (u, w4)" by fastforce
  then obtain c ds where "w4 = w3\<lparr>clock := c, delays := ds\<rparr>" by (auto elim!: time_nowE)
  with w3 t(1) have w4: "w4 = w\<lparr>clock := c, delays := ds, uuids := u3\<rparr>" by (auto elim!: time_nowE)
  note run' = run [unfolded ConfirmPayment_def] confirm_read [OF assms(1-3)]
  define q where "q = (case z of
      Inl ce \<Rightarrow> p\<lparr>pmStatus := PayFailed, pmFailureReason := err_string ce, pmUpdatedAt := u\<rparr>
    | Inr _ \<Rightarrow> p\<lparr>pmStatus := PaySucceeded, pmUpdatedAt := u\<rparr>)"
  have "same_core p q" by (simp add: q_def same_core_def split: sum.splits)
  from pUpdate_confirm [OF assms(1-3) this w4] obtain w5 where
    w5: "pUpdate_pg dec q w4 = (Inr (), w5)" "pay_view w5 = (pay_view w)(oid \<mapsto> q)" "bus_log w5 = bus_log w"
    by blast
  show ?thesis
  proof (cases z)
    case (Inl ce)
    obtain x w6 where pub: "publishPaymentFailure (pay_service_pg dec False provs d) q (err_string ce) w5 = (x, w6)"
      by fastforce
    have "(case x of Inl p \<Rightarrow> (Inl p, w6) | Inr _ \<Rightarrow> (Inl (provider_error ce), w6)) = (r, w')"
      using run' st id t z t4 Inl w5(1) pub
      by (auto simp: pGetByProviderIntentID_pg_def lift_provider_def Let_def q_def split: sum.splits)
    from publish_told [OF pub [unfolded publishPaymentFailure_def] this] w5 z0 Inl show ?thesis
      by (intro exI [of _ u] exI [of _ q] exI [of _ e0])
        (auto simp: told_def pay_event_fields_def q_def split: sum.splits)
  next
    case (Inr un)
    obtain x w6 where pub: "publishPaymentSuccess (pay_service_pg dec False provs d) q w5 = (x, w6)"
      by fastforce
    have "(case x of Inl p \<Rightarrow> (Inl p, w6) | Inr _ \<Rightarrow> (Inr q, w6)) = (r, w')"
      using run' st id t z t4 Inr w5(1) pub
      by (auto simp: pGetByProviderIntentID_pg_def lift_provider_def Let_def q_def split: sum.splits)
    note tl = publish_told [OF pub [unfolded publishPaymentSuccess_def] this]
    have "told w w' PaymentSucceededTopic (PPayment (pay_event_fields p)) (Inr q) r"
      using tl w5(3) Inr by (simp add: told_def q_def pay_event_fields_def)
    moreover have "pay_view w' = (pay_view w)(oid \<mapsto> q)" using tl w5(2) by simp
    moreover have "q = p\<lparr>pmStatus := PaySucceeded, pmUpdatedAt := u\<rparr>" by (simp add: q_def Inr)
    moreover have "fst (ConfirmIntent pr (pmProviderIntentID p) e0) = Inr un" using z0 Inr by simp
    ultimately show ?thesis
      by (intro exI [of _ u] exI [of _ q] exI [of _ e0]) simp
  qed
qed

text \<open>The outcome of a confirmation on a database that answers: an intent older than 24 hours
fails the payment without asking the provider; otherwise the provider's answer decides between
\<open>succeeded\<close> with the success event, and \<open>failed\<close> with the provider's error as the reason. No other
payment changes.\<close>
theorem confirm_outcome:
  assumes "db_calm w" "decimal_idem dec" "pay_ok dec w" "pay_view w oid = Some p"
    and st: "pmStatus p \<notin> {PaySucceeded, PayRefunded, PayFailed}"
    and id: "pmProvider p \<noteq> []" "pmProviderIntentID p \<noteq> []" "provs (pmProvider p) = Some pr"
    and run: "ConfirmPayment (pay_service_pg dec False provs d) (pmProvider p) (pmProviderIntentID p) w = (r, w')"
  shows "\<exists>now t e0 q. clock w \<le> now \<and> pay_view w' = (pay_view w)(oid \<mapsto> q) \<and>
    (if now - pmCreatedAt p > day_ns
     then q = p\<lparr>pmStatus := PayFailed,
        pmFailureReason := ''payment intent expired (older than 24 hours)'', pmUpdatedAt := t\<rparr> \<and>
       told w w' PaymentFailedTopic (PPaymentFailed (PaymentEventPayload.extend (pay_event_fields p)
         \<lparr>pf_Error = pmFailureReason q\<rparr>)) (Inl (ErrText ''cannot confirm expired payment intent'')) r
     else case fst (ConfirmIntent pr (pmProviderIntentID p) e0) of
       Inl ce \<Rightarrow> q = p\<lparr>pmStatus := PayFailed, pmFailureReason := err_string ce, pmUpdatedAt := t\<rparr> \<and>
         told w w' PaymentFailedTopic (PPaymentFailed (PaymentEventPayload.extend (pay_event_fields p)
           \<lparr>pf_Error = (if err_string ce = [] then ''payment failed'' else err_string ce)\<rparr>))
           (Inl (provider_error ce)) r
     | Inr _ \<Rightarrow> q = p\<lparr>pmStatus := PaySucceeded, pmUpdatedAt := t\<rparr> \<and>
         told w w' PaymentSucceededTopic (PPayment (pay_event_fields p)) (Inr q) r)"
proof -
  have f: "pay_flag dec w" using assms(2,3) by (simp add: pay_flag_def)
  obtain now w2 where t: "time_now w = (now, w2)" by fastforce
  then have now: "clock w \<le> now" by (auto elim!: time_nowE)
  show ?thesis
  proof (cases "now - pmCreatedAt p > day_ns")
    case True
    from confirm_expired [OF assms(1) f assms(4) st id(1,2) run t True] now True show ?thesis
      by (elim exE conjE) (intro exI [of _ now] exI, auto)
  next
    case False
    from confirm_answered [OF assms(1) f assms(4) st id run t False] now False show ?thesis
      by (elim exE conjE) (intro exI [of _ now] exI, auto)
  qed
qed

theorem confirm_outcome_witness:
  "let w' = snd (ConfirmPayment (sample_pay_service (Some (ErrText ''declined''))) ''stub'' ''i1''
       (sample_till StatusPending [sample_payment PayPending] [Some ''e'']))
   in \<exists>q evt. pay_view w' ''o1'' = Some q \<and> pmStatus q = PayFailed \<and> pmFailureReason q = ''declined'' \<and>
     bus_log w' = [evt] \<and> evTopic evt = PaymentFailedTopic"
proof -
  let ?s = "sample_pay_service (Some (ErrText ''declined''))"
  let ?w = "sample_till StatusPending [sample_payment PayPending] [Some ''e'']"
  obtain r w' where run: "ConfirmPayment ?s (pmProvider (sample_payment PayPending))
      (pmProviderIntentID (sample_payment PayPending)) ?w = (r, w')" by fastforce
  have "fst (ConfirmPayment ?s ''stub'' ''i1'' ?w) = Inl (provider_error (ErrText ''declined''))" by code_simp
  then have r: "r = Inl (provider_error (ErrText ''declined''))"
    using run by (simp add: sample_payment_def)
  have "sample_provs (Some (ErrText ''declined'')) (pmProvider (sample_payment PayPending)) =
      Some (sample_provider (Some (ErrText ''declined'')))"
    by (simp add: sample_provs_def sample_payment_def)
  from confirm_outcome [OF sample_till_sel(2) decimal_idem_Some sample_till_one _ _ _ this run] run r
  show ?thesis
    by (auto simp: sample_payment_def told_def sample_provider_def sample_till_sel day_ns_def
        provider_error_def split: if_splits)
qed

text \<open>Creating a payment: what the new record is, and that an existing one stands in the way.\<close>

lemma create_intent_blocked:
  fixes w :: "'a pay_db_scheme"
  assumes run: "create_intent (pay_service_pg dec b provs d) oid c pn cur idem w = (r, w')"
    and f: "pay_flag dec w" and p: "pay_view w oid \<noteq> None"
  shows "isl r \<and> pay_view w' = pay_view w"
  using pg_pay.create_intent_cases [OF run]
proof (elim disjE exE conjE)
  fix q y w5 w6
  assume a: "pmOrderID q = oid" "(pay_view w5, pay_flag dec w5) = (pay_view w, pay_flag dec w)"
    "pCreate (psRepo (pay_service_pg dec b provs d)) q w5 = (y, w6)"
    "(pay_view w', pay_flag dec w') = (pay_view w6, pay_flag dec w6)" "isl y \<longrightarrow> isl r"
  then have c: "pCreate_pg dec q w5 = (y, w6)" by simp
  show ?thesis
  proof (cases y)
    case (Inl e)
    with a pCreate_pg_fx [OF c] pay_same_more [of w6 w5 dec] show ?thesis by simp
  next
    case (Inr u)
    with c a(1,2) f p pay_create_view [of dec q w5 u w6] show ?thesis by auto
  qed
qed auto

lemma create_intent_new:
  fixes w :: "'a pay_db_scheme"
  assumes run: "create_intent (pay_service_pg dec b provs d) oid c pn cur idem w = (Inr p, w')"
    and f: "pay_flag dec w" "order_ok dec w"
  shows "\<exists>o1. order_view w oid = Some o1 \<and> ordStatus o1 = StatusPending \<and> pmAmount p = ordTotal o1 \<and>
    pmOrderID p = oid \<and> pmCustomerID p = c \<and> provs (pmProvider p) \<noteq> None \<and>
    pay_view w' = (pay_view w)(oid \<mapsto> p)"
  using pg_pay.create_intent_cases [OF run]
proof (elim disjE exE conjE)
  fix amt w1 q y w5 w6
  assume a: "pmOrderID q = oid" "pmCustomerID q = c" "pmAmount q = amt"
    "psProviders (pay_service_pg dec b provs d) (pmProvider q) \<noteq> None"
    "psGetOrder (pay_service_pg dec b provs d) oid w = (Inr (amt, StatusPending), w1)"
    "(pay_view w5, pay_flag dec w5) = (pay_view w, pay_flag dec w)"
    "pCreate (psRepo (pay_service_pg dec b provs d)) q w5 = (y, w6)"
    "(pay_view w', pay_flag dec w') = (pay_view w6, pay_flag dec w6)"
    "isl y \<longrightarrow> isl (Inr p :: err + Payment)" "\<forall>q'. (Inr p :: err + Payment) = Inr q' \<longrightarrow> q' = q"
  then have p: "q = p" by simp
  from a(5) obtain o1 where o1: "GetByID_pg oid w = (Inr o1, w1)" "ordTotal o1 = amt" "ordStatus o1 = StatusPending"
    by (auto simp: GetOrderAmountAndStatus_def GetOrder_def split: prod.splits sum.splits)
  have v: "order_view w oid = Some o1" using GetByID_pg_fx [OF o1(1)] f(2) by simp
  then have "dec amt = Some amt" using f(2) o1(2) by (auto simp: order_view_def order_ok_def)
  then have d: "dec (pmAmount p) = Some (pmAmount p)" using a(3) p by simp
  have "pay_view w6 = (pay_view w)(oid \<mapsto> p\<lparr>pmAmount := pmAmount p\<rparr>)"
    using a f(1) p d pay_create_view [of dec p w5 _ w6] by (cases y) auto
  moreover have "p\<lparr>pmAmount := pmAmount p\<rparr> = p" by simp
  ultimately have "pay_view w' = (pay_view w)(oid \<mapsto> p)" using a(8) by simp
  with v o1 a p show ?thesis by auto
qed simp

text \<open>Whatever calls fail, a payment that the service newly creates charges exactly the total of
a pending order, through a registered provider, and is stored as the only new record, under the
order's id; an order that already has a pending or succeeded payment gets that very record back.\<close>
theorem create_payment_spec:
  fixes w :: "'a pay_db_scheme"
  assumes run: "CreatePaymentIntent (pay_service_pg dec b provs d) oid c pn cur idem w = (Inr p, w')"
    and "decimal_idem dec" "pay_ok dec w" "order_ok dec w"
  shows "(pay_view w oid = Some p \<and> pmStatus p \<in> {PaySucceeded, PayPending} \<and> pay_view w' = pay_view w) \<or>
    (\<exists>o1. pay_view w oid = None \<and> order_view w oid = Some o1 \<and> ordStatus o1 = StatusPending \<and>
       pmAmount p = ordTotal o1 \<and> pmOrderID p = oid \<and> pmCustomerID p = c \<and>
       provs (pmProvider p) \<noteq> None \<and> pay_view w' = (pay_view w)(oid \<mapsto> p))"
proof -
  have f: "pay_flag dec w" using assms(2,3) by (simp add: pay_flag_def)
  obtain x w1 where q: "pay_query (\<lambda>p. pmOrderID p = oid) w = (x, w1)" by fastforce
  note qf = pay_query_fx [OF q]
  have f1: "pay_view w1 = pay_view w" "pay_flag dec w1" "order_view w1 = order_view w" "order_ok dec w1"
    using pay_same_more [of w1 w dec] order_same_view [of w1 w] qf f assms(4) by auto
  have x: "\<forall>p. x = Inr p \<longrightarrow> pay_view w oid = Some p" using qf by (simp add: pay_view_def)
  let ?ci = "\<lambda>cur. create_intent (pay_service_pg dec b provs d) oid c pn cur idem w1"
  from run q x f1(1) have "(pay_view w oid = Some p \<and> pmStatus p \<in> {PaySucceeded, PayPending} \<and>
      pay_view w' = pay_view w) \<or> (\<exists>cur. ?ci cur = (Inr p, w'))"
    by (auto simp: CreatePaymentIntent_def pGetByOrderID_pg_def Let_def split: if_splits sum.splits)
  then show ?thesis
  proof
    assume "\<exists>cur. ?ci cur = (Inr p, w')"
    then obtain cur where ci: "?ci cur = (Inr p, w')" ..
    have "pay_view w oid = None"
      using create_intent_blocked [OF ci f1(2)] f1(1) by (cases "pay_view w oid") auto
    with create_intent_new [OF ci f1(2,4)] f1 show ?thesis by simp
  qed blast
qed

theorem create_payment_spec_witness:
  "let w' = snd (CreatePaymentIntent (sample_pay_service None) ''o1'' ''c1'' [] [] []
       (sample_till StatusPending [] [Some ''u'']))
   in \<exists>p. pay_view w' ''o1'' = Some p \<and> pmAmount p = 60"
proof -
  let ?w = "sample_till StatusPending [] [Some ''u'']"
  let ?run = "CreatePaymentIntent (sample_pay_service None) ''o1'' ''c1'' [] [] [] ?w"
  have "\<not> isl (fst ?run)" by code_simp
  then obtain p w' where run: "?run = (Inr p, w')" by (cases "fst ?run"; cases ?run) auto
  have v: "order_view ?w ''o1'' = Some (sample_order StatusPending)" "pay_ok Some ?w" "pay_view ?w ''o1'' = None"
    using sample_shop_view [of StatusPending "[Some ''u'']" "[]"]
    by (simp_all add: order_view_def items_of_def sample_till_def order_db.defs pay_ok_def pay_view_def
        sample_shop_def sample_orders_def)
  from create_payment_spec [OF run decimal_idem_Some v(2) sample_till_sel(3)] v run show ?thesis
    by (auto simp: sample_order_def)
qed

text \<open>A payment that failed blocks its order: although the service lets a re-attempt through,
the table keeps one payment per order, so for any provider and any failures the re-attempt ends in
an error and leaves the payments as they were; the provider may already have created an intent.\<close>
theorem reattempt_blocked:
  assumes "decimal_idem dec" "pay_ok dec w" "pay_view w oid = Some p"
    and "pmStatus p \<notin> {PaySucceeded, PayPending}"
    and run: "CreatePaymentIntent (pay_service_pg dec b provs d) oid c pn cur idem w = (r, w')"
  shows "isl r \<and> pay_view w' = pay_view w"
proof -
  have f: "pay_flag dec w" using assms(1,2) by (simp add: pay_flag_def)
  obtain x w1 where q: "pay_query (\<lambda>p. pmOrderID p = oid) w = (x, w1)" by fastforce
  note qf = pay_query_fx [OF q]
  have f1: "pay_view w1 = pay_view w" "pay_flag dec w1" using pay_same_more [of w1 w dec] qf f by auto
  have x: "\<forall>p'. x = Inr p' \<longrightarrow> p' = p" using qf assms(3) by (simp add: pay_view_def)
  have "(isl r \<and> pay_view w' = pay_view w) \<or>
      (\<exists>cur. create_intent (pay_service_pg dec b provs d) oid c pn cur idem w1 = (r, w'))"
    using run q x f1(1) assms(4)
    by (auto simp: CreatePaymentIntent_def pGetByOrderID_pg_def Let_def split: if_splits sum.splits)
  then show ?thesis
    using create_intent_blocked [OF _ f1(2)] f1(1) assms(3) by (metis option.distinct(1))
qed

theorem reattempt_blocked_witness:
  "isl (fst (CreatePaymentIntent (sample_pay_service None) ''o1'' ''c1'' [] [] []
     (sample_till StatusPending [sample_payment PayFailed] [Some ''u''])))"
proof -
  obtain r w' where run: "CreatePaymentIntent (sample_pay_service None) ''o1'' ''c1'' [] [] []
      (sample_till StatusPending [sample_payment PayFailed] [Some ''u'']) = (r, w')" by fastforce
  have "pmStatus (sample_payment PayFailed) = PayFailed" by (simp add: sample_payment_def)
  with reattempt_blocked [OF decimal_idem_Some sample_till_one _ run] show ?thesis by (simp add: run)
qed

text \<open>A refused refund can be lost for good. \<open>refund_failed\<close> is meant to be retried, but a
confirmation accepts it like a pending payment: if the payment is older than 24 hours it is marked
failed, although its money was taken, and from then on every refund of the order is refused, in
any later run and for any provider.\<close>
theorem refund_failed_expires:
  assumes "db_calm w" "decimal_idem dec" "pay_ok dec w" "pay_view w oid = Some p"
    and "pmStatus p = PayRefundFailed" "pmProvider p \<noteq> []" "pmProviderIntentID p \<noteq> []"
    and age: "day_ns < clock w - pmCreatedAt p"
    and run: "ConfirmPayment (pay_service_pg dec False provs d) (pmProvider p) (pmProviderIntentID p) w = (r, w1)"
    and later: "pay_run (pay_service_pg dec False provs d) w1 w2"
  shows "isl (fst (RefundPayment (pay_service_pg dec b' provs' d') oid amt w2)) \<and>
    (\<exists>q. pay_view w2 oid = Some q \<and> pmStatus q = PayFailed)"
proof -
  have f: "pay_flag dec w" using assms(2,3) by (simp add: pay_flag_def)
  obtain now v where t: "time_now w = (now, v)" by fastforce
  then have old: "now - pmCreatedAt p > day_ns" using age by (auto elim!: time_nowE)
  have st: "pmStatus p \<notin> {PaySucceeded, PayRefunded, PayFailed}" using assms(5) by simp
  obtain u q where "q = p\<lparr>pmStatus := PayFailed,
      pmFailureReason := ''payment intent expired (older than 24 hours)'', pmUpdatedAt := u\<rparr>"
    "pay_view w1 = (pay_view w)(oid \<mapsto> q)"
    using confirm_expired [OF assms(1) f assms(4) st assms(6,7) run t old] by (elim exE conjE) (rule that)
  then have q: "pay_view w1 oid = Some q" "pmStatus q = PayFailed" by simp_all
  have f1: "pay_flag dec w1" using pg_pay.confirm_step [OF run] f by (simp add: table_step_def)
  from pay_run_follows [OF later f1] q have w2: "pay_view w2 oid = Some q" by (auto simp: pay_follows_def)
  obtain x w3 where rd: "pay_query (\<lambda>p. pmOrderID p = oid) w2 = (x, w3)" by fastforce
  have "isl (fst (RefundPayment (pay_service_pg dec b' provs' d') oid amt w2))"
  proof (cases x)
    case (Inl e)
    with rd show ?thesis by (simp add: RefundPayment_def pGetByOrderID_pg_def)
  next
    case (Inr q')
    then have "q' = q" using pay_query_fx [OF rd] w2 by (simp add: pay_view_def)
    with rd Inr q(2) show ?thesis by (simp add: RefundPayment_def pGetByOrderID_pg_def)
  qed
  with w2 q show ?thesis by blast
qed

theorem refund_failed_expires_witness:
  "let w = sample_till StatusCanceled [(sample_payment PayRefundFailed)\<lparr>pmCreatedAt := - 2 * day_ns\<rparr>] [Some ''e''];
       w1 = snd (ConfirmPayment (sample_pay_service None) ''stub'' ''i1'' w)
   in isl (fst (RefundPayment (sample_pay_service None) ''o1'' None w1))"
proof -
  let ?p = "(sample_payment PayRefundFailed)\<lparr>pmCreatedAt := - 2 * day_ns\<rparr>"
  let ?w = "sample_till StatusCanceled [?p] [Some ''e'']"
  have v: "pay_ok Some ?w" "pay_view ?w ''o1'' = Some ?p" "day_ns < clock ?w - pmCreatedAt ?p"
    by (simp_all add: pay_ok_def pay_view_def sample_till_sel sample_payment_def day_ns_def)
  obtain r w1 where run: "ConfirmPayment (sample_pay_service None) (pmProvider ?p) (pmProviderIntentID ?p) ?w = (r, w1)"
    by fastforce
  from refund_failed_expires [OF sample_till_sel(2) decimal_idem_Some v(1,2) _ _ _ v(3) run pay_run.stay]
  show ?thesis using run by (auto simp: sample_payment_def Let_def)
qed

end
