(* ===== verification/PaymentHandlers.thy ===== *)
theory PaymentHandlers
  imports PaymentProps Gin
begin

text \<open>
  The HTTP handlers of payments (\<open>internal/core/payments/controller.go\<close> and \<open>admin/controller.go\<close>), and
  what their checks do not cover: the signature of a callback is a constant of the source, and the payment
  of an order is handed to whoever asks for an intent.
\<close>

section \<open>Customers\<close>

record CreateIntentRequest =
  cirOrderID :: string
  cirProvider :: string
  cirCurrency :: string

definition intent_error :: "err \<Rightarrow> err" where
  "intent_error e =
     (if errors_is e PErrOrderNotFound then NewNotFound ''order not found'' (Some e)
      else if errors_is e PErrInvalidOrderStatus then NewBadRequest ''order is not pending'' (Some e)
      else if errors_is e PErrDuplicatePaymentService
      then NewBadRequest ''payment already initiated or completed for this order'' (Some e)
      else if errors_is e PErrInvalidInput then NewBadRequest ''invalid request inputs'' (Some e)
      else if errors_is e PErrOrphanedProviderIntent
      then NewInternal ''payment gateway processed purchase, but engine failed to save order status. please contact support.'' (Some e)
      else NewInternal ''failed to create payment intent'' (Some e))"

definition http_CreateIntent ::
  "('a env_scheme) paymentService \<Rightarrow> string \<Rightarrow> string \<Rightarrow> err + CreateIntentRequest \<Rightarrow> ('a env_scheme, Payment) io" where
  "http_CreateIntent s uid idem body = authenticated uid (bind_body ''invalid request payload'' body (\<lambda>req.
     answer_error intent_error (CreatePaymentIntent s (cirOrderID req) uid (cirProvider req)
       (if cirCurrency req = [] then ''USD'' else cirCurrency req) idem)))"

text \<open>The request of a callback: the intent and a flag the handler does not look at.\<close>

definition http_ProcessCallback ::
  "('a env_scheme) paymentService \<Rightarrow> string \<Rightarrow> string \<Rightarrow> err + (string \<times> bool) \<Rightarrow> ('a env_scheme, Payment) io" where
  "http_ProcessCallback s provider signature body = need_param ''missing provider name in path'' provider
     (if signature = [] then fail_io (NewUnauthorized ''missing webhook signature'' None)
      else if signature \<noteq> ''valid-signature'' then fail_io (NewUnauthorized ''invalid webhook signature'' None)
      else bind_body ''invalid request payload'' body (\<lambda>(intentID, _).
        answer_error (\<lambda>e. if errors_is e PErrPaymentNotFound then NewNotFound ''payment intent not found'' (Some e)
            else if errors_is e PErrInvalidInput then NewBadRequest ''invalid callback inputs'' (Some e)
            else NewInternal ''failed to confirm payment'' (Some e))
          (ConfirmPayment s provider intentID)))"

definition http_ListPayments ::
  "('a env_scheme) paymentService \<Rightarrow> string \<Rightarrow> string option \<Rightarrow> string option \<Rightarrow> ('a env_scheme, Payment list) io" where
  "http_ListPayments s uid limit offset = authenticated uid
     (answer_error (\<lambda>e. NewInternal ''failed to list payments'' (Some e))
       (ListCustomerPayments s uid (limit_query limit) (offset_query offset)))"

definition http_GetPaymentByOrderID ::
  "('a env_scheme) paymentService \<Rightarrow> string \<Rightarrow> string \<Rightarrow> ('a env_scheme, Payment) io" where
  "http_GetPaymentByOrderID s uid oid = authenticated uid (need_param ''missing order ID'' oid
     (bind_io (answer_error (\<lambda>e. if errors_is e PErrPaymentNotFound then NewNotFound ''payment not found'' (Some e)
          else NewInternal ''failed to fetch payment'' (Some e)) (GetPaymentByOrderID s oid)) (\<lambda>p.
      if pmCustomerID p \<noteq> uid then fail_io (NewForbidden ''forbidden: payment does not belong to you'' None)
      else return_io p)))"

section \<open>Administrators\<close>

definition admin_ListPayments ::
  "('a env_scheme) paymentService \<Rightarrow> string option \<Rightarrow> string option \<Rightarrow> ('a env_scheme, Payment list \<times> int) io" where
  "admin_ListPayments s limit offset =
     bind_io (answer_error (\<lambda>e. NewInternal ''failed to list payments'' (Some e))
       (ListAllPayments s (limit_query limit) (offset_query offset))) (\<lambda>ps. return_io (ps, int (length ps)))"

definition admin_RefundPayment ::
  "('a env_scheme) paymentService \<Rightarrow> err + (string \<times> f64 option) \<Rightarrow> ('a env_scheme, Payment) io" where
  "admin_RefundPayment s body = bind_body ''invalid request payload'' body (\<lambda>(oid, amount).
     answer_error (\<lambda>e. if errors_is e PErrPaymentNotFound then NewNotFound ''payment not found'' (Some e)
         else NewInternal ''failed to refund payment'' (Some e)) (RefundPayment s oid amount))"

definition admin_GetPaymentByID ::
  "('a env_scheme) paymentService \<Rightarrow> string \<Rightarrow> ('a env_scheme, Payment) io" where
  "admin_GetPaymentByID s i = need_param ''missing payment ID in path'' i
     (answer_error (\<lambda>e. if errors_is e PErrPaymentNotFound then NewNotFound ''payment not found'' (Some e)
         else NewInternal ''failed to retrieve payment'' (Some e)) (GetPaymentByID s i))"

section \<open>Who sees the payment of an order\<close>

text \<open>On a database that answers, any logged-in customer who asks for an intent for an order that has a
pending or succeeded payment is answered with that payment, whoever's it is; the handler that shows the
payment of an order refuses the same customer. Nothing is written in either case.\<close>
theorem intent_shows_foreign_payment:
  assumes "db_calm w" "pay_view w oid = Some p" "pmStatus p \<in> {PaySucceeded, PayPending}"
    and "oid \<noteq> []" "uid \<noteq> []" "pmCustomerID p \<noteq> uid"
  shows "http_CreateIntent (pay_service_pg dec b provs d) uid idem (Inr (req\<lparr>cirOrderID := oid\<rparr>)) w = (Inr p, w) \<and>
    http_GetPaymentByOrderID (pay_service_pg dec b provs d) uid oid w =
      (Inl (NewForbidden ''forbidden: payment does not belong to you'' None), w)"
proof -
  have read: "pGetByOrderID_pg oid w = (Inr p, w)"
    using assms(1,2) by (simp add: pGetByOrderID_pg_def pay_view_def pay_query_calm)
  show ?thesis using assms(3-6)
    by (auto simp: http_CreateIntent_def http_GetPaymentByOrderID_def authenticated_def bind_body_def need_param_def
      answer_error_def on_error_def CreatePaymentIntent_def GetPaymentByOrderID_def bind_io_def read fail_io_def Let_def)
qed

theorem intent_shows_foreign_payment_witness:
  "fst (http_CreateIntent (sample_pay_service None) ''c2'' [] (Inr \<lparr>cirOrderID = ''o1'', cirProvider = [], cirCurrency = []\<rparr>)
     (sample_till StatusPaid [sample_payment PaySucceeded] [])) = Inr (sample_payment PaySucceeded)"
  using intent_shows_foreign_payment [OF sample_till_sel(2) sample_till_one(2) [where ps = PaySucceeded and st = StatusPaid and us = "[]"],
    where uid = "''c2''"
    and req = "\<lparr>cirOrderID = ''o1'', cirProvider = [], cirCurrency = []\<rparr>" and idem = "[]"]
  by (simp add: sample_payment_def)

end
