(* ===== verification/RateLimit.thy ===== *)
theory RateLimit
  imports Token Float64 "HOL-Library.AList_Mapping"
begin

text \<open>
  Rate limiting (\<open>internal/gateway/middleware/ratelimit.go\<close>): token buckets in memory with the
  janitor that drops idle ones, the Redis store with its switch to memory and back, and the middleware that
  asks up to three buckets before the handler. Metrics and log lines are left out, and the Lua script runs in
  Redis: it is a parameter, called with the arguments that \<open>allowE\<close> builds.
\<close>

section \<open>Configurations\<close>

record RateConfig =
  rcRate :: f64
  rcBurst :: f64

definition TierPublic :: RateConfig where "TierPublic = \<lparr>rcRate = 1 / 2, rcBurst = 10\<rparr>"
definition TierAuth :: RateConfig where "TierAuth = \<lparr>rcRate = 2, rcBurst = 20\<rparr>"
definition TierAdmin :: RateConfig where "TierAdmin = \<lparr>rcRate = 5, rcBurst = 50\<rparr>"
definition EndpointAuth :: RateConfig where "EndpointAuth = \<lparr>rcRate = fl (83 / 1000), rcBurst = 3\<rparr>"
definition EndpointCheckout :: RateConfig where "EndpointCheckout = \<lparr>rcRate = fl (167 / 1000), rcBurst = 5\<rparr>"
definition EndpointPayments :: RateConfig where "EndpointPayments = \<lparr>rcRate = fl (167 / 1000), rcBurst = 5\<rparr>"

section \<open>Buckets in memory\<close>

record clientBucket =
  cbTokens :: f64
  cbLastRefill :: int
  cbLastSeen :: int

text \<open>The world with both stores' state: the buckets in memory, and what the fallback store knows of Redis.\<close>

record rl_env = env +
  rlBuckets :: "(string, clientBucket) mapping"
  rlHealthy :: bool
  rlConsecOK :: int
  rlDownSince :: int

text \<open>\<open>Time.Sub\<close>, which saturates, of a monotonic clock, and \<open>Duration.Seconds\<close>.\<close>

definition elapsed_since :: "int \<Rightarrow> int \<Rightarrow> int" where "elapsed_since now t = min (now - t) (2 ^ 63 - 1)"

definition seconds :: "int \<Rightarrow> f64" where
  "seconds d = fadd (f_of_int (d div 1000000000)) (fdiv (f_of_int (d mod 1000000000)) 1000000000)"

definition refill :: "RateConfig \<Rightarrow> f64 \<Rightarrow> int \<Rightarrow> f64" where
  "refill cfg tokens d = (let t = fadd tokens (fmul (seconds d) (rcRate cfg)) in if rcBurst cfg < t then rcBurst cfg else t)"

definition bucket_of :: "(string, clientBucket) mapping \<Rightarrow> string \<Rightarrow> RateConfig \<Rightarrow> int \<Rightarrow> clientBucket" where
  "bucket_of bs key cfg now = (case Mapping.lookup bs key of
       None \<Rightarrow> \<lparr>cbTokens = rcBurst cfg, cbLastRefill = now, cbLastSeen = now\<rparr>
     | Some b \<Rightarrow> b)"

definition spend_token :: "string \<Rightarrow> int \<Rightarrow> f64 \<Rightarrow> 'a rl_env_scheme \<Rightarrow> bool \<times> 'a rl_env_scheme" where
  "spend_token key now t w = (1 \<le> t, w\<lparr>rlBuckets := Mapping.update key
     \<lparr>cbTokens = (if 1 \<le> t then fsub t 1 else t), cbLastRefill = now, cbLastSeen = now\<rparr> (rlBuckets w)\<rparr>)"

definition use_bucket :: "string \<Rightarrow> RateConfig \<Rightarrow> int \<Rightarrow> clientBucket \<Rightarrow> 'a rl_env_scheme \<Rightarrow> bool \<times> 'a rl_env_scheme" where
  "use_bucket key cfg now b = spend_token key now (refill cfg (cbTokens b) (elapsed_since now (cbLastRefill b)))"

definition mem_Allow :: "string \<Rightarrow> RateConfig \<Rightarrow> 'a rl_env_scheme \<Rightarrow> bool \<times> 'a rl_env_scheme" where
  "mem_Allow key cfg w = (case time_now w of (now, w1) \<Rightarrow>
     use_bucket key cfg now (bucket_of (rlBuckets w1) key cfg now) w1)"

definition janitor_tick :: "'a rl_env_scheme \<Rightarrow> 'a rl_env_scheme" where
  "janitor_tick w = (case time_now w of (now, w1) \<Rightarrow>
     w1\<lparr>rlBuckets := Mapping.filter (\<lambda>_ b. \<not> cbLastSeen b < now - 300 * 1000000000) (rlBuckets w1)\<rparr>)"

section \<open>Redis, with memory to fall back to\<close>

text \<open>\<open>%f\<close> of a non-negative value: six decimals, rounded to nearest.\<close>

definition fmt_f :: "f64 \<Rightarrow> string" where
  "fmt_f x = (let n = rne (x * 1000000); f = itoa (n mod 1000000) in
     itoa (n div 1000000) @ ''.'' @ replicate (6 - length f) (CHR ''0'') @ f)"

text \<open>The arguments of the script: key, rate, burst, the time in microseconds, the life time in seconds.\<close>

type_synonym 'w rl_script = "string \<Rightarrow> string \<Rightarrow> string \<Rightarrow> string \<Rightarrow> string \<Rightarrow> ('w, int) io"

definition allowE :: "('a env_scheme) rl_script \<Rightarrow> string \<Rightarrow> RateConfig \<Rightarrow> ('a env_scheme, bool) io" where
  "allowE script key cfg w = (let ttl = \<lceil>fdiv (rcBurst cfg) (rcRate cfg)\<rceil> + 60 in
     case time_now w of (now, w1) \<Rightarrow>
       bind_io (script key (fmt_f (rcRate cfg)) (fmt_f (rcBurst cfg)) (itoa (now div 1000)) (itoa ttl))
         (\<lambda>n. return_io (n = 1)) w1)"

text \<open>\<open>redisStore.Allow\<close> alone lets a request pass when Redis does not answer.\<close>

definition redis_Allow :: "('a env_scheme) rl_script \<Rightarrow> string \<Rightarrow> RateConfig \<Rightarrow> 'a env_scheme \<Rightarrow> bool \<times> 'a env_scheme" where
  "redis_Allow script key cfg w = (case allowE script key cfg w of (Inl e, w1) \<Rightarrow> (True, w1) | (Inr b, w1) \<Rightarrow> (b, w1))"

definition wrap32 :: "int \<Rightarrow> int" where "wrap32 n = (n + 2 ^ 31) mod 2 ^ 32 - 2 ^ 31"

text \<open>
  Two requests that fail at once race for the compare-and-swap; the winner starts the fallback and then clears
  the counter of good probes. A probe can run between the two.
\<close>

definition start_fallback :: "'a rl_env_scheme \<Rightarrow> 'a rl_env_scheme" where
  "start_fallback w = (case time_now (w\<lparr>rlHealthy := False\<rparr>) of (t, w1) \<Rightarrow> w1\<lparr>rlDownSince := t\<rparr>)"

definition clear_probes :: "'a rl_env_scheme \<Rightarrow> 'a rl_env_scheme" where
  "clear_probes w = w\<lparr>rlConsecOK := 0\<rparr>"

definition markUnhealthy :: "'a rl_env_scheme \<Rightarrow> 'a rl_env_scheme" where
  "markUnhealthy w = (if rlHealthy w then clear_probes (start_fallback w) else w)"

definition fallback_Allow ::
  "('a rl_env_scheme) rl_script \<Rightarrow> string \<Rightarrow> RateConfig \<Rightarrow> 'a rl_env_scheme \<Rightarrow> bool \<times> 'a rl_env_scheme" where
  "fallback_Allow script key cfg w =
     (if \<not> rlHealthy w then mem_Allow key cfg w
      else (case allowE script key cfg w of
          (Inl e, w1) \<Rightarrow> mem_Allow key cfg (markUnhealthy w1)
        | (Inr b, w1) \<Rightarrow> (b, w1)))"

text \<open>One tick of \<open>runProbe\<close>; the time that it reads on recovery is only logged.\<close>

definition probe_tick :: "('a rl_env_scheme, unit) io \<Rightarrow> 'a rl_env_scheme \<Rightarrow> 'a rl_env_scheme" where
  "probe_tick ping w = (case ping w of
       (Inl e, w1) \<Rightarrow> w1\<lparr>rlConsecOK := 0\<rparr>
     | (Inr _, w1) \<Rightarrow> let n = wrap32 (rlConsecOK w1 + 1); w2 = w1\<lparr>rlConsecOK := n\<rparr> in
         if 3 \<le> n \<and> \<not> rlHealthy w2 then (snd (time_now w2))\<lparr>rlHealthy := True\<rparr> else w2)"

section \<open>Middleware\<close>

record rl_request =
  rqIP :: string
  rqPath :: string
  rqAuthorization :: string

definition path_prefix :: "string \<Rightarrow> string \<Rightarrow> bool" where "path_prefix s p \<longleftrightarrow> take (length p) s = p"

definition endpointConfig :: "string \<Rightarrow> (string \<times> RateConfig) option" where
  "endpointConfig path =
     (if path_prefix path ''/api/auth'' then Some (''auth'', EndpointAuth)
      else if path_prefix path ''/api/checkout'' then Some (''checkout'', EndpointCheckout)
      else if path_prefix path ''/api/payments'' then Some (''payments'', EndpointPayments)
      else None)"

definition getClientTier :: "JWTManager option \<Rightarrow> string \<Rightarrow> 'a env_scheme \<Rightarrow> RateConfig \<times> 'a env_scheme" where
  "getClientTier m header w = (case m of
       None \<Rightarrow> (TierPublic, w)
     | Some jwt \<Rightarrow>
         if header = [] then (TierPublic, w)
         else (case bearer header of
             None \<Rightarrow> (TierPublic, w)
           | Some tok \<Rightarrow> (case jwtValidate jwt tok w of
               (Inl e, w1) \<Rightarrow> (TierPublic, w1)
             | (Inr c, w1) \<Rightarrow> (if clmRole c = ''admin'' then TierAdmin else TierAuth, w1))))"

definition too_many :: "string \<Rightarrow> err" where "too_many msg = AppError 429 msg None"

text \<open>\<open>skip\<close> is Gin's test mode or \<open>SKIP_RATE_LIMIT=true\<close>; \<open>allow\<close> is the store.\<close>

definition RateLimitMiddleware ::
  "bool \<Rightarrow> JWTManager option \<Rightarrow> (string \<Rightarrow> RateConfig \<Rightarrow> 'a env_scheme \<Rightarrow> bool \<times> 'a env_scheme) \<Rightarrow> RateConfig \<Rightarrow>
    rl_request \<Rightarrow> ('a env_scheme, 'r) io \<Rightarrow> ('a env_scheme, 'r) io" where
  "RateLimitMiddleware skip m allow globalCfg rq next w =
     (if skip then next w
      else (case allow ''rl:global'' globalCfg w of (g, w1) \<Rightarrow>
        if \<not> g then (Inl (too_many ''rate limit exceeded: server capacity reached''), w1)
        else (case getClientTier m (rqAuthorization rq) w1 of (tier, w2) \<Rightarrow>
          (case allow (''rl:ip:'' @ rqIP rq) tier w2 of (t, w3) \<Rightarrow>
            if \<not> t then (Inl (too_many ''rate limit exceeded: too many requests''), w3)
            else (case endpointConfig (rqPath rq) of
                None \<Rightarrow> next w3
              | Some (epName, epCfg) \<Rightarrow> (case allow (''rl:ep:'' @ epName @ '':'' @ rqIP rq) epCfg w3 of (e, w4) \<Rightarrow>
                  if \<not> e then (Inl (too_many (''rate limit exceeded: too many requests to '' @ epName)), w4)
                  else next w4))))))"

definition EndpointRateLimit ::
  "bool \<Rightarrow> (string \<Rightarrow> RateConfig \<Rightarrow> 'w \<Rightarrow> bool \<times> 'w) \<Rightarrow> RateConfig \<Rightarrow> string \<Rightarrow> rl_request \<Rightarrow> ('w, 'r) io \<Rightarrow> ('w, 'r) io" where
  "EndpointRateLimit skip allow cfg endpoint rq next w =
     (if skip then next w
      else (case allow (''rl:ep:'' @ endpoint @ '':'' @ rqIP rq) cfg w of (e, w1) \<Rightarrow>
        if \<not> e then (Inl (too_many (''rate limit exceeded: too many requests to '' @ endpoint)), w1) else next w1))"

end
