(* ===== verification/RateLimitProps.thy ===== *)
theory RateLimitProps
  imports RateLimit "HOL-Library.Sublist"
begin

text \<open>
  Properties of rate limiting. \<open>token_store\<close> is what the middleware relies on about one bucket: a potential
  (the tokens that the bucket would hold now) that every answer \<open>allowed\<close> costs one token and that grows with
  the rate. The store in memory keeps it up to rounding, janitor included, so every run of requests through the
  middleware is bounded; the fallback store's switch to memory and back is a state machine with its own invariant.
\<close>

section \<open>Rounding errors\<close>

lemma rne_error: "\<bar>of_int (rne q) - q\<bar> \<le> 1 / 2"
proof -
  have "of_int \<lfloor>q\<rfloor> \<le> q" "q < of_int \<lfloor>q\<rfloor> + 1" by linarith+
  then show ?thesis by (auto simp: rne_def Let_def abs_le_iff)
qed

text \<open>The unit of rounding, and how it adds up over the four operations of a refill.\<close>

definition ulp :: rat where "ulp = 1 / 2 ^ 53"

lemma ulp: "0 \<le> ulp" "0 \<le> ((1 + ulp) ^ 3 - 1) * (1 + ulp)" "((1 + ulp) ^ 3 - 1) * (1 + ulp) \<le> 5 * ulp"
  by (simp_all add: ulp_def power3_eq_cube)

lemma fl_pos_error: "0 < q \<Longrightarrow> fl_pos q \<le> q * (1 + ulp)"
proof -
  assume q: "0 < q"
  define s :: rat where "s = 2 powi (floor_log2 q - 52)"
  have s: "0 < s" by (simp add: s_def)
  have "s * 2 ^ 52 = 2 powi floor_log2 q" by (simp add: s_def power_int_diff)
  then have sq: "s * 2 ^ 52 \<le> q" using floor_log2_bounds [OF q] by simp
  have "of_int (rne (q / s)) \<le> q / s + 1 / 2" using rne_error [of "q / s"] by linarith
  then have "of_int (rne (q / s)) * s \<le> (q / s + 1 / 2) * s" using s by (intro mult_right_mono) auto
  also have "\<dots> = q + s / 2" using s by (simp add: field_simps)
  also have "\<dots> \<le> q * (1 + ulp)" using sq by (simp add: field_simps ulp_def)
  finally show ?thesis by (simp add: fl_pos_def s_def Let_def)
qed

lemma fl_le: "0 \<le> q \<Longrightarrow> fl q \<le> q * (1 + ulp)"
  using fl_pos_error [of q] by (auto simp: fl_def)

lemma seconds_le:
  assumes "0 \<le> d" "d < 2 ^ 63"
  shows "0 \<le> seconds d" "seconds d \<le> of_int d / 1000000000 * (1 + ulp) ^ 2"
proof -
  let ?s = "d div 1000000000" and ?n = "d mod 1000000000"
  have n: "0 \<le> ?n" "?n < 1000000000" and s: "0 \<le> ?s" "?s < 2 ^ 53" using assms by (auto simp: div_less_iff_less_mult pos_imp_zdiv_nonneg_iff)
  have ex: "f_of_int ?s = of_int ?s" "f_of_int ?n = of_int ?n" using n s by simp_all
  have q: "0 \<le> fdiv (of_int ?n) (1000000000 :: rat)" "fdiv (of_int ?n) (1000000000 :: rat) \<le> of_int ?n / 1000000000 * (1 + ulp)"
    unfolding fdiv_def using n fl_le [of "of_int ?n / 1000000000"] by (simp_all add: fl_nonneg)
  show "0 \<le> seconds d" using q(1) s by (simp add: seconds_def ex fadd_nonneg)
  have "seconds d \<le> (of_int ?s + fdiv (of_int ?n) 1000000000) * (1 + ulp)"
    unfolding seconds_def ex fadd_def using q s by (intro fl_le) simp
  also have "\<dots> \<le> (of_int ?s * (1 + ulp) + of_int ?n / 1000000000 * (1 + ulp)) * (1 + ulp)"
    using q(2) s ulp(1) by (intro mult_right_mono add_mono) (auto simp: mult_le_cancel_left1)
  also have "\<dots> = (of_int ?s + of_int ?n / 1000000000) * (1 + ulp) ^ 2" by (simp only: power2_eq_square algebra_simps)
  also have "of_int ?s + of_int ?n / 1000000000 = (of_int d / 1000000000 :: rat)"
  proof -
    have "(of_int ?s * 1000000000 + of_int ?n :: rat) = of_int (?s * 1000000000 + ?n)"
      by (simp only: of_int_add of_int_mult of_int_numeral)
    also have "\<dots> = of_int d" by simp
    finally show ?thesis by (simp add: field_simps)
  qed
  finally show "seconds d \<le> of_int d / 1000000000 * (1 + ulp) ^ 2" .
qed

text \<open>A refill adds at most what the rate gives, up to rounding; \<open>B\<close> is the burst.\<close>

lemma refill_le:
  assumes "0 \<le> tok" "0 \<le> rcRate cfg" "0 \<le> rcBurst cfg" "0 \<le> d" "d < 2 ^ 63"
  defines "x \<equiv> tok + rcRate cfg * (of_int d / 1000000000)"
  shows "0 \<le> refill cfg tok d" "refill cfg tok d \<le> rcBurst cfg"
    "refill cfg tok d \<le> min (rcBurst cfg) x + 6 * ulp * rcBurst cfg"
proof -
  note s = seconds_le [OF assms(4,5)]
  let ?g = "rcRate cfg * (of_int d / 1000000000)"
  have g0: "0 \<le> fmul (seconds d) (rcRate cfg)" using s(1) assms(2) by (rule fmul_nonneg)
  then show "0 \<le> refill cfg tok d" "refill cfg tok d \<le> rcBurst cfg"
    using assms(1,3) by (auto simp: refill_def Let_def fadd_nonneg)
  show "refill cfg tok d \<le> min (rcBurst cfg) x + 6 * ulp * rcBurst cfg"
  proof (cases "rcBurst cfg \<le> x")
    case True
    moreover have "0 \<le> 6 * ulp * rcBurst cfg" using ulp(1) assms(3) by simp
    moreover note \<open>refill cfg tok d \<le> rcBurst cfg\<close>
    ultimately show ?thesis by linarith
  next
    case False
    have gx: "0 \<le> ?g" "?g \<le> rcBurst cfg" "x \<le> rcBurst cfg" using False assms(1,2,4) by (simp_all add: x_def)
    have "fmul (seconds d) (rcRate cfg) \<le> seconds d * rcRate cfg * (1 + ulp)"
      unfolding fmul_def using s(1) assms(2) by (intro fl_le) simp
    also have "\<dots> \<le> (of_int d / 1000000000 * (1 + ulp) ^ 2) * rcRate cfg * (1 + ulp)"
      using s(2) assms(2) ulp(1) by (intro mult_right_mono) auto
    also have "\<dots> = ?g * (1 + ulp) ^ 3" by (simp only: power2_eq_square power3_eq_cube mult_ac)
    finally have g: "fmul (seconds d) (rcRate cfg) \<le> ?g * (1 + ulp) ^ 3" .
    have "fadd tok (fmul (seconds d) (rcRate cfg)) \<le> (tok + fmul (seconds d) (rcRate cfg)) * (1 + ulp)"
      unfolding fadd_def using g0 assms(1) by (intro fl_le) simp
    also have "\<dots> \<le> (tok + ?g * (1 + ulp) ^ 3) * (1 + ulp)" using g ulp(1) by (intro mult_right_mono) auto
    also have "\<dots> = x + (x * ulp + ?g * (((1 + ulp) ^ 3 - 1) * (1 + ulp)))" by (simp only: x_def algebra_simps)
    also have "\<dots> \<le> x + (rcBurst cfg * ulp + rcBurst cfg * (5 * ulp))"
    proof (intro add_left_mono add_mono)
      show "x * ulp \<le> rcBurst cfg * ulp" using gx(3) ulp(1) by (intro mult_right_mono) auto
      show "?g * (((1 + ulp) ^ 3 - 1) * (1 + ulp)) \<le> rcBurst cfg * (5 * ulp)"
        by (rule mult_mono [OF gx(2) ulp(3) assms(3) ulp(2)])
    qed
    finally have "fadd tok (fmul (seconds d) (rcRate cfg)) \<le> x + 6 * ulp * rcBurst cfg" by (simp add: algebra_simps)
    then show ?thesis using False by (auto simp: refill_def Let_def)
  qed
qed

section \<open>What the middleware relies on\<close>

text \<open>
  \<open>n\<close> answers \<open>allowed\<close> were given and \<open>m\<close> operations rounded between the two worlds: what the bucket of \<open>K\<close>
  lost, and what it can have gained at the rate of \<open>C\<close>.
\<close>

definition gain :: "RateConfig \<Rightarrow> int \<Rightarrow> rat" where "gain C d = rcRate C * (of_int d / 1000000000)"

definition slack :: "RateConfig \<Rightarrow> rat" where "slack C = rcBurst C / 2 ^ 50"

definition drains :: "RateConfig \<Rightarrow> ('a env_scheme \<Rightarrow> bool) \<Rightarrow> ('a env_scheme \<Rightarrow> rat) \<Rightarrow> nat \<Rightarrow> nat \<Rightarrow>
    'a env_scheme \<Rightarrow> 'a env_scheme \<Rightarrow> bool" where
  "drains C good pot n m w w1 \<longleftrightarrow> (good w \<longrightarrow> good w1 \<and> clock w \<le> clock w1 \<and>
     of_nat n + pot w1 \<le> pot w + gain C (clock w1 - clock w) + of_nat m * slack C)"

lemma drains_trans:
  assumes "drains C good pot n m w w1" "drains C good pot n' m' w1 w2"
  shows "drains C good pot (n + n') (m + m') w w2"
  unfolding drains_def
proof (intro impI conjI)
  assume w: "good w"
  have a: "good w1" "clock w \<le> clock w1" "of_nat n + pot w1 \<le> pot w + gain C (clock w1 - clock w) + of_nat m * slack C"
    using assms(1) w by (simp_all add: drains_def)
  have b: "good w2" "clock w1 \<le> clock w2" "of_nat n' + pot w2 \<le> pot w1 + gain C (clock w2 - clock w1) + of_nat m' * slack C"
    using assms(2) a(1) by (simp_all add: drains_def)
  show "good w2" "clock w \<le> clock w2" using a(2) b(1,2) by auto
  have "gain C (clock w2 - clock w) = gain C (clock w1 - clock w) + gain C (clock w2 - clock w1)"
    by (simp add: gain_def algebra_simps flip: add_divide_distrib)
  moreover have "of_nat (m + m') * slack C = of_nat m * slack C + of_nat m' * slack C" by (simp add: algebra_simps)
  ultimately show "of_nat (n + n') + pot w2 \<le> pot w + gain C (clock w2 - clock w) + of_nat (m + m') * slack C"
    using a(3) b(3) unfolding of_nat_add by linarith
qed

locale token_store =
  fixes allow :: "string \<Rightarrow> RateConfig \<Rightarrow> 'a env_scheme \<Rightarrow> bool \<times> 'a env_scheme" and K :: string and C :: RateConfig
    and good :: "'a env_scheme \<Rightarrow> bool" and pot :: "'a env_scheme \<Rightarrow> rat"
  assumes held: "good w \<Longrightarrow> 0 \<le> pot w \<and> pot w \<le> rcBurst C"
    and spend: "allow K C w = (b, w1) \<Longrightarrow> drains C good pot (of_bool b) 1 w w1"
    and other: "k \<noteq> K \<Longrightarrow> allow k c w = (b, w1) \<Longrightarrow> drains C good pot 0 0 w w1"
    and idle: "env.more w1 = env.more w \<Longrightarrow> clock w \<le> clock w1 \<Longrightarrow> drains C good pot 0 0 w w1"
begin

abbreviation drn :: "nat \<Rightarrow> nat \<Rightarrow> 'a env_scheme \<Rightarrow> 'a env_scheme \<Rightarrow> bool" where "drn \<equiv> drains C good pot"

lemma tier_idle: "getClientTier m h w = (t, w1) \<Longrightarrow> drn 0 0 w w1"
proof -
  assume run: "getClientTier m h w = (t, w1)"
  have v: "env.more w2 = env.more w \<and> clock w \<le> clock w2" if "jwtValidate j tok w = (x, w2)" for j tok x w2
    using that by (auto simp: jwtValidate_def split: list.splits option.splits sum.splits prod.splits if_splits elim!: time_nowE)
  have "env.more w1 = env.more w \<and> clock w \<le> clock w1"
    using run v by (auto simp: getClientTier_def split: option.splits if_splits prod.splits sum.splits)
  then show ?thesis by (intro idle) auto
qed

text \<open>One request: if it got through to the handler and the bucket is its endpoint's, the bucket paid for it.\<close>

lemma request_drains:
  assumes keys: "K \<noteq> ''rl:global''" "\<And>ip. K \<noteq> ''rl:ip:'' @ ip"
    and mine: "\<And>name c. endpointConfig (rqPath rq) = Some (name, c) \<Longrightarrow> ''rl:ep:'' @ name @ '':'' @ rqIP rq = K \<Longrightarrow> c = C"
    and run: "RateLimitMiddleware False m allow g rq (return_io ()) w = (r, w1)"
  shows "drn (of_bool (r = Inr () \<and> (\<exists>name c. endpointConfig (rqPath rq) = Some (name, c) \<and> ''rl:ep:'' @ name @ '':'' @ rqIP rq = K))) 1 w w1"
proof -
  obtain a1 v1 where s1: "allow ''rl:global'' g w = (a1, v1)" by fastforce
  obtain t v2 where s2: "getClientTier m (rqAuthorization rq) v1 = (t, v2)" by fastforce
  obtain a3 v3 where s3: "allow (''rl:ip:'' @ rqIP rq) t v2 = (a3, v3)" by fastforce
  have d1: "drn 0 0 w v1" using other [OF keys(1) [symmetric] s1] .
  have d2: "drn 0 0 w v3"
    using drains_trans [OF drains_trans [OF d1 tier_idle [OF s2]] other [OF keys(2) [symmetric] s3]] by simp
  have more: "drn 0 1 x y" if "drn 0 0 x y" for x y
    using that held [of x] unfolding drains_def slack_def by (fastforce intro: add_increasing2)
  show ?thesis
  proof (cases "a1 \<and> a3")
    case False
    with run s1 s2 s3 have "r \<noteq> Inr () \<and> (w1 = v1 \<or> w1 = v3)" by (auto simp: RateLimitMiddleware_def split: if_splits)
    with more [OF d1] more [OF d2] show ?thesis by auto
  next
    case True
    show ?thesis
    proof (cases "endpointConfig (rqPath rq)")
      case None
      with run s1 s2 s3 True have "w1 = v3" by (simp add: RateLimitMiddleware_def return_io_def)
      with more [OF d2] None show ?thesis by simp
    next
      case (Some e)
      obtain name c where e: "e = (name, c)" by (cases e)
      obtain a4 v4 where s4: "allow (''rl:ep:'' @ name @ '':'' @ rqIP rq) c v3 = (a4, v4)" by fastforce
      have r: "w1 = v4 \<and> (r = Inr () \<longleftrightarrow> a4)"
        using run s1 s2 s3 s4 True Some e by (auto simp: RateLimitMiddleware_def return_io_def split: if_splits)
      show ?thesis
      proof (cases "''rl:ep:'' @ name @ '':'' @ rqIP rq = K")
        case True
        with s4 mine Some e have "allow K C v3 = (a4, v4)" by auto
        from drains_trans [OF d2 spend [OF this]] r Some e True show ?thesis by simp
      next
        case False
        from more [OF drains_trans [OF d2 other [OF False s4], simplified]] r Some e False show ?thesis by simp
      qed
    qed
  qed
qed

end

section \<open>The store in memory keeps it\<close>

definition good_mem :: "string \<Rightarrow> 'a rl_env_scheme \<Rightarrow> bool" where
  "good_mem K w \<longleftrightarrow> (case Mapping.lookup (rlBuckets w) K of None \<Rightarrow> True
     | Some b \<Rightarrow> 0 \<le> cbTokens b \<and> cbLastSeen b = cbLastRefill b \<and> cbLastRefill b \<le> clock w)"

definition pot_mem :: "string \<Rightarrow> RateConfig \<Rightarrow> 'a rl_env_scheme \<Rightarrow> rat" where
  "pot_mem K C w = (case Mapping.lookup (rlBuckets w) K of None \<Rightarrow> rcBurst C
     | Some b \<Rightarrow> min (rcBurst C) (cbTokens b + gain C (clock w - cbLastRefill b)))"

lemma gain_add: "gain C (a + b) = gain C a + gain C b"
  by (simp add: gain_def algebra_simps add_divide_distrib)

lemma gain_mono: "0 \<le> rcRate C \<Longrightarrow> a \<le> b \<Longrightarrow> gain C a \<le> gain C b"
  unfolding gain_def by (intro mult_left_mono divide_right_mono) auto

lemma gain_0 [simp]: "gain C 0 = 0"
  by (simp add: gain_def)

lemma gain_nonneg: "0 \<le> rcRate C \<Longrightarrow> 0 \<le> d \<Longrightarrow> 0 \<le> gain C d"
  using gain_mono [of C 0 d] by simp

text \<open>Time alone, whatever happens to other buckets.\<close>

lemma pot_later:
  assumes "0 \<le> rcRate C" "Mapping.lookup (rlBuckets w1) K = Mapping.lookup (rlBuckets w) K" "clock w \<le> clock w1" "good_mem K w"
  shows "good_mem K w1 \<and> pot_mem K C w1 \<le> pot_mem K C w + gain C (clock w1 - clock w)"
proof (cases "Mapping.lookup (rlBuckets w) K")
  case None
  then show ?thesis using assms gain_nonneg [of C "clock w1 - clock w"] by (simp add: good_mem_def pot_mem_def)
next
  case (Some b)
  have "gain C (clock w1 - cbLastRefill b) = gain C (clock w - cbLastRefill b) + gain C (clock w1 - clock w)"
    using gain_add [of C "clock w - cbLastRefill b" "clock w1 - clock w"] by simp
  then show ?thesis using assms Some gain_nonneg [of C "clock w1 - clock w"] by (auto simp: good_mem_def pot_mem_def)
qed

text \<open>One token is taken off the refilled bucket.\<close>

lemma take_token:
  assumes "0 \<le> t" "t \<le> rcBurst C"
  defines "tok \<equiv> (if 1 \<le> t then fsub t 1 else t)"
  shows "0 \<le> tok" "of_bool (1 \<le> t) + tok \<le> t + ulp * rcBurst C"
proof -
  have "fsub t 1 \<le> (t - 1) * (1 + ulp)" if "1 \<le> t" unfolding fsub_def using that by (intro fl_le) simp
  moreover have "(t - 1) * (1 + ulp) \<le> t - 1 + ulp * rcBurst C"
  proof -
    have "(t - 1) * ulp \<le> rcBurst C * ulp" using assms(2) ulp(1) by (intro mult_right_mono) auto
    then show ?thesis by (simp add: algebra_simps)
  qed
  moreover have "0 \<le> ulp * rcBurst C" using ulp(1) assms by simp
  ultimately show "of_bool (1 \<le> t) + tok \<le> t + ulp * rcBurst C" by (auto simp: tok_def)
  show "0 \<le> tok" using assms(1) by (auto simp: tok_def fsub_def intro: fl_nonneg)
qed

lemma mem_Allow_spends:
  assumes C: "0 \<le> rcRate C" "0 \<le> rcBurst C" and run: "mem_Allow K C w = (b, w1)" and w: "good_mem K w"
  shows "good_mem K w1 \<and> clock w \<le> clock w1 \<and> of_bool b + pot_mem K C w1 \<le> pot_mem K C w + gain C (clock w1 - clock w) + slack C"
proof -
  obtain now v where t: "time_now w = (now, v)" by fastforce
  then have v: "clock w \<le> now" "clock v = now" "rlBuckets v = rlBuckets w" by (auto elim!: time_nowE)
  define bk where "bk = bucket_of (rlBuckets w) K C now"
  define x where "x = refill C (cbTokens bk) (elapsed_since now (cbLastRefill bk))"
  have bk: "0 \<le> cbTokens bk" "cbLastRefill bk \<le> now" using w v(1) C(2) by (auto simp: bk_def bucket_of_def good_mem_def split: option.splits)
  have d: "0 \<le> elapsed_since now (cbLastRefill bk)" "elapsed_since now (cbLastRefill bk) < 2 ^ 63"
    "elapsed_since now (cbLastRefill bk) \<le> now - cbLastRefill bk" using bk(2) by (simp_all add: elapsed_since_def)
  have r: "0 \<le> x" "x \<le> rcBurst C"
    "x \<le> min (rcBurst C) (cbTokens bk + gain C (elapsed_since now (cbLastRefill bk))) + 6 * ulp * rcBurst C"
    unfolding x_def gain_def using refill_le [OF bk(1) C d(1,2)] by auto
  let ?tok = "if 1 \<le> x then fsub x 1 else x"
  note tk = take_token [OF r(1,2)]
  have w1: "b = (1 \<le> x)" "Mapping.lookup (rlBuckets w1) K = Some \<lparr>cbTokens = ?tok, cbLastRefill = now, cbLastSeen = now\<rparr>" "clock w1 = now"
    using run t v by (auto simp: mem_Allow_def use_bucket_def spend_token_def x_def bk_def)
  have "min (rcBurst C) (cbTokens bk + gain C (elapsed_since now (cbLastRefill bk))) \<le> pot_mem K C w + gain C (now - clock w)"
  proof (cases "Mapping.lookup (rlBuckets w) K")
    case None
    then show ?thesis using gain_nonneg [OF C(1), of "now - clock w"] v(1) by (simp add: pot_mem_def)
  next
    case (Some y)
    have "gain C (elapsed_since now (cbLastRefill y)) \<le> gain C (clock w - cbLastRefill y) + gain C (now - clock w)"
      using gain_mono [OF C(1) d(3)] gain_add [of C "clock w - cbLastRefill y" "now - clock w"] Some by (simp add: bk_def bucket_of_def)
    then show ?thesis using Some gain_nonneg [OF C(1), of "now - clock w"] v(1) by (simp add: pot_mem_def bk_def bucket_of_def min_def)
  qed
  moreover have "pot_mem K C w1 \<le> ?tok" using w1(2,3) by (simp add: pot_mem_def)
  moreover have "slack C = 8 * ulp * rcBurst C" by (simp add: slack_def ulp_def)
  moreover have "0 \<le> ulp * rcBurst C" using ulp(1) C(2) by simp
  ultimately have "of_bool b + pot_mem K C w1 \<le> pot_mem K C w + gain C (now - clock w) + slack C"
    using r(3) tk(2) w1(1) by simp
  with w1 v(1) tk(1) show ?thesis by (simp add: good_mem_def)
qed

lemma mem_token_store:
  assumes C: "0 \<le> rcRate C" "0 \<le> rcBurst C"
  shows "token_store mem_Allow K C (good_mem K) (pot_mem K C)"
proof unfold_locales
  fix w w1 :: "'a rl_env_scheme" and k c b
  show "0 \<le> pot_mem K C w \<and> pot_mem K C w \<le> rcBurst C" if "good_mem K w"
    using that C(2) gain_nonneg [OF C(1)] by (auto simp: good_mem_def pot_mem_def split: option.splits)
  show "drains C (good_mem K) (pot_mem K C) (of_bool b) 1 w w1" if "mem_Allow K C w = (b, w1)"
    using mem_Allow_spends [OF C that] by (simp add: drains_def)
  show "drains C (good_mem K) (pot_mem K C) 0 0 w w1" if "k \<noteq> K" "mem_Allow k c w = (b, w1)"
  proof -
    have "Mapping.lookup (rlBuckets w1) K = Mapping.lookup (rlBuckets w) K" "clock w \<le> clock w1"
      using that by (auto simp: mem_Allow_def use_bucket_def spend_token_def lookup_update_neq split: prod.splits elim!: time_nowE)
    from pot_later [OF C(1) this] this(2) show ?thesis by (simp add: drains_def)
  qed
  show "drains C (good_mem K) (pot_mem K C) 0 0 w w1" if "env.more w1 = env.more w" "clock w \<le> clock w1"
  proof -
    have "Mapping.lookup (rlBuckets w1) K = Mapping.lookup (rlBuckets w) K" using that(1) by (cases w; cases w1) simp
    from pot_later [OF C(1) this that(2)] that(2) show ?thesis by (simp add: drains_def)
  qed
qed

text \<open>The janitor only drops buckets that are full again.\<close>

lemma janitor_drains:
  assumes C: "0 \<le> rcRate C" "rcBurst C \<le> 300 * rcRate C"
  shows "drains C (good_mem K) (pot_mem K C) 0 0 w (janitor_tick w)"
  unfolding drains_def
proof (intro impI)
  assume w: "good_mem K w"
  obtain now v where t: "time_now w = (now, v)" by fastforce
  then have v: "clock w \<le> now" "clock v = now" "rlBuckets v = rlBuckets w" by (auto elim!: time_nowE)
  let ?j = "janitor_tick w"
  have j: "clock ?j = now" "Mapping.lookup (rlBuckets ?j) K = (case Mapping.lookup (rlBuckets w) K of None \<Rightarrow> None
      | Some b \<Rightarrow> if \<not> cbLastSeen b < now - 300000000000 then Some b else None)"
    using t v by (simp_all add: janitor_tick_def lookup_filter)
  show "good_mem K ?j \<and> clock w \<le> clock ?j \<and>
      of_nat 0 + pot_mem K C ?j \<le> pot_mem K C w + gain C (clock ?j - clock w) + of_nat 0 * slack C"
  proof (cases "Mapping.lookup (rlBuckets ?j) K = Mapping.lookup (rlBuckets w) K")
    case True
    from pot_later [OF C(1) this _ w] j(1) v(1) show ?thesis by simp
  next
    case False
    then obtain b where b: "Mapping.lookup (rlBuckets w) K = Some b" "cbLastSeen b < now - 300000000000" "Mapping.lookup (rlBuckets ?j) K = None"
      using j(2) by (auto split: option.splits if_splits)
    then have ref: "cbLastRefill b < now - 300000000000" "0 \<le> cbTokens b" using w by (auto simp: good_mem_def)
    have "gain C 300000000000 = 300 * rcRate C" by (simp add: gain_def)
    then have "rcBurst C \<le> gain C (now - cbLastRefill b)"
      using C(2) gain_mono [OF C(1), of 300000000000 "now - cbLastRefill b"] ref(1) by simp
    also have "\<dots> = gain C (clock w - cbLastRefill b) + gain C (now - clock w)"
      using gain_add [of C "clock w - cbLastRefill b" "now - clock w"] by simp
    finally have "rcBurst C \<le> pot_mem K C w + gain C (now - clock w)"
      using b(1) ref(2) gain_nonneg [OF C(1), of "now - clock w"] v(1) by (simp add: pot_mem_def min_def)
    with b j(1) v(1) show ?thesis by (simp add: good_mem_def pot_mem_def)
  qed
qed

section \<open>Runs of requests\<close>

datatype rl_op =
    RequestOp rl_request
  | JanitorTick

text \<open>What the requests of a run met: whether they got through to their handler.\<close>

fun rl_run :: "JWTManager option \<Rightarrow> RateConfig \<Rightarrow> rl_op list \<Rightarrow> 'a rl_env_scheme \<Rightarrow>
    (rl_request \<times> bool) list \<times> 'a rl_env_scheme" where
  "rl_run m g [] w = ([], w)"
| "rl_run m g (RequestOp rq # ops) w =
     (case RateLimitMiddleware False m mem_Allow g rq (return_io ()) w of (r, w1) \<Rightarrow>
       (case rl_run m g ops w1 of (l, w2) \<Rightarrow> ((rq, \<not> isl r) # l, w2)))"
| "rl_run m g (JanitorTick # ops) w = rl_run m g ops (janitor_tick w)"

definition served :: "string \<Rightarrow> string \<Rightarrow> (rl_request \<times> bool) list \<Rightarrow> nat" where
  "served name ip l = length (filter (\<lambda>(rq, ok). ok \<and> rqIP rq = ip \<and> map_option fst (endpointConfig (rqPath rq)) = Some name) l)"

text \<open>The endpoints' buckets.\<close>

definition endpoint_cfg :: "string \<Rightarrow> RateConfig" where
  "endpoint_cfg name = (if name = ''auth'' then EndpointAuth else if name = ''checkout'' then EndpointCheckout else EndpointPayments)"

abbreviation endpoint_key :: "string \<Rightarrow> string \<Rightarrow> string" where
  "endpoint_key name ip \<equiv> ''rl:ep:'' @ name @ '':'' @ ip"

lemma endpoint_cfg_pos: "0 \<le> rcRate (endpoint_cfg name)" "0 \<le> rcBurst (endpoint_cfg name)"
  "rcBurst (endpoint_cfg name) \<le> 300 * rcRate (endpoint_cfg name)"
proof -
  have "\<forall>c\<in>{EndpointAuth, EndpointCheckout, EndpointPayments}. 0 \<le> rcRate c \<and> 0 \<le> rcBurst c \<and> rcBurst c \<le> 300 * rcRate c" by code_simp
  then show "0 \<le> rcRate (endpoint_cfg name)" "0 \<le> rcBurst (endpoint_cfg name)"
    "rcBurst (endpoint_cfg name) \<le> 300 * rcRate (endpoint_cfg name)" by (simp_all add: endpoint_cfg_def)
qed

interpretation mem_bucket: token_store "mem_Allow :: string \<Rightarrow> RateConfig \<Rightarrow> 'a rl_env_scheme \<Rightarrow> _" "endpoint_key name ip"
    "endpoint_cfg name" "good_mem (endpoint_key name ip)" "pot_mem (endpoint_key name ip) (endpoint_cfg name)"
  by (rule mem_token_store [OF endpoint_cfg_pos(1,2)])

lemma endpointConfig_name: "endpointConfig path = Some (name, c) \<Longrightarrow> name \<in> {''auth'', ''checkout'', ''payments''} \<and> c = endpoint_cfg name"
  by (auto simp: endpointConfig_def endpoint_cfg_def split: if_splits)

lemma same_endpoint:
  "name \<in> {''auth'', ''checkout'', ''payments''} \<Longrightarrow> n \<in> {''auth'', ''checkout'', ''payments''} \<Longrightarrow>
    endpoint_key n i = endpoint_key name ip \<longleftrightarrow> n = name \<and> i = ip"
  by auto

lemma request_pays:
  assumes "name \<in> {''auth'', ''checkout'', ''payments''}"
    and "RateLimitMiddleware False m mem_Allow g rq (return_io ()) w = (r, w1)"
  shows "mem_bucket.drn name ip (served name ip [(rq, \<not> isl r)]) 1 w w1"
proof -
  have keys: "endpoint_key name ip \<noteq> ''rl:global''" "endpoint_key name ip \<noteq> ''rl:ip:'' @ i" for i by simp_all
  have mine: "c = endpoint_cfg name" if "endpointConfig (rqPath rq) = Some (n, c)" "endpoint_key n (rqIP rq) = endpoint_key name ip" for n c
    using endpointConfig_name [OF that(1)] same_endpoint [OF assms(1)] that(2) by blast
  have "served name ip [(rq, \<not> isl r)] = of_bool (r = Inr () \<and> (\<exists>n c. endpointConfig (rqPath rq) = Some (n, c) \<and>
      endpoint_key n (rqIP rq) = endpoint_key name ip))"
  proof (cases "endpointConfig (rqPath rq)")
    case (Some e)
    then obtain n c where e: "endpointConfig (rqPath rq) = Some (n, c)" by (cases e) auto
    with same_endpoint [OF assms(1), of n "rqIP rq" ip] endpointConfig_name [OF e] show ?thesis
      by (cases r) (auto simp: served_def)
  qed (simp add: served_def)
  with mem_bucket.request_drains [OF keys mine assms(2)] show ?thesis by simp
qed

lemma run_pays:
  assumes "name \<in> {''auth'', ''checkout'', ''payments''}" "rl_run m g ops w = (l, w1)"
  shows "mem_bucket.drn name ip (served name ip l) (length l) w w1"
  using assms(2)
proof (induction m g ops w arbitrary: l w1 rule: rl_run.induct)
  case (1 m g w)
  then show ?case by (simp add: drains_def served_def)
next
  case (2 m g rq ops w)
  obtain r v where r: "RateLimitMiddleware False m mem_Allow g rq (return_io ()) w = (r, v)" by fastforce
  obtain l' v' where l: "rl_run m g ops v = (l', v')" by fastforce
  have "l = (rq, \<not> isl r) # l'" "w1 = v'" using 2(2) r l by simp_all
  moreover have "served name ip ((rq, \<not> isl r) # l') = served name ip [(rq, \<not> isl r)] + served name ip l'" by (simp add: served_def)
  ultimately show ?case using drains_trans [OF request_pays [OF assms(1) r] 2(1) [OF r [symmetric] l]] by simp
next
  case (3 m g ops w)
  then have "mem_bucket.drn name ip (served name ip l) (length l) (janitor_tick w) w1" by simp
  from drains_trans [OF janitor_drains [OF endpoint_cfg_pos(1,3)] this] show ?case by simp
qed

text \<open>C34. Sensitive endpoints are rate limited per client: over any stretch of requests from anybody to anything, with
janitor ticks anywhere, the requests of one client to one of \<open>/api/auth\<close>, \<open>/api/checkout\<close>, \<open>/api/payments\<close> that get
through are at most the burst, plus the rate times the seconds that passed, plus the rounding of the floats (the burst
times \<open>2^-50\<close> for every request).\<close>
theorem endpoint_rate_bounded:
  assumes "endpointConfig path = Some (name, C)" and "good_mem (endpoint_key name ip) w"
    and "rl_run m g ops w = (l, w1)"
  shows "of_nat (served name ip l) \<le> rcBurst C + rcRate C * (of_int (clock w1 - clock w) / 1000000000)
    + of_nat (length l) * (rcBurst C / 2 ^ 50)"
proof -
  have C: "name \<in> {''auth'', ''checkout'', ''payments''}" "C = endpoint_cfg name" using endpointConfig_name [OF assms(1)] by auto
  from run_pays [OF C(1) assms(3), of ip] assms(2) have g: "good_mem (endpoint_key name ip) w1"
    "of_nat (served name ip l) + pot_mem (endpoint_key name ip) C w1 \<le>
      pot_mem (endpoint_key name ip) C w + gain C (clock w1 - clock w) + of_nat (length l) * slack C"
    by (simp_all add: drains_def C(2))
  with mem_bucket.held [OF assms(2)] mem_bucket.held [OF g(1)] show ?thesis by (simp add: C(2) gain_def slack_def)
qed

section \<open>The switch to memory and back\<close>

datatype fb_op =
    AllowOp string RateConfig
  | ProbeOp

definition fb_step :: "('a rl_env_scheme) rl_script \<Rightarrow> ('a rl_env_scheme, unit) io \<Rightarrow> fb_op \<Rightarrow> 'a rl_env_scheme \<Rightarrow>
    bool list \<times> 'a rl_env_scheme" where
  "fb_step script ping op w = (case op of
       AllowOp key cfg \<Rightarrow> ([], snd (fallback_Allow script key cfg w))
     | ProbeOp \<Rightarrow> ([\<not> isl (fst (ping w))], probe_tick ping w))"

text \<open>A run, with the answers of its probes.\<close>

fun fb_run :: "('a rl_env_scheme) rl_script \<Rightarrow> ('a rl_env_scheme, unit) io \<Rightarrow> fb_op list \<Rightarrow> 'a rl_env_scheme \<Rightarrow>
    bool list \<times> 'a rl_env_scheme" where
  "fb_run script ping [] w = ([], w)"
| "fb_run script ping (op # ops) w = (case fb_step script ping op w of (p, w1) \<Rightarrow>
     (case fb_run script ping ops w1 of (ps, w2) \<Rightarrow> (p @ ps, w2)))"

lemma fb_run_snoc:
  "fb_run script ping (ops @ [op]) w = (case fb_run script ping ops w of (ps, w1) \<Rightarrow>
     (case fb_step script ping op w1 of (p, w2) \<Rightarrow> (ps @ p, w2)))"
  by (induction ops arbitrary: w) (auto split: prod.splits)

definition streak :: "bool list \<Rightarrow> nat" where "streak ps = length (takeWhile id (rev ps))"

lemma streak_snoc [simp]: "streak [] = 0" "streak (ps @ [b]) = (if b then Suc (streak ps) else 0)"
  by (simp_all add: streak_def)

lemma three_snoc: "sublist [True, True, True] (ps @ [b]) \<longleftrightarrow> sublist [True, True, True] ps \<or> b \<and> 2 \<le> streak ps"
proof -
  have "suffix [True, True, True] (ps @ [b]) \<longleftrightarrow> b \<and> 2 \<le> streak ps"
    by (cases "rev ps"; cases "tl (rev ps)") (auto simp: suffix_to_prefix streak_def)
  then show ?thesis by (simp only: sublist_snoc) blast
qed

lemma streak_small: "\<not> sublist [True, True, True] ps \<Longrightarrow> streak ps \<le> 2"
proof (induction ps rule: rev_induct)
  case (snoc b ps)
  then show ?case by (cases b) (auto simp: three_snoc)
qed simp

text \<open>The calls to Redis do not touch what the store remembers of it.\<close>

definition fb_same :: "'a rl_env_scheme \<Rightarrow> 'a rl_env_scheme \<Rightarrow> bool" where
  "fb_same w w1 \<longleftrightarrow> rlHealthy w1 = rlHealthy w \<and> rlConsecOK w1 = rlConsecOK w"

lemma fb_mem: "fb_same w (snd (mem_Allow key cfg w))"
  by (auto simp: fb_same_def mem_Allow_def use_bucket_def spend_token_def split: prod.splits elim!: time_nowE)

lemma fb_allowE: "(\<And>k r b n t. keeps fb_same (script k r b n t)) \<Longrightarrow> allowE script key cfg w = (x, w1) \<Longrightarrow> fb_same w w1"
  by (auto simp: allowE_def bind_io_def return_io_def fb_same_def keeps_def split: prod.splits sum.splits elim!: time_nowE)

lemma fb_mark: "rlHealthy w \<Longrightarrow> \<not> rlHealthy (markUnhealthy w) \<and> rlConsecOK (markUnhealthy w) = 0"
  by (auto simp: markUnhealthy_def clear_probes_def start_fallback_def split: prod.splits elim!: time_nowE)

lemma time_consec [simp]: "rlConsecOK (snd (time_now w)) = rlConsecOK w"
  by (simp add: time_now_def split: list.split)

lemma wrap32_small: "0 \<le> n \<Longrightarrow> n < 2 ^ 31 \<Longrightarrow> wrap32 n = n"
  by (simp add: wrap32_def)

text \<open>While the fallback lasts: a probe counts, a request changes nothing of it and does not ask Redis.\<close>

lemma fb_probe:
  assumes "keeps fb_same ping" "\<not> rlHealthy w" "rlConsecOK w = int n" "n \<le> 2"
  shows "let ok = \<not> isl (fst (ping w)); w1 = probe_tick ping w in
    (rlHealthy w1 \<longleftrightarrow> ok \<and> n = 2) \<and> rlConsecOK w1 = (if ok then int (Suc n) else 0)"
proof -
  obtain x v where x: "ping w = (x, v)" by fastforce
  then have "fb_same w v" using assms(1) by (rule keepsD [rotated])
  with assms x wrap32_small [of "int n + 1"] show ?thesis
    by (cases x) (auto simp: probe_tick_def Let_def fb_same_def split: prod.splits elim!: time_nowE)
qed

lemma fb_down:
  assumes ping: "keeps fb_same ping" and w: "\<not> rlHealthy w" "rlConsecOK w = 0"
  shows "fb_run script ping ops w = (ps, w1) \<Longrightarrow> \<not> sublist [True, True, True] ps \<Longrightarrow>
    \<not> rlHealthy w1 \<and> rlConsecOK w1 = int (streak ps) \<and> fb_run script' ping ops w = (ps, w1)"
proof (induction ops arbitrary: ps w1 rule: rev_induct)
  case Nil
  with w show ?case by simp
next
  case (snoc op ops)
  obtain qs v where q: "fb_run script ping ops w = (qs, v)" by fastforce
  obtain p u where p: "fb_step script ping op v = (p, u)" by fastforce
  have ps: "ps = qs @ p" "w1 = u" using snoc.prems(1) q p by (simp_all add: fb_run_snoc)
  have no: "\<not> sublist [True, True, True] qs" using snoc.prems(2) ps(1) by (auto simp: sublist_append)
  note ih = snoc.IH [OF q no]
  have same: "fb_step script' ping op v = fb_step script ping op v"
    using ih by (cases op) (simp_all add: fb_step_def fallback_Allow_def)
  show ?case
  proof (cases op)
    case (AllowOp key cfg)
    then have "p = []" "u = snd (mem_Allow key cfg v)" using p ih by (auto simp: fb_step_def fallback_Allow_def)
    with ih ps q p same fb_mem [of v key cfg] show ?thesis by (simp add: fb_run_snoc fb_same_def)
  next
    case ProbeOp
    then have pu: "p = [\<not> isl (fst (ping v))]" "u = probe_tick ping v" using p by (auto simp: fb_step_def)
    have "\<not> (\<not> isl (fst (ping v)) \<and> 2 \<le> streak qs)" using snoc.prems(2) ps(1) pu(1) by (auto simp: three_snoc)
    with fb_probe [OF ping _ _ streak_small [OF no], of v] ih ps pu q p same show ?thesis
      by (auto simp: fb_run_snoc Let_def)
  qed
qed

lemma fb_up:
  assumes ping: "keeps fb_same ping" and w: "\<not> rlHealthy w" "rlConsecOK w = 0"
  shows "sublist [True, True, True] (fst (fb_run script ping ops w)) \<Longrightarrow>
    \<exists>pre post. ops = pre @ post \<and> rlHealthy (snd (fb_run script ping pre w))"
proof (induction ops rule: rev_induct)
  case Nil
  then show ?case by simp
next
  case (snoc op ops)
  obtain qs v where q: "fb_run script ping ops w = (qs, v)" by fastforce
  show ?case
  proof (cases "sublist [True, True, True] qs")
    case True
    with snoc.IH q obtain pre post where "ops = pre @ post" "rlHealthy (snd (fb_run script ping pre w))" by auto
    then show ?thesis by (intro exI [of _ pre] exI [of _ "post @ [op]"]) simp
  next
    case False
    note d = fb_down [OF ping w q False]
    have "op = ProbeOp \<and> \<not> isl (fst (ping v)) \<and> 2 \<le> streak qs"
      using snoc.prems q False by (cases op) (auto simp: fb_run_snoc fb_step_def three_snoc split: prod.splits)
    with fb_probe [OF ping _ _ streak_small [OF False], of v] d streak_small [OF False] q
    have "rlHealthy (snd (fb_run script ping (ops @ [op]) w))" by (auto simp: fb_run_snoc fb_step_def Let_def)
    then show ?thesis by (intro exI [of _ "ops @ [op]"] exI [of _ "[]"]) simp
  qed
qed

text \<open>C35. Redis is left at its first error and taken back only after three good probes in a row: the request that meets
the error is decided in memory; in whatever follows, without three consecutive good probes the store stays in
memory and the outcome does not depend on what Redis would answer to requests, and with them it has gone back to
Redis at some point. (Each request and each probe runs as a whole here.)\<close>
theorem fallback_hysteresis:
  fixes w :: "'a rl_env_scheme"
  assumes redis: "\<And>k r b n t. keeps fb_same (script k r b n t)" "keeps fb_same ping"
    and "rlHealthy w" and "allowE script key cfg w = (Inl e, w0)" and "fallback_Allow script key cfg w = (b, w1)"
    and "fb_run script ping ops w1 = (ps, w2)"
  shows "(b, w1) = mem_Allow key cfg (markUnhealthy w0) \<and>
    (if sublist [True, True, True] ps then \<exists>pre post. ops = pre @ post \<and> rlHealthy (snd (fb_run script ping pre w1))
      else \<not> rlHealthy w2 \<and> (\<forall>script'. fb_run script' ping ops w1 = (ps, w2)))"
proof -
  have m: "(b, w1) = mem_Allow key cfg (markUnhealthy w0)" using assms(3-5) by (simp add: fallback_Allow_def)
  have "rlHealthy w0" using fb_allowE [OF redis(1) assms(4)] assms(3) by (simp add: fb_same_def)
  from fb_mark [OF this] fb_mem [of "markUnhealthy w0" key cfg] have w1: "\<not> rlHealthy w1" "rlConsecOK w1 = 0"
    unfolding m [symmetric] by (simp_all add: fb_same_def)
  have "if sublist [True, True, True] ps then \<exists>pre post. ops = pre @ post \<and> rlHealthy (snd (fb_run script ping pre w1))
      else \<not> rlHealthy w2 \<and> (\<forall>script'. fb_run script' ping ops w1 = (ps, w2))"
    using fb_down [OF redis(2) w1 assms(6)] fb_up [OF redis(2) w1, of script ops] assms(6) by auto
  with m show ?thesis by blast
qed

text \<open>A probe that runs between the two halves of \<open>markUnhealthy\<close> still sees the good probes from before the failure
and takes Redis back at once.\<close>

lemma probe_undoes_fallback:
  fixes w :: "'a rl_env_scheme"
  assumes "keeps fb_same ping" "\<not> isl (fst (ping (start_fallback w)))" "2 \<le> rlConsecOK w" "rlConsecOK w < 2 ^ 31 - 1"
  shows "rlHealthy (clear_probes (probe_tick ping (start_fallback w)))"
proof -
  have s: "\<not> rlHealthy (start_fallback w)" "rlConsecOK (start_fallback w) = rlConsecOK w"
    by (auto simp: start_fallback_def split: prod.splits elim!: time_nowE)
  obtain x v where x: "ping (start_fallback w) = (x, v)" by fastforce
  have "fb_same (start_fallback w) v" using assms(1) x by (rule keepsD)
  with s assms(2-4) x wrap32_small [of "rlConsecOK w + 1"] show ?thesis
    by (cases x) (auto simp: probe_tick_def Let_def fb_same_def clear_probes_def split: prod.splits elim!: time_nowE)
qed

section \<open>Witnesses\<close>

definition sample_limits :: "nat list \<Rightarrow> unit rl_env_scheme" where
  "sample_limits ds = \<lparr>clock = 0, delays = ds, uuids = [], faults = [], ctx_trace = None, ctx_corr = None, in_tx = False,
     tx_aborted = False, bus_log = [], rlBuckets = Mapping.empty, rlHealthy = True, rlConsecOK = 0, rlDownSince = 0\<rparr>"

definition login_request :: rl_request where
  "login_request = \<lparr>rqIP = ''1.2.3.4'', rqPath = ''/api/auth/login'', rqAuthorization = []\<rparr>"

theorem endpoint_rate_bounded_witness:
  "let l = fst (rl_run None TierAdmin (replicate 5 (RequestOp login_request)) (sample_limits []))
   in served ''auth'' ''1.2.3.4'' l \<le> 3 \<and> map snd l = [True, True, True, False, False]"
proof -
  let ?ops = "replicate 5 (RequestOp login_request)"
  obtain l w1 where run: "rl_run None TierAdmin ?ops (sample_limits []) = (l, w1)" by fastforce
  have k: "map snd (fst (rl_run None TierAdmin ?ops (sample_limits []))) = [True, True, True, False, False]"
    "clock (snd (rl_run None TierAdmin ?ops (sample_limits []))) = 0" by code_simp+
  then have l: "map snd l = [True, True, True, False, False]" "clock w1 = 0" by (simp_all only: run fst_conv snd_conv)
  from arg_cong [OF l(1), of length] have len: "length l = 5" by simp
  have "endpointConfig ''/api/auth/login'' = Some (''auth'', EndpointAuth)" by code_simp
  moreover have "good_mem (endpoint_key ''auth'' ''1.2.3.4'') (sample_limits [])" by (simp add: good_mem_def sample_limits_def lookup_empty)
  moreover have "clock (sample_limits []) = 0" by (simp add: sample_limits_def)
  ultimately have "(of_nat (served ''auth'' ''1.2.3.4'' l) :: rat) \<le> 3 + of_nat 5 * (3 / 2 ^ 50)"
    using endpoint_rate_bounded [OF _ _ run, of "''/api/auth/login''" "''auth''" EndpointAuth "''1.2.3.4''"] l(2) len by (simp add: EndpointAuth_def)
  also have "\<dots> < (of_nat 4 :: rat)" by simp
  finally have "served ''auth'' ''1.2.3.4'' l < 4" by (simp only: of_nat_less_iff)
  with l run show ?thesis by (simp add: Let_def)
qed

theorem fallback_hysteresis_witness:
  "let down = (\<lambda>k r b n t. fail_io (ErrText ''redis'')); ping = return_io (); key = ''rl:global'';
     w1 = snd (fallback_Allow down key TierAuth (sample_limits []))
   in \<not> rlHealthy (snd (fb_run down ping [ProbeOp, AllowOp key TierAuth, ProbeOp] w1)) \<and>
      rlHealthy (snd (fb_run down ping [ProbeOp, AllowOp key TierAuth, ProbeOp, ProbeOp] w1))"
proof -
  let ?down = "(\<lambda>k r b n t. fail_io (ErrText ''redis'')) :: (unit rl_env_scheme) rl_script"
  let ?ping = "return_io () :: (unit rl_env_scheme, unit) io"
  have same: "keeps fb_same (?down k r b n t)" "keeps fb_same ?ping" for k r b n t
    by (simp_all add: keeps_def fail_io_def return_io_def fb_same_def)
  obtain e w0 where e: "allowE ?down ''rl:global'' TierAuth (sample_limits []) = (Inl e, w0)"
    by (auto simp: allowE_def bind_io_def fail_io_def Let_def time_now_def sample_limits_def)
  obtain b w1 where b: "fallback_Allow ?down ''rl:global'' TierAuth (sample_limits []) = (b, w1)" by fastforce
  have h: "rlHealthy (sample_limits [])" by (simp add: sample_limits_def)
  let ?ops = "[ProbeOp, AllowOp ''rl:global'' TierAuth, ProbeOp]"
  obtain ps w2 where r: "fb_run ?down ?ping ?ops w1 = (ps, w2)" by fastforce
  have "fst (fb_run ?down ?ping ?ops w1) = [True, True]" by (simp add: fb_step_def return_io_def split: prod.splits)
  with r have "ps = [True, True]" by simp
  then have "\<not> rlHealthy w2" using fallback_hysteresis [OF same h e b r] by (simp add: sublist_Cons_right)
  moreover have "rlHealthy (snd (fb_run ?down ?ping (?ops @ [ProbeOp]) (snd (fallback_Allow ?down ''rl:global'' TierAuth (sample_limits [])))))"
    by code_simp
  ultimately show ?thesis using b r by (simp add: Let_def)
qed

end
