(* ===== verification/Reviews.thy ===== *)
theory Reviews
  imports CatalogPg
begin

text \<open>
  Product reviews (\<open>internal/core/catalog/features/reviews\<close>): the service, the handlers that change
  reviews and the repository on PostgreSQL (\<open>internal/infra/db/postgres/catalog/reviews\<close>). Rows come in
  the order of insertion. The repository in memory, which hands out pointers to what it stores, is not modelled.
\<close>

section \<open>Data\<close>

record ReviewReply =
  rrUserID :: string
  rrComment :: string
  rrCreatedAt :: int

record Review =
  rvID :: string
  rvProductID :: string
  rvUserID :: string
  rvRating :: int
  rvComment :: string
  rvReply :: "ReviewReply option"
  rvCreatedAt :: int

definition ErrInvalidRating :: err where
  [go_defs]: "ErrInvalidRating = Sentinel ''reviews'' ''rating must be between 1 and 5''"
definition ErrEmptyComment :: err where [go_defs]: "ErrEmptyComment = Sentinel ''reviews'' ''comment cannot be empty''"
definition ErrReviewNotFound :: err where [go_defs]: "ErrReviewNotFound = Sentinel ''reviews'' ''review not found''"

definition ValidateReview :: "Review \<Rightarrow> err option" where
  "ValidateReview r = (if rvRating r < 1 \<or> 5 < rvRating r then Some ErrInvalidRating
     else if rvComment r = [] then Some ErrEmptyComment else None)"

record 'w ReviewRepository =
  rwCreateReview :: "Review \<Rightarrow> ('w, unit) io"
  rwGetReviewsByProductID :: "string \<Rightarrow> ('w, Review list) io"
  rwGetReviewByID :: "string \<Rightarrow> ('w, Review) io"
  rwUpdateReview :: "Review \<Rightarrow> ('w, unit) io"
  rwDeleteReview :: "string \<Rightarrow> ('w, unit) io"

record 'w reviewService =
  rsRepo :: "'w ReviewRepository"
  rsGetProduct :: "string \<Rightarrow> ('w, Product) io"

section \<open>Service\<close>

definition review_product_missing :: "string \<Rightarrow> err \<Rightarrow> err" where
  "review_product_missing pid e = NewNotFound (''product with ID '' @ pid @ '' not found'') (Some e)"

definition AddReview :: "('a env_scheme) reviewService \<Rightarrow> Review \<Rightarrow> ('a env_scheme, Review) io" where
  "AddReview s r0 = bind_io
     (if rvID r0 = [] then on_error (\<lambda>e. NewInternal ''failed to generate review ID'' (Some e)) (Generate ''rev_'')
      else return_io (rvID r0))
     (\<lambda>i w. case (if rvCreatedAt r0 = zero_time then time_now w else (rvCreatedAt r0, w)) of (t, w1) \<Rightarrow>
       let r = r0\<lparr>rvID := i, rvCreatedAt := t\<rparr> in
       (case ValidateReview r of
          Some e \<Rightarrow> (Inl (NewBadRequest (err_string e) (Some e)), w1)
        | None \<Rightarrow> bind_io (on_error (review_product_missing (rvProductID r)) (rsGetProduct s (rvProductID r)))
            (\<lambda>_ w2. case rwGetReviewsByProductID (rsRepo s) (rvProductID r) w2 of (existing, w3) \<Rightarrow>
               if (case existing of Inl _ \<Rightarrow> False | Inr xs \<Rightarrow> \<exists>x\<in>set xs. rvUserID x = rvUserID r)
               then (Inl (NewConflict ''user has already submitted a review for this product'' None), w3)
               else bind_io (on_error (\<lambda>e. NewInternal ''failed to save review'' (Some e)) (rwCreateReview (rsRepo s) r))
                 (\<lambda>_. return_io r) w3) w1))"

definition GetReviewsByProductID :: "'w reviewService \<Rightarrow> string \<Rightarrow> ('w, Review list) io" where
  "GetReviewsByProductID s pid = bind_io (on_error (review_product_missing pid) (rsGetProduct s pid))
     (\<lambda>_. rwGetReviewsByProductID (rsRepo s) pid)"

definition rating_sum :: "Review list \<Rightarrow> int" where
  "rating_sum xs = fold (\<lambda>r n. wrap64 (n + rvRating r)) xs 0"

definition GetAverageRating :: "'w reviewService \<Rightarrow> string \<Rightarrow> ('w, f64 \<times> nat) io" where
  "GetAverageRating s pid = bind_io (on_error (review_product_missing pid) (rsGetProduct s pid))
     (\<lambda>_. bind_io (on_error (\<lambda>e. NewInternal ''failed to retrieve reviews'' (Some e)) (rwGetReviewsByProductID (rsRepo s) pid))
       (\<lambda>xs. if xs = [] then return_io (0, 0)
         else return_io (fdiv (f_of_int (rating_sum xs)) (f_of_int (int (length xs))), length xs)))"

text \<open>The three operations on a stored review look it up first; \<open>==\<close> compares the very error value.\<close>

definition review_error :: "err \<Rightarrow> err" where
  "review_error e = (if e = ErrReviewNotFound then NewNotFound ''review not found'' (Some e)
     else NewInternal ''failed to retrieve review'' (Some e))"

definition DeleteReview :: "'w reviewService \<Rightarrow> string \<Rightarrow> string \<Rightarrow> bool \<Rightarrow> ('w, unit) io" where
  "DeleteReview s i user isAdmin = bind_io (on_error review_error (rwGetReviewByID (rsRepo s) i)) (\<lambda>r.
     if \<not> isAdmin \<and> rvUserID r \<noteq> user then fail_io (NewForbidden ''you are not authorized to delete this review'' None)
     else on_error (\<lambda>e. NewInternal ''failed to delete review'' (Some e)) (rwDeleteReview (rsRepo s) i))"

definition SubmitReply :: "('a env_scheme) reviewService \<Rightarrow> string \<Rightarrow> ReviewReply \<Rightarrow> ('a env_scheme, ReviewReply) io" where
  "SubmitReply s i reply0 w =
     (if rrComment reply0 = [] then (Inl (NewBadRequest ''reply comment cannot be empty'' (Some ErrEmptyComment)), w)
      else (case (if rrCreatedAt reply0 = zero_time then time_now w else (rrCreatedAt reply0, w)) of (t, w1) \<Rightarrow>
        let reply = reply0\<lparr>rrCreatedAt := t\<rparr> in
        bind_io (on_error review_error (rwGetReviewByID (rsRepo s) i))
          (\<lambda>r. bind_io (on_error (\<lambda>e. NewInternal ''failed to save reply'' (Some e))
              (rwUpdateReview (rsRepo s) (r\<lparr>rvReply := Some reply\<rparr>))) (\<lambda>_. return_io reply)) w1))"

definition UpdateReview :: "'w reviewService \<Rightarrow> string \<Rightarrow> string \<Rightarrow> int \<Rightarrow> string \<Rightarrow> ('w, Review) io" where
  "UpdateReview s i user rating comment = bind_io (on_error review_error (rwGetReviewByID (rsRepo s) i)) (\<lambda>r.
     if rvUserID r \<noteq> user then fail_io (NewForbidden ''you are not authorized to edit this review'' None)
     else let r1 = r\<lparr>rvRating := rating, rvComment := comment\<rparr> in
       (case ValidateReview r1 of
          Some e \<Rightarrow> fail_io (NewBadRequest (err_string e) (Some e))
        | None \<Rightarrow> bind_io (on_error (\<lambda>e. NewInternal ''failed to update review'' (Some e)) (rwUpdateReview (rsRepo s) r1))
            (\<lambda>_. return_io r1)))"

section \<open>Handlers\<close>

text \<open>\<open>body\<close> is what binding the request's JSON gave.\<close>

definition http_SubmitReview :: "('a env_scheme) reviewService \<Rightarrow> string \<Rightarrow> string \<Rightarrow> err + int \<times> string \<Rightarrow>
    ('a env_scheme, Review) io" where
  "http_SubmitReview s user pid body = (if user = [] then fail_io (NewUnauthorized ''Authentication required'' None)
     else (case body of
         Inl e \<Rightarrow> fail_io (NewBadRequest ''Invalid review payload'' (Some e))
       | Inr (rating, comment) \<Rightarrow> AddReview s \<lparr>rvID = [], rvProductID = pid, rvUserID = user, rvRating = rating,
           rvComment = comment, rvReply = None, rvCreatedAt = zero_time\<rparr>))"

definition http_DeleteReview :: "'w reviewService \<Rightarrow> string \<Rightarrow> string \<Rightarrow> string \<Rightarrow> ('w, unit) io" where
  "http_DeleteReview s user role i = (if user = [] then fail_io (NewUnauthorized ''Authentication required'' None)
     else if i = [] then fail_io (NewBadRequest ''Review ID is required'' None)
     else DeleteReview s i user (role = ''admin''))"

definition http_SubmitReply :: "('a env_scheme) reviewService \<Rightarrow> string \<Rightarrow> string \<Rightarrow> err + string \<Rightarrow>
    ('a env_scheme, ReviewReply) io" where
  "http_SubmitReply s user i body w = (if user = [] then (Inl (NewUnauthorized ''Authentication required'' None), w)
     else if i = [] then (Inl (NewBadRequest ''Review ID is required'' None), w)
     else (case body of
         Inl e \<Rightarrow> (Inl (NewBadRequest ''Invalid reply payload'' (Some e)), w)
       | Inr comment \<Rightarrow> (case time_now w of (t, w1) \<Rightarrow>
           SubmitReply s i \<lparr>rrUserID = user, rrComment = comment, rrCreatedAt = t\<rparr> w1)))"

definition http_UpdateReview :: "'w reviewService \<Rightarrow> string \<Rightarrow> string \<Rightarrow> err + int \<times> string \<Rightarrow> ('w, Review) io" where
  "http_UpdateReview s user i body = (if user = [] then fail_io (NewUnauthorized ''Authentication required'' None)
     else if i = [] then fail_io (NewBadRequest ''Review ID is required'' None)
     else (case body of
         Inl e \<Rightarrow> fail_io (NewBadRequest ''Invalid review payload'' (Some e))
       | Inr (rating, comment) \<Rightarrow> UpdateReview s i user rating comment))"

section \<open>PostgreSQL\<close>

text \<open>
  A row of \<open>reviews\<close>: the reply is three columns of which the user tells whether there is one. The
  table has no reference to products and no unique pair of product and user.
\<close>

record review_db = catalog_db +
  reviews_tbl :: "Review list"

definition CreateReview_pg :: "Review \<Rightarrow> ('a review_db_scheme, unit) io" where
  "CreateReview_pg r = sql (\<lambda>w.
     if \<not> i32 (rvRating r) then reject ''integer out of range'' w
     else if 255 < length (rvID r) \<or> 255 < length (rvProductID r) \<or> 255 < length (rvUserID r)
     then reject ''value too long'' w
     else if rvID r \<in> rvID ` set (reviews_tbl w) then reject ''duplicate key'' w
     else (Inr (), w\<lparr>reviews_tbl := reviews_tbl w @ [r]\<rparr>))"

definition GetReviewsByProductID_pg :: "string \<Rightarrow> ('a review_db_scheme, Review list) io" where
  "GetReviewsByProductID_pg pid = sql (\<lambda>w. (Inr (filter (\<lambda>r. rvProductID r = pid) (reviews_tbl w)), w))"

definition GetReviewByID_pg :: "string \<Rightarrow> ('a review_db_scheme, Review) io" where
  "GetReviewByID_pg i = sql (\<lambda>w. (case row_of rvID (reviews_tbl w) i of
       None \<Rightarrow> (Inl ErrReviewNotFound, w)
     | Some r \<Rightarrow> (Inr r, w)))"

definition UpdateReview_pg :: "Review \<Rightarrow> ('a review_db_scheme, unit) io" where
  "UpdateReview_pg r = sql (\<lambda>w.
     if rvID r \<notin> rvID ` set (reviews_tbl w) then (Inl ErrReviewNotFound, w)
     else if \<not> i32 (rvRating r) then reject ''integer out of range'' w
     else if (case rvReply r of None \<Rightarrow> False | Some a \<Rightarrow> 255 < length (rrUserID a)) then reject ''value too long'' w
     else (Inr (), w\<lparr>reviews_tbl := map (\<lambda>x. if rvID x = rvID r
       then x\<lparr>rvRating := rvRating r, rvComment := rvComment r, rvReply := rvReply r\<rparr> else x) (reviews_tbl w)\<rparr>))"

definition DeleteReview_pg :: "string \<Rightarrow> ('a review_db_scheme, unit) io" where
  "DeleteReview_pg i = sql (\<lambda>w.
     if i \<notin> rvID ` set (reviews_tbl w) then (Inl ErrReviewNotFound, w)
     else (Inr (), w\<lparr>reviews_tbl := filter (\<lambda>r. rvID r \<noteq> i) (reviews_tbl w)\<rparr>))"

definition review_repo_pg :: "('a review_db_scheme) ReviewRepository" where
  "review_repo_pg = \<lparr>rwCreateReview = CreateReview_pg, rwGetReviewsByProductID = GetReviewsByProductID_pg,
     rwGetReviewByID = GetReviewByID_pg, rwUpdateReview = UpdateReview_pg, rwDeleteReview = DeleteReview_pg\<rparr>"

text \<open>\<open>CatalogProductVerifier\<close> asks the catalog, through its cache.\<close>

definition review_service_pg :: "decimal_column \<Rightarrow> int \<Rightarrow> ('a review_db_scheme) reviewService" where
  "review_service_pg dec l1ttl = \<lparr>rsRepo = review_repo_pg,
     rsGetProduct = GetProductEntity 0 (catalog_service_pg dec l1ttl)\<rparr>"

end
