(* ===== verification/ReviewProps.thy ===== *)
theory ReviewProps
  imports Reviews CatalogProps
begin

text \<open>
  Properties of reviews. \<open>review_store\<close> is what the review service relies on: a repository whose calls fail
  without effect or do what they are named for, and a product lookup that leaves the reviews alone. It
  is interpreted for the service on PostgreSQL behind the catalog's cache.
\<close>

section \<open>Requests\<close>

datatype review_request = SubmitR string string "err + int \<times> string" | RemoveR string string string
  | ReplyR string string "err + string" | EditR string string "err + int \<times> string"

definition review_step :: "('a env_scheme) reviewService \<Rightarrow> review_request \<Rightarrow> 'a env_scheme \<Rightarrow> 'a env_scheme" where
  "review_step s q w = (case q of
       SubmitR u pid body \<Rightarrow> snd (http_SubmitReview s u pid body w)
     | RemoveR u role i \<Rightarrow> snd (http_DeleteReview s u role i w)
     | ReplyR u i body \<Rightarrow> snd (http_SubmitReply s u i body w)
     | EditR u i body \<Rightarrow> snd (http_UpdateReview s u i body w))"

text \<open>The column-wise update of a row, and what a request may do to the table.\<close>

definition put_review :: "Review \<Rightarrow> Review list \<Rightarrow> Review list" where
  "put_review r = map (\<lambda>x. if rvID x = rvID r
     then x\<lparr>rvRating := rvRating r, rvComment := rvComment r, rvReply := rvReply r\<rparr> else x)"

fun may_remove :: "review_request \<Rightarrow> Review \<Rightarrow> bool" where
  "may_remove (RemoveR u role i) r \<longleftrightarrow> role = ''admin'' \<or> rvUserID r = u"
| "may_remove _ r \<longleftrightarrow> False"

fun may_edit :: "review_request \<Rightarrow> Review \<Rightarrow> bool" where
  "may_edit (EditR u i body) r \<longleftrightarrow> rvUserID r = u"
| "may_edit _ r \<longleftrightarrow> False"

inductive moved :: "review_request \<Rightarrow> Review list \<Rightarrow> Review list \<Rightarrow> bool" for q where
  idle: "moved q xs xs"
| added: "rvID r \<notin> rvID ` set xs \<Longrightarrow> ValidateReview r = None \<Longrightarrow> moved q xs (xs @ [r])"
| removed: "r \<in> set xs \<Longrightarrow> may_remove q r \<Longrightarrow> moved q xs (filter (\<lambda>x. rvID x \<noteq> rvID r) xs)"
| replied: "r \<in> set xs \<Longrightarrow> moved q xs (put_review (r\<lparr>rvReply := a\<rparr>) xs)"
| changed: "r \<in> set xs \<Longrightarrow> may_edit q r \<Longrightarrow> r1 = r\<lparr>rvRating := n, rvComment := c\<rparr> \<Longrightarrow> ValidateReview r1 = None \<Longrightarrow>
    moved q xs (put_review r1 xs)"

definition sound_reviews :: "Review list \<Rightarrow> bool" where
  "sound_reviews xs \<longleftrightarrow> distinct (map rvID xs) \<and> (\<forall>r\<in>set xs. ValidateReview r = None)"

lemma ValidateReview_None: "ValidateReview r = None \<longleftrightarrow> 1 \<le> rvRating r \<and> rvRating r \<le> 5 \<and> rvComment r \<noteq> []"
  by (auto simp: ValidateReview_def)

lemma put_review_sound:
  assumes "sound_reviews xs" "ValidateReview r = None"
  shows "sound_reviews (put_review r xs)"
proof -
  have "map rvID (put_review r xs) = map rvID xs" by (simp add: put_review_def)
  then have "distinct (map rvID (put_review r xs))" using assms(1) by (simp only: sound_reviews_def)
  moreover have "\<forall>x\<in>set (put_review r xs). ValidateReview x = None"
    using assms by (auto simp: sound_reviews_def put_review_def ValidateReview_None)
  ultimately show ?thesis by (simp add: sound_reviews_def)
qed

lemma put_review_at:
  assumes "distinct (map rvID xs)" "r \<in> set xs" "x \<in> set xs"
  shows "(if x = r then x\<lparr>rvRating := rvRating r1, rvComment := rvComment r1, rvReply := rvReply r1\<rparr> else x)
    \<in> set (put_review (r1\<lparr>rvID := rvID r\<rparr>) xs)"
proof -
  have "rvID x = rvID r \<longleftrightarrow> x = r" using assms by (auto simp: distinct_map inj_on_def)
  with assms(3) show ?thesis by (force simp: put_review_def image_iff)
qed

lemma moved_sound: "moved q xs ys \<Longrightarrow> sound_reviews xs \<Longrightarrow> sound_reviews ys"
proof (induction rule: moved.induct)
  case (added r xs)
  then show ?case by (auto simp: sound_reviews_def)
next
  case (removed r xs)
  then show ?case by (auto simp: sound_reviews_def distinct_map_filter)
next
  case (replied r xs a)
  then show ?case by (intro put_review_sound) (auto simp: sound_reviews_def ValidateReview_None)
qed (auto intro: put_review_sound)

text \<open>A request of somebody else leaves a review standing; at most its reply changes.\<close>

lemma moved_stands:
  assumes "moved q xs ys" "distinct (map rvID xs)" "r \<in> set xs" "\<not> may_remove q r" "\<not> may_edit q r"
  shows "\<exists>a. r\<lparr>rvReply := a\<rparr> \<in> set ys"
  using assms
proof (induction rule: moved.induct)
  case (idle xs)
  then show ?case by (intro exI [of _ "rvReply r"]) simp
next
  case (added s xs)
  then show ?case by (intro exI [of _ "rvReply r"]) simp
next
  case (removed s xs)
  then have "rvID s \<noteq> rvID r" by (auto simp: distinct_map inj_on_def)
  with removed show ?case by (intro exI [of _ "rvReply r"]) auto
next
  case (replied s xs a)
  from put_review_at [OF this(2,1,3), of "s\<lparr>rvReply := a\<rparr>"] have
    "(if r = s then r\<lparr>rvReply := a\<rparr> else r) \<in> set (put_review (s\<lparr>rvReply := a\<rparr>) xs)" by (auto split: if_splits)
  then show ?case by (cases "r = s") (auto intro: exI [of _ a] exI [of _ "rvReply r"])
next
  case (changed s xs s1 n c)
  then have "r \<noteq> s" by auto
  with put_review_at [OF changed(5,1,6), of s1] changed(3) show ?case
    by (intro exI [of _ "rvReply r"]) simp
qed

section \<open>What the service relies on\<close>

locale review_store =
  fixes s :: "('a env_scheme) reviewService" and reviews :: "'a env_scheme \<Rightarrow> Review list"
  assumes created: "rwCreateReview (rsRepo s) r w = (x, w1) \<Longrightarrow>
      (case x of Inl _ \<Rightarrow> reviews w1 = reviews w | Inr _ \<Rightarrow> rvID r \<notin> rvID ` set (reviews w) \<and> reviews w1 = reviews w @ [r])"
    and listed: "rwGetReviewsByProductID (rsRepo s) i w = (y, w1) \<Longrightarrow> reviews w1 = reviews w \<and>
      (case y of Inl _ \<Rightarrow> True | Inr xs \<Rightarrow> xs = filter (\<lambda>r. rvProductID r = i) (reviews w))"
    and found: "rwGetReviewByID (rsRepo s) i w = (z, w1) \<Longrightarrow> reviews w1 = reviews w \<and>
      (case z of Inl _ \<Rightarrow> True | Inr r \<Rightarrow> r \<in> set (reviews w) \<and> rvID r = i)"
    and updated: "rwUpdateReview (rsRepo s) r w = (x, w1) \<Longrightarrow>
      (case x of Inl _ \<Rightarrow> reviews w1 = reviews w | Inr _ \<Rightarrow> reviews w1 = put_review r (reviews w))"
    and deleted: "rwDeleteReview (rsRepo s) i w = (x, w1) \<Longrightarrow>
      (case x of Inl _ \<Rightarrow> reviews w1 = reviews w | Inr _ \<Rightarrow> reviews w1 = filter (\<lambda>r. rvID r \<noteq> i) (reviews w))"
    and product: "rsGetProduct s i w = (p, w1) \<Longrightarrow> reviews w1 = reviews w"
    and apart: "env.more w1 = env.more w \<Longrightarrow> reviews w1 = reviews w"
begin

lemma time_reviews: "time_now w = (t, w1) \<Longrightarrow> reviews w1 = reviews w"
  by (elim time_nowE) (auto intro: apart)

lemma AddReview_moved:
  assumes "AddReview s r w = (u, w1)"
  shows "moved q (reviews w) (reviews w1)"
proof -
  obtain i v where i: "(if rvID r = [] then on_error (\<lambda>e. NewInternal ''failed to generate review ID'' (Some e)) (Generate ''rev_'')
      else return_io (rvID r)) w = (i, v)" by fastforce
  have iv: "reviews v = reviews w" using i
    by (auto simp: on_error_def return_io_def split: if_splits prod.splits sum.splits elim!: GenerateE intro: apart)
  show ?thesis
  proof (cases i)
    case (Inl e)
    with assms i iv show ?thesis by (simp add: AddReview_def bind_io_def idle)
  next
    case (Inr j)
    obtain t v1 where t: "(if rvCreatedAt r = zero_time then time_now v else (rvCreatedAt r, v)) = (t, v1)" by fastforce
    have v1: "reviews v1 = reviews v" using t time_reviews [of v t v1] by (auto split: if_splits)
    let ?r = "r\<lparr>rvID := j, rvCreatedAt := t\<rparr>"
    show ?thesis
    proof (cases "ValidateReview ?r")
      case (Some e)
      with assms i Inr t iv v1 show ?thesis by (simp add: AddReview_def bind_io_def idle)
    next
      case None
      obtain p v2 where p: "rsGetProduct s (rvProductID r) v1 = (p, v2)" by fastforce
      obtain l v3 where l: "rwGetReviewsByProductID (rsRepo s) (rvProductID r) v2 = (l, v3)" by fastforce
      obtain c v4 where c: "rwCreateReview (rsRepo s) ?r v3 = (c, v4)" by fastforce
      have same: "reviews v2 = reviews w" "reviews v3 = reviews w" using iv v1 product [OF p] listed [OF l] by auto
      have "w1 = v2 \<or> w1 = v3 \<or> w1 = v4"
        using assms i Inr t None p l c
        by (cases p; cases c) (auto simp: AddReview_def bind_io_def on_error_def return_io_def Let_def split: if_splits)
      then show ?thesis using same created [OF c] None added [of ?r "reviews w" q] by (cases c) (auto intro: idle)
    qed
  qed
qed

lemma DeleteReview_moved:
  assumes "DeleteReview s i u (role = ''admin'') w = (x, w1)"
  shows "moved (RemoveR u role j) (reviews w) (reviews w1)"
proof -
  obtain g v where g: "rwGetReviewByID (rsRepo s) i w = (g, v)" by fastforce
  obtain d v1 where d: "rwDeleteReview (rsRepo s) i v = (d, v1)" by fastforce
  note fx = found [OF g] deleted [OF d]
  show ?thesis
  proof (cases "\<exists>r. g = Inr r \<and> (role = ''admin'' \<or> rvUserID r = u)")
    case True
    then obtain r where r: "g = Inr r" "role = ''admin'' \<or> rvUserID r = u" by blast
    with assms g d have w1: "w1 = v1" by (auto simp: DeleteReview_def bind_io_def on_error_def split: if_splits sum.splits)
    with fx r moved.removed [of r "reviews w" "RemoveR u role j"] show ?thesis by (cases d) (auto intro: idle)
  next
    case False
    with assms g have "w1 = v" by (cases g) (auto simp: DeleteReview_def bind_io_def on_error_def fail_io_def split: if_splits)
    with fx show ?thesis by (simp add: idle)
  qed
qed

lemma SubmitReply_moved:
  assumes "SubmitReply s i a w = (x, w1)"
  shows "moved q (reviews w) (reviews w1)"
proof (cases "rrComment a = []")
  case True
  with assms show ?thesis by (simp add: SubmitReply_def idle)
next
  case False
  obtain t v where t: "(if rrCreatedAt a = zero_time then time_now w else (rrCreatedAt a, w)) = (t, v)" by fastforce
  have v: "reviews v = reviews w" using t time_reviews [of w t v] by (auto split: if_splits)
  obtain g v1 where g: "rwGetReviewByID (rsRepo s) i v = (g, v1)" by fastforce
  show ?thesis
  proof (cases g)
    case (Inl e)
    with assms False t g v found [OF g] show ?thesis by (simp add: SubmitReply_def bind_io_def on_error_def idle)
  next
    case (Inr r)
    obtain d v2 where d: "rwUpdateReview (rsRepo s) (r\<lparr>rvReply := Some (a\<lparr>rrCreatedAt := t\<rparr>)\<rparr>) v1 = (d, v2)" by fastforce
    have "w1 = v2" using assms False t g Inr d
      by (cases d) (auto simp: SubmitReply_def bind_io_def on_error_def return_io_def Let_def)
    with v Inr found [OF g] updated [OF d] show ?thesis by (cases d) (auto intro: idle replied)
  qed
qed

lemma UpdateReview_moved:
  assumes "UpdateReview s i u n c w = (x, w1)"
  shows "moved (EditR u j body) (reviews w) (reviews w1)"
proof -
  obtain g v where g: "rwGetReviewByID (rsRepo s) i w = (g, v)" by fastforce
  show ?thesis
  proof (cases "\<exists>r. g = Inr r \<and> rvUserID r = u \<and> ValidateReview (r\<lparr>rvRating := n, rvComment := c\<rparr>) = None")
    case True
    then obtain r where r: "g = Inr r" "rvUserID r = u" "ValidateReview (r\<lparr>rvRating := n, rvComment := c\<rparr>) = None" by blast
    obtain d v1 where d: "rwUpdateReview (rsRepo s) (r\<lparr>rvRating := n, rvComment := c\<rparr>) v = (d, v1)" by fastforce
    have "w1 = v1" using assms g r d
      by (cases d) (auto simp: UpdateReview_def bind_io_def on_error_def return_io_def Let_def)
    with r found [OF g] updated [OF d] show ?thesis by (cases d) (auto intro: idle changed)
  next
    case False
    with assms g have "w1 = v"
      by (cases g) (auto simp: UpdateReview_def bind_io_def on_error_def fail_io_def Let_def split: if_splits option.splits)
    with found [OF g] show ?thesis by (simp add: idle)
  qed
qed

lemma review_step_moved: "moved q (reviews w) (reviews (review_step s q w))"
proof (cases q)
  case (SubmitR u pid body)
  then show ?thesis using AddReview_moved [OF surjective_pairing, where w = w and q = q]
    by (auto simp: review_step_def http_SubmitReview_def fail_io_def idle split: sum.splits)
next
  case (RemoveR u role i)
  then show ?thesis using DeleteReview_moved [OF surjective_pairing, where i = i and u = u and role = role and w = w and j = i]
    by (auto simp: review_step_def http_DeleteReview_def fail_io_def idle)
next
  case (ReplyR u i body)
  obtain t v where t: "time_now w = (t, v)" by fastforce
  with time_reviews [OF t] SubmitReply_moved [OF surjective_pairing, where i = i and w = v and q = q] ReplyR show ?thesis
    by (auto simp: review_step_def http_SubmitReply_def idle split: sum.splits)
next
  case (EditR u i body)
  then show ?thesis using UpdateReview_moved [OF surjective_pairing, where i = i and u = u and w = w and j = i and body = body]
    by (auto simp: review_step_def http_UpdateReview_def fail_io_def idle split: sum.splits)
qed

lemma review_run_sound: "sound_reviews (reviews w) \<Longrightarrow> sound_reviews (reviews (fold (review_step s) qs w))"
  by (induction qs arbitrary: w) (auto intro: moved_sound [OF review_step_moved])

lemma review_run_stands:
  assumes "sound_reviews (reviews w)" "r \<in> set (reviews w)" "\<forall>q\<in>set qs. \<not> may_remove q r \<and> \<not> may_edit q r"
  shows "\<exists>a. r\<lparr>rvReply := a\<rparr> \<in> set (reviews (fold (review_step s) qs w))"
  using assms
proof (induction qs arbitrary: w r)
  case Nil
  then show ?case by (intro exI [of _ "rvReply r"]) simp
next
  case (Cons q qs)
  have "distinct (map rvID (reviews w))" "\<not> may_remove q r" "\<not> may_edit q r"
    using Cons.prems by (auto simp: sound_reviews_def)
  from moved_stands [OF review_step_moved this(1) Cons.prems(2) this(2,3)] obtain a where
    a: "r\<lparr>rvReply := a\<rparr> \<in> set (reviews (review_step s q w))" by blast
  have other: "may_remove q (r\<lparr>rvReply := a\<rparr>) = may_remove q r" "may_edit q (r\<lparr>rvReply := a\<rparr>) = may_edit q r" for q
    by (cases q; simp)+
  from Cons.IH [OF moved_sound [OF review_step_moved Cons.prems(1)] a] Cons.prems(3) show ?case by (auto simp: other)
qed

end

section \<open>Reviews on PostgreSQL\<close>

lemma review_same_more: "env.more w1 = env.more (w :: 'a review_db_scheme) \<Longrightarrow> reviews_tbl w1 = reviews_tbl w"
  by (cases w; cases w1) simp

lemma reviews_same_store: "same_store w w1 \<Longrightarrow> reviews_tbl w1 = reviews_tbl (w :: 'a review_db_scheme)"
  unfolding same_store_def using review_same_more by metis

lemma reject_reviews [simp]: "reviews_tbl (db_reject w) = reviews_tbl (w :: 'a review_db_scheme)"
  by (simp add: db_reject_def)

lemma sql_reviews:
  assumes "sql f w = (r, w')"
  obtains (reached) w1 where "reviews_tbl w1 = reviews_tbl w" "f w1 = (r, w')"
  | (failed) m where "r = Inl (DbError m)" "reviews_tbl w' = reviews_tbl w"
  using sql_fx [OF assms] reviews_same_store by blast

lemma reviews_outside: "outside w' = outside w \<Longrightarrow> reviews_tbl w' = reviews_tbl (w :: 'a review_db_scheme)"
proof -
  have "reviews_tbl (outside w) = reviews_tbl w" for w :: "'a review_db_scheme" by (simp add: outside_def)
  then show "outside w' = outside w \<Longrightarrow> reviews_tbl w' = reviews_tbl w" by metis
qed

lemma verify_keeps_reviews: "GetProductEntity 0 (catalog_service_pg dec l) i w = (p, w1) \<Longrightarrow> reviews_tbl w1 = reviews_tbl (w :: 'a review_db_scheme)"
proof -
  let ?R = "\<lambda>w w' :: 'a review_db_scheme. reviews_tbl w' = reviews_tbl w"
  have R: "transp ?R" "reflp ?R" by (auto simp: transp_def reflp_def)
  have "keeps ?R (GetProductByID_pg i)"
    using keepsD [OF keeps_GetProductByID] review_same_more by (fastforce simp: keeps_def same_store_def)
  then have "keeps ?R (bind_io (GetProductByID_pg i) (\<lambda>p. return_io (Some p)))"
    by (intro keeps_bind keeps_pure R)
  then have "keeps ?R (GetOrFetch 0 (memory_manager l) CProduct as_product (product_key i) fifteen_min
      (bind_io (GetProductByID_pg i) (\<lambda>p. return_io (Some p))))"
    by (intro keeps_GetOrFetch R) (auto intro: reviews_outside outside_Get)
  then have "keeps ?R (GetProductEntity 0 (catalog_service_pg dec l) i)"
    unfolding GetProductEntity_def cached_product_def memory_manager_def by (simp add: keeps_on_error)
  from keepsD [OF this] show "GetProductEntity 0 (catalog_service_pg dec l) i w = (p, w1) \<Longrightarrow> reviews_tbl w1 = reviews_tbl w" .
qed

lemma review_service_sel [simp]:
  "rwCreateReview (rsRepo (review_service_pg dec l)) = CreateReview_pg"
  "rwGetReviewsByProductID (rsRepo (review_service_pg dec l)) = GetReviewsByProductID_pg"
  "rwGetReviewByID (rsRepo (review_service_pg dec l)) = GetReviewByID_pg"
  "rwUpdateReview (rsRepo (review_service_pg dec l)) = UpdateReview_pg"
  "rwDeleteReview (rsRepo (review_service_pg dec l)) = DeleteReview_pg"
  "rsGetProduct (review_service_pg dec l) = GetProductEntity 0 (catalog_service_pg dec l)"
  by (simp_all add: review_service_pg_def review_repo_pg_def)

interpretation pg_reviews: review_store "review_service_pg dec l :: ('a review_db_scheme) reviewService" reviews_tbl
proof (unfold_locales, unfold review_service_sel)
  fix r i x y z p and w w1 :: "'a review_db_scheme"
  show "case x of Inl _ \<Rightarrow> reviews_tbl w1 = reviews_tbl w
      | Inr _ \<Rightarrow> rvID r \<notin> rvID ` set (reviews_tbl w) \<and> reviews_tbl w1 = reviews_tbl w @ [r]"
    if "CreateReview_pg r w = (x, w1)"
    using that unfolding CreateReview_pg_def
    by (cases rule: sql_reviews) (auto split: if_splits sum.splits)
  show "reviews_tbl w1 = reviews_tbl w \<and> (case y of Inl _ \<Rightarrow> True | Inr xs \<Rightarrow> xs = filter (\<lambda>r. rvProductID r = i) (reviews_tbl w))"
    if "GetReviewsByProductID_pg i w = (y, w1)"
    using that unfolding GetReviewsByProductID_pg_def by (cases rule: sql_reviews) auto
  show "reviews_tbl w1 = reviews_tbl w \<and> (case z of Inl _ \<Rightarrow> True | Inr r \<Rightarrow> r \<in> set (reviews_tbl w) \<and> rvID r = i)"
    if "GetReviewByID_pg i w = (z, w1)"
    using that unfolding GetReviewByID_pg_def
    by (cases rule: sql_reviews) (auto split: option.splits dest: row_of_Some)
  show "case x of Inl _ \<Rightarrow> reviews_tbl w1 = reviews_tbl w | Inr _ \<Rightarrow> reviews_tbl w1 = put_review r (reviews_tbl w)"
    if "UpdateReview_pg r w = (x, w1)"
    using that unfolding UpdateReview_pg_def put_review_def
    by (cases rule: sql_reviews) (auto split: if_splits sum.splits)
  show "case x of Inl _ \<Rightarrow> reviews_tbl w1 = reviews_tbl w
      | Inr _ \<Rightarrow> reviews_tbl w1 = filter (\<lambda>r. rvID r \<noteq> i) (reviews_tbl w)"
    if "DeleteReview_pg i w = (x, w1)"
    using that unfolding DeleteReview_pg_def
    by (cases rule: sql_reviews) (auto split: if_splits sum.splits)
  show "reviews_tbl w1 = reviews_tbl w" if "GetProductEntity 0 (catalog_service_pg dec l) i w = (p, w1)"
    by (rule verify_keeps_reviews [OF that])
  show "reviews_tbl w1 = reviews_tbl w" if "env.more w1 = env.more w"
    by (rule review_same_more [OF that])
qed


lemma rating_sum_bounds:
  assumes "\<forall>r\<in>set xs. 1 \<le> rvRating r \<and> rvRating r \<le> 5" "length xs < 2 ^ 50"
  shows "int (length xs) \<le> rating_sum xs \<and> rating_sum xs \<le> 5 * int (length xs)"
proof -
  have "\<lbrakk>\<forall>r\<in>set ys. 1 \<le> rvRating r \<and> rvRating r \<le> 5; 0 \<le> n; n + 5 * int (length ys) < 2 ^ 53\<rbrakk> \<Longrightarrow>
      n + int (length ys) \<le> fold (\<lambda>r n. wrap64 (n + rvRating r)) ys n \<and>
      fold (\<lambda>r n. wrap64 (n + rvRating r)) ys n \<le> n + 5 * int (length ys)" for ys n
  proof (induction ys arbitrary: n)
    case (Cons y ys)
    then have "wrap64 (n + rvRating y) = n + rvRating y" by (intro wrap64_id) (auto simp: i64_def)
    with Cons.IH [of "n + rvRating y"] Cons.prems show ?case by auto
  qed simp
  from this [of xs 0] assms show ?thesis by (simp add: rating_sum_def)
qed

text \<open>Ratings stay between 1 and 5: after any sequence of review requests on a sound table, with failures of the
database in between, the average rating of a product is 0 of no reviews or lies between 1 and 5 in floating-point
arithmetic, for fewer than 2^50 reviews.\<close>
theorem average_in_range:
  assumes "sound_reviews (reviews_tbl w)"
    and "GetAverageRating (review_service_pg dec l) pid (fold (review_step (review_service_pg dec l)) qs w) = (Inr (avg, n), w1)"
    and "n < 2 ^ 50"
  shows "if n = 0 then avg = 0 else 1 \<le> avg \<and> avg \<le> 5"
proof -
  let ?s = "review_service_pg dec l" and ?w = "fold (review_step (review_service_pg dec l)) qs w"
  have sound: "sound_reviews (reviews_tbl ?w)" by (rule pg_reviews.review_run_sound [OF assms(1)])
  obtain p v where p: "rsGetProduct ?s pid ?w = (p, v)" by fastforce
  obtain y v1 where y: "rwGetReviewsByProductID (rsRepo ?s) pid v = (y, v1)" by fastforce
  from assms(2) p y obtain xs where xs: "y = Inr xs" "n = length xs"
    "avg = (if xs = [] then 0 else fdiv (f_of_int (rating_sum xs)) (f_of_int (int (length xs))))"
    by (auto simp: GetAverageRating_def bind_io_def on_error_def return_io_def simp del: review_service_sel split: sum.splits if_splits)
  have "set xs \<subseteq> set (reviews_tbl ?w)" using pg_reviews.product [OF p] pg_reviews.listed [OF y] xs(1) by auto
  then have r: "\<forall>r\<in>set xs. 1 \<le> rvRating r \<and> rvRating r \<le> 5"
    using sound by (auto simp: sound_reviews_def ValidateReview_None)
  note b = rating_sum_bounds [OF r assms(3) [unfolded xs(2)]]
  show ?thesis
  proof (cases "xs = []")
    case False
    let ?q = "of_int (rating_sum xs) / of_int (int (length xs)) :: rat"
    have len: "0 < (of_int (int (length xs)) :: rat)" "int (length xs) < 2 ^ 50" using False assms(3) xs(2) by auto
    then have small: "\<bar>rating_sum xs\<bar> < 2 ^ 53" "\<bar>int (length xs)\<bar> < 2 ^ 53" using b by auto
    have "of_int (int (length xs)) \<le> (of_int (rating_sum xs) :: rat)"
      "(of_int (rating_sum xs) :: rat) \<le> of_int (5 * int (length xs))" using b by (simp_all only: of_int_le_iff)
    then have "1 \<le> ?q" "?q \<le> 5" using len(1) by (simp_all add: pos_le_divide_eq pos_divide_le_eq)
    from fl_mono [OF this(1)] fl_mono [OF this(2)] have "1 \<le> fl ?q \<and> fl ?q \<le> 5"
      using fl_of_int [of 1] fl_of_int [of 5] by simp
    moreover have "avg = fl ?q" using False xs(3) small by (simp only: if_False fdiv_def f_of_int_exact)
    ultimately show ?thesis using False xs(2) by simp
  qed (use xs in simp)
qed

section \<open>Witnesses\<close>

definition sample_reviews :: "Review list \<Rightarrow> review_db" where
  "sample_reviews rs = catalog_db.extend ((sample_catalog [sample_product ''p1'' ''Pen'' 1] [] [] [])\<lparr>uuids := [Some ''7'']\<rparr>)
     (review_db.fields rs)"

definition sample_review :: "string \<Rightarrow> string \<Rightarrow> int \<Rightarrow> Review" where
  "sample_review i u n = \<lparr>rvID = i, rvProductID = ''p1'', rvUserID = u, rvRating = n, rvComment = ''fine'',
     rvReply = None, rvCreatedAt = 50\<rparr>"


theorem average_in_range_witness:
  "let w = sample_reviews [sample_review ''r1'' ''ann'' 4, sample_review ''r2'' ''eve'' 5];
     qs = [SubmitR ''bob'' ''p1'' (Inr (1, ''meh''))] in
   (\<exists>avg w1. GetAverageRating (review_service_pg Some 5) ''p1'' (fold (review_step (review_service_pg Some 5)) qs w) =
     (Inr (avg, 3), w1) \<and> 1 \<le> avg \<and> avg \<le> 5)"
proof -
  let ?w = "sample_reviews [sample_review ''r1'' ''ann'' 4, sample_review ''r2'' ''eve'' 5]"
  let ?qs = "[SubmitR ''bob'' ''p1'' (Inr (1, ''meh''))]"
  let ?run = "GetAverageRating (review_service_pg Some 5) ''p1'' (fold (review_step (review_service_pg Some 5)) ?qs ?w)"
  have s: "sound_reviews (reviews_tbl ?w)" by code_simp
  have "map_option snd (case fst ?run of Inl e \<Rightarrow> None | Inr p \<Rightarrow> Some p) = Some 3" by code_simp
  then obtain avg w1 where run: "?run = (Inr (avg, 3), w1)" by (cases ?run) (auto split: sum.splits)
  from average_in_range [OF s run] show ?thesis using run by (auto simp: Let_def)
qed

end
