(* ===== verification/ShippingPg.thy ===== *)
theory ShippingPg
  imports Shipping OrdersPg
begin

text \<open>
  The PostgreSQL shipment repository (\<open>internal/infra/db/postgres/shipping/shipment_repo.go\<close>) over
  the \<open>shipments\<close> table, whose only key is the id: nothing in the schema keeps an order from having
  two shipments. The status history is a JSON text of the entries; \<open>decw\<close> is the \<open>DECIMAL(10, 2)\<close>
  column of the weight, \<open>dec\<close> the \<open>DECIMAL(12, 2)\<close> of the amounts.
\<close>

record ship_db = order_db +
  shipments_tbl :: "Shipment list"

definition ship_row :: "decimal \<Rightarrow> decimal \<Rightarrow> Shipment \<Rightarrow> Shipment option" where
  "ship_row decw dec s = (case (decw (shpWeight s), dec (shpValue s), dec (shpShippingCost s)) of
       (Some a, Some b, Some c) \<Rightarrow> Some (s\<lparr>shpWeight := a, shpValue := b, shpShippingCost := c\<rparr>)
     | _ \<Rightarrow> None)"

definition shCreate_pg :: "decimal \<Rightarrow> decimal \<Rightarrow> Shipment \<Rightarrow> ('a ship_db_scheme, unit) io" where
  "shCreate_pg decw dec s w = (case db_call w of
       (Inl e, w1) \<Rightarrow> (Inl e, w1)
     | (Inr _, w1) \<Rightarrow> (case ship_row decw dec s of
           None \<Rightarrow> (Inl (DbError ''numeric field overflow''), db_reject w1)
         | Some row \<Rightarrow>
             if row_of shpID (shipments_tbl w1) (shpID s) \<noteq> None
             then (Inl (DbError ''duplicate key''), db_reject w1)
             else (Inr (), w1\<lparr>shipments_tbl := shipments_tbl w1 @ [row]\<rparr>)))"

definition ship_query :: "(Shipment \<Rightarrow> bool) \<Rightarrow> ('a ship_db_scheme, Shipment) io" where
  "ship_query P w = (case db_call w of
       (Inl e, w1) \<Rightarrow> (Inl e, w1)
     | (Inr _, w1) \<Rightarrow> (case List.find P (shipments_tbl w1) of
           None \<Rightarrow> (Inl (ErrText ''shipment not found''), w1)
         | Some s \<Rightarrow> (Inr s, w1)))"

definition shGetByID_pg :: "string \<Rightarrow> ('a ship_db_scheme, Shipment) io" where
  "shGetByID_pg i = ship_query (\<lambda>s. shpID s = i)"

definition shGetByOrderID_pg :: "string \<Rightarrow> ('a ship_db_scheme, Shipment) io" where
  "shGetByOrderID_pg oid = ship_query (\<lambda>s. shpOrderID s = oid)"

definition shGetByTrackingNumber_pg :: "string \<Rightarrow> ('a ship_db_scheme, Shipment) io" where
  "shGetByTrackingNumber_pg n = ship_query (\<lambda>s. shpTrackingNumber s = n)"

text \<open>\<open>Update\<close> writes every column but \<open>id\<close> and \<open>created_at\<close>, and reports a missing row.\<close>

definition shUpdate_pg :: "decimal \<Rightarrow> decimal \<Rightarrow> Shipment \<Rightarrow> ('a ship_db_scheme, unit) io" where
  "shUpdate_pg decw dec s w = (case db_call w of
       (Inl e, w1) \<Rightarrow> (Inl e, w1)
     | (Inr _, w1) \<Rightarrow> (case ship_row decw dec s of
           None \<Rightarrow> (Inl (DbError ''numeric field overflow''), db_reject w1)
         | Some row \<Rightarrow>
             if row_of shpID (shipments_tbl w1) (shpID s) = None
             then (Inl (ErrText ''shipment not found''), w1)
             else (Inr (), w1\<lparr>shipments_tbl :=
               map (\<lambda>r. if shpID r = shpID s then row\<lparr>shpCreatedAt := shpCreatedAt r\<rparr> else r) (shipments_tbl w1)\<rparr>)))"

definition shListAll_pg :: "int \<Rightarrow> int \<Rightarrow> ('a ship_db_scheme, Shipment list) io" where
  "shListAll_pg limit offset w = (case db_call w of
       (Inl e, w1) \<Rightarrow> (Inl e, w1)
     | (Inr _, w1) \<Rightarrow>
         if limit < 0 \<or> offset < 0 then (Inl (DbError ''LIMIT must not be negative''), db_reject w1)
         else (Inr (sql_page limit offset (sort_key (\<lambda>s. - shpCreatedAt s) (shipments_tbl w1))), w1))"

definition shDelete_pg :: "string \<Rightarrow> ('a ship_db_scheme, unit) io" where
  "shDelete_pg i w = (case db_call w of
       (Inl e, w1) \<Rightarrow> (Inl e, w1)
     | (Inr _, w1) \<Rightarrow>
         if row_of shpID (shipments_tbl w1) i = None then (Inl (ErrText ''shipment not found''), w1)
         else (Inr (), w1\<lparr>shipments_tbl := filter (\<lambda>r. shpID r \<noteq> i) (shipments_tbl w1)\<rparr>))"

definition ship_repo_pg :: "decimal \<Rightarrow> decimal \<Rightarrow> ('a ship_db_scheme) ShipRepository" where
  "ship_repo_pg decw dec = \<lparr>shCreate = shCreate_pg decw dec, shGetByID = shGetByID_pg,
     shGetByOrderID = shGetByOrderID_pg, shUpdate = shUpdate_pg decw dec, shListAll = shListAll_pg,
     shGetByTrackingNumber = shGetByTrackingNumber_pg, shDelete = shDelete_pg\<rparr>"

definition ship_service_pg ::
  "decimal \<Rightarrow> decimal \<Rightarrow> bool \<Rightarrow> ShippingProvider list \<Rightarrow> ('a ship_db_scheme) shipmentService" where
  "ship_service_pg decw dec outbox_on provs = NewShipmentService (ship_repo_pg decw dec) provs Publish_log
     RunInTx_pg (if outbox_on then Some outbox_pg else None)"

section \<open>The contract of the service\<close>

abbreviation ship_view :: "'a ship_db_scheme \<Rightarrow> ship_table" where
  "ship_view w \<equiv> row_of shpID (shipments_tbl w)"

lemma ship_same_more:
  "env.more w1 = env.more (w :: 'a ship_db_scheme) \<Longrightarrow>
     shipments_tbl w1 = shipments_tbl w \<and> orders_tbl w1 = orders_tbl w \<and> outbox_tbl w1 = outbox_tbl w"
  by (cases w; cases w1) simp

lemma ship_row_same: "ship_row decw dec s = Some t \<Longrightarrow> same_shipment s t \<and> shpID t = shpID s"
  by (auto simp: ship_row_def same_shipment_def split: option.splits)

lemma ship_service_simps [simp]:
  "ssTx (ship_service_pg decw dec b provs) = RunInTx_pg" "ssBus (ship_service_pg decw dec b provs) = Publish_log"
  "ssOutbox (ship_service_pg decw dec b provs) = (if b then Some outbox_pg else None)"
  "shCreate (ssRepo (ship_service_pg decw dec b provs)) = shCreate_pg decw dec"
  "shGetByID (ssRepo (ship_service_pg decw dec b provs)) = shGetByID_pg"
  "shGetByOrderID (ssRepo (ship_service_pg decw dec b provs)) = shGetByOrderID_pg"
  "shUpdate (ssRepo (ship_service_pg decw dec b provs)) = shUpdate_pg decw dec"
  "shDelete (ssRepo (ship_service_pg decw dec b provs)) = shDelete_pg"
  by (simp_all add: ship_service_pg_def NewShipmentService_def ship_repo_pg_def)

lemma ship_query_fx:
  assumes "ship_query P w = (x, w1)"
  shows "env.more w1 = env.more w \<and> in_tx w1 = in_tx w \<and>
    (\<forall>s. x = Inr s \<longrightarrow> List.find P (shipments_tbl w) = Some s) \<and>
    (in_tx w \<longrightarrow> isl x \<longrightarrow> tx_aborted w1 \<or> (\<forall>s\<in>set (shipments_tbl w). \<not> P s))"
proof -
  obtain y v where y: "db_call w = (y, v)" by fastforce
  then obtain f a where v: "v = w\<lparr>faults := f, tx_aborted := a\<rparr>" by (rule db_callE)
  have "isl y \<Longrightarrow> in_tx w \<Longrightarrow> tx_aborted v"
    using y by (auto simp: db_call_def split: list.splits if_splits)
  with assms y v show ?thesis
    by (auto simp: ship_query_def find_None_iff split: sum.splits option.splits)
qed

lemma db_call_aborted: "tx_aborted w \<Longrightarrow> \<exists>e. db_call w = (Inl e, w)"
  by (simp add: db_call_def)

interpretation pg_ship: ship_store "ship_service_pg decw dec b provs :: ('a ship_db_scheme) shipmentService" ship_view
proof unfold_locales
  fix w w' :: "'a ship_db_scheme" and fn :: "('a ship_db_scheme, unit) io" and e
  assume "\<not> in_tx w" "ssTx (ship_service_pg decw dec b provs) fn w = (Inl e, w')"
  then show "env.more w' = env.more w" by (simp add: pg_tx.tx_err)
next
  fix w w' :: "'a ship_db_scheme" and fn :: "('a ship_db_scheme, unit) io" and r
  assume "\<not> in_tx w" "ssTx (ship_service_pg decw dec b provs) fn w = (Inr r, w')"
  then show "\<exists>w0 w2. env.more w0 = env.more w \<and> in_tx w0 \<and> fn w0 = (Inr r, w2) \<and> env.more w' = env.more w2"
    unfolding ship_service_simps by (rule pg_tx.tx_ok)
next
  fix i and w w1 :: "'a ship_db_scheme" and x
  assume "shGetByID (ssRepo (ship_service_pg decw dec b provs)) i w = (x, w1)"
  then have "ship_query (\<lambda>s. shpID s = i) w = (x, w1)" by (simp add: shGetByID_pg_def)
  from ship_query_fx [OF this] ship_same_more [of w1 w]
  show "ship_view w1 = ship_view w \<and> in_tx w1 = in_tx w \<and> (\<forall>s. x = Inr s \<longrightarrow> ship_view w i = Some s \<and> shpID s = i)"
    by (auto simp: row_of_def find_Some_iff)
next
  fix oid and w w1 :: "'a ship_db_scheme" and x
  assume "shGetByOrderID (ssRepo (ship_service_pg decw dec b provs)) oid w = (x, w1)"
  then have "ship_query (\<lambda>s. shpOrderID s = oid) w = (x, w1)" by (simp add: shGetByOrderID_pg_def)
  from ship_query_fx [OF this] ship_same_more [of w1 w]
  show "ship_view w1 = ship_view w \<and>
      (in_tx w \<longrightarrow> isl x \<longrightarrow> tx_aborted w1 \<or> (\<forall>i s. ship_view w i = Some s \<longrightarrow> shpOrderID s \<noteq> oid))"
    by (auto dest!: row_of_Some)
next
  fix s and w w1 :: "'a ship_db_scheme" and y
  assume "shCreate (ssRepo (ship_service_pg decw dec b provs)) s w = (y, w1)"
  then have c: "shCreate_pg decw dec s w = (y, w1)" by simp
  show "(isl y \<longrightarrow> ship_view w1 = ship_view w) \<and>
      (\<not> isl y \<longrightarrow> \<not> tx_aborted w \<and> ship_view w (shpID s) = None \<and>
        (\<exists>t. same_shipment s t \<and> ship_view w1 = (ship_view w)(shpID s \<mapsto> t)))"
  proof (cases y)
    case (Inl e)
    with c show ?thesis
      by (auto simp: shCreate_pg_def db_reject_def elim!: db_callE split: prod.splits sum.splits option.splits if_splits)
  next
    case (Inr u)
    with c obtain v row where v: "db_call w = (Inr (), v)" "ship_row decw dec s = Some row"
      "row_of shpID (shipments_tbl v) (shpID s) = None" "w1 = v\<lparr>shipments_tbl := shipments_tbl v @ [row]\<rparr>"
      by (auto simp: shCreate_pg_def split: prod.splits sum.splits option.splits if_splits)
    have "\<not> tx_aborted w" using v(1) db_call_aborted [of w] by auto
    moreover have "shipments_tbl v = shipments_tbl w" using v(1) by (auto elim!: db_callE)
    ultimately show ?thesis
      using Inr v(2-4) ship_row_same [OF v(2)] row_of_insert [of shpID "shipments_tbl w" row] by auto
  qed
next
  fix s and w w1 :: "'a ship_db_scheme" and y
  assume "shUpdate (ssRepo (ship_service_pg decw dec b provs)) s w = (y, w1)"
  then have c: "shUpdate_pg decw dec s w = (y, w1)" by simp
  show "(isl y \<longrightarrow> ship_view w1 = ship_view w) \<and>
      (\<not> isl y \<longrightarrow> (\<exists>t. same_shipment s t \<and> ship_view w1 = (ship_view w)(shpID s \<mapsto> t)))"
  proof (cases y)
    case (Inl e)
    with c show ?thesis
      by (auto simp: shUpdate_pg_def db_reject_def elim!: db_callE split: prod.splits sum.splits option.splits if_splits)
  next
    case (Inr u)
    with c obtain v row old where v: "db_call w = (Inr (), v)" "ship_row decw dec s = Some row"
      "row_of shpID (shipments_tbl v) (shpID s) = Some old"
      "w1 = v\<lparr>shipments_tbl := map (\<lambda>r. if shpID r = shpID s then row\<lparr>shpCreatedAt := shpCreatedAt r\<rparr> else r)
        (shipments_tbl v)\<rparr>"
      by (auto simp: shUpdate_pg_def split: prod.splits sum.splits option.splits if_splits)
    have "shipments_tbl v = shipments_tbl w" using v(1) by (auto elim!: db_callE)
    then have "ship_view w1 = (ship_view w)(shpID s \<mapsto> row\<lparr>shpCreatedAt := shpCreatedAt old\<rparr>)"
      using v(3,4) ship_row_same [OF v(2)]
        row_of_update [of shpID "shpID s" "\<lambda>r. row\<lparr>shpCreatedAt := shpCreatedAt r\<rparr>" "shipments_tbl w"] by simp
    moreover have "same_shipment s (row\<lparr>shpCreatedAt := shpCreatedAt old\<rparr>)"
      using ship_row_same [OF v(2)] by (simp add: same_shipment_def)
    ultimately have "\<exists>t. same_shipment s t \<and> ship_view w1 = (ship_view w)(shpID s \<mapsto> t)" by blast
    with Inr show ?thesis by simp
  qed
next
  fix i and w w1 :: "'a ship_db_scheme" and y
  assume "shDelete (ssRepo (ship_service_pg decw dec b provs)) i w = (y, w1)"
  then show "(isl y \<longrightarrow> ship_view w1 = ship_view w) \<and> (\<not> isl y \<longrightarrow> ship_view w1 = (ship_view w)(i := None))"
    by (auto simp: shDelete_pg_def row_of_delete elim!: db_callE split: prod.splits sum.splits if_splits)
next
  fix ob es and w w1 :: "'a ship_db_scheme" and y
  assume "ssOutbox (ship_service_pg decw dec b provs) = Some ob" "Store ob es w = (y, w1)"
  then have "Store_pg es w = (y, w1)" by (auto simp: outbox_pg_def split: if_splits)
  then show "ship_view w1 = ship_view w" by (auto elim!: Store_pgE)
next
  fix e and w :: "'a ship_db_scheme"
  show "ship_view (ssBus (ship_service_pg decw dec b provs) e w) = ship_view w" by (simp add: Publish_log_def)
next
  fix w1 w :: "'a ship_db_scheme"
  assume "env.more w1 = env.more w"
  from ship_same_more [OF this] show "ship_view w1 = ship_view w" by simp
qed

end
