(* ===== verification/ShippingProps.thy ===== *)
theory ShippingProps
  imports ShippingPg OrderProps
begin

text \<open>
  What shipping guarantees on PostgreSQL: the life of a shipment over runs of the admin operations,
  the events it announces, and who gets to see it.
\<close>

section \<open>Runs of the admin operations\<close>











section \<open>Announcements\<close>

lemma pg_ship_log:
  fixes w :: "'a ship_db_scheme"
  shows "ship_query P w = (x, w1) \<Longrightarrow> bus_log w1 = bus_log w"
    and "shCreate_pg decw dec s w = (y, w1) \<Longrightarrow> bus_log w1 = bus_log w"
    and "shUpdate_pg decw dec s w = (y, w1) \<Longrightarrow> bus_log w1 = bus_log w"
  by (auto simp: ship_query_def shCreate_pg_def shUpdate_pg_def db_reject_def elim!: db_callE
      split: prod.splits sum.splits option.splits if_splits)

lemma RunInTx_log:
  assumes "\<And>w u v. fn w = (u, v) \<Longrightarrow> bus_log v = bus_log w" "RunInTx_pg fn w = (x, w1)"
  shows "bus_log w1 = bus_log w"
proof -
  have "bus_log (rollback a c) = bus_log c" for a c :: "'a env_scheme" by (simp add: rollback_def)
  with assms show ?thesis
    by (auto simp: RunInTx_pg_def elim!: db_callE split: if_splits prod.splits sum.splits)
qed

lemma create_tx_log:
  fixes w :: "'a ship_db_scheme"
  assumes "create_shipment_tx (ship_service_pg decw dec False provs) sh evt w = (x, w1)"
  shows "bus_log w1 = bus_log w"
proof -
  obtain y v where y: "ship_query (\<lambda>s. shpOrderID s = shpOrderID sh) w = (y, v)" by fastforce
  obtain z v2 where z: "shCreate_pg decw dec sh v = (z, v2)" by fastforce
  from assms y z pg_ship_log(1) [OF y] pg_ship_log(2) [OF z] show ?thesis
    by (auto simp: create_shipment_tx_def shGetByOrderID_pg_def split: sum.splits option.splits)
qed

text \<open>A new shipment, as the engine wires the service: an error stores and announces nothing. A
success stores exactly one shipment with the carrier's rate, and publishes exactly one
\<open>order.shipped\<close> event with its order, tracking number and carrier if it has a tracking number, none
otherwise.\<close>
theorem shipment_announced:
  fixes w :: "'a ship_db_scheme"
  assumes run: "CreateShipment (ship_service_pg decw dec False provs) oid carrier tracking weight val w = (r, w')"
    and "\<not> in_tx w"
  shows "case r of
      Inl e \<Rightarrow> ship_view w' = ship_view w \<and> bus_log w' = bus_log w
    | Inr sh \<Rightarrow> carrier_cost provs carrier \<lparr>pkWeight = weight, pkValue = val\<rparr> = Inr (shpShippingCost sh) \<and>
        ship_view w (shpID sh) = None \<and>
        (\<exists>t. same_shipment sh t \<and> ship_view w' = (ship_view w)(shpID sh \<mapsto> t)) \<and>
        (if tracking = [] then bus_log w' = bus_log w
         else \<exists>e. bus_log w' = bus_log w @ [e] \<and> evTopic e = OrderShippedTopic \<and>
           evPayload e = POrderShipped \<lparr>os_OrderID = oid, os_TrackingNumber = tracking, os_Carrier = carrier\<rparr>)"
  using run
proof (cases rule: CreateShipment_cases)
  case (early e)
  with pg_ship.create_step [OF run assms(2)] show ?thesis by (simp add: env_only_def)
next
  case (tx sh evt w1 y w2)
  have "RunInTx_pg (create_shipment_tx (ship_service_pg decw dec False provs) sh evt) w1 = (y, w2)"
    using tx(6) by simp
  from RunInTx_log [OF create_tx_log this] tx(1) have log: "bus_log w2 = bus_log w"
    by (simp add: env_only_def)
  have prov: "ssProviders (ship_service_pg decw dec False provs) = provs"
    by (simp add: ship_service_pg_def NewShipmentService_def)
  from pg_ship.create_step [OF run assms(2)] tx(2,5,7,8) log show ?thesis
    by (cases y) (auto simp: prov Publish_log_def split: if_splits)
qed

section \<open>Who sees a shipment\<close>

text \<open>A customer sees only shipments of their own orders: when the handler answers with a shipment, the
request carries an identity, the shipment is stored for the order asked for, and that order belongs
to that customer. Nothing is changed by looking.\<close>
theorem customer_sees_own_shipment:
  fixes w :: "'a ship_db_scheme"
  assumes run: "GetMyOrderShipment (ship_service_pg decw dec b provs) (order_service_pg dec b') cust oid w = (Inr sh, w')"
    and "order_ok dec w"
  shows "cust \<noteq> [] \<and> sh \<in> set (shipments_tbl w) \<and> shpOrderID sh = oid \<and>
    (\<exists>o1. order_view w oid = Some o1 \<and> ordCustomerID o1 = cust) \<and> env.more w' = env.more w"
proof -
  obtain w1 w2 o1 where q: "ship_query (\<lambda>s. shpOrderID s = oid) w = (Inr sh, w1)"
    and g: "GetByID_pg (shpOrderID sh) w1 = (Inr o1, w2)" "ordCustomerID o1 = cust" "w' = w2" "cust \<noteq> []"
    using run by (auto simp: GetMyOrderShipment_def GetShipmentByOrderID_def GetOrder_def shGetByOrderID_pg_def
        split: if_splits prod.splits sum.splits)
  from ship_query_fx [OF q] have s: "env.more w1 = env.more w" "sh \<in> set (shipments_tbl w)" "shpOrderID sh = oid"
    by (auto simp: find_Some_iff)
  then have "order_view w1 = order_view w" "order_ok dec w1" using order_same_view [of w1 w] assms(2) by auto
  with GetByID_pg_fx [OF g(1)] g(2-4) s show ?thesis by auto
qed

section \<open>A concrete depot\<close>

definition sample_shipment :: "string \<Rightarrow> Shipment" where
  "sample_shipment st = \<lparr>shpID = ''s1'', shpOrderID = ''o1'', shpCarrier = ''Flat Rate Shipping'',
     shpTrackingNumber = ''T1'', shpStatus = st, shpWeight = 1, shpValue = 60, shpShippingCost = 5,
     shpEstimatedDeliveryAt = None, shpStatusHistory = [], shpCreatedAt = 0, shpUpdatedAt = 0\<rparr>"

definition sample_depot :: "Shipment list \<Rightarrow> string option list \<Rightarrow> ship_db" where
  "sample_depot ss us = order_db.extend (sample_shop StatusPaid us []) \<lparr>shipments_tbl = ss\<rparr>"

lemma sample_depot_sel [simp]:
  "shipments_tbl (sample_depot ss us) = ss" "\<not> in_tx (sample_depot ss us)" "bus_log (sample_depot ss us) = []"
  by (simp_all add: sample_depot_def sample_shop_def sample_orders_def order_db.defs)

lemma sample_depot_orders:
  "order_ok Some (sample_depot ss us)" "order_view (sample_depot ss us) ''o1'' = Some (sample_order StatusPaid)"
  using sample_shop_ok [of StatusPaid us "[]"] sample_shop_view [of StatusPaid us "[]"]
  by (simp_all add: order_ok_def order_view_def items_of_def sample_depot_def order_db.defs)

abbreviation sample_carriers :: "ShippingProvider list" where
  "sample_carriers \<equiv> [FlatRateProvider 5]"


theorem shipment_announced_witness:
  "\<exists>e. bus_log (snd (CreateShipment (ship_service_pg Some Some False sample_carriers) ''o2'' ''Flat Rate Shipping''
     ''T2'' 1 60 (sample_depot [] [Some ''a'', Some ''b'']))) = [e] \<and> evTopic e = OrderShippedTopic"
proof -
  let ?w = "sample_depot [] [Some ''a'', Some ''b'']"
  let ?s = "ship_service_pg Some Some False sample_carriers"
  obtain r w' where run: "CreateShipment ?s ''o2'' ''Flat Rate Shipping'' ''T2'' 1 60 ?w = (r, w')" by fastforce
  have "\<not> isl (fst (CreateShipment ?s ''o2'' ''Flat Rate Shipping'' ''T2'' 1 60 ?w))" by code_simp
  then obtain sh where "r = Inr sh" unfolding run by (cases r) auto
  with shipment_announced [OF run] show ?thesis unfolding run by auto
qed

theorem customer_sees_own_shipment_witness:
  "\<exists>w'. GetMyOrderShipment (ship_service_pg Some Some False sample_carriers) (order_service_pg Some False) ''c1'' ''o1''
      (sample_depot [sample_shipment ShInTransit] []) = (Inr (sample_shipment ShInTransit), w') \<and>
    env.more w' = env.more (sample_depot [sample_shipment ShInTransit] [])"
proof -
  let ?w = "sample_depot [sample_shipment ShInTransit] []"
  obtain r w' where run: "GetMyOrderShipment (ship_service_pg Some Some False sample_carriers)
      (order_service_pg Some False) ''c1'' ''o1'' ?w = (r, w')" by fastforce
  have "\<not> isl (fst (GetMyOrderShipment (ship_service_pg Some Some False sample_carriers)
      (order_service_pg Some False) ''c1'' ''o1'' ?w))" by code_simp
  then obtain sh where r: "r = Inr sh" unfolding run by (cases r) auto
  from customer_sees_own_shipment [OF run [unfolded r] sample_depot_orders(1)] r run show ?thesis by auto
qed

end
