(* ===== verification/Spec2Isabelle.thy ===== *)
theory Spec2Isabelle
  imports AuthSafety CartHandlers CartProps CatalogFeatureProps CategoryTree ConfigProps EngineProps EventProps InventoryStockProps OrderHandlerProps OrderProps PaymentHandlers PaymentProps RateLimitProps ReviewProps ShippingProps
begin

text \<open>
  A verification development for AxCom, a modular e-commerce backend in Go
  (\<open>axcom-backend/\<close>): accounts and access tokens, catalog, cart, orders, payments, shipping and
  inventory on PostgreSQL, the cache in front of the catalog, the events between the features with the
  outbox that carries them, the rate limiter, and the engine that starts the modules.

  \<^bold>\<open>Shape of the program.\<close> Each feature has a service (\<open>internal/core\<close>) that works on a
  repository interface; the repositories are in \<open>internal/infra/db/postgres\<close>. Services tell each
  other what happened through events (\<open>internal/events\<close>): published directly on an in-process bus,
  or stored in an outbox table and published later by a relay. Reads of the catalog go through a
  cache (\<open>internal/infra/cache\<close>); the cart and the reviews look products up through it. Requests pass
  the middleware (\<open>internal/gateway/middleware\<close>) for tokens, roles and rates.

  \<^bold>\<open>Shape of the model.\<close> Every operation is a function from a world to a result (an error or a
  value) and the next world. A world is a record that starts with the environment of \<open>Events\<close> (clock,
  identifier source, outcome of every database call, transaction state, published events) and is
  extended by the tables of each component. A panic is an error value that no handler mistakes for
  an ordinary error. Statements are quantified over all environments, so "whatever fails" means
  every sequence of outcomes of the database calls.

  \<^bold>\<open>Theories.\<close> In every group the theories named last hold the properties.
  \<^item> \<open>Prelude\<close>, \<open>Strconv\<close>, \<open>Float64\<close>, \<open>GoErrors\<close>: Go's \<open>int\<close> with its wrap-around, tables,
    pagination, \<open>strconv\<close>, IEEE rounding of \<open>float64\<close> arithmetic, error values.
  \<^item> \<open>Events\<close>, \<open>LocalBus\<close>, \<open>Outbox\<close>, \<open>EventProps\<close>: the environment, database calls and transactions
    (\<open>tx_manager\<close>), the in-process bus as a step relation over all interleavings, the outbox table,
    relay (\<open>relay_env\<close>) and deduplication (\<open>dedup_store\<close>).
  \<^item> \<open>InventoryDomain\<close>, \<open>InventoryServices\<close>, \<open>InventoryPg\<close>, \<open>InventoryProps\<close>: stock rules, the
    reservation, transfer and adjustment services against the contracts \<open>stock_store\<close> and
    \<open>reservation_store\<close>, the PostgreSQL repositories that satisfy them, runs of operations.
  \<^item> \<open>Csv\<close>, \<open>InventoryStock\<close>, \<open>InventoryStockPg\<close>, \<open>InventoryStockProps\<close>: levels, settings and
    alerts, bulk updates, synchronisation, history and reports; the CSV format with a reader.
  \<^item> \<open>Orders\<close>, \<open>OrdersPg\<close>, \<open>OrderProps\<close>: validation, totals, the status machine, the service in
    both of its modes, the two order tables.
  \<^item> \<open>Payments\<close>, \<open>PaymentsPg\<close>, \<open>PaymentProps\<close>: the payment service for any providers, its contract
    \<open>pay_store\<close>, the payments table with its unique indexes, runs of operations.
  \<^item> \<open>Shipping\<close>, \<open>ShippingPg\<close>, \<open>ShippingProps\<close>: rate providers, the shipment service and its admin
    handlers against the contract \<open>ship_store\<close>, the shipments table, the status rules.
  \<^item> \<open>Cache\<close>, \<open>CacheProps\<close>: the two-layer cache manager over any layers (\<open>cache_layer\<close>) and the
    in-memory adapter with expiry and eviction.
  \<^item> \<open>CatalogDomain\<close>, \<open>Catalog\<close>, \<open>CatalogPg\<close>, \<open>CatalogRules\<close>, \<open>CatalogProps\<close>, \<open>CategoryTree\<close>: products and
    categories with their validation and slugs, the command and query services through the cache, the
    PostgreSQL repository with optimistic locking; stale answers and lost updates; the tree of categories.
  \<^item> \<open>CatalogFeatures\<close>, \<open>CatalogFeatureProps\<close>: variants, images, discounts and bulk import (contracts
    \<open>part_store\<close>, \<open>variant_store\<close>, \<open>image_store\<close>); \<open>Reviews\<close>, \<open>ReviewProps\<close>: reviews (\<open>review_store\<close>).
  \<^item> \<open>Cart\<close>, \<open>CartPg\<close>, \<open>CartProps\<close>: the cart service, the merge of a guest's cart and its handler, over
    the contracts \<open>cart_store\<close> and, where the database answers, \<open>calm_cart_store\<close>.
  \<^item> \<open>Token\<close>, \<open>Auth\<close>, \<open>AuthPg\<close>, \<open>AuthProps\<close>, \<open>AuthSafety\<close>: access tokens and the middleware that checks
    them, accounts with lockout, sessions and password resets over the contract \<open>auth_store\<close>.
  \<^item> \<open>RateLimit\<close>, \<open>RateLimitProps\<close>: token buckets in memory, the Redis store up to its script, the
    fallback between them, over the contract \<open>token_store\<close>.
  \<^item> \<open>DepGraph\<close>, \<open>DepGraphProps\<close>: the engine's dependency sort and its cycle report.
  \<^item> \<open>Engine\<close>, \<open>EngineProps\<close>: the service container, the eight modules as instances of the contract
    \<open>engine_module\<close>, their initialisation in dependency order, the database connection retry.
  \<^item> \<open>Config\<close>, \<open>ConfigProps\<close>: defaults, file and environment of the configuration, the choice of the
    event bus and of the authentication middleware.
  \<^item> \<open>Gin\<close>, \<open>OrderHandlers\<close>, \<open>PaymentHandlers\<close>, \<open>CartHandlers\<close>, \<open>OrderHandlerProps\<close>: the HTTP handlers of
    orders, payments and the cart behind the decoding of a request; customers are kept apart, over the
    contract \<open>order_shop\<close> of the order service.
  \<^item> This theory: properties of events that cross components.

  Each locale states what a service relies on; it is interpreted on the PostgreSQL (or in-memory) model,
  and the properties rest on the interpreted facts.

  \<^bold>\<open>Bounds.\<close> Loops of the modelled code are structural or have a measure (\<open>invokeHandlerWithRetry\<close>: the
  attempts left; \<open>kahn\<close>: the degrees left in the graph and the queue; \<open>cycle_walk\<close>: the unvisited nodes;
  the walk up a category's parents: the categories not yet seen). Go's map iterations range over key
  lists in any order. Integers are kept at their width: \<open>wrap64\<close> for Go's arithmetic, 32 bits for the
  columns; \<open>float64\<close> arithmetic is rounded to 53 bits, without infinities.

  \<^bold>\<open>Parameters.\<close> HMAC, the JSON text of the claims, bcrypt, the tape of \<open>crypto/rand\<close>, the rounding of
  decimal columns, the Unicode chain of slugs, YAML, the parsers of floats and durations, payment providers, the provider's token validator,
  \<open>ShouldBindJSON\<close> (its outcome is an argument of a handler), \<open>mail.ParseAddress\<close>, the file storage, the Redis script and any second cache layer are arguments; hypotheses on them are named in the
  theorems that need them.

  \<^bold>\<open>Not modelled.\<close> Timeouts and cancellation of contexts, logging, metrics and tracing; concurrent
  statements of one operation (operations are atomic sequences of calls, each of which may fail; requests
  and probes of the rate limiter, and the lookups that enrich a cart, run one after another, the latter in
  any order); the single-flight group of the cache; the order of rows of equal time stamps, which is that of
  insertion; time stamps below microseconds; the lengths of the catalog's text columns; JSON, which is
  symbolic; the RabbitMQ and Redis clients, HTTP routing, the decoding of requests and the handlers of accounts, inventory and most of the catalog, clients of
  external services, the MongoDB repositories and the repositories in memory, the
  migration tools, and the components that the manifest lists as not modelled.
\<close>

section \<open>Events between components\<close>



text \<open>C5. A payment or cancellation event that travels through the outbox is lost on its subscribers.
Whatever the relay hands to the bus carries the JSON bytes of the payload, not the struct that the
handlers ask for: over any number of ticks and failures, the order service, the payment service
and the event's own type assertions all take it for a payload of another type, report success, and
do nothing.\<close>
theorem relayed_events_ignored:
  fixes w :: "'a outbox_db_scheme"
    and orders :: "('b env_scheme) orderService" and pays :: "('c env_scheme) paymentService"
  assumes "outbox_ok w" "r = NewOutboxRelay outbox_pg Publish_log interval batch"
  shows "\<exists>es. bus_log ((poll r ^^ n) w) = bus_log w @ es \<and>
    (\<forall>ev\<in>set es. (\<forall>v. handlePaymentSucceeded orders ev v = (Inr (), v)) \<and>
       (\<forall>v. handleOrderCancelled pays ev v = (Inr (), v)) \<and> AsStockChangedRef ev = None)"
proof -
  have r: "rl_outbox r = outbox_pg" "rl_bus r = Publish_log"
    using assms(2) by (simp_all add: NewOutboxRelay_def)
  from pg_relay.polls_only_relay [OF r assms(1), of n] obtain xs :: "OutboxRecord list" where
    xs: "bus_log ((poll r ^^ n) w) = bus_log w @ map ToEvent xs" by blast
  then show ?thesis
    by (intro exI [of _ "map ToEvent xs"])
      (simp add: handlePaymentSucceeded_def handleOrderCancelled_def ToEvent_def)
qed

theorem relayed_events_ignored_witness:
  "\<exists>ev w'. bus_log ((poll (NewOutboxRelay outbox_pg Publish_log 0 0) ^^ 1) (sample_outbox [])) = ev # w' \<and>
     handleOrderCancelled (sample_pay_service None) ev (sample_till StatusCanceled [sample_payment PaySucceeded] [])
       = (Inr (), sample_till StatusCanceled [sample_payment PaySucceeded] [])"
proof -
  let ?b = "bus_log ((poll (NewOutboxRelay outbox_pg Publish_log 0 0) ^^ 1) (sample_outbox []))"
  have "length ?b = 2" by code_simp
  then obtain ev l where b: "?b = ev # l" by (cases ?b) auto
  have "bus_log (sample_outbox []) = []" by (simp add: sample_outbox_def)
  with relayed_events_ignored [OF sample_outbox_ok refl, of 1 0 0 "[]" "undefined :: order_db orderService"
      "sample_pay_service None"] b
  show ?thesis by auto
qed

end
